(* ===== verification/Prelude.thy ===== *)
theory Prelude
  imports Main "HOL-Library.Char_ord" "HOL-Library.List_Lexorder" "HOL-Library.Product_Lexorder"
    "HOL-Library.Word" "HOL-Library.State_Monad"
begin

text \<open>
  The shared ground of the development. A Go \<^verbatim>\<open>string\<close> is a byte sequence, here a
  \<^typ>\<open>string\<close> whose \<^typ>\<open>char\<close>s are bytes. The first part models what the sources use of the
  packages \<^verbatim>\<open>strings\<close> and \<^verbatim>\<open>sort\<close>; the second part is the environment record (clock, random
  identifiers, database faults, the parts of the standard library that are kept abstract); the
  third part holds the generic lemmas and the collections the component proofs draw on.
\<close>

named_theorems go_simps \<open>evaluation rules for the Go string helpers\<close>
named_theorems keeps_rules \<open>compositional rules for preservation of a predicate by an action\<close>

section \<open>Go strings\<close>

definition HasPrefix :: "string \<Rightarrow> string \<Rightarrow> bool" where
  "HasPrefix s p \<longleftrightarrow> take (length p) s = p"

definition HasSuffix :: "string \<Rightarrow> string \<Rightarrow> bool" where
  "HasSuffix s p \<longleftrightarrow> HasPrefix (rev s) (rev p)"

definition TrimPrefix :: "string \<Rightarrow> string \<Rightarrow> string" where
  "TrimPrefix s p = (if HasPrefix s p then drop (length p) s else s)"

fun Contains :: "string \<Rightarrow> string \<Rightarrow> bool" where
  "Contains [] p = (p = [])"
| "Contains (c # s) p = (HasPrefix (c # s) p \<or> Contains s p)"

text \<open>
  The UTF-8 encodings of the code points \<^verbatim>\<open>unicode.IsSpace\<close> accepts: the six ASCII ones, U+0085,
  U+00A0, U+1680, U+2000 to U+200A, U+2028, U+2029, U+202F, U+205F and U+3000. A byte string that
  does not start with one of them starts with another rune or with an invalid byte, neither of
  which \<^verbatim>\<open>strings.TrimSpace\<close> removes.
\<close>

definition space_encodings :: "string list" where
  "space_encodings =
     [[CHR 0x09], [CHR 0x0A], [CHR 0x0B], [CHR 0x0C], [CHR 0x0D], [CHR 0x20],
      [CHR 0xC2, CHR 0x85], [CHR 0xC2, CHR 0xA0], [CHR 0xE1, CHR 0x9A, CHR 0x80],
      [CHR 0xE2, CHR 0x80, CHR 0x80], [CHR 0xE2, CHR 0x80, CHR 0x81],
      [CHR 0xE2, CHR 0x80, CHR 0x82], [CHR 0xE2, CHR 0x80, CHR 0x83],
      [CHR 0xE2, CHR 0x80, CHR 0x84], [CHR 0xE2, CHR 0x80, CHR 0x85],
      [CHR 0xE2, CHR 0x80, CHR 0x86], [CHR 0xE2, CHR 0x80, CHR 0x87],
      [CHR 0xE2, CHR 0x80, CHR 0x88], [CHR 0xE2, CHR 0x80, CHR 0x89],
      [CHR 0xE2, CHR 0x80, CHR 0x8A], [CHR 0xE2, CHR 0x80, CHR 0xA8],
      [CHR 0xE2, CHR 0x80, CHR 0xA9], [CHR 0xE2, CHR 0x80, CHR 0xAF],
      [CHR 0xE2, CHR 0x81, CHR 0x9F], [CHR 0xE3, CHR 0x80, CHR 0x80]]"

fun strip_first :: "string list \<Rightarrow> string \<Rightarrow> string option" where
  "strip_first [] s = None"
| "strip_first (e # es) s =
     (if e \<noteq> [] \<and> HasPrefix s e then Some (drop (length e) s) else strip_first es s)"

lemma HasPrefix_length: "HasPrefix s p \<Longrightarrow> length p \<le> length s"
  unfolding HasPrefix_def by (metis length_take min.cobounded1)

lemma HasPrefix_iff: "HasPrefix s p \<longleftrightarrow> (\<exists>t. s = p @ t)"
  unfolding HasPrefix_def by (metis append_eq_conv_conj append_take_drop_id)

lemma strip_first_shorter: "strip_first es s = Some t \<Longrightarrow> length t < length s"
proof (induction es)
  case (Cons e es)
  show ?case
  proof (cases "e \<noteq> [] \<and> HasPrefix s e")
    case True
    then have "0 < length e" and "length e \<le> length s" by (auto dest: HasPrefix_length)
    then have "length s - length e < length s" by linarith
    with True Cons.prems show ?thesis by auto
  qed (use Cons in auto)
qed simp

function trim_left :: "string list \<Rightarrow> string \<Rightarrow> string" where
  "trim_left es s = (case strip_first es s of None \<Rightarrow> s | Some t \<Rightarrow> trim_left es t)"
  by pat_completeness auto
termination
  by (relation "measure (\<lambda>(es, s). length s)") (auto dest: strip_first_shorter)

declare trim_left.simps [simp del]

definition TrimSpace :: "string \<Rightarrow> string" where
  "TrimSpace s = rev (trim_left (map rev space_encodings) (rev (trim_left space_encodings s)))"

lemma strip_first_None:
  "strip_first es s = None \<longleftrightarrow> (\<forall>e \<in> set es. e \<noteq> [] \<longrightarrow> \<not> HasPrefix s e)"
  by (induction es) auto

lemma strip_first_suffix: "strip_first es s = Some t \<Longrightarrow> \<exists>u. s = u @ t"
  by (induction es) (auto split: if_splits simp: HasPrefix_def; metis append_take_drop_id)+

lemma trim_left_suffix: "\<exists>u. s = u @ trim_left es s"
proof (induction es s rule: trim_left.induct)
  case (1 es s)
  show ?case
  proof (cases "strip_first es s")
    case None
    then show ?thesis by (simp add: trim_left.simps [of es s])
  next
    case (Some t)
    from 1 [OF Some] strip_first_suffix [OF Some] show ?thesis
      using Some by (auto simp: trim_left.simps [of es s]) (metis append.assoc)
  qed
qed

lemma strip_trim_left [simp]: "strip_first es (trim_left es s) = None"
  by (induction es s rule: trim_left.induct)
    (subst trim_left.simps, auto split: option.splits)

lemma trim_left_fixed: "strip_first es s = None \<Longrightarrow> trim_left es s = s"
  by (subst trim_left.simps) simp

lemma trim_left_idem [simp]: "trim_left es (trim_left es s) = trim_left es s"
  by (simp add: trim_left_fixed)

text \<open>Trimming on the right cannot expose a space on the left: what is left is a prefix.\<close>

lemma TrimSpace_left_clean: "strip_first space_encodings (TrimSpace s) = None"
proof -
  let ?l = "trim_left space_encodings s"
  obtain u where "rev ?l = u @ trim_left (map rev space_encodings) (rev ?l)"
    using trim_left_suffix by blast
  then have "?l = TrimSpace s @ rev u"
    unfolding TrimSpace_def by (metis rev_append rev_rev_ident)
  then have "HasPrefix (TrimSpace s) e \<Longrightarrow> HasPrefix ?l e" for e
    by (auto simp: HasPrefix_iff)
  then show ?thesis
    using strip_trim_left [of space_encodings s] unfolding strip_first_None by blast
qed

theorem TrimSpace_idem [simp]: "TrimSpace (TrimSpace s) = TrimSpace s"
proof -
  have "trim_left space_encodings (TrimSpace s) = TrimSpace s"
    by (rule trim_left_fixed, rule TrimSpace_left_clean)
  then show ?thesis
    unfolding TrimSpace_def [of "TrimSpace s"] by (simp add: TrimSpace_def [of s])
qed

lemma TrimSpace_Nil [simp]: "TrimSpace [] = []"
  by (simp add: TrimSpace_def trim_left.simps space_encodings_def HasPrefix_def)

text \<open>A trimmed string is a contiguous part of the original.\<close>

lemma TrimSpace_sublist: "\<exists>u v. s = u @ TrimSpace s @ v"
proof -
  let ?l = "trim_left space_encodings s"
  obtain u where u: "s = u @ ?l" using trim_left_suffix by blast
  obtain v where "rev ?l = v @ trim_left (map rev space_encodings) (rev ?l)"
    using trim_left_suffix by blast
  then have "?l = TrimSpace s @ rev v"
    unfolding TrimSpace_def by (metis rev_append rev_rev_ident)
  with u show ?thesis by metis
qed

text \<open>
  \<^verbatim>\<open>strings.ToLower\<close> maps the ASCII letters when every byte is ASCII. On a string with a
  non-ASCII byte it consults the Unicode tables; that branch is the parameter
  \<open>unicode_lower\<close> of the environment.
\<close>

definition is_ascii :: "char \<Rightarrow> bool" where
  "is_ascii c \<longleftrightarrow> of_char c < (128 :: nat)"

definition lower_char :: "char \<Rightarrow> char" where
  "lower_char c =
     (let n = of_char c :: nat in if 65 \<le> n \<and> n \<le> 90 then char_of (n + 32) else c)"

text \<open>Lower-casing ASCII letters neither creates nor removes a space at either end.\<close>

lemma lower_char_idem [simp]: "lower_char (lower_char c) = lower_char c"
  by (auto simp: lower_char_def Let_def)

definition not_letter :: "char \<Rightarrow> bool" where
  "not_letter c \<longleftrightarrow> (let n = of_char c :: nat in \<not> (65 \<le> n \<and> n \<le> 90) \<and> \<not> (97 \<le> n \<and> n \<le> 122))"

lemma lower_char_not_letter: "not_letter c \<Longrightarrow> lower_char x = c \<longleftrightarrow> x = c"
  by (auto simp: lower_char_def not_letter_def Let_def)

lemma HasPrefix_lower:
  "list_all not_letter e \<Longrightarrow> HasPrefix (map lower_char s) e = HasPrefix s e"
proof (induction e arbitrary: s)
  case (Cons c e)
  then show ?case
    by (cases s) (auto simp: HasPrefix_def lower_char_not_letter)
qed (simp add: HasPrefix_def)

lemma strip_first_lower:
  "list_all (list_all not_letter) es \<Longrightarrow>
     strip_first es (map lower_char s) = map_option (map lower_char) (strip_first es s)"
  by (induction es) (auto simp: HasPrefix_lower drop_map)

lemma trim_left_lower:
  "list_all (list_all not_letter) es \<Longrightarrow>
     trim_left es (map lower_char s) = map lower_char (trim_left es s)"
proof (induction es s rule: trim_left.induct)
  case (1 es s)
  then show ?case
    by (subst (1 2) trim_left.simps) (simp add: strip_first_lower split: option.splits)
qed

lemma space_encodings_no_letter:
  "list_all (list_all not_letter) space_encodings"
  "list_all (list_all not_letter) (map rev space_encodings)"
  by (simp_all add: space_encodings_def not_letter_def)

lemma TrimSpace_lower: "TrimSpace (map lower_char s) = map lower_char (TrimSpace s)"
  by (simp add: TrimSpace_def trim_left_lower space_encodings_no_letter rev_map)

text \<open>
  \<^verbatim>\<open>[]rune(s)\<close>: the UTF-8 decoding of a byte string, each rune given by its encoding. A byte that starts
  no valid sequence decodes to U+FFFD, whose encoding is EF BF BD.
\<close>

definition byte :: "char \<Rightarrow> nat" where
  "byte c = of_char c"

definition cont :: "string \<Rightarrow> nat \<Rightarrow> bool" where
  "cont s i \<longleftrightarrow> i < length s \<and> 0x80 \<le> byte (s ! i) \<and> byte (s ! i) \<le> 0xBF"

definition second_in :: "string \<Rightarrow> nat \<Rightarrow> nat \<Rightarrow> bool" where
  "second_in s lo hi \<longleftrightarrow> 1 < length s \<and> lo \<le> byte (s ! 1) \<and> byte (s ! 1) \<le> hi"

text \<open>The width of the first rune; 0 when the first byte is invalid.\<close>

definition rune_width :: "string \<Rightarrow> nat" where
  "rune_width s =
     (if s = [] then 0
      else let b = byte (hd s) in
        if b < 0x80 then 1
        else if 0xC2 \<le> b \<and> b \<le> 0xDF then (if cont s 1 then 2 else 0)
        else if b = 0xE0 then (if second_in s 0xA0 0xBF \<and> cont s 2 then 3 else 0)
        else if b = 0xED then (if second_in s 0x80 0x9F \<and> cont s 2 then 3 else 0)
        else if 0xE1 \<le> b \<and> b \<le> 0xEF then (if cont s 1 \<and> cont s 2 then 3 else 0)
        else if b = 0xF0 then (if second_in s 0x90 0xBF \<and> cont s 2 \<and> cont s 3 then 4 else 0)
        else if 0xF1 \<le> b \<and> b \<le> 0xF3 then (if cont s 1 \<and> cont s 2 \<and> cont s 3 then 4 else 0)
        else if b = 0xF4 then (if second_in s 0x80 0x8F \<and> cont s 2 \<and> cont s 3 then 4 else 0)
        else 0)"

function runes :: "string \<Rightarrow> string list" where
  "runes s =
     (if s = [] then []
      else if rune_width s = 0 then [CHR 0xEF, CHR 0xBF, CHR 0xBD] # runes (tl s)
      else take (rune_width s) s # runes (drop (rune_width s) s))"
  by pat_completeness auto
termination
  by (relation "measure length") auto

declare runes.simps [simp del]

lemma runes_Nil [simp]: "runes [] = []"
  by (simp add: runes.simps)

section \<open>The environment\<close>

text \<open>
  What the program reads from outside: \<open>clock n\<close> is the Unix time seen by the \<open>n\<close>-th
  interaction with the environment, \<open>rand_hex n\<close> the hexadecimal text of the random bytes it
  draws there, and \<open>db_fault n\<close> says that the database driver fails there. \<open>json_compact\<close> is
  \<^verbatim>\<open>json.Compact\<close>: \<^const>\<open>None\<close> when the document is not valid JSON.
\<close>

record env =
  clock :: "nat \<Rightarrow> int"
  rand_hex :: "nat \<Rightarrow> string"
  db_fault :: "nat \<Rightarrow> bool"
  unicode_lower :: "string \<Rightarrow> string"
  json_compact :: "string \<Rightarrow> string option"

definition ToLower :: "'z env_scheme \<Rightarrow> string \<Rightarrow> string" where
  "ToLower E s = (if list_all is_ascii s then map lower_char s else unicode_lower E s)"

lemma ToLower_Nil [simp]: "ToLower E [] = []"
  by (simp add: ToLower_def)

text \<open>A lower-case ASCII word, such as every status and kind constant of the sources.\<close>

definition lower_word :: "string \<Rightarrow> bool" where
  "lower_word s \<longleftrightarrow> list_all (\<lambda>c. is_ascii c \<and> lower_char c = c) s"

lemma ToLower_lower_word: "lower_word s \<Longrightarrow> ToLower E s = s"
proof -
  assume "lower_word s"
  then have "\<forall>c \<in> set s. is_ascii c \<and> lower_char c = c"
    by (simp add: lower_word_def list_all_iff)
  then show ?thesis
    by (simp add: ToLower_def list_all_iff map_idI)
qed

definition trimmed :: "string \<Rightarrow> bool" where
  "trimmed s \<longleftrightarrow> TrimSpace s = s"

lemma trimmed_TrimSpace [simp]: "trimmed (TrimSpace s)"
  by (simp add: trimmed_def)

lemma norm_word: "lower_word s \<and> trimmed s \<Longrightarrow> ToLower E (TrimSpace s) = s"
  by (simp add: trimmed_def ToLower_lower_word)

section \<open>Deduplication loops\<close>

text \<open>
  The loop shared by \<^verbatim>\<open>cleanStrings\<close> (three packages) and \<^verbatim>\<open>compactTargets\<close>: trim every value,
  skip the empty ones and those already seen, keep the order of first occurrence.
\<close>

fun clean_loop :: "string set \<Rightarrow> string list \<Rightarrow> string list" where
  "clean_loop seen [] = []"
| "clean_loop seen (v # vs) =
     (let value = TrimSpace v
      in if value = [] then clean_loop seen vs
         else if value \<in> seen then clean_loop seen vs
         else value # clean_loop (insert value seen) vs)"

definition clean_strings :: "string list \<Rightarrow> string list" where
  "clean_strings vs = clean_loop {} vs"

lemma clean_loop_set: "set (clean_loop seen vs) = (TrimSpace ` set vs) - {[]} - seen"
  by (induction vs arbitrary: seen) (auto simp: Let_def)

lemma clean_loop_distinct: "distinct (clean_loop seen vs)"
  by (induction vs arbitrary: seen) (auto simp: Let_def clean_loop_set)

lemma clean_strings_set: "set (clean_strings vs) = (TrimSpace ` set vs) - {[]}"
  by (simp add: clean_strings_def clean_loop_set)

lemma clean_strings_distinct [simp]: "distinct (clean_strings vs)"
  by (simp add: clean_strings_def clean_loop_distinct)

lemma clean_loop_fixed:
  assumes "distinct vs" and "\<forall>v \<in> set vs. trimmed v \<and> v \<noteq> [] \<and> v \<notin> seen"
  shows "clean_loop seen vs = vs"
  using assms
proof (induction vs arbitrary: seen)
  case (Cons v vs)
  have "clean_loop (insert v seen) vs = vs"
    using Cons.prems by (intro Cons.IH) auto
  with Cons.prems show ?case by (simp add: trimmed_def)
qed simp

lemma clean_strings_idem [simp]: "clean_strings (clean_strings vs) = clean_strings vs"
  unfolding clean_strings_def [of "clean_strings vs"]
  by (rule clean_loop_fixed) (auto simp: clean_strings_set)

lemma clean_strings_Nil [simp]: "clean_strings [] = []"
  by (simp add: clean_strings_def)

text \<open>The first argument that is not blank, trimmed: \<^verbatim>\<open>firstNonEmpty\<close>.\<close>

fun firstNonEmpty :: "string list \<Rightarrow> string" where
  "firstNonEmpty [] = []"
| "firstNonEmpty (v # vs) = (if TrimSpace v \<noteq> [] then TrimSpace v else firstNonEmpty vs)"

lemma firstNonEmpty_trimmed: "trimmed (firstNonEmpty vs)"
  by (induction vs) (auto simp: trimmed_def)

lemma firstNonEmpty_Nil_iff: "firstNonEmpty vs = [] \<longleftrightarrow> (\<forall>v \<in> set vs. TrimSpace v = [])"
  by (induction vs) auto

section \<open>Sorting and limits of query results\<close>

definition order_asc :: "('r \<Rightarrow> 'k::linorder) \<Rightarrow> 'r list \<Rightarrow> 'r list" where
  "order_asc key rows = sort_key key rows"

definition order_desc :: "('r \<Rightarrow> 'k::linorder) \<Rightarrow> 'r list \<Rightarrow> 'r list" where
  "order_desc key rows = rev (sort_key key rows)"

lemma order_asc_set [simp]: "set (order_asc key rows) = set rows"
  by (simp add: order_asc_def)

lemma order_desc_set [simp]: "set (order_desc key rows) = set rows"
  by (simp add: order_desc_def)

lemma order_asc_length [simp]: "length (order_asc key rows) = length rows"
  by (simp add: order_asc_def)

lemma order_desc_length [simp]: "length (order_desc key rows) = length rows"
  by (simp add: order_desc_def)

lemma order_asc_distinct [simp]: "distinct (order_asc key rows) = distinct rows"
  by (simp add: order_asc_def)

lemma order_desc_distinct [simp]: "distinct (order_desc key rows) = distinct rows"
  by (simp add: order_desc_def)

lemma order_asc_sorted: "sorted_wrt (\<lambda>a b. key a \<le> key b) (order_asc key rows)"
  using sorted_sort_key [of key rows] by (simp add: order_asc_def sorted_map)

lemma order_desc_sorted: "sorted_wrt (\<lambda>a b. key b \<le> key a) (order_desc key rows)"
  using sorted_sort_key [of key rows] by (simp add: order_desc_def sorted_wrt_rev sorted_map)

lemma order_asc_empty [simp]: "order_asc key rows = [] \<longleftrightarrow> rows = []"
  by (metis order_asc_length length_0_conv)

lemma order_desc_empty [simp]: "order_desc key rows = [] \<longleftrightarrow> rows = []"
  by (metis order_desc_length length_0_conv)

lemma order_desc_head:
  "order_desc key rows = r # rs \<Longrightarrow> r \<in> set rows \<and> (\<forall>q \<in> set rows. key q \<le> key r)"
  using order_desc_sorted [of key rows] order_desc_set [of key rows] by auto

text \<open>\<^verbatim>\<open>sort.SliceStable\<close> by descending key: ties keep their order.\<close>

definition stable_desc :: "('r \<Rightarrow> 'k::linorder) \<Rightarrow> 'r list \<Rightarrow> 'r list" where
  "stable_desc key xs = rev (sort_key key (rev xs))"

lemma stable_desc_set [simp]: "set (stable_desc key xs) = set xs"
  by (simp add: stable_desc_def)

lemma stable_desc_length [simp]: "length (stable_desc key xs) = length xs"
  by (simp add: stable_desc_def)

lemma stable_desc_distinct [simp]: "distinct (stable_desc key xs) = distinct xs"
  by (simp add: stable_desc_def)

lemma stable_desc_sorted: "sorted_wrt (\<lambda>a b. key b \<le> key a) (stable_desc key xs)"
  using sorted_sort_key [of key "rev xs"] by (simp add: stable_desc_def sorted_wrt_rev sorted_map)

text \<open>The clamp every list operation applies to its limit argument.\<close>

definition clamp_limit :: "int \<Rightarrow> nat \<Rightarrow> int \<Rightarrow> nat" where
  "clamp_limit hi dflt limit = (if limit \<le> 0 \<or> hi < limit then dflt else nat limit)"

lemma clamp_limit_bounds:
  "0 < dflt \<Longrightarrow> int dflt \<le> hi \<Longrightarrow> 0 < clamp_limit hi dflt l \<and> int (clamp_limit hi dflt l) \<le> hi"
  by (auto simp: clamp_limit_def)

text \<open>An optional field of a patch: \<^verbatim>\<open>if patch.F != nil { update.SetF(*patch.F) }\<close>.\<close>

definition the_or :: "'a \<Rightarrow> 'a option \<Rightarrow> 'a" where
  "the_or old v = (case v of None \<Rightarrow> old | Some x \<Rightarrow> x)"

lemma the_or_simps [simp]: "the_or old None = old" "the_or old (Some x) = x"
  by (simp_all add: the_or_def)

text \<open>\<^verbatim>\<open>if opts.Limit > 0 { query.Limit(opts.Limit) }\<close>\<close>

definition limit_rows :: "int \<Rightarrow> 'r list \<Rightarrow> 'r list" where
  "limit_rows limit rows = (if 0 < limit then take (nat limit) rows else rows)"

lemma filter_take_prefix: "\<exists>ys. xs = take n xs @ ys"
  by (metis append_take_drop_id)

lemma sorted_wrt_take: "sorted_wrt P xs \<Longrightarrow> sorted_wrt P (take n xs)"
  by (metis append_take_drop_id sorted_wrt_append)

lemma list_ex_zip_eq_sym:
  "list_ex (\<lambda>(a, b). a = b) (zip xs ys) = list_ex (\<lambda>(a, b). a = b) (zip ys xs)"
  by (induction xs ys rule: list_induct2') auto

lemma find_SomeD: "find p xs = Some r \<Longrightarrow> r \<in> set xs \<and> p r"
  by (induction xs) (auto split: if_splits)

lemma filter_singletonD: "filter p xs = [x] \<Longrightarrow> x \<in> set xs \<and> p x"
  by (drule arg_cong [where f = set]) auto

lemma filter_singleton_only: "filter p xs = [x] \<Longrightarrow> y \<in> set xs \<Longrightarrow> p y \<Longrightarrow> y = x"
  by (drule arg_cong [where f = set]) auto

lemma distinct_singleton:
  assumes "distinct xs" and "set xs = {x}"
  shows "xs = [x]"
proof (cases xs)
  case (Cons y ys)
  with assms have "y = x" and "x \<notin> set ys" and "set ys \<subseteq> {x}" by auto
  then have "set ys = {}" by (cases ys) auto
  with Cons \<open>y = x\<close> show ?thesis by simp
qed (use assms in simp)

lemma length_filter_key: "distinct (map g xs) \<Longrightarrow> length (filter (\<lambda>r. g r = i) xs) \<le> 1"
  by (induction xs) (auto simp: filter_empty_conv image_iff)

end
