(* ===== verification/Ent.thy ===== *)
theory Ent
  imports Prelude
begin

text \<open>
  The database layer the store talks to: the client that \<^verbatim>\<open>internal/ent\<close> generates from the
  schemas in \<^verbatim>\<open>internal/ent/schema\<close>, over a relational database. A table is the list of its rows; an
  entity says where its rows live in the database and which identifier, validators and unique
  indexes its schema declares. Statements run in the state monad over a \<open>world\<close>: the committed
  rows, the number of interactions with the environment so far (the index into the environment's
  clock, random source and fault schedule) and the number of transactions that are open.

  Every statement may fail with a driver error and then changes no row. A transaction is
  a snapshot that \<open>Rollback\<close> restores.
\<close>

section \<open>Worlds, entities and errors\<close>

record 'd world =
  db :: 'd
  tick :: nat
  open_tx :: nat

datatype ent_err =
    EntNotFound      \<comment> \<open>\<^verbatim>\<open>ent.IsNotFound\<close>\<close>
  | EntNotSingular   \<comment> \<open>\<^verbatim>\<open>Only\<close> matched several rows\<close>
  | EntConstraint    \<comment> \<open>\<^verbatim>\<open>ent.IsConstraintError\<close>\<close>
  | EntValidation    \<comment> \<open>a field validator of the schema failed\<close>
  | EntDriver        \<comment> \<open>any other error of the driver\<close>

text \<open>The values a unique index compares.\<close>

datatype col = CStr string | CInt int | CNat nat

record ('d, 'r) entity =
  rows_of :: "'d \<Rightarrow> 'r list"
  put_rows :: "'r list \<Rightarrow> 'd \<Rightarrow> 'd"
  row_id :: "'r \<Rightarrow> string"
  row_check :: "'r \<Rightarrow> bool"
  row_keys :: "'r \<Rightarrow> col list list"

type_synonym ('d, 'a) action = "('d world, 'a) state"

abbreviation ret :: "'a \<Rightarrow> ('s, 'a) state" where
  "ret \<equiv> State_Monad.return"

section \<open>Environment actions\<close>

definition unixNow :: "'z env_scheme \<Rightarrow> ('d, int) action" where
  "unixNow E = State (\<lambda>w. (clock E (tick w), w\<lparr>tick := Suc (tick w)\<rparr>))"

definition newID :: "'z env_scheme \<Rightarrow> string \<Rightarrow> ('d, string) action" where
  "newID E prefix =
     State (\<lambda>w. (prefix @ ''_'' @ rand_hex E (tick w), w\<lparr>tick := Suc (tick w)\<rparr>))"

text \<open>Any other value drawn from outside: a function of the interaction index.\<close>

definition drawn :: "(nat \<Rightarrow> 'a) \<Rightarrow> ('d, 'a) action" where
  "drawn f = State (\<lambda>w. (f (tick w), w\<lparr>tick := Suc (tick w)\<rparr>))"

text \<open>The generated \<^verbatim>\<open>defaults()\<close> step of a create builder: draw an identifier unless one is set.\<close>

definition defaultID :: "'z env_scheme \<Rightarrow> string \<Rightarrow> string \<Rightarrow> ('d, string) action" where
  "defaultID E prefix given = (if given \<noteq> [] then ret given else newID E prefix)"

section \<open>Statements\<close>

definition stmt ::
  "'z env_scheme \<Rightarrow> ('d \<Rightarrow> (ent_err + 'a) \<times> 'd) \<Rightarrow> ('d, ent_err + 'a) action" where
  "stmt E f = State (\<lambda>w.
     if db_fault E (tick w) then (Inl EntDriver, w\<lparr>tick := Suc (tick w)\<rparr>)
     else (case f (db w) of (r, d) \<Rightarrow> (r, w\<lparr>tick := Suc (tick w), db := d\<rparr>)))"

definition clash :: "('d, 'r) entity \<Rightarrow> 'r \<Rightarrow> 'r \<Rightarrow> bool" where
  "clash T r q \<longleftrightarrow>
     row_id T r = row_id T q \<or> list_ex (\<lambda>(a, b). a = b) (zip (row_keys T r) (row_keys T q))"

text \<open>\<^verbatim>\<open>Create().Save\<close>: validators first, then INSERT under the primary key and the unique indexes.\<close>

definition ent_create :: "'z env_scheme \<Rightarrow> ('d, 'r) entity \<Rightarrow> 'r \<Rightarrow> ('d, ent_err + 'r) action" where
  "ent_create E T r =
     (if \<not> row_check T r then ret (Inl EntValidation)
      else stmt E (\<lambda>d.
        if list_ex (clash T r) (rows_of T d) then (Inl EntConstraint, d)
        else (Inr r, put_rows T (rows_of T d @ [r]) d)))"

text \<open>\<^verbatim>\<open>Query().Where(p).Only\<close>, and \<^verbatim>\<open>Get\<close>, which is \<^verbatim>\<open>Only\<close> by identifier.\<close>

definition ent_only ::
  "'z env_scheme \<Rightarrow> ('d, 'r) entity \<Rightarrow> ('r \<Rightarrow> bool) \<Rightarrow> ('d, ent_err + 'r) action" where
  "ent_only E T p = stmt E (\<lambda>d.
     (case filter p (rows_of T d) of
        [] \<Rightarrow> Inl EntNotFound
      | [r] \<Rightarrow> Inr r
      | _ \<Rightarrow> Inl EntNotSingular, d))"

definition ent_get ::
  "'z env_scheme \<Rightarrow> ('d, 'r) entity \<Rightarrow> string \<Rightarrow> ('d, ent_err + 'r) action" where
  "ent_get E T i = ent_only E T (\<lambda>r. row_id T r = i)"

text \<open>\<^verbatim>\<open>Query().Where(p).Order(ord).All\<close>; \<open>ord\<close> also applies the limit and the offset.\<close>

definition ent_all ::
  "'z env_scheme \<Rightarrow> ('d, 'r) entity \<Rightarrow> ('r \<Rightarrow> bool) \<Rightarrow> ('r list \<Rightarrow> 'q list) \<Rightarrow>
     ('d, ent_err + 'q list) action" where
  "ent_all E T p ord = stmt E (\<lambda>d. (Inr (ord (filter p (rows_of T d))), d))"

definition ent_first ::
  "'z env_scheme \<Rightarrow> ('d, 'r) entity \<Rightarrow> ('r \<Rightarrow> bool) \<Rightarrow> ('r list \<Rightarrow> 'r list) \<Rightarrow>
     ('d, ent_err + 'r) action" where
  "ent_first E T p ord = stmt E (\<lambda>d.
     (case ord (filter p (rows_of T d)) of [] \<Rightarrow> Inl EntNotFound | r # _ \<Rightarrow> Inr r, d))"

definition ent_count ::
  "'z env_scheme \<Rightarrow> ('d, 'r) entity \<Rightarrow> ('r \<Rightarrow> bool) \<Rightarrow> ('d, ent_err + nat) action" where
  "ent_count E T p = stmt E (\<lambda>d. (Inr (length (filter p (rows_of T d))), d))"

text \<open>
  Updates. \<open>chk\<close> is the verdict of the validators of the fields the builder sets, which run before
  the statement. \<open>f\<close> rewrites the fields of a row.
\<close>

definition map_rows :: "('r \<Rightarrow> bool) \<Rightarrow> ('r \<Rightarrow> 'r) \<Rightarrow> 'r list \<Rightarrow> 'r list" where
  "map_rows p f rows = map (\<lambda>r. if p r then f r else r) rows"

definition rows_free :: "('d, 'r) entity \<Rightarrow> 'r list \<Rightarrow> bool" where
  "rows_free T rows \<longleftrightarrow> sorted_wrt (\<lambda>r q. \<not> clash T r q) rows"

definition ent_update_one ::
  "'z env_scheme \<Rightarrow> ('d, 'r) entity \<Rightarrow> bool \<Rightarrow> string \<Rightarrow> ('r \<Rightarrow> 'r) \<Rightarrow>
     ('d, ent_err + 'r) action" where
  "ent_update_one E T chk i f =
     (if \<not> chk then ret (Inl EntValidation)
      else stmt E (\<lambda>d.
        case find (\<lambda>r. row_id T r = i) (rows_of T d) of
          None \<Rightarrow> (Inl EntNotFound, d)
        | Some r \<Rightarrow>
            (let rows' = map_rows (\<lambda>q. row_id T q = i) f (rows_of T d)
             in if rows_free T rows' then (Inr (f r), put_rows T rows' d)
                else (Inl EntConstraint, d))))"

definition ent_update_where ::
  "'z env_scheme \<Rightarrow> ('d, 'r) entity \<Rightarrow> bool \<Rightarrow> ('r \<Rightarrow> bool) \<Rightarrow> ('r \<Rightarrow> 'r) \<Rightarrow>
     ('d, ent_err + nat) action" where
  "ent_update_where E T chk p f =
     (if \<not> chk then ret (Inl EntValidation)
      else stmt E (\<lambda>d.
        let rows' = map_rows p f (rows_of T d)
        in if rows_free T rows'
           then (Inr (length (filter p (rows_of T d))), put_rows T rows' d)
           else (Inl EntConstraint, d)))"

definition ent_delete_one ::
  "'z env_scheme \<Rightarrow> ('d, 'r) entity \<Rightarrow> string \<Rightarrow> ('d, ent_err + unit) action" where
  "ent_delete_one E T i = stmt E (\<lambda>d.
     case find (\<lambda>r. row_id T r = i) (rows_of T d) of
       None \<Rightarrow> (Inl EntNotFound, d)
     | Some _ \<Rightarrow> (Inr (), put_rows T (filter (\<lambda>r. row_id T r \<noteq> i) (rows_of T d)) d))"

definition ent_delete_where ::
  "'z env_scheme \<Rightarrow> ('d, 'r) entity \<Rightarrow> ('r \<Rightarrow> bool) \<Rightarrow> ('d, ent_err + nat) action" where
  "ent_delete_where E T p = stmt E (\<lambda>d.
     (Inr (length (filter p (rows_of T d))),
      put_rows T (filter (\<lambda>r. \<not> p r) (rows_of T d)) d))"

section \<open>Transactions\<close>

definition BeginTx :: "'z env_scheme \<Rightarrow> ('d, ent_err + 'd) action" where
  "BeginTx E = State (\<lambda>w.
     if db_fault E (tick w) then (Inl EntDriver, w\<lparr>tick := Suc (tick w)\<rparr>)
     else (Inr (db w), w\<lparr>tick := Suc (tick w), open_tx := Suc (open_tx w)\<rparr>))"

definition Rollback :: "'d \<Rightarrow> ('d, unit) action" where
  "Rollback snap = State (\<lambda>w. ((), w\<lparr>db := snap, open_tx := open_tx w - 1\<rparr>))"

text \<open>A failed commit leaves nothing behind: the driver discards the transaction.\<close>

definition Commit :: "'z env_scheme \<Rightarrow> 'd \<Rightarrow> ('d, ent_err + unit) action" where
  "Commit E snap = State (\<lambda>w.
     if db_fault E (tick w)
     then (Inl EntDriver, w\<lparr>tick := Suc (tick w), db := snap, open_tx := open_tx w - 1\<rparr>)
     else (Inr (), w\<lparr>tick := Suc (tick w), open_tx := open_tx w - 1\<rparr>))"

text \<open>\<^verbatim>\<open>_ = tx.Rollback(); return ..., err\<close>\<close>

definition rollback_with :: "'d \<Rightarrow> 'a \<Rightarrow> ('d, 'a) action" where
  "rollback_with snap x = do { Rollback snap; ret x }"

section \<open>Running actions\<close>

lemma run_unixNow [simp]:
  "run_state (unixNow E) w = (clock E (tick w), w\<lparr>tick := Suc (tick w)\<rparr>)"
  by (simp add: unixNow_def)

lemma run_newID [simp]:
  "run_state (newID E p) w = (p @ ''_'' @ rand_hex E (tick w), w\<lparr>tick := Suc (tick w)\<rparr>)"
  by (simp add: newID_def)

lemma run_drawn [simp]: "run_state (drawn f) w = (f (tick w), w\<lparr>tick := Suc (tick w)\<rparr>)"
  by (simp add: drawn_def)

lemma run_stmt:
  "run_state (stmt E f) w =
     (if db_fault E (tick w) then (Inl EntDriver, w\<lparr>tick := Suc (tick w)\<rparr>)
      else (fst (f (db w)), w\<lparr>tick := Suc (tick w), db := snd (f (db w))\<rparr>))"
  by (simp add: stmt_def split: prod.splits)

lemma run_Rollback [simp]:
  "run_state (Rollback snap) w = ((), w\<lparr>db := snap, open_tx := open_tx w - 1\<rparr>)"
  by (simp add: Rollback_def)

lemma run_BeginTx:
  "run_state (BeginTx E) w =
     (if db_fault E (tick w) then (Inl EntDriver, w\<lparr>tick := Suc (tick w)\<rparr>)
      else (Inr (db w), w\<lparr>tick := Suc (tick w), open_tx := Suc (open_tx w)\<rparr>))"
  by (simp add: BeginTx_def)

lemma run_Commit:
  "run_state (Commit E snap) w =
     (if db_fault E (tick w)
      then (Inl EntDriver, w\<lparr>tick := Suc (tick w), db := snap, open_tx := open_tx w - 1\<rparr>)
      else (Inr (), w\<lparr>tick := Suc (tick w), open_tx := open_tx w - 1\<rparr>))"
  by (simp add: Commit_def)

lemma run_rollback_with [simp]:
  "run_state (rollback_with snap x) w = (x, w\<lparr>db := snap, open_tx := open_tx w - 1\<rparr>)"
  by (simp add: rollback_with_def)

lemmas run_tx = run_BeginTx run_Commit

lemma run_if: "run_state (if b then m else n) w = (if b then run_state m w else run_state n w)"
  by simp

text \<open>The result and the world an action leaves, named separately.\<close>

abbreviation result_of :: "('d, 'a) action \<Rightarrow> 'd world \<Rightarrow> 'a" where
  "result_of m w \<equiv> fst (run_state m w)"

abbreviation after :: "('d, 'a) action \<Rightarrow> 'd world \<Rightarrow> 'd world" where
  "after m w \<equiv> snd (run_state m w)"

definition no_faults :: "'z env_scheme \<Rightarrow> bool" where
  "no_faults E \<longleftrightarrow> (\<forall>n. \<not> db_fault E n)"

lemma no_faultsD [simp]: "no_faults E \<Longrightarrow> \<not> db_fault E n"
  by (simp add: no_faults_def)

section \<open>Inverting a run\<close>

text \<open>
  A finished run of a composed action is taken apart into the runs of its statements by elimination:
  one case per path through the code. What each statement has then done, on every outcome, is a
  destruction rule.
\<close>

lemma run_bindE:
  assumes "run_state (State_Monad.bind m f) w = (y, w2)"
  obtains x w1 where "run_state m w = (x, w1)" and "run_state (f x) w1 = (y, w2)"
  using assms by (auto split: prod.splits)

lemma run_retE:
  assumes "run_state (ret x) w = (y, w2)"
  obtains "x = y" and "w2 = w"
  using assms by auto

lemma run_ifE:
  assumes "run_state (if b then m else n) w = r"
  obtains "b" and "run_state m w = r" | "\<not> b" and "run_state n w = r"
  using assms by (auto split: if_splits)

lemma run_sumE:
  assumes "run_state (case x of Inl e \<Rightarrow> f e | Inr v \<Rightarrow> g v) w = r"
  obtains e where "x = Inl e" and "run_state (f e) w = r" | v where "x = Inr v" and "run_state (g v) w = r"
  using assms by (cases x) auto

lemma run_optionE:
  assumes "run_state (case x of None \<Rightarrow> m | Some v \<Rightarrow> g v) w = r"
  obtains "x = None" and "run_state m w = r" | v where "x = Some v" and "run_state (g v) w = r"
  using assms by (cases x) auto

lemma run_prodE:
  assumes "run_state (case x of (a, b) \<Rightarrow> f a b) w = r"
  obtains a b where "x = (a, b)" and "run_state (f a b) w = r"
  using assms by (cases x) auto

lemma run_rollback_withE:
  assumes "run_state (rollback_with snap x) w = (y, w2)"
  obtains "x = y" and "w2 = w\<lparr>db := snap, open_tx := open_tx w - 1\<rparr>"
  using assms by auto

lemmas run_elims = run_bindE run_retE run_ifE run_sumE run_optionE run_prodE run_rollback_withE

lemma now_run:
  "run_state (unixNow E) w = (x, w') \<Longrightarrow>
     x = clock E (tick w) \<and> db w' = db w \<and> open_tx w' = open_tx w \<and> tick w' = Suc (tick w)"
  by auto

lemma newID_run:
  "run_state (newID E p) w = (x, w') \<Longrightarrow>
     x = p @ ''_'' @ rand_hex E (tick w) \<and> db w' = db w \<and> open_tx w' = open_tx w \<and>
     tick w' = Suc (tick w)"
  by auto

lemma defaultID_run:
  "run_state (defaultID E p i) w = (x, w') \<Longrightarrow>
     x = (if i \<noteq> [] then i else p @ ''_'' @ rand_hex E (tick w)) \<and> db w' = db w \<and>
     open_tx w' = open_tx w"
  by (auto simp: defaultID_def split: if_splits)

lemma drawn_run:
  "run_state (drawn f) w = (x, w') \<Longrightarrow>
     x = f (tick w) \<and> db w' = db w \<and> open_tx w' = open_tx w \<and> tick w' = Suc (tick w)"
  by auto

lemma create_run:
  "run_state (ent_create E T r) w = (y, w') \<Longrightarrow>
     open_tx w' = open_tx w \<and>
     (case y of
        Inl e \<Rightarrow> db w' = db w \<and> (e = EntConstraint \<longrightarrow> list_ex (clash T r) (rows_of T (db w)))
      | Inr q \<Rightarrow> q = r \<and> row_check T r \<and> \<not> list_ex (clash T r) (rows_of T (db w)) \<and>
          db w' = put_rows T (rows_of T (db w) @ [r]) (db w))"
  by (auto simp: ent_create_def run_stmt split: if_splits)

lemma only_run:
  "run_state (ent_only E T p) w = (y, w') \<Longrightarrow>
     db w' = db w \<and> open_tx w' = open_tx w \<and> tick w' = Suc (tick w) \<and>
     (case y of
        Inl e \<Rightarrow> e = EntNotFound \<longrightarrow> filter p (rows_of T (db w)) = []
      | Inr r \<Rightarrow> filter p (rows_of T (db w)) = [r])"
  by (auto simp: ent_only_def run_stmt split: if_splits list.splits)

lemma get_run:
  "run_state (ent_get E T i) w = (y, w') \<Longrightarrow>
     db w' = db w \<and> open_tx w' = open_tx w \<and> tick w' = Suc (tick w) \<and>
     (case y of
        Inl e \<Rightarrow> e = EntNotFound \<longrightarrow> filter (\<lambda>r. row_id T r = i) (rows_of T (db w)) = []
      | Inr r \<Rightarrow> filter (\<lambda>r. row_id T r = i) (rows_of T (db w)) = [r])"
  unfolding ent_get_def by (rule only_run)

lemma all_run:
  "run_state (ent_all E T p ord) w = (y, w') \<Longrightarrow>
     db w' = db w \<and> open_tx w' = open_tx w \<and>
     (case y of Inl _ \<Rightarrow> True | Inr rs \<Rightarrow> rs = ord (filter p (rows_of T (db w))))"
  by (auto simp: ent_all_def run_stmt split: if_splits)

lemma first_run:
  "run_state (ent_first E T p ord) w = (y, w') \<Longrightarrow>
     db w' = db w \<and> open_tx w' = open_tx w \<and>
     (case y of
        Inl e \<Rightarrow> e = EntNotFound \<longrightarrow> ord (filter p (rows_of T (db w))) = []
      | Inr r \<Rightarrow> \<exists>rs. ord (filter p (rows_of T (db w))) = r # rs)"
  by (auto simp: ent_first_def run_stmt split: if_splits list.splits)

lemma count_run:
  "run_state (ent_count E T p) w = (y, w') \<Longrightarrow>
     db w' = db w \<and> open_tx w' = open_tx w \<and>
     (case y of Inl _ \<Rightarrow> True | Inr n \<Rightarrow> n = length (filter p (rows_of T (db w))))"
  by (auto simp: ent_count_def run_stmt split: if_splits)

lemma update_one_run:
  "run_state (ent_update_one E T chk i f) w = (y, w') \<Longrightarrow>
     open_tx w' = open_tx w \<and>
     (case y of
        Inl e \<Rightarrow> db w' = db w \<and> (e = EntNotFound \<longrightarrow> (\<forall>r \<in> set (rows_of T (db w)). row_id T r \<noteq> i))
      | Inr q \<Rightarrow> chk \<and> (\<exists>r. find (\<lambda>r. row_id T r = i) (rows_of T (db w)) = Some r \<and> q = f r) \<and>
          db w' = put_rows T (map_rows (\<lambda>q. row_id T q = i) f (rows_of T (db w))) (db w))"
  by (auto simp: ent_update_one_def run_stmt Let_def find_None_iff split: if_splits option.splits)

lemma update_where_run:
  "run_state (ent_update_where E T chk p f) w = (y, w') \<Longrightarrow>
     open_tx w' = open_tx w \<and>
     (case y of
        Inl e \<Rightarrow> db w' = db w
      | Inr n \<Rightarrow> chk \<and> n = length (filter p (rows_of T (db w))) \<and>
          db w' = put_rows T (map_rows p f (rows_of T (db w))) (db w))"
  by (auto simp: ent_update_where_def run_stmt Let_def split: if_splits)

lemma delete_one_run:
  "run_state (ent_delete_one E T i) w = (y, w') \<Longrightarrow>
     open_tx w' = open_tx w \<and>
     (case y of
        Inl e \<Rightarrow> db w' = db w
      | Inr _ \<Rightarrow> db w' = put_rows T (filter (\<lambda>r. row_id T r \<noteq> i) (rows_of T (db w))) (db w))"
  by (auto simp: ent_delete_one_def run_stmt split: if_splits option.splits)

lemma delete_where_run:
  "run_state (ent_delete_where E T p) w = (y, w') \<Longrightarrow>
     open_tx w' = open_tx w \<and>
     (case y of
        Inl e \<Rightarrow> db w' = db w
      | Inr _ \<Rightarrow> db w' = put_rows T (filter (\<lambda>r. \<not> p r) (rows_of T (db w))) (db w))"
  by (auto simp: ent_delete_where_def run_stmt split: if_splits)

lemma begin_run:
  "run_state (BeginTx E) w = (y, w') \<Longrightarrow>
     db w' = db w \<and>
     (case y of Inl _ \<Rightarrow> open_tx w' = open_tx w | Inr snap \<Rightarrow> snap = db w \<and> open_tx w' = Suc (open_tx w))"
  by (auto simp: run_BeginTx split: if_splits)

lemma commit_run:
  "run_state (Commit E snap) w = (y, w') \<Longrightarrow>
     open_tx w' = open_tx w - 1 \<and> (case y of Inl _ \<Rightarrow> db w' = snap | Inr _ \<Rightarrow> db w' = db w)"
  by (auto simp: run_Commit split: if_splits)

lemmas run_reads = now_run newID_run defaultID_run drawn_run only_run get_run all_run first_run count_run
lemmas run_writes = create_run update_one_run update_where_run delete_one_run delete_where_run
lemmas run_dests = run_reads run_writes begin_run commit_run

lemma run_pair: "run_state m w = (result_of m w, after m w)"
  by simp

section \<open>Preservation\<close>

definition keeps :: "('s \<Rightarrow> bool) \<Rightarrow> ('s, 'a) state \<Rightarrow> bool" where
  "keeps I m \<longleftrightarrow> (\<forall>s. I s \<longrightarrow> I (snd (run_state m s)))"

lemma keepsI: "(\<And>s. I s \<Longrightarrow> I (snd (run_state m s))) \<Longrightarrow> keeps I m"
  by (simp add: keeps_def)

lemma keepsD: "keeps I m \<Longrightarrow> I s \<Longrightarrow> I (snd (run_state m s))"
  by (simp add: keeps_def)

lemma keeps_return [keeps_rules]: "keeps I (ret x)"
  by (simp add: keeps_def)

lemma keeps_bind [keeps_rules]:
  "keeps I m \<Longrightarrow> (\<And>x. keeps I (f x)) \<Longrightarrow> keeps I (State_Monad.bind m f)"
  by (simp add: keeps_def split_beta)

lemma keeps_if [keeps_rules]:
  "(b \<Longrightarrow> keeps I m) \<Longrightarrow> (\<not> b \<Longrightarrow> keeps I n) \<Longrightarrow> keeps I (if b then m else n)"
  by simp

lemma keeps_case_sum [keeps_rules]:
  "(\<And>e. r = Inl e \<Longrightarrow> keeps I (f e)) \<Longrightarrow> (\<And>x. r = Inr x \<Longrightarrow> keeps I (g x)) \<Longrightarrow>
     keeps I (case r of Inl e \<Rightarrow> f e | Inr x \<Rightarrow> g x)"
  by (cases r) auto

lemma keeps_case_option [keeps_rules]:
  "(r = None \<Longrightarrow> keeps I m) \<Longrightarrow> (\<And>x. r = Some x \<Longrightarrow> keeps I (g x)) \<Longrightarrow>
     keeps I (case r of None \<Rightarrow> m | Some x \<Rightarrow> g x)"
  by (cases r) auto

lemma keeps_case_prod [keeps_rules]:
  "(\<And>a b. r = (a, b) \<Longrightarrow> keeps I (g a b)) \<Longrightarrow> keeps I (case r of (a, b) \<Rightarrow> g a b)"
  by (cases r) auto

lemma keeps_Let [keeps_rules]: "(\<And>x. x = v \<Longrightarrow> keeps I (f x)) \<Longrightarrow> keeps I (Let v f)"
  by simp

text \<open>Predicates on the rows only do not see the clock, the random source and the reads.\<close>

abbreviation on_db :: "('d \<Rightarrow> bool) \<Rightarrow> 'd world \<Rightarrow> bool" where
  "on_db J \<equiv> (\<lambda>w. J (db w))"

lemma keeps_unixNow [keeps_rules]: "keeps (on_db J) (unixNow E)"
  by (simp add: keeps_def)

lemma keeps_newID [keeps_rules]: "keeps (on_db J) (newID E p)"
  by (simp add: keeps_def)

lemma keeps_drawn [keeps_rules]: "keeps (on_db J) (drawn f)"
  by (simp add: keeps_def)

lemma keeps_defaultID [keeps_rules]: "keeps (on_db J) (defaultID E p i)"
  by (simp add: keeps_def defaultID_def)

lemma keeps_stmt: "(\<And>d. J d \<Longrightarrow> J (snd (f d))) \<Longrightarrow> keeps (on_db J) (stmt E f)"
  by (simp add: keeps_def run_stmt)

lemma keeps_ent_only [keeps_rules]: "keeps (on_db J) (ent_only E T p)"
  unfolding ent_only_def by (rule keeps_stmt) simp

lemma keeps_ent_get [keeps_rules]: "keeps (on_db J) (ent_get E T i)"
  unfolding ent_get_def by (rule keeps_ent_only)

lemma keeps_ent_all [keeps_rules]: "keeps (on_db J) (ent_all E T p ord)"
  unfolding ent_all_def by (rule keeps_stmt) simp

lemma keeps_ent_first [keeps_rules]: "keeps (on_db J) (ent_first E T p ord)"
  unfolding ent_first_def by (rule keeps_stmt) simp

lemma keeps_ent_count [keeps_rules]: "keeps (on_db J) (ent_count E T p)"
  unfolding ent_count_def by (rule keeps_stmt) simp

lemma keeps_ent_create:
  assumes "\<And>d. J d \<Longrightarrow> row_check T r \<Longrightarrow> \<not> list_ex (clash T r) (rows_of T d) \<Longrightarrow>
     J (put_rows T (rows_of T d @ [r]) d)"
  shows "keeps (on_db J) (ent_create E T r)"
  unfolding ent_create_def using assms by (auto intro!: keeps_if keeps_return keeps_stmt)

lemma keeps_ent_update_one:
  assumes "\<And>d. J d \<Longrightarrow> chk \<Longrightarrow> rows_free T (map_rows (\<lambda>q. row_id T q = i) f (rows_of T d)) \<Longrightarrow>
     J (put_rows T (map_rows (\<lambda>q. row_id T q = i) f (rows_of T d)) d)"
  shows "keeps (on_db J) (ent_update_one E T chk i f)"
  unfolding ent_update_one_def using assms
  by (auto intro!: keeps_if keeps_return keeps_stmt simp: Let_def split: option.splits)

lemma keeps_ent_update_where:
  assumes "\<And>d. J d \<Longrightarrow> chk \<Longrightarrow> rows_free T (map_rows p f (rows_of T d)) \<Longrightarrow>
     J (put_rows T (map_rows p f (rows_of T d)) d)"
  shows "keeps (on_db J) (ent_update_where E T chk p f)"
  unfolding ent_update_where_def using assms
  by (auto intro!: keeps_if keeps_return keeps_stmt simp: Let_def)

lemma keeps_ent_delete_one:
  assumes "\<And>d. J d \<Longrightarrow> J (put_rows T (filter (\<lambda>r. row_id T r \<noteq> i) (rows_of T d)) d)"
  shows "keeps (on_db J) (ent_delete_one E T i)"
  unfolding ent_delete_one_def using assms
  by (auto intro!: keeps_stmt split: option.splits)

lemma keeps_ent_delete_where:
  assumes "\<And>d. J d \<Longrightarrow> J (put_rows T (filter (\<lambda>r. \<not> p r) (rows_of T d)) d)"
  shows "keeps (on_db J) (ent_delete_where E T p)"
  unfolding ent_delete_where_def using assms by (auto intro!: keeps_stmt)

text \<open>Statements do not open or close transactions.\<close>

abbreviation tx_is :: "nat \<Rightarrow> 'd world \<Rightarrow> bool" where
  "tx_is n \<equiv> (\<lambda>w. open_tx w = n)"

lemma tx_stmt: "keeps (tx_is n) (stmt E f)"
  by (simp add: keeps_def run_stmt)

lemma tx_statements:
  "keeps (tx_is n) (unixNow E)" "keeps (tx_is n) (newID E p)" "keeps (tx_is n) (drawn g)"
  "keeps (tx_is n) (defaultID E p i)"
  "keeps (tx_is n) (ent_create E T r)" "keeps (tx_is n) (ent_only E T q)"
  "keeps (tx_is n) (ent_get E T i)" "keeps (tx_is n) (ent_all E T q ord)"
  "keeps (tx_is n) (ent_first E T q ord')" "keeps (tx_is n) (ent_count E T q)"
  "keeps (tx_is n) (ent_update_one E T chk i f)" "keeps (tx_is n) (ent_update_where E T chk q f)"
  "keeps (tx_is n) (ent_delete_one E T i)" "keeps (tx_is n) (ent_delete_where E T q)"
  unfolding ent_create_def ent_only_def ent_get_def ent_all_def ent_first_def ent_count_def
    ent_update_one_def ent_update_where_def ent_delete_one_def ent_delete_where_def defaultID_def
  by (simp_all add: keeps_def run_stmt)

text \<open>
  A transaction body runs between \<^const>\<open>BeginTx\<close> and \<^const>\<open>Commit\<close> or \<^const>\<open>Rollback\<close>, and the
  snapshot it may restore satisfied the predicate when it was taken.
\<close>

lemma keeps_tx:
  assumes "\<And>e. keeps (on_db J) (f (Inl e))"
    and "\<And>snap. J snap \<Longrightarrow> keeps (on_db J) (f (Inr snap))"
  shows "keeps (on_db J) (State_Monad.bind (BeginTx E) f)"
  using assms by (auto simp: keeps_def run_BeginTx)

lemma keeps_Rollback [keeps_rules]: "J snap \<Longrightarrow> keeps (on_db J) (Rollback snap)"
  by (simp add: keeps_def)

lemma keeps_rollback_with [keeps_rules]: "J snap \<Longrightarrow> keeps (on_db J) (rollback_with snap x)"
  by (simp add: keeps_def)

lemma keeps_Commit [keeps_rules]: "J snap \<Longrightarrow> keeps (on_db J) (Commit E snap)"
  by (simp add: keeps_def run_Commit)

section \<open>What the schema guarantees\<close>

definition table_wf :: "('d, 'r) entity \<Rightarrow> 'r list \<Rightarrow> bool" where
  "table_wf T rows \<longleftrightarrow> rows_free T rows \<and> list_all (row_check T) rows"

lemma clash_sym: "clash T r q = clash T q r"
  unfolding clash_def by (subst list_ex_zip_eq_sym) auto

lemma clash_id: "row_id T r = row_id T q \<Longrightarrow> clash T r q"
  by (simp add: clash_def)

lemma rows_free_append1:
  "rows_free T (rows @ [r]) \<longleftrightarrow> rows_free T rows \<and> \<not> list_ex (clash T r) rows"
  by (auto simp: rows_free_def sorted_wrt_append list_ex_iff clash_sym)

lemma rows_free_filter: "rows_free T rows \<Longrightarrow> rows_free T (filter p rows)"
  unfolding rows_free_def by (induction rows) auto

lemma rows_free_distinct_ids: "rows_free T rows \<Longrightarrow> distinct (map (row_id T) rows)"
  unfolding rows_free_def by (induction rows) (auto dest: clash_id)

lemma rows_free_clash:
  assumes "rows_free T rows" and "r \<in> set rows" and "q \<in> set rows" and "clash T r q"
  shows "r = q"
  using assms unfolding rows_free_def
  by (induction rows) (auto simp: clash_sym)

lemma rows_free_distinct: "rows_free T rows \<Longrightarrow> distinct rows"
  using rows_free_distinct_ids distinct_map by blast

lemma list_all_map_rows:
  "list_all P rows \<Longrightarrow> (\<And>r. P r \<Longrightarrow> p r \<Longrightarrow> P (f r)) \<Longrightarrow> list_all P (map_rows p f rows)"
  by (auto simp: map_rows_def list_all_iff)

lemma list_ex_map_rows:
  "list_ex Q rows \<Longrightarrow> (\<And>r. Q r \<Longrightarrow> Q (f r)) \<Longrightarrow> list_ex Q (map_rows p f rows)"
  by (auto simp: map_rows_def list_ex_iff)

lemma map_rows_set: "set (map_rows p f rows) = (\<lambda>r. if p r then f r else r) ` set rows"
  by (simp add: map_rows_def)

lemma ball_map_rows:
  "(\<forall>r \<in> set (map_rows p f rows). Q r) \<longleftrightarrow> (\<forall>r \<in> set rows. if p r then Q (f r) else Q r)"
  by (auto simp: map_rows_set)

lemma map_rows_mem: "r \<in> set rows \<Longrightarrow> p r \<Longrightarrow> f r \<in> set (map_rows p f rows)"
  by (force simp: map_rows_set)

lemma map_rows_length [simp]: "length (map_rows p f rows) = length rows"
  by (simp add: map_rows_def)

lemma map_rows_none: "\<forall>r \<in> set rows. \<not> p r \<Longrightarrow> map_rows p f rows = rows"
  by (simp add: map_rows_def map_idI)

lemma find_Some_unique:
  assumes "rows_free T rows" and "r \<in> set rows"
  shows "find (\<lambda>q. row_id T q = row_id T r) rows = Some r"
proof (cases "find (\<lambda>q. row_id T q = row_id T r) rows")
  case None
  with assms(2) show ?thesis by (auto simp: find_None_iff)
next
  case (Some q)
  then have "q \<in> set rows" and "row_id T q = row_id T r"
    by (auto simp: find_Some_iff)
  with assms rows_free_clash clash_id Some show ?thesis by metis
qed

text \<open>
  Rewriting rows without touching identifiers and unique keys cannot create a clash: the case of
  every status update of the store.
\<close>

lemma rows_free_map_rows:
  assumes "rows_free T rows"
    and "\<And>r. row_id T (f r) = row_id T r" and "\<And>r. row_keys T (f r) = row_keys T r"
  shows "rows_free T (map_rows p f rows)"
proof -
  have "clash T (if p r then f r else r) (if p q then f q else q) = clash T r q" for r q
    using assms(2,3) by (simp add: clash_def)
  then show ?thesis
    using assms(1) by (simp add: rows_free_def map_rows_def sorted_wrt_map)
qed

lemma filter_unique:
  assumes "rows_free T rows" and "x \<in> set rows" and "p x" and "\<And>q. p q \<Longrightarrow> clash T x q"
  shows "filter p rows = [x]"
proof -
  have "set (filter p rows) = {x}"
    using assms rows_free_clash [OF assms(1)] by auto
  moreover have "distinct (filter p rows)"
    by (rule distinct_filter) (rule rows_free_distinct [OF assms(1)])
  ultimately show ?thesis by (rule distinct_singleton [rotated])
qed

text \<open>Which row a find by identifier sees when one row with that identifier is known.\<close>

lemma find_known:
  assumes "rows_free T rows" and "x \<in> set rows" and "find (\<lambda>r. row_id T r = row_id T x) rows = Some q"
  shows "q = x"
  using assms find_Some_unique [OF assms(1,2)] by simp

text \<open>
  The abstract view of a table: a finite map from identifiers to rows. On a table without clashes the
  statements that address one identifier are map lookups and map updates.
\<close>

definition row_map :: "('d, 'r) entity \<Rightarrow> 'r list \<Rightarrow> string \<rightharpoonup> 'r" where
  "row_map T rows = map_of (map (\<lambda>r. (row_id T r, r)) rows)"

lemma row_map_Nil [simp]: "row_map T [] = Map.empty"
  by (simp add: row_map_def)

lemma row_map_Cons: "row_map T (r # rows) = (row_map T rows)(row_id T r \<mapsto> r)"
  by (simp add: row_map_def)

lemma row_map_SomeD: "row_map T rows i = Some r \<Longrightarrow> r \<in> set rows \<and> row_id T r = i"
  unfolding row_map_def by (auto dest!: map_of_SomeD)

lemma row_map_None: "row_map T rows i = None \<longleftrightarrow> (\<forall>r \<in> set rows. row_id T r \<noteq> i)"
  by (induction rows) (auto simp: row_map_Cons)

lemma row_map_Some:
  "rows_free T rows \<Longrightarrow> row_map T rows i = Some r \<longleftrightarrow> r \<in> set rows \<and> row_id T r = i"
  unfolding row_map_def
  by (subst map_of_eq_Some_iff) (auto simp: comp_def dest: rows_free_distinct_ids)

lemma rows_free_Cons:
  "rows_free T (r # rows) \<Longrightarrow> rows_free T rows \<and> (\<forall>q \<in> set rows. row_id T q \<noteq> row_id T r)"
  by (auto simp: rows_free_def clash_def)

lemma filter_row_map:
  "rows_free T rows \<Longrightarrow>
     filter (\<lambda>r. row_id T r = i) rows = (case row_map T rows i of None \<Rightarrow> [] | Some r \<Rightarrow> [r])"
proof (induction rows)
  case (Cons r rows)
  then have free: "rows_free T rows" and new: "\<forall>q \<in> set rows. row_id T q \<noteq> row_id T r"
    using rows_free_Cons [OF Cons.prems] by blast+
  with Cons.IH row_map_None [of T rows "row_id T r"] show ?case
    by (auto simp: row_map_Cons filter_empty_conv)
qed simp

lemma find_row_map: "rows_free T rows \<Longrightarrow> find (\<lambda>r. row_id T r = i) rows = row_map T rows i"
proof (cases "row_map T rows i")
  case None
  then show ?thesis using row_map_None [of T rows i] by (simp add: find_None_iff)
next
  case (Some r)
  moreover assume "rows_free T rows"
  ultimately show ?thesis
    using find_Some_unique [of T rows r] row_map_SomeD [of T rows i r] by auto
qed

lemma row_map_append1:
  assumes "row_map T rows (row_id T r) = None"
  shows "row_map T (rows @ [r]) = (row_map T rows)(row_id T r \<mapsto> r)"
  using assms by (induction rows) (auto simp: row_map_Cons fun_upd_twist split: if_splits)

lemma row_map_update:
  assumes "rows_free T rows" and "\<And>r. row_id T (f r) = row_id T r"
  shows "row_map T (map_rows (\<lambda>q. row_id T q = i) f rows) =
     (case row_map T rows i of None \<Rightarrow> row_map T rows | Some r \<Rightarrow> (row_map T rows)(i \<mapsto> f r))"
  using assms(1)
proof (induction rows)
  case (Cons r rows)
  then have free: "rows_free T rows" and new: "\<forall>q \<in> set rows. row_id T q \<noteq> row_id T r"
    using rows_free_Cons [OF Cons.prems] by blast+
  show ?case
  proof (cases "row_id T r = i")
    case True
    then have "map_rows (\<lambda>q. row_id T q = i) f rows = rows"
      using new by (intro map_rows_none) auto
    with True assms(2) show ?thesis
      by (simp add: row_map_Cons map_rows_def)
  next
    case False
    with Cons.IH [OF free] show ?thesis
      by (auto simp: row_map_Cons map_rows_def fun_eq_iff split: option.splits)
  qed
qed (simp add: map_rows_def)

lemma row_map_delete:
  assumes "rows_free T rows"
  shows "row_map T (filter (\<lambda>r. row_id T r \<noteq> i) rows) = (row_map T rows)(i := None)"
  using assms
proof (induction rows)
  case (Cons r rows)
  then have free: "rows_free T rows" by (simp add: rows_free_def)
  show ?case
    using Cons.IH [OF free] by (auto simp: row_map_Cons fun_upd_twist)
qed simp

text \<open>The lens laws of an entity, and well-formedness of the whole database seen from one table.\<close>

locale entity_laws =
  fixes T :: "('d, 'r) entity"
  assumes rows_put: "rows_of T (put_rows T rows d) = rows"
    and put_put: "put_rows T rows (put_rows T rows' d) = put_rows T rows d"
    and put_rows_of: "put_rows T (rows_of T d) d = d"
begin

lemma create_lookup:
  assumes "row_check T r" and "\<not> list_ex (clash T r) (rows_of T (db w))" and "no_faults E"
  shows "result_of (ent_create E T r) w = Inr r"
    and "rows_of T (db (after (ent_create E T r) w)) = rows_of T (db w) @ [r]"
  using assms by (simp_all add: ent_create_def run_stmt rows_put)

end

locale wf_entity = entity_laws T for T :: "('d, 'r) entity" +
  fixes wf :: "'d \<Rightarrow> bool"
  assumes wf_rows: "wf d \<Longrightarrow> table_wf T (rows_of T d)"
    and wf_put: "wf d \<Longrightarrow> table_wf T rows \<Longrightarrow> wf (put_rows T rows d)"
begin

lemma create_keeps_wf: "keeps (on_db wf) (ent_create E T r)"
proof (rule keeps_ent_create)
  fix d
  assume "wf d" and "row_check T r" and "\<not> list_ex (clash T r) (rows_of T d)"
  then show "wf (put_rows T (rows_of T d @ [r]) d)"
    using wf_rows [of d] by (intro wf_put) (auto simp: table_wf_def rows_free_append1)
qed

lemma update_one_keeps_wf:
  assumes "\<And>r. chk \<Longrightarrow> row_check T r \<Longrightarrow> row_check T (f r)"
  shows "keeps (on_db wf) (ent_update_one E T chk i f)"
proof (rule keeps_ent_update_one)
  fix d
  assume "wf d" and chk and "rows_free T (map_rows (\<lambda>q. row_id T q = i) f (rows_of T d))"
  then show "wf (put_rows T (map_rows (\<lambda>q. row_id T q = i) f (rows_of T d)) d)"
    using wf_rows [of d] assms
    by (intro wf_put) (auto simp: table_wf_def intro!: list_all_map_rows)
qed

lemma update_where_keeps_wf:
  assumes "\<And>r. chk \<Longrightarrow> row_check T r \<Longrightarrow> row_check T (f r)"
  shows "keeps (on_db wf) (ent_update_where E T chk p f)"
proof (rule keeps_ent_update_where)
  fix d
  assume "wf d" and chk and "rows_free T (map_rows p f (rows_of T d))"
  then show "wf (put_rows T (map_rows p f (rows_of T d)) d)"
    using wf_rows [of d] assms
    by (intro wf_put) (auto simp: table_wf_def intro!: list_all_map_rows)
qed

lemma delete_one_keeps_wf: "keeps (on_db wf) (ent_delete_one E T i)"
  using wf_rows
  by (auto intro!: keeps_ent_delete_one wf_put simp: table_wf_def rows_free_filter list_all_iff)

lemma delete_where_keeps_wf: "keeps (on_db wf) (ent_delete_where E T p)"
  using wf_rows
  by (auto intro!: keeps_ent_delete_where wf_put simp: table_wf_def rows_free_filter list_all_iff)

text \<open>An update of a row that was read before rewrites that very row.\<close>

lemma update_known_run:
  assumes "run_state (ent_update_one E T chk (row_id T x) f) w = (Inr q, w')"
    and "wf (db w)" and "x \<in> set (rows_of T (db w))"
  shows "q = f x \<and> f x \<in> set (rows_of T (db w')) \<and>
     rows_of T (db w') = map_rows (\<lambda>q. row_id T q = row_id T x) f (rows_of T (db w))"
proof -
  have "rows_free T (rows_of T (db w))" using assms(2) wf_rows by (simp add: table_wf_def)
  then show ?thesis
    using update_one_run [OF assms(1)] assms(3)
    by (auto simp: rows_put dest: find_known intro: map_rows_mem)
qed

text \<open>In a well-formed database a lookup by identifier never sees two rows.\<close>

lemma get_not_singular: "wf (db w) \<Longrightarrow> result_of (ent_get E T i) w \<noteq> Inl EntNotSingular"
proof -
  assume "wf (db w)"
  then have "distinct (map (row_id T) (rows_of T (db w)))"
    using wf_rows rows_free_distinct_ids by (auto simp: table_wf_def)
  then have "length (filter (\<lambda>r. row_id T r = i) (rows_of T (db w))) \<le> 1"
    by (rule length_filter_key)
  then show ?thesis
    by (auto simp: ent_get_def ent_only_def run_stmt split: list.splits)
qed

text \<open>Statements on a well-formed database without faults, in terms of the map of rows.\<close>

lemma wf_free: "wf d \<Longrightarrow> rows_free T (rows_of T d)"
  using wf_rows by (auto simp: table_wf_def)

lemma run_get:
  assumes "wf (db w)" and "no_faults E"
  shows "run_state (ent_get E T i) w =
     (case row_map T (rows_of T (db w)) i of None \<Rightarrow> Inl EntNotFound | Some r \<Rightarrow> Inr r,
      w\<lparr>tick := Suc (tick w)\<rparr>)"
  using assms wf_free
  by (auto simp: ent_get_def ent_only_def run_stmt filter_row_map split: option.splits)

lemma run_update_one:
  assumes "wf (db w)" and "no_faults E"
    and "\<And>r. row_id T (f r) = row_id T r" and "\<And>r. row_keys T (f r) = row_keys T r"
  shows "run_state (ent_update_one E T True i f) w =
     (case row_map T (rows_of T (db w)) i of
        None \<Rightarrow> (Inl EntNotFound, w\<lparr>tick := Suc (tick w)\<rparr>)
      | Some r \<Rightarrow> (Inr (f r), w\<lparr>tick := Suc (tick w),
          db := put_rows T (map_rows (\<lambda>q. row_id T q = i) f (rows_of T (db w))) (db w)\<rparr>))"
  using assms wf_free rows_free_map_rows [OF wf_free [OF assms(1)] assms(3,4)]
  by (auto simp: ent_update_one_def run_stmt find_row_map Let_def split: option.splits)

lemmas wf_keeps = create_keeps_wf update_one_keeps_wf update_where_keeps_wf
  delete_one_keeps_wf delete_where_keeps_wf

end

end
