(* ===== verification/Models.thy ===== *)
theory Models
  imports Ent
begin

text \<open>
  The data of \<^verbatim>\<open>internal/storage/models.go\<close> (one \<^theory_text>\<open>record\<close> per struct, fields prefixed by the
  identifier prefix of the schema), the rows of the schemas in \<^verbatim>\<open>internal/ent/schema\<close> where they differ
  from the struct, the database as one record of tables, and each table as an entity with its
  validators and unique indexes. Unsigned 32-bit counters are \<^typ>\<open>32 word\<close>; Unix times and the
  other 64-bit integers, on which the store does no wrapping arithmetic, are \<^typ>\<open>int\<close>.
\<close>

section \<open>Models\<close>

record User =
  usr_ID :: string
  usr_Username :: string
  usr_DisplayName :: string
  usr_PasswordHash :: string
  usr_Role :: string
  usr_CreatedUnix :: int
  usr_UpdatedUnix :: int

record Session =
  ses_ID :: string
  ses_TokenHash :: string
  ses_UserID :: string
  ses_ExpiresUnix :: int
  ses_CreatedUnix :: int

record InteractionEndpoint =
  iep_ID :: string
  iep_Kind :: string
  iep_Provider :: string
  iep_DisplayName :: string
  iep_TargetPrefix :: string
  iep_InboundEnabled :: bool
  iep_OutboundEnabled :: bool
  iep_AuthMode :: string
  iep_ConfigJSON :: string
  iep_CreatedUnix :: int
  iep_UpdatedUnix :: int

record InteractionEndpointPatch =
  iepp_DisplayName :: "string option"
  iepp_TargetPrefix :: "string option"
  iepp_InboundEnabled :: "bool option"
  iepp_OutboundEnabled :: "bool option"
  iepp_AuthMode :: "string option"
  iepp_ConfigJSON :: "string option"

record IMChatAuthRequest =
  imreq_ID :: string
  imreq_EndpointID :: string
  imreq_Provider :: string
  imreq_ConversationID :: string
  imreq_ExternalThreadID :: string
  imreq_ChatTitle :: string
  imreq_SenderExternalID :: string
  imreq_TokenHash :: string
  imreq_TokenPrefix :: string
  imreq_Status :: string
  imreq_RequestedTarget :: string
  imreq_RequestedThreadID :: string
  imreq_ExpiresUnix :: int
  imreq_ResolvedByUserID :: string
  imreq_ResolvedUnix :: int
  imreq_CreatedUnix :: int
  imreq_UpdatedUnix :: int

record IMChatAuthRequestListOptions =
  imreqo_EndpointID :: string
  imreqo_Status :: string
  imreqo_IncludeExpired :: bool
  imreqo_Limit :: int

record IMChatSubscription =
  imsub_ID :: string
  imsub_EndpointID :: string
  imsub_Provider :: string
  imsub_ConversationID :: string
  imsub_ExternalThreadID :: string
  imsub_ChatTitle :: string
  imsub_Target :: string
  imsub_ThreadID :: string
  imsub_SenderExternalID :: string
  imsub_AuthorizedByRequestID :: string
  imsub_Subscribed :: bool
  imsub_Verbose :: bool
  imsub_AuthorizedUnix :: int
  imsub_SubscribedUnix :: int
  imsub_CreatedUnix :: int
  imsub_UpdatedUnix :: int

record IMChatSubscriptionPatch =
  imsubp_ChatTitle :: "string option"
  imsubp_Target :: "string option"
  imsubp_ThreadID :: "string option"
  imsubp_Subscribed :: "bool option"
  imsubp_Verbose :: "bool option"

record IMChatSubscriptionListOptions =
  imsubo_EndpointID :: string
  imsubo_Provider :: string
  imsubo_Subscribed :: "bool option"
  imsubo_Limit :: int

record ChannelSummary =
  chs_Target :: string
  chs_DisplayName :: string
  chs_ChannelType :: string
  chs_Visibility :: string
  chs_Joined :: bool
  chs_MemberCount :: int
  chs_CurrentUserRole :: string
  chs_CreatedByUserID :: string
  chs_CreatedUnix :: int
  chs_UpdatedUnix :: int

record ChannelPatch =
  chsp_DisplayName :: "string option"
  chsp_Visibility :: "string option"

record ChannelListOptions =
  chso_JoinedOnly :: bool
  chso_UserID :: string
  chso_Limit :: int

record ChannelMember =
  chm_Target :: string
  chm_MemberID :: string
  chm_Username :: string
  chm_DisplayName :: string
  chm_Kind :: string
  chm_Role :: string
  chm_JoinedTimeUnix :: int
  chm_UpdatedUnix :: int

record ChannelMemberPatch =
  chmp_Username :: "string option"
  chmp_DisplayName :: "string option"
  chmp_Role :: "string option"

record OutboundDelivery =
  odlv_ID :: string
  odlv_Target :: string
  odlv_MessageID :: string
  odlv_EndpointID :: string
  odlv_EndpointKind :: string
  odlv_ExternalMessageID :: string
  odlv_Status :: string
  odlv_AttemptCount :: "32 word"
  odlv_NextRetryTimeUnix :: int
  odlv_DeliveredTimeUnix :: int
  odlv_LastError :: string
  odlv_RequestID :: string
  odlv_CreatedUnix :: int
  odlv_UpdatedUnix :: int

record OutboundDeliveryListOptions =
  odlvo_Target :: string
  odlvo_MessageID :: string
  odlvo_EndpointID :: string
  odlvo_Statuses :: "string list"
  odlvo_Limit :: int
  odlvo_ReadyUnix :: int

record NotificationRoute =
  nroute_ID :: string
  nroute_Target :: string
  nroute_ThreadID :: string
  nroute_EndpointID :: string
  nroute_EventKind :: string
  nroute_Preference :: string
  nroute_Enabled :: bool
  nroute_ConfigJSON :: string
  nroute_CreatedUnix :: int
  nroute_UpdatedUnix :: int

record NotificationRouteListOptions =
  nrouteo_Target :: string
  nrouteo_ThreadID :: string
  nrouteo_EndpointID :: string
  nrouteo_EventKind :: string
  nrouteo_Enabled :: "bool option"
  nrouteo_Limit :: int

record NotificationRouteResolveOptions =
  nrouter_Target :: string
  nrouter_ThreadID :: string
  nrouter_EventKind :: string
  nrouter_Limit :: int

record NotificationRoutePatch =
  nroutep_Target :: "string option"
  nroutep_ThreadID :: "string option"
  nroutep_EndpointID :: "string option"
  nroutep_EventKind :: "string option"
  nroutep_Preference :: "string option"
  nroutep_Enabled :: "bool option"
  nroutep_ConfigJSON :: "string option"

record Attachment =
  att_ID :: string
  att_Target :: string
  att_OwnerID :: string
  att_Filename :: string
  att_MimeType :: string
  att_SizeBytes :: int
  att_StorageRef :: string
  att_DownloadURL :: string
  att_UploadURL :: string
  att_ExpiresTimeUnix :: int
  att_CreatedUnix :: int

record Message =
  msg_ID :: string
  msg_Target :: string
  msg_ThreadID :: string
  msg_Role :: string
  msg_Content :: string
  msg_ReplyToMessageID :: string
  msg_SenderUserID :: string
  msg_SenderAgentID :: string
  msg_SenderDisplayName :: string
  msg_SenderKind :: string
  msg_SourceEndpointID :: string
  msg_ExternalMessageID :: string
  msg_MetadataJSON :: string
  msg_Attachments :: "Attachment list"
  msg_RequestID :: string
  msg_CreatedUnix :: int
  msg_Kind :: string

record ThreadInboxItem =
  tii_Target :: string
  tii_ThreadID :: string
  tii_Topic :: string
  tii_MessageCount :: int
  tii_UnreadCount :: int
  tii_LastReadUnix :: int
  tii_LastReadMessageID :: string
  tii_FirstMessage :: Message
  tii_LatestMessage :: Message
  tii_UpdatedUnix :: int

record MessageSearchOptions =
  mso_Query :: string
  mso_Target :: string
  mso_SenderHandle :: string
  mso_HasAttachment :: bool
  mso_Sort :: string
  mso_Limit :: int

record SavedMessageListOptions =
  smo_Target :: string
  smo_UserID :: string
  smo_AgentID :: string
  smo_Query :: string
  smo_HasAttachment :: bool
  smo_Limit :: int

record SavedMessage =
  sav_ID :: string
  sav_Target :: string
  sav_MessageID :: string
  sav_SavedByUserID :: string
  sav_SavedByAgentID :: string
  sav_CreatedUnix :: int
  sav_Message :: Message

record Task =
  tsk_ID :: string
  tsk_Summary :: string
  tsk_Description :: string
  tsk_State :: string
  tsk_Target :: string
  tsk_AssigneeID :: string
  tsk_CreatedByUserID :: string
  tsk_BlockedReason :: string
  tsk_Version :: int
  tsk_ClaimLeaseID :: string
  tsk_CreatedUnix :: int
  tsk_UpdatedUnix :: int

record TaskAttempt =
  tat_ID :: string
  tat_TaskID :: string
  tat_Attempt :: "32 word"
  tat_RunID :: string
  tat_AgentID :: string
  tat_ClaimLeaseID :: string
  tat_Status :: string
  tat_OutputJSON :: string
  tat_OutputDigest :: string
  tat_OutputSignature :: string
  tat_SignaturePublicKey :: string
  tat_ErrorMessage :: string
  tat_ClaimedUnix :: int
  tat_StartedUnix :: int
  tat_CompletedUnix :: int
  tat_UpdatedUnix :: int

record TaskPatch =
  tskp_Summary :: "string option"
  tskp_Description :: "string option"
  tskp_State :: "string option"
  tskp_AssigneeID :: "string option"
  tskp_BlockedReason :: "string option"

record Reminder =
  rem_ID :: string
  rem_Target :: string
  rem_ScheduleKind :: string
  rem_Schedule :: string
  rem_Prompt :: string
  rem_Enabled :: bool
  rem_NextRunUnix :: int
  rem_LastRunUnix :: int
  rem_RunCount :: int
  rem_LastError :: string
  rem_Title :: string
  rem_Status :: string
  rem_MsgRef :: string
  rem_RecurrenceRule :: string
  rem_RecurrenceDescription :: string
  rem_RecurrenceTimezone :: string
  rem_CancelToken :: string
  rem_CreatedUnix :: int
  rem_UpdatedUnix :: int

record ReminderPatch =
  remp_Title :: "string option"
  remp_ScheduleKind :: "string option"
  remp_Schedule :: "string option"
  remp_NextRunUnix :: "int option"
  remp_RecurrenceRule :: "string option"
  remp_RecurrenceDescription :: "string option"
  remp_RecurrenceTimezone :: "string option"

record ChannelDecision =
  dec_ID :: string
  dec_Target :: string
  dec_Title :: string
  dec_Body :: string
  dec_Status :: string
  dec_ProposerID :: string
  dec_ProposerKind :: string
  dec_CreatedUnix :: int
  dec_RatifiedUnix :: int
  dec_RetiredUnix :: int
  dec_RetiredBy :: string
  dec_RetireReason :: string
  dec_SupersedesDecisionID :: string
  dec_ApproveCount :: "32 word"
  dec_RejectCount :: "32 word"
  dec_AbstainCount :: "32 word"

record ChannelDecisionListOptions =
  deco_Target :: string
  deco_StatusFilter :: "string list"
  deco_Limit :: int
  deco_AfterCreated :: int

record ChannelDecisionVote =
  vot_ID :: string
  vot_DecisionID :: string
  vot_VoterID :: string
  vot_VoterKind :: string
  vot_Decision :: string
  vot_VotedUnix :: int
  vot_Reason :: string

record AgentRun =
  run_ID :: string
  run_AgentID :: string
  run_ComputerID :: string
  run_StartedUnix :: int
  run_EndedUnix :: int
  run_ExitCode :: int
  run_Summary :: string
  run_Error :: string
  run_EventCount :: "32 word"

record AgentRunListOptions =
  runo_AgentID :: string
  runo_ComputerID :: string
  runo_Limit :: int
  runo_BeforeStarted :: int

record AgentRunEvent =
  evt_ID :: string
  evt_RunID :: string
  evt_AtUnixNano :: int
  evt_Phase :: string
  evt_Summary :: string
  evt_PayloadJSON :: string
  evt_ExitCode :: int
  evt_ErrorMessage :: string

record AgentRunSearchOptions =
  runs_Query :: string
  runs_AgentID :: string
  runs_ComputerID :: string
  runs_Limit :: int

record AgentRunSearchHit =
  hit_Run :: AgentRun
  hit_Event :: AgentRunEvent
  hit_Highlight :: string

record ReminderEvent =
  rev_ID :: string
  rev_ReminderID :: string
  rev_EventType :: string
  rev_ActorType :: string
  rev_ActorID :: string
  rev_OccurredTimeUnix :: int
  rev_NextFireTimeUnix :: int
  rev_Detail :: string

record CollaborationEvent =
  cev_ID :: string
  cev_ServerID :: string
  cev_Sequence :: int
  cev_EventID :: string
  cev_Target :: string
  cev_AggregateID :: string
  cev_Kind :: string
  cev_Operation :: string
  cev_ScopeType :: string
  cev_ScopeID :: string
  cev_WorkspaceID :: string
  cev_ActivityID :: string
  cev_PayloadJSON :: string
  cev_CreatedUnix :: int
  cev_ProtocolVersion :: int

record IdempotencyRecord =
  idem_ID :: string
  idem_Scope :: string
  idem_Method :: string
  idem_ActorID :: string
  idem_IdempotencyKey :: string
  idem_RequestHash :: string
  idem_ResponseType :: string
  idem_ResponseJSON :: string
  idem_ResourceType :: string
  idem_ResourceID :: string
  idem_Status :: string
  idem_CreatedUnix :: int
  idem_ExpiresUnix :: int

record TunnelRecord =
  tun_ID :: string
  tun_Token :: string
  tun_ComputerID :: string
  tun_DaemonID :: string
  tun_LocalPort :: "32 word"
  tun_Label :: string
  tun_State :: string
  tun_AccessPolicy :: string
  tun_CreatorID :: string
  tun_CreatorKind :: string
  tun_CreatedUnix :: int
  tun_ExpiresUnix :: int
  tun_ApprovedUnix :: int
  tun_ApprovedBy :: string
  tun_ClosedUnix :: int
  tun_CloseReason :: string
  tun_PublicURL :: string

record TunnelListOptions =
  tuno_ComputerID :: string
  tuno_StateFilter :: string
  tuno_Limit :: int

section \<open>Rows and the database\<close>

record ChannelRow =
  chn_ID :: string
  chn_Target :: string
  chn_DisplayName :: string
  chn_ChannelType :: string
  chn_Visibility :: string
  chn_CreatedByUserID :: string
  chn_CreatedUnix :: int
  chn_UpdatedUnix :: int

record ChannelMemberRow =
  chmr_ID :: string
  chmr_Target :: string
  chmr_MemberID :: string
  chmr_Username :: string
  chmr_DisplayName :: string
  chmr_Kind :: string
  chmr_Role :: string
  chmr_JoinedTimeUnix :: int
  chmr_UpdatedUnix :: int

record MessageRow =
  msgr_ID :: string
  msgr_Target :: string
  msgr_ThreadID :: string
  msgr_Role :: string
  msgr_Content :: string
  msgr_ReplyToMessageID :: string
  msgr_SenderUserID :: string
  msgr_SenderAgentID :: string
  msgr_SenderDisplayName :: string
  msgr_SenderKind :: string
  msgr_SourceEndpointID :: string
  msgr_ExternalMessageID :: string
  msgr_MetadataJSON :: string
  msgr_AttachmentsJSON :: string
  msgr_RequestID :: string
  msgr_CreatedUnix :: int
  msgr_Kind :: string

record SavedMessageRow =
  savr_ID :: string
  savr_Target :: string
  savr_MessageID :: string
  savr_SavedByUserID :: string
  savr_SavedByAgentID :: string
  savr_CreatedUnix :: int

record ThreadReadStateRow =
  trs_ID :: string
  trs_UserID :: string
  trs_Target :: string
  trs_ThreadID :: string
  trs_LastReadMessageID :: string
  trs_LastReadUnix :: int
  trs_UpdatedUnix :: int

text \<open>The whole database: one list of rows per schema.\<close>

record store =
  users :: "User list"
  sessions :: "Session list"
  endpoints :: "InteractionEndpoint list"
  authRequests :: "IMChatAuthRequest list"
  subscriptions :: "IMChatSubscription list"
  channels :: "ChannelRow list"
  channelMembers :: "ChannelMemberRow list"
  messages :: "MessageRow list"
  deliveries :: "OutboundDelivery list"
  routes :: "NotificationRoute list"
  savedMessages :: "SavedMessageRow list"
  readStates :: "ThreadReadStateRow list"
  tasks :: "Task list"
  taskAttempts :: "TaskAttempt list"
  collabEvents :: "CollaborationEvent list"
  idemRecords :: "IdempotencyRecord list"
  reminders :: "Reminder list"
  reminderEvents :: "ReminderEvent list"
  decisions :: "ChannelDecision list"
  decisionVotes :: "ChannelDecisionVote list"
  agentRuns :: "AgentRun list"
  agentRunEvents :: "AgentRunEvent list"
  tunnels :: "TunnelRecord list"

section \<open>The schemas\<close>

text \<open>
  Validators (\<^verbatim>\<open>NotEmpty\<close>, \<^verbatim>\<open>Positive\<close>) and unique indexes as \<^verbatim>\<open>internal/ent/schema\<close> declares them.
\<close>

definition UserEnt :: "(store, User) entity" where
  "UserEnt = \<lparr>rows_of = users, put_rows = (\<lambda>rows d. d\<lparr>users := rows\<rparr>), row_id = usr_ID,
     row_check = (\<lambda>r. usr_Username r \<noteq> [] \<and> usr_DisplayName r \<noteq> [] \<and> usr_PasswordHash r \<noteq> []),
     row_keys = (\<lambda>r. [[CStr (usr_Username r)]])\<rparr>"

definition SessionEnt :: "(store, Session) entity" where
  "SessionEnt = \<lparr>rows_of = sessions, put_rows = (\<lambda>rows d. d\<lparr>sessions := rows\<rparr>), row_id = ses_ID,
     row_check = (\<lambda>r. ses_TokenHash r \<noteq> [] \<and> ses_UserID r \<noteq> []),
     row_keys = (\<lambda>r. [[CStr (ses_TokenHash r)]])\<rparr>"

definition InteractionEndpointEnt :: "(store, InteractionEndpoint) entity" where
  "InteractionEndpointEnt = \<lparr>rows_of = endpoints, put_rows = (\<lambda>rows d. d\<lparr>endpoints := rows\<rparr>), row_id = iep_ID,
     row_check = (\<lambda>r. iep_Kind r \<noteq> [] \<and> iep_Provider r \<noteq> [] \<and> iep_DisplayName r \<noteq> []),
     row_keys = (\<lambda>_. [])\<rparr>"

definition IMChatAuthRequestEnt :: "(store, IMChatAuthRequest) entity" where
  "IMChatAuthRequestEnt = \<lparr>rows_of = authRequests, put_rows = (\<lambda>rows d. d\<lparr>authRequests := rows\<rparr>), row_id = imreq_ID,
     row_check = (\<lambda>r. imreq_EndpointID r \<noteq> [] \<and> imreq_ConversationID r \<noteq> [] \<and> imreq_TokenHash r \<noteq> []),
     row_keys = (\<lambda>r. [[CStr (imreq_TokenHash r)]])\<rparr>"

definition IMChatSubscriptionEnt :: "(store, IMChatSubscription) entity" where
  "IMChatSubscriptionEnt = \<lparr>rows_of = subscriptions, put_rows = (\<lambda>rows d. d\<lparr>subscriptions := rows\<rparr>), row_id = imsub_ID,
     row_check = (\<lambda>r. imsub_EndpointID r \<noteq> [] \<and> imsub_ConversationID r \<noteq> []),
     row_keys = (\<lambda>r. [[CStr (imsub_EndpointID r), CStr (imsub_ConversationID r), CStr (imsub_ExternalThreadID r)]])\<rparr>"

definition ChannelEnt :: "(store, ChannelRow) entity" where
  "ChannelEnt = \<lparr>rows_of = channels, put_rows = (\<lambda>rows d. d\<lparr>channels := rows\<rparr>), row_id = chn_ID,
     row_check = (\<lambda>r. chn_Target r \<noteq> [] \<and> chn_DisplayName r \<noteq> []),
     row_keys = (\<lambda>r. [[CStr (chn_Target r)]])\<rparr>"

definition ChannelMemberEnt :: "(store, ChannelMemberRow) entity" where
  "ChannelMemberEnt = \<lparr>rows_of = channelMembers, put_rows = (\<lambda>rows d. d\<lparr>channelMembers := rows\<rparr>), row_id = chmr_ID,
     row_check = (\<lambda>r. chmr_Target r \<noteq> [] \<and> chmr_MemberID r \<noteq> [] \<and> chmr_DisplayName r \<noteq> []),
     row_keys = (\<lambda>r. [[CStr (chmr_Target r), CStr (chmr_Kind r), CStr (chmr_MemberID r)]])\<rparr>"

definition MessageEnt :: "(store, MessageRow) entity" where
  "MessageEnt = \<lparr>rows_of = messages, put_rows = (\<lambda>rows d. d\<lparr>messages := rows\<rparr>), row_id = msgr_ID,
     row_check = (\<lambda>r. msgr_Target r \<noteq> [] \<and> msgr_Role r \<noteq> [] \<and> msgr_Content r \<noteq> [] \<and> msgr_SenderKind r \<noteq> []),
     row_keys = (\<lambda>_. [])\<rparr>"

definition OutboundDeliveryEnt :: "(store, OutboundDelivery) entity" where
  "OutboundDeliveryEnt = \<lparr>rows_of = deliveries, put_rows = (\<lambda>rows d. d\<lparr>deliveries := rows\<rparr>), row_id = odlv_ID,
     row_check = (\<lambda>r. odlv_Target r \<noteq> [] \<and> odlv_MessageID r \<noteq> [] \<and> odlv_EndpointID r \<noteq> []),
     row_keys = (\<lambda>_. [])\<rparr>"

definition NotificationRouteEnt :: "(store, NotificationRoute) entity" where
  "NotificationRouteEnt = \<lparr>rows_of = routes, put_rows = (\<lambda>rows d. d\<lparr>routes := rows\<rparr>), row_id = nroute_ID,
     row_check = (\<lambda>r. nroute_Target r \<noteq> [] \<and> nroute_EndpointID r \<noteq> []),
     row_keys = (\<lambda>r. [[CStr (nroute_Target r), CStr (nroute_EndpointID r), CStr (nroute_EventKind r), CStr (nroute_ThreadID r)]])\<rparr>"

definition SavedMessageEnt :: "(store, SavedMessageRow) entity" where
  "SavedMessageEnt = \<lparr>rows_of = savedMessages, put_rows = (\<lambda>rows d. d\<lparr>savedMessages := rows\<rparr>), row_id = savr_ID,
     row_check = (\<lambda>r. savr_Target r \<noteq> [] \<and> savr_MessageID r \<noteq> []),
     row_keys = (\<lambda>r. [[CStr (savr_Target r), CStr (savr_MessageID r), CStr (savr_SavedByUserID r), CStr (savr_SavedByAgentID r)]])\<rparr>"

definition ThreadReadStateEnt :: "(store, ThreadReadStateRow) entity" where
  "ThreadReadStateEnt = \<lparr>rows_of = readStates, put_rows = (\<lambda>rows d. d\<lparr>readStates := rows\<rparr>), row_id = trs_ID,
     row_check = (\<lambda>r. trs_UserID r \<noteq> [] \<and> trs_Target r \<noteq> [] \<and> trs_ThreadID r \<noteq> []),
     row_keys = (\<lambda>r. [[CStr (trs_UserID r), CStr (trs_Target r), CStr (trs_ThreadID r)]])\<rparr>"

definition TaskEnt :: "(store, Task) entity" where
  "TaskEnt = \<lparr>rows_of = tasks, put_rows = (\<lambda>rows d. d\<lparr>tasks := rows\<rparr>), row_id = tsk_ID,
     row_check = (\<lambda>r. tsk_Summary r \<noteq> [] \<and> tsk_Target r \<noteq> []),
     row_keys = (\<lambda>_. [])\<rparr>"

definition TaskAttemptEnt :: "(store, TaskAttempt) entity" where
  "TaskAttemptEnt = \<lparr>rows_of = taskAttempts, put_rows = (\<lambda>rows d. d\<lparr>taskAttempts := rows\<rparr>), row_id = tat_ID,
     row_check = (\<lambda>r. tat_TaskID r \<noteq> []),
     row_keys = (\<lambda>r. [[CStr (tat_TaskID r), CNat (unat (tat_Attempt r))]])\<rparr>"

definition CollaborationEventEnt :: "(store, CollaborationEvent) entity" where
  "CollaborationEventEnt = \<lparr>rows_of = collabEvents, put_rows = (\<lambda>rows d. d\<lparr>collabEvents := rows\<rparr>), row_id = cev_ID,
     row_check = (\<lambda>r. cev_ServerID r \<noteq> [] \<and> cev_EventID r \<noteq> [] \<and> cev_Kind r \<noteq> [] \<and> 0 < cev_Sequence r \<and> 0 < cev_ProtocolVersion r),
     row_keys = (\<lambda>r. [[CStr (cev_ServerID r), CInt (cev_Sequence r)], [CStr (cev_EventID r)]])\<rparr>"

definition IdempotencyRecordEnt :: "(store, IdempotencyRecord) entity" where
  "IdempotencyRecordEnt = \<lparr>rows_of = idemRecords, put_rows = (\<lambda>rows d. d\<lparr>idemRecords := rows\<rparr>), row_id = idem_ID,
     row_check = (\<lambda>r. idem_Scope r \<noteq> [] \<and> idem_Method r \<noteq> [] \<and> idem_IdempotencyKey r \<noteq> []),
     row_keys = (\<lambda>r. [[CStr (idem_Scope r), CStr (idem_Method r), CStr (idem_ActorID r), CStr (idem_IdempotencyKey r)]])\<rparr>"

definition ReminderEnt :: "(store, Reminder) entity" where
  "ReminderEnt = \<lparr>rows_of = reminders, put_rows = (\<lambda>rows d. d\<lparr>reminders := rows\<rparr>), row_id = rem_ID,
     row_check = (\<lambda>r. rem_Target r \<noteq> []),
     row_keys = (\<lambda>_. [])\<rparr>"

definition ReminderEventEnt :: "(store, ReminderEvent) entity" where
  "ReminderEventEnt = \<lparr>rows_of = reminderEvents, put_rows = (\<lambda>rows d. d\<lparr>reminderEvents := rows\<rparr>), row_id = rev_ID,
     row_check = (\<lambda>r. rev_ReminderID r \<noteq> [] \<and> rev_EventType r \<noteq> []),
     row_keys = (\<lambda>_. [])\<rparr>"

definition ChannelDecisionEnt :: "(store, ChannelDecision) entity" where
  "ChannelDecisionEnt = \<lparr>rows_of = decisions, put_rows = (\<lambda>rows d. d\<lparr>decisions := rows\<rparr>), row_id = dec_ID,
     row_check = (\<lambda>r. dec_Target r \<noteq> [] \<and> dec_Title r \<noteq> [] \<and> dec_Body r \<noteq> [] \<and> dec_Status r \<noteq> [] \<and> dec_ProposerID r \<noteq> [] \<and> dec_ProposerKind r \<noteq> []),
     row_keys = (\<lambda>_. [])\<rparr>"

definition ChannelDecisionVoteEnt :: "(store, ChannelDecisionVote) entity" where
  "ChannelDecisionVoteEnt = \<lparr>rows_of = decisionVotes, put_rows = (\<lambda>rows d. d\<lparr>decisionVotes := rows\<rparr>), row_id = vot_ID,
     row_check = (\<lambda>r. vot_DecisionID r \<noteq> [] \<and> vot_VoterID r \<noteq> [] \<and> vot_VoterKind r \<noteq> [] \<and> vot_Decision r \<noteq> []),
     row_keys = (\<lambda>r. [[CStr (vot_DecisionID r), CStr (vot_VoterID r)]])\<rparr>"

definition AgentRunEnt :: "(store, AgentRun) entity" where
  "AgentRunEnt = \<lparr>rows_of = agentRuns, put_rows = (\<lambda>rows d. d\<lparr>agentRuns := rows\<rparr>), row_id = run_ID,
     row_check = (\<lambda>r. run_ID r \<noteq> [] \<and> run_AgentID r \<noteq> [] \<and> run_ComputerID r \<noteq> []),
     row_keys = (\<lambda>_. [])\<rparr>"

definition AgentRunEventEnt :: "(store, AgentRunEvent) entity" where
  "AgentRunEventEnt = \<lparr>rows_of = agentRunEvents, put_rows = (\<lambda>rows d. d\<lparr>agentRunEvents := rows\<rparr>), row_id = evt_ID,
     row_check = (\<lambda>r. evt_RunID r \<noteq> [] \<and> evt_Phase r \<noteq> []),
     row_keys = (\<lambda>_. [])\<rparr>"

definition TunnelEnt :: "(store, TunnelRecord) entity" where
  "TunnelEnt = \<lparr>rows_of = tunnels, put_rows = (\<lambda>rows d. d\<lparr>tunnels := rows\<rparr>), row_id = tun_ID,
     row_check = (\<lambda>r. tun_Token r \<noteq> [] \<and> tun_ComputerID r \<noteq> [] \<and> tun_State r \<noteq> [] \<and> tun_AccessPolicy r \<noteq> [] \<and> tun_CreatorID r \<noteq> [] \<and> tun_CreatorKind r \<noteq> []),
     row_keys = (\<lambda>r. [[CStr (tun_Token r)]])\<rparr>"

text \<open>Every table satisfies its validators and its unique indexes.\<close>

definition store_wf :: "store \<Rightarrow> bool" where
  "store_wf d \<longleftrightarrow>
     table_wf UserEnt (users d) \<and>
     table_wf SessionEnt (sessions d) \<and>
     table_wf InteractionEndpointEnt (endpoints d) \<and>
     table_wf IMChatAuthRequestEnt (authRequests d) \<and>
     table_wf IMChatSubscriptionEnt (subscriptions d) \<and>
     table_wf ChannelEnt (channels d) \<and>
     table_wf ChannelMemberEnt (channelMembers d) \<and>
     table_wf MessageEnt (messages d) \<and>
     table_wf OutboundDeliveryEnt (deliveries d) \<and>
     table_wf NotificationRouteEnt (routes d) \<and>
     table_wf SavedMessageEnt (savedMessages d) \<and>
     table_wf ThreadReadStateEnt (readStates d) \<and>
     table_wf TaskEnt (tasks d) \<and>
     table_wf TaskAttemptEnt (taskAttempts d) \<and>
     table_wf CollaborationEventEnt (collabEvents d) \<and>
     table_wf IdempotencyRecordEnt (idemRecords d) \<and>
     table_wf ReminderEnt (reminders d) \<and>
     table_wf ReminderEventEnt (reminderEvents d) \<and>
     table_wf ChannelDecisionEnt (decisions d) \<and>
     table_wf ChannelDecisionVoteEnt (decisionVotes d) \<and>
     table_wf AgentRunEnt (agentRuns d) \<and>
     table_wf AgentRunEventEnt (agentRunEvents d) \<and>
     table_wf TunnelEnt (tunnels d)"

section \<open>From rows to models\<close>

text \<open>
  The \<^verbatim>\<open>...FromEnt\<close> conversions. Most copy every column; that of an authorization request leaves the
  token hash out, that of a channel the identifier.
\<close>

definition userFromEnt :: "User \<Rightarrow> User" where
  "userFromEnt row =
    \<lparr>usr_ID = usr_ID row, usr_Username = usr_Username row,
     usr_DisplayName = usr_DisplayName row, usr_PasswordHash = usr_PasswordHash row,
     usr_Role = usr_Role row, usr_CreatedUnix = usr_CreatedUnix row,
     usr_UpdatedUnix = usr_UpdatedUnix row\<rparr>"

definition sessionFromEnt :: "Session \<Rightarrow> Session" where
  "sessionFromEnt row =
    \<lparr>ses_ID = ses_ID row, ses_TokenHash = ses_TokenHash row, ses_UserID = ses_UserID row,
     ses_ExpiresUnix = ses_ExpiresUnix row, ses_CreatedUnix = ses_CreatedUnix row\<rparr>"

definition endpointFromEnt :: "InteractionEndpoint \<Rightarrow> InteractionEndpoint" where
  "endpointFromEnt row =
    \<lparr>iep_ID = iep_ID row, iep_Kind = iep_Kind row, iep_Provider = iep_Provider row,
     iep_DisplayName = iep_DisplayName row, iep_TargetPrefix = iep_TargetPrefix row,
     iep_InboundEnabled = iep_InboundEnabled row,
     iep_OutboundEnabled = iep_OutboundEnabled row, iep_AuthMode = iep_AuthMode row,
     iep_ConfigJSON = iep_ConfigJSON row, iep_CreatedUnix = iep_CreatedUnix row,
     iep_UpdatedUnix = iep_UpdatedUnix row\<rparr>"

definition imChatAuthRequestFromEnt :: "IMChatAuthRequest \<Rightarrow> IMChatAuthRequest" where
  "imChatAuthRequestFromEnt row =
    \<lparr>imreq_ID = imreq_ID row, imreq_EndpointID = imreq_EndpointID row,
     imreq_Provider = imreq_Provider row, imreq_ConversationID = imreq_ConversationID row,
     imreq_ExternalThreadID = imreq_ExternalThreadID row,
     imreq_ChatTitle = imreq_ChatTitle row,
     imreq_SenderExternalID = imreq_SenderExternalID row, imreq_TokenHash = [],
     imreq_TokenPrefix = imreq_TokenPrefix row, imreq_Status = imreq_Status row,
     imreq_RequestedTarget = imreq_RequestedTarget row,
     imreq_RequestedThreadID = imreq_RequestedThreadID row,
     imreq_ExpiresUnix = imreq_ExpiresUnix row,
     imreq_ResolvedByUserID = imreq_ResolvedByUserID row,
     imreq_ResolvedUnix = imreq_ResolvedUnix row,
     imreq_CreatedUnix = imreq_CreatedUnix row, imreq_UpdatedUnix = imreq_UpdatedUnix row\<rparr>"

definition imChatSubscriptionFromEnt :: "IMChatSubscription \<Rightarrow> IMChatSubscription" where
  "imChatSubscriptionFromEnt row =
    \<lparr>imsub_ID = imsub_ID row, imsub_EndpointID = imsub_EndpointID row,
     imsub_Provider = imsub_Provider row, imsub_ConversationID = imsub_ConversationID row,
     imsub_ExternalThreadID = imsub_ExternalThreadID row,
     imsub_ChatTitle = imsub_ChatTitle row, imsub_Target = imsub_Target row,
     imsub_ThreadID = imsub_ThreadID row,
     imsub_SenderExternalID = imsub_SenderExternalID row,
     imsub_AuthorizedByRequestID = imsub_AuthorizedByRequestID row,
     imsub_Subscribed = imsub_Subscribed row, imsub_Verbose = imsub_Verbose row,
     imsub_AuthorizedUnix = imsub_AuthorizedUnix row,
     imsub_SubscribedUnix = imsub_SubscribedUnix row,
     imsub_CreatedUnix = imsub_CreatedUnix row, imsub_UpdatedUnix = imsub_UpdatedUnix row\<rparr>"

definition channelFromEnt :: "ChannelRow \<Rightarrow> ChannelSummary" where
  "channelFromEnt row =
    \<lparr>chs_Target = chn_Target row, chs_DisplayName = chn_DisplayName row,
     chs_ChannelType = chn_ChannelType row, chs_Visibility = chn_Visibility row,
     chs_Joined = False, chs_MemberCount = 0, chs_CurrentUserRole = [],
     chs_CreatedByUserID = chn_CreatedByUserID row, chs_CreatedUnix = chn_CreatedUnix row,
     chs_UpdatedUnix = chn_UpdatedUnix row\<rparr>"

definition channelMemberFromEnt :: "ChannelMemberRow \<Rightarrow> ChannelMember" where
  "channelMemberFromEnt row =
    \<lparr>chm_Target = chmr_Target row, chm_MemberID = chmr_MemberID row,
     chm_Username = chmr_Username row, chm_DisplayName = chmr_DisplayName row,
     chm_Kind = chmr_Kind row, chm_Role = chmr_Role row,
     chm_JoinedTimeUnix = chmr_JoinedTimeUnix row, chm_UpdatedUnix = chmr_UpdatedUnix row\<rparr>"

definition outboundDeliveryFromEnt :: "OutboundDelivery \<Rightarrow> OutboundDelivery" where
  "outboundDeliveryFromEnt row =
    \<lparr>odlv_ID = odlv_ID row, odlv_Target = odlv_Target row,
     odlv_MessageID = odlv_MessageID row, odlv_EndpointID = odlv_EndpointID row,
     odlv_EndpointKind = odlv_EndpointKind row,
     odlv_ExternalMessageID = odlv_ExternalMessageID row, odlv_Status = odlv_Status row,
     odlv_AttemptCount = odlv_AttemptCount row,
     odlv_NextRetryTimeUnix = odlv_NextRetryTimeUnix row,
     odlv_DeliveredTimeUnix = odlv_DeliveredTimeUnix row,
     odlv_LastError = odlv_LastError row, odlv_RequestID = odlv_RequestID row,
     odlv_CreatedUnix = odlv_CreatedUnix row, odlv_UpdatedUnix = odlv_UpdatedUnix row\<rparr>"

definition notificationRouteFromEnt :: "NotificationRoute \<Rightarrow> NotificationRoute" where
  "notificationRouteFromEnt row =
    \<lparr>nroute_ID = nroute_ID row, nroute_Target = nroute_Target row,
     nroute_ThreadID = nroute_ThreadID row, nroute_EndpointID = nroute_EndpointID row,
     nroute_EventKind = nroute_EventKind row, nroute_Preference = nroute_Preference row,
     nroute_Enabled = nroute_Enabled row, nroute_ConfigJSON = nroute_ConfigJSON row,
     nroute_CreatedUnix = nroute_CreatedUnix row,
     nroute_UpdatedUnix = nroute_UpdatedUnix row\<rparr>"

definition taskFromEnt :: "Task \<Rightarrow> Task" where
  "taskFromEnt row =
    \<lparr>tsk_ID = tsk_ID row, tsk_Summary = tsk_Summary row,
     tsk_Description = tsk_Description row, tsk_State = tsk_State row,
     tsk_Target = tsk_Target row, tsk_AssigneeID = tsk_AssigneeID row,
     tsk_CreatedByUserID = tsk_CreatedByUserID row,
     tsk_BlockedReason = tsk_BlockedReason row, tsk_Version = tsk_Version row,
     tsk_ClaimLeaseID = tsk_ClaimLeaseID row, tsk_CreatedUnix = tsk_CreatedUnix row,
     tsk_UpdatedUnix = tsk_UpdatedUnix row\<rparr>"

definition taskAttemptFromEnt :: "TaskAttempt \<Rightarrow> TaskAttempt" where
  "taskAttemptFromEnt row =
    \<lparr>tat_ID = tat_ID row, tat_TaskID = tat_TaskID row, tat_Attempt = tat_Attempt row,
     tat_RunID = tat_RunID row, tat_AgentID = tat_AgentID row,
     tat_ClaimLeaseID = tat_ClaimLeaseID row, tat_Status = tat_Status row,
     tat_OutputJSON = tat_OutputJSON row, tat_OutputDigest = tat_OutputDigest row,
     tat_OutputSignature = tat_OutputSignature row,
     tat_SignaturePublicKey = tat_SignaturePublicKey row,
     tat_ErrorMessage = tat_ErrorMessage row, tat_ClaimedUnix = tat_ClaimedUnix row,
     tat_StartedUnix = tat_StartedUnix row, tat_CompletedUnix = tat_CompletedUnix row,
     tat_UpdatedUnix = tat_UpdatedUnix row\<rparr>"

definition collaborationEventFromEnt :: "CollaborationEvent \<Rightarrow> CollaborationEvent" where
  "collaborationEventFromEnt row =
    \<lparr>cev_ID = cev_ID row, cev_ServerID = cev_ServerID row, cev_Sequence = cev_Sequence row,
     cev_EventID = cev_EventID row, cev_Target = cev_Target row,
     cev_AggregateID = cev_AggregateID row, cev_Kind = cev_Kind row,
     cev_Operation = cev_Operation row, cev_ScopeType = cev_ScopeType row,
     cev_ScopeID = cev_ScopeID row, cev_WorkspaceID = cev_WorkspaceID row,
     cev_ActivityID = cev_ActivityID row, cev_PayloadJSON = cev_PayloadJSON row,
     cev_CreatedUnix = cev_CreatedUnix row, cev_ProtocolVersion = cev_ProtocolVersion row\<rparr>"

definition idempotencyRecordFromEnt :: "IdempotencyRecord \<Rightarrow> IdempotencyRecord" where
  "idempotencyRecordFromEnt row =
    \<lparr>idem_ID = idem_ID row, idem_Scope = idem_Scope row, idem_Method = idem_Method row,
     idem_ActorID = idem_ActorID row, idem_IdempotencyKey = idem_IdempotencyKey row,
     idem_RequestHash = idem_RequestHash row, idem_ResponseType = idem_ResponseType row,
     idem_ResponseJSON = idem_ResponseJSON row, idem_ResourceType = idem_ResourceType row,
     idem_ResourceID = idem_ResourceID row, idem_Status = idem_Status row,
     idem_CreatedUnix = idem_CreatedUnix row, idem_ExpiresUnix = idem_ExpiresUnix row\<rparr>"

definition reminderFromEnt :: "Reminder \<Rightarrow> Reminder" where
  "reminderFromEnt row =
    \<lparr>rem_ID = rem_ID row, rem_Target = rem_Target row,
     rem_ScheduleKind = rem_ScheduleKind row, rem_Schedule = rem_Schedule row,
     rem_Prompt = rem_Prompt row, rem_Enabled = rem_Enabled row,
     rem_NextRunUnix = rem_NextRunUnix row, rem_LastRunUnix = rem_LastRunUnix row,
     rem_RunCount = rem_RunCount row, rem_LastError = rem_LastError row,
     rem_Title = rem_Title row, rem_Status = rem_Status row, rem_MsgRef = rem_MsgRef row,
     rem_RecurrenceRule = rem_RecurrenceRule row,
     rem_RecurrenceDescription = rem_RecurrenceDescription row,
     rem_RecurrenceTimezone = rem_RecurrenceTimezone row,
     rem_CancelToken = rem_CancelToken row, rem_CreatedUnix = rem_CreatedUnix row,
     rem_UpdatedUnix = rem_UpdatedUnix row\<rparr>"

definition reminderEventFromEnt :: "ReminderEvent \<Rightarrow> ReminderEvent" where
  "reminderEventFromEnt row =
    \<lparr>rev_ID = rev_ID row, rev_ReminderID = rev_ReminderID row,
     rev_EventType = rev_EventType row, rev_ActorType = rev_ActorType row,
     rev_ActorID = rev_ActorID row, rev_OccurredTimeUnix = rev_OccurredTimeUnix row,
     rev_NextFireTimeUnix = rev_NextFireTimeUnix row, rev_Detail = rev_Detail row\<rparr>"

definition decisionFromEnt :: "ChannelDecision \<Rightarrow> ChannelDecision" where
  "decisionFromEnt row =
    \<lparr>dec_ID = dec_ID row, dec_Target = dec_Target row, dec_Title = dec_Title row,
     dec_Body = dec_Body row, dec_Status = dec_Status row,
     dec_ProposerID = dec_ProposerID row, dec_ProposerKind = dec_ProposerKind row,
     dec_CreatedUnix = dec_CreatedUnix row, dec_RatifiedUnix = dec_RatifiedUnix row,
     dec_RetiredUnix = dec_RetiredUnix row, dec_RetiredBy = dec_RetiredBy row,
     dec_RetireReason = dec_RetireReason row,
     dec_SupersedesDecisionID = dec_SupersedesDecisionID row,
     dec_ApproveCount = dec_ApproveCount row, dec_RejectCount = dec_RejectCount row,
     dec_AbstainCount = dec_AbstainCount row\<rparr>"

definition decisionVoteFromEnt :: "ChannelDecisionVote \<Rightarrow> ChannelDecisionVote" where
  "decisionVoteFromEnt row =
    \<lparr>vot_ID = vot_ID row, vot_DecisionID = vot_DecisionID row,
     vot_VoterID = vot_VoterID row, vot_VoterKind = vot_VoterKind row,
     vot_Decision = vot_Decision row, vot_VotedUnix = vot_VotedUnix row,
     vot_Reason = vot_Reason row\<rparr>"

definition agentRunFromEnt :: "AgentRun \<Rightarrow> AgentRun" where
  "agentRunFromEnt row =
    \<lparr>run_ID = run_ID row, run_AgentID = run_AgentID row,
     run_ComputerID = run_ComputerID row, run_StartedUnix = run_StartedUnix row,
     run_EndedUnix = run_EndedUnix row, run_ExitCode = run_ExitCode row,
     run_Summary = run_Summary row, run_Error = run_Error row,
     run_EventCount = run_EventCount row\<rparr>"

definition agentRunEventFromEnt :: "AgentRunEvent \<Rightarrow> AgentRunEvent" where
  "agentRunEventFromEnt row =
    \<lparr>evt_ID = evt_ID row, evt_RunID = evt_RunID row, evt_AtUnixNano = evt_AtUnixNano row,
     evt_Phase = evt_Phase row, evt_Summary = evt_Summary row,
     evt_PayloadJSON = evt_PayloadJSON row, evt_ExitCode = evt_ExitCode row,
     evt_ErrorMessage = evt_ErrorMessage row\<rparr>"

definition tunnelFromEnt :: "TunnelRecord \<Rightarrow> TunnelRecord" where
  "tunnelFromEnt row =
    \<lparr>tun_ID = tun_ID row, tun_Token = tun_Token row, tun_ComputerID = tun_ComputerID row,
     tun_DaemonID = tun_DaemonID row, tun_LocalPort = tun_LocalPort row,
     tun_Label = tun_Label row, tun_State = tun_State row,
     tun_AccessPolicy = tun_AccessPolicy row, tun_CreatorID = tun_CreatorID row,
     tun_CreatorKind = tun_CreatorKind row, tun_CreatedUnix = tun_CreatedUnix row,
     tun_ExpiresUnix = tun_ExpiresUnix row, tun_ApprovedUnix = tun_ApprovedUnix row,
     tun_ApprovedBy = tun_ApprovedBy row, tun_ClosedUnix = tun_ClosedUnix row,
     tun_CloseReason = tun_CloseReason row, tun_PublicURL = []\<rparr>"

lemma userFromEnt_id [simp]: "userFromEnt row = row"
  by (simp add: userFromEnt_def)

lemma sessionFromEnt_id [simp]: "sessionFromEnt row = row"
  by (simp add: sessionFromEnt_def)

lemma endpointFromEnt_id [simp]: "endpointFromEnt row = row"
  by (simp add: endpointFromEnt_def)

lemma imChatSubscriptionFromEnt_id [simp]: "imChatSubscriptionFromEnt row = row"
  by (simp add: imChatSubscriptionFromEnt_def)

lemma outboundDeliveryFromEnt_id [simp]: "outboundDeliveryFromEnt row = row"
  by (simp add: outboundDeliveryFromEnt_def)

lemma notificationRouteFromEnt_id [simp]: "notificationRouteFromEnt row = row"
  by (simp add: notificationRouteFromEnt_def)

lemma taskFromEnt_id [simp]: "taskFromEnt row = row"
  by (simp add: taskFromEnt_def)

lemma taskAttemptFromEnt_id [simp]: "taskAttemptFromEnt row = row"
  by (simp add: taskAttemptFromEnt_def)

lemma collaborationEventFromEnt_id [simp]: "collaborationEventFromEnt row = row"
  by (simp add: collaborationEventFromEnt_def)

lemma idempotencyRecordFromEnt_id [simp]: "idempotencyRecordFromEnt row = row"
  by (simp add: idempotencyRecordFromEnt_def)

lemma reminderFromEnt_id [simp]: "reminderFromEnt row = row"
  by (simp add: reminderFromEnt_def)

lemma reminderEventFromEnt_id [simp]: "reminderEventFromEnt row = row"
  by (simp add: reminderEventFromEnt_def)

lemma decisionFromEnt_id [simp]: "decisionFromEnt row = row"
  by (simp add: decisionFromEnt_def)

lemma decisionVoteFromEnt_id [simp]: "decisionVoteFromEnt row = row"
  by (simp add: decisionVoteFromEnt_def)

lemma agentRunFromEnt_id [simp]: "agentRunFromEnt row = row"
  by (simp add: agentRunFromEnt_def)

lemma agentRunEventFromEnt_id [simp]: "agentRunEventFromEnt row = row"
  by (simp add: agentRunEventFromEnt_def)

section \<open>The tables as entities\<close>

lemma UserEnt_simps [simp]:
  "rows_of UserEnt = users" "put_rows UserEnt rows d = d\<lparr>users := rows\<rparr>" "row_id UserEnt = usr_ID"
  by (simp_all add: UserEnt_def)

lemma SessionEnt_simps [simp]:
  "rows_of SessionEnt = sessions" "put_rows SessionEnt rows d = d\<lparr>sessions := rows\<rparr>" "row_id SessionEnt = ses_ID"
  by (simp_all add: SessionEnt_def)

lemma InteractionEndpointEnt_simps [simp]:
  "rows_of InteractionEndpointEnt = endpoints" "put_rows InteractionEndpointEnt rows d = d\<lparr>endpoints := rows\<rparr>" "row_id InteractionEndpointEnt = iep_ID"
  by (simp_all add: InteractionEndpointEnt_def)

lemma IMChatAuthRequestEnt_simps [simp]:
  "rows_of IMChatAuthRequestEnt = authRequests" "put_rows IMChatAuthRequestEnt rows d = d\<lparr>authRequests := rows\<rparr>" "row_id IMChatAuthRequestEnt = imreq_ID"
  by (simp_all add: IMChatAuthRequestEnt_def)

lemma IMChatSubscriptionEnt_simps [simp]:
  "rows_of IMChatSubscriptionEnt = subscriptions" "put_rows IMChatSubscriptionEnt rows d = d\<lparr>subscriptions := rows\<rparr>" "row_id IMChatSubscriptionEnt = imsub_ID"
  by (simp_all add: IMChatSubscriptionEnt_def)

lemma ChannelEnt_simps [simp]:
  "rows_of ChannelEnt = channels" "put_rows ChannelEnt rows d = d\<lparr>channels := rows\<rparr>" "row_id ChannelEnt = chn_ID"
  by (simp_all add: ChannelEnt_def)

lemma ChannelMemberEnt_simps [simp]:
  "rows_of ChannelMemberEnt = channelMembers" "put_rows ChannelMemberEnt rows d = d\<lparr>channelMembers := rows\<rparr>" "row_id ChannelMemberEnt = chmr_ID"
  by (simp_all add: ChannelMemberEnt_def)

lemma MessageEnt_simps [simp]:
  "rows_of MessageEnt = messages" "put_rows MessageEnt rows d = d\<lparr>messages := rows\<rparr>" "row_id MessageEnt = msgr_ID"
  by (simp_all add: MessageEnt_def)

lemma OutboundDeliveryEnt_simps [simp]:
  "rows_of OutboundDeliveryEnt = deliveries" "put_rows OutboundDeliveryEnt rows d = d\<lparr>deliveries := rows\<rparr>" "row_id OutboundDeliveryEnt = odlv_ID"
  by (simp_all add: OutboundDeliveryEnt_def)

lemma NotificationRouteEnt_simps [simp]:
  "rows_of NotificationRouteEnt = routes" "put_rows NotificationRouteEnt rows d = d\<lparr>routes := rows\<rparr>" "row_id NotificationRouteEnt = nroute_ID"
  by (simp_all add: NotificationRouteEnt_def)

lemma SavedMessageEnt_simps [simp]:
  "rows_of SavedMessageEnt = savedMessages" "put_rows SavedMessageEnt rows d = d\<lparr>savedMessages := rows\<rparr>" "row_id SavedMessageEnt = savr_ID"
  by (simp_all add: SavedMessageEnt_def)

lemma ThreadReadStateEnt_simps [simp]:
  "rows_of ThreadReadStateEnt = readStates" "put_rows ThreadReadStateEnt rows d = d\<lparr>readStates := rows\<rparr>" "row_id ThreadReadStateEnt = trs_ID"
  by (simp_all add: ThreadReadStateEnt_def)

lemma TaskEnt_simps [simp]:
  "rows_of TaskEnt = tasks" "put_rows TaskEnt rows d = d\<lparr>tasks := rows\<rparr>" "row_id TaskEnt = tsk_ID"
  by (simp_all add: TaskEnt_def)

lemma TaskAttemptEnt_simps [simp]:
  "rows_of TaskAttemptEnt = taskAttempts" "put_rows TaskAttemptEnt rows d = d\<lparr>taskAttempts := rows\<rparr>" "row_id TaskAttemptEnt = tat_ID"
  by (simp_all add: TaskAttemptEnt_def)

lemma CollaborationEventEnt_simps [simp]:
  "rows_of CollaborationEventEnt = collabEvents" "put_rows CollaborationEventEnt rows d = d\<lparr>collabEvents := rows\<rparr>" "row_id CollaborationEventEnt = cev_ID"
  by (simp_all add: CollaborationEventEnt_def)

lemma IdempotencyRecordEnt_simps [simp]:
  "rows_of IdempotencyRecordEnt = idemRecords" "put_rows IdempotencyRecordEnt rows d = d\<lparr>idemRecords := rows\<rparr>" "row_id IdempotencyRecordEnt = idem_ID"
  by (simp_all add: IdempotencyRecordEnt_def)

lemma ReminderEnt_simps [simp]:
  "rows_of ReminderEnt = reminders" "put_rows ReminderEnt rows d = d\<lparr>reminders := rows\<rparr>" "row_id ReminderEnt = rem_ID"
  by (simp_all add: ReminderEnt_def)

lemma ReminderEventEnt_simps [simp]:
  "rows_of ReminderEventEnt = reminderEvents" "put_rows ReminderEventEnt rows d = d\<lparr>reminderEvents := rows\<rparr>" "row_id ReminderEventEnt = rev_ID"
  by (simp_all add: ReminderEventEnt_def)

lemma ChannelDecisionEnt_simps [simp]:
  "rows_of ChannelDecisionEnt = decisions" "put_rows ChannelDecisionEnt rows d = d\<lparr>decisions := rows\<rparr>" "row_id ChannelDecisionEnt = dec_ID"
  by (simp_all add: ChannelDecisionEnt_def)

lemma ChannelDecisionVoteEnt_simps [simp]:
  "rows_of ChannelDecisionVoteEnt = decisionVotes" "put_rows ChannelDecisionVoteEnt rows d = d\<lparr>decisionVotes := rows\<rparr>" "row_id ChannelDecisionVoteEnt = vot_ID"
  by (simp_all add: ChannelDecisionVoteEnt_def)

lemma AgentRunEnt_simps [simp]:
  "rows_of AgentRunEnt = agentRuns" "put_rows AgentRunEnt rows d = d\<lparr>agentRuns := rows\<rparr>" "row_id AgentRunEnt = run_ID"
  by (simp_all add: AgentRunEnt_def)

lemma AgentRunEventEnt_simps [simp]:
  "rows_of AgentRunEventEnt = agentRunEvents" "put_rows AgentRunEventEnt rows d = d\<lparr>agentRunEvents := rows\<rparr>" "row_id AgentRunEventEnt = evt_ID"
  by (simp_all add: AgentRunEventEnt_def)

lemma TunnelEnt_simps [simp]:
  "rows_of TunnelEnt = tunnels" "put_rows TunnelEnt rows d = d\<lparr>tunnels := rows\<rparr>" "row_id TunnelEnt = tun_ID"
  by (simp_all add: TunnelEnt_def)

interpretation UserTbl: wf_entity UserEnt store_wf
  by unfold_locales (auto simp: store_wf_def)

interpretation SessionTbl: wf_entity SessionEnt store_wf
  by unfold_locales (auto simp: store_wf_def)

interpretation InteractionEndpointTbl: wf_entity InteractionEndpointEnt store_wf
  by unfold_locales (auto simp: store_wf_def)

interpretation IMChatAuthRequestTbl: wf_entity IMChatAuthRequestEnt store_wf
  by unfold_locales (auto simp: store_wf_def)

interpretation IMChatSubscriptionTbl: wf_entity IMChatSubscriptionEnt store_wf
  by unfold_locales (auto simp: store_wf_def)

interpretation ChannelTbl: wf_entity ChannelEnt store_wf
  by unfold_locales (auto simp: store_wf_def)

interpretation ChannelMemberTbl: wf_entity ChannelMemberEnt store_wf
  by unfold_locales (auto simp: store_wf_def)

interpretation MessageTbl: wf_entity MessageEnt store_wf
  by unfold_locales (auto simp: store_wf_def)

interpretation OutboundDeliveryTbl: wf_entity OutboundDeliveryEnt store_wf
  by unfold_locales (auto simp: store_wf_def)

interpretation NotificationRouteTbl: wf_entity NotificationRouteEnt store_wf
  by unfold_locales (auto simp: store_wf_def)

interpretation SavedMessageTbl: wf_entity SavedMessageEnt store_wf
  by unfold_locales (auto simp: store_wf_def)

interpretation ThreadReadStateTbl: wf_entity ThreadReadStateEnt store_wf
  by unfold_locales (auto simp: store_wf_def)

interpretation TaskTbl: wf_entity TaskEnt store_wf
  by unfold_locales (auto simp: store_wf_def)

interpretation TaskAttemptTbl: wf_entity TaskAttemptEnt store_wf
  by unfold_locales (auto simp: store_wf_def)

interpretation CollaborationEventTbl: wf_entity CollaborationEventEnt store_wf
  by unfold_locales (auto simp: store_wf_def)

interpretation IdempotencyRecordTbl: wf_entity IdempotencyRecordEnt store_wf
  by unfold_locales (auto simp: store_wf_def)

interpretation ReminderTbl: wf_entity ReminderEnt store_wf
  by unfold_locales (auto simp: store_wf_def)

interpretation ReminderEventTbl: wf_entity ReminderEventEnt store_wf
  by unfold_locales (auto simp: store_wf_def)

interpretation ChannelDecisionTbl: wf_entity ChannelDecisionEnt store_wf
  by unfold_locales (auto simp: store_wf_def)

interpretation ChannelDecisionVoteTbl: wf_entity ChannelDecisionVoteEnt store_wf
  by unfold_locales (auto simp: store_wf_def)

interpretation AgentRunTbl: wf_entity AgentRunEnt store_wf
  by unfold_locales (auto simp: store_wf_def)

interpretation AgentRunEventTbl: wf_entity AgentRunEventEnt store_wf
  by unfold_locales (auto simp: store_wf_def)

interpretation TunnelTbl: wf_entity TunnelEnt store_wf
  by unfold_locales (auto simp: store_wf_def)

lemmas store_keeps_wf =
  UserTbl.wf_keeps
  SessionTbl.wf_keeps
  InteractionEndpointTbl.wf_keeps
  IMChatAuthRequestTbl.wf_keeps
  IMChatSubscriptionTbl.wf_keeps
  ChannelTbl.wf_keeps
  ChannelMemberTbl.wf_keeps
  MessageTbl.wf_keeps
  OutboundDeliveryTbl.wf_keeps
  NotificationRouteTbl.wf_keeps
  SavedMessageTbl.wf_keeps
  ThreadReadStateTbl.wf_keeps
  TaskTbl.wf_keeps
  TaskAttemptTbl.wf_keeps
  CollaborationEventTbl.wf_keeps
  IdempotencyRecordTbl.wf_keeps
  ReminderTbl.wf_keeps
  ReminderEventTbl.wf_keeps
  ChannelDecisionTbl.wf_keeps
  ChannelDecisionVoteTbl.wf_keeps
  AgentRunTbl.wf_keeps
  AgentRunEventTbl.wf_keeps
  TunnelTbl.wf_keeps

end
