(* ===== verification/Store_Base.thy ===== *)
theory Store_Base
  imports Models
begin

text \<open>
  What the store operations share: the error values of \<^verbatim>\<open>internal/storage\<close>, the translation of
  errors of the generated client into them, the environment of the store (the parts of
  \<^verbatim>\<open>encoding/json\<close> and of the SQL dialect it relies on), and the JSON and string helpers of \<^verbatim>\<open>store.go\<close>.
\<close>

section \<open>Errors\<close>

datatype err =
    ErrConflict
  | ErrInProgress
  | ErrInvalidState
  | ErrNotFound
  | ErrInvalid
  | ErrEnt ent_err       \<comment> \<open>an error of the client passed on unchanged\<close>
  | ErrText string       \<comment> \<open>\<^verbatim>\<open>errors.New(text)\<close>\<close>

text \<open>The three patterns in which the store translates client errors.\<close>

definition plain :: "ent_err \<Rightarrow> err" where
  "plain e = ErrEnt e"

definition notFound :: "ent_err \<Rightarrow> err" where
  "notFound e = (if e = EntNotFound then ErrNotFound else ErrEnt e)"

definition conflict :: "ent_err \<Rightarrow> err" where
  "conflict e = (if e = EntConstraint then ErrConflict else ErrEnt e)"

definition notFoundOrConflict :: "ent_err \<Rightarrow> err" where
  "notFoundOrConflict e =
     (if e = EntNotFound then ErrNotFound else if e = EntConstraint then ErrConflict else ErrEnt e)"

definition through :: "(ent_err \<Rightarrow> err) \<Rightarrow> ('a \<Rightarrow> 'b) \<Rightarrow> ent_err + 'a \<Rightarrow> err + 'b" where
  "through h f r = (case r of Inl e \<Rightarrow> Inl (h e) | Inr x \<Rightarrow> Inr (f x))"

lemma through_simps [simp]:
  "through h f (Inl e) = Inl (h e)"
  "through h f (Inr x) = Inr (f x)"
  by (simp_all add: through_def)

lemma through_Inr_iff: "through h f r = Inr y \<longleftrightarrow> (\<exists>x. r = Inr x \<and> y = f x)"
  by (auto simp: through_def split: sum.splits)

lemma through_Inl_iff: "through h f r = Inl e \<longleftrightarrow> (\<exists>x. r = Inl x \<and> e = h x)"
  by (auto simp: through_def split: sum.splits)

lemmas err_defs = plain_def notFound_def conflict_def notFoundOrConflict_def

section \<open>The environment of the store\<close>

text \<open>
  \<open>enc_attachments\<close> and \<open>dec_attachments\<close> are \<^verbatim>\<open>json.Marshal\<close> and \<^verbatim>\<open>json.Unmarshal\<close> on attachment
  lists; \<open>contains_fold haystack needle\<close> is the case-insensitive match of the SQL dialect
  behind the \<^verbatim>\<open>ContainsFold\<close> predicates, \<open>like_prefix haystack prefix\<close> the one behind
  \<^verbatim>\<open>HasPrefix\<close> predicates (SQLite compares LIKE patterns without regard to case).
\<close>

record senv = env +
  enc_attachments :: "Attachment list \<Rightarrow> string"
  dec_attachments :: "string \<Rightarrow> Attachment list option"
  contains_fold :: "string \<Rightarrow> string \<Rightarrow> bool"
  like_prefix :: "string \<Rightarrow> string \<Rightarrow> bool"

type_synonym 'a op = "(store, err + 'a) action"

section \<open>JSON helpers\<close>

definition normalizeJSONDocument :: "'z env_scheme \<Rightarrow> string \<Rightarrow> string option" where
  "normalizeJSONDocument E raw =
     (let value = TrimSpace raw
      in if value = [] then Some ''{}'' else json_compact E value)"

definition compactJSON :: "'z env_scheme \<Rightarrow> string \<Rightarrow> string option" where
  "compactJSON E value = json_compact E value"

definition normalizeOptionalJSON :: "'z env_scheme \<Rightarrow> string \<Rightarrow> err + string" where
  "normalizeOptionalJSON E raw =
     (let value = TrimSpace raw
      in if value = [] then Inr []
         else case compactJSON E value of None \<Rightarrow> Inl ErrInvalid | Some c \<Rightarrow> Inr c)"

definition compactTargets :: "string list \<Rightarrow> string list" where
  "compactTargets values = clean_strings values"

section \<open>Normalized words\<close>

text \<open>
  \<^verbatim>\<open>strings.ToLower(strings.TrimSpace(s))\<close> is a fixed point of itself: lower-casing twice is lower-casing
  once and introduces no space. On ASCII text this is proved below; on other text it is what the
  Unicode tables of the standard library give, and a hypothesis on \<open>unicode_lower\<close>.
\<close>

definition lower_stable :: "'z env_scheme \<Rightarrow> bool" where
  "lower_stable E \<longleftrightarrow>
     (\<forall>s. ToLower E (TrimSpace (ToLower E (TrimSpace s))) = ToLower E (TrimSpace s))"

lemma lower_stableD [simp]:
  "lower_stable E \<Longrightarrow> ToLower E (TrimSpace (ToLower E (TrimSpace s))) = ToLower E (TrimSpace s)"
  by (simp add: lower_stable_def)

lemma lower_char_ascii: "is_ascii c \<Longrightarrow> is_ascii (lower_char c)"
  by (auto simp: is_ascii_def lower_char_def Let_def)

lemma lower_stableI:
  assumes "\<And>t. trimmed t \<Longrightarrow> \<not> list_all is_ascii t \<Longrightarrow>
     ToLower E (TrimSpace (unicode_lower E t)) = unicode_lower E t"
  shows "lower_stable E"
  unfolding lower_stable_def
proof
  fix s
  show "ToLower E (TrimSpace (ToLower E (TrimSpace s))) = ToLower E (TrimSpace s)"
  proof (cases "list_all is_ascii (TrimSpace s)")
    case True
    then have "list_all is_ascii (map lower_char (TrimSpace s))"
      by (auto simp: list_all_iff lower_char_ascii)
    with True show ?thesis
      by (simp add: ToLower_def TrimSpace_lower comp_def)
  next
    case False
    then show ?thesis
      using assms [OF trimmed_TrimSpace [of s] False] by (simp add: ToLower_def)
  qed
qed

section \<open>A concrete environment\<close>

text \<open>
  A deterministic environment without faults, on which the theorems with hypotheses on the
  environment are evaluated.
\<close>

definition demo_env :: senv where
  "demo_env =
     \<lparr>clock = (\<lambda>n. 1000 + int n), rand_hex = (\<lambda>n. replicate (Suc n) CHR ''a''),
      db_fault = (\<lambda>_. False), unicode_lower = (\<lambda>s. s), json_compact = Some,
      enc_attachments = (\<lambda>_. ''[]''), dec_attachments = (\<lambda>_. None),
      contains_fold = Contains, like_prefix = HasPrefix\<rparr>"

definition empty_store :: store where
  "empty_store =
     \<lparr>users = [], sessions = [], endpoints = [], authRequests = [], subscriptions = [],
      channels = [], channelMembers = [], messages = [], deliveries = [], routes = [],
      savedMessages = [], readStates = [], tasks = [], taskAttempts = [], collabEvents = [],
      idemRecords = [], reminders = [], reminderEvents = [], decisions = [], decisionVotes = [],
      agentRuns = [], agentRunEvents = [], tunnels = []\<rparr>"

definition world_of :: "'d \<Rightarrow> 'd world" where
  "world_of d = \<lparr>db = d, tick = 0, open_tx = 0\<rparr>"

lemma no_faults_demo [simp]: "no_faults demo_env"
  by (simp add: no_faults_def demo_env_def)

lemma lower_stable_demo [simp]: "lower_stable demo_env"
  by (rule lower_stableI) (simp add: demo_env_def trimmed_def ToLower_def)

lemma empty_store_wf [simp]: "store_wf empty_store"
  by (simp add: store_wf_def empty_store_def table_wf_def rows_free_def)

lemma world_of_simps [simp]:
  "db (world_of d) = d" "tick (world_of d) = 0" "open_tx (world_of d) = 0"
  by (simp_all add: world_of_def)

section \<open>Evaluation of operations\<close>

text \<open>The rules that run a whole operation symbolically.\<close>

lemmas run_ent = ent_create_def ent_only_def ent_get_def ent_all_def ent_first_def ent_count_def
  ent_update_one_def ent_update_where_def ent_delete_one_def ent_delete_where_def run_stmt Let_def

end
