(* ===== verification/Store_Events.thy ===== *)
theory Store_Events
  imports Store_Base
begin

text \<open>
  The collaboration event log and the idempotency records of \<^verbatim>\<open>internal/storage/store.go\<close>. The log
  gives every event of a server the next sequence number inside a transaction and retries when
  another writer took that number first.
\<close>

section \<open>Collaboration events\<close>

text \<open>The defaults filled in before the retry loop.\<close>

definition event_defaults :: "senv \<Rightarrow> CollaborationEvent \<Rightarrow> (store, CollaborationEvent) action" where
  "event_defaults E event = do {
     eid \<leftarrow> (if cev_EventID event = [] then newID E ''cev'' else ret (cev_EventID event));
     created \<leftarrow> (if cev_CreatedUnix event = 0 then unixNow E else ret (cev_CreatedUnix event));
     ret (event\<lparr>cev_EventID := eid, cev_CreatedUnix := created,
       cev_ProtocolVersion := (if cev_ProtocolVersion event = 0 then 1 else cev_ProtocolVersion event),
       cev_PayloadJSON := (if cev_PayloadJSON event = [] then ''{}'' else cev_PayloadJSON event),
       cev_ScopeID :=
         (if cev_ScopeID event = [] then firstNonEmpty [cev_AggregateID event, cev_Target event]
          else cev_ScopeID event)\<rparr>)
   }"

text \<open>
  One attempt: \<open>Some r\<close> is a return from the operation, \<^const>\<open>None\<close> is \<^verbatim>\<open>continue\<close> after a
  constraint error.
\<close>

definition append_attempt ::
  "senv \<Rightarrow> CollaborationEvent \<Rightarrow> (store, (err + CollaborationEvent) option) action" where
  "append_attempt E event = do {
     tx \<leftarrow> BeginTx E;
     case tx of
       Inl e \<Rightarrow> ret (Some (Inl (ErrEnt e)))
     | Inr snap \<Rightarrow> do {
         lastRow \<leftarrow> ent_first E CollaborationEventEnt (\<lambda>r. cev_ServerID r = cev_ServerID event)
                   (order_desc cev_Sequence);
         let next = (case lastRow of
             Inr l \<Rightarrow> Inr (cev_Sequence l + 1)
           | Inl e \<Rightarrow> if e = EntNotFound then Inr 1 else Inl e);
         case next of
           Inl e \<Rightarrow> rollback_with snap (Some (Inl (ErrEnt e)))
         | Inr sequence \<Rightarrow> do {
             i \<leftarrow> newID E ''cev'';
             row \<leftarrow> ent_create E CollaborationEventEnt
               (event\<lparr>cev_ID := i, cev_Sequence := sequence\<rparr>);
             case row of
               Inl e \<Rightarrow> rollback_with snap
                 (if e = EntConstraint then None else Some (Inl (ErrEnt e)))
             | Inr r \<Rightarrow> do {
                 done \<leftarrow> Commit E snap;
                 ret (Some (through plain (\<lambda>_. collaborationEventFromEnt r) done))
               }
           }
       }
   }"

fun append_loop ::
  "senv \<Rightarrow> nat \<Rightarrow> CollaborationEvent \<Rightarrow> CollaborationEvent op" where
  "append_loop E 0 event = ret (Inl ErrConflict)"
| "append_loop E (Suc n) event = do {
     r \<leftarrow> append_attempt E event;
     case r of Some out \<Rightarrow> ret out | None \<Rightarrow> append_loop E n event
   }"

definition AppendCollaborationEvent :: "senv \<Rightarrow> CollaborationEvent \<Rightarrow> CollaborationEvent op" where
  "AppendCollaborationEvent E event =
     (if cev_ServerID event = [] then ret (Inl (ErrText ''server_id is required''))
      else do {
        ev \<leftarrow> event_defaults E event;
        append_loop E 5 ev
      })"

definition ListCollaborationEvents ::
  "senv \<Rightarrow> string \<Rightarrow> string \<Rightarrow> string \<Rightarrow> int \<Rightarrow> int \<Rightarrow> CollaborationEvent list op" where
  "ListCollaborationEvents E serverID target aggregateID afterSequence limit0 =
     (let limit = clamp_limit 200 100 limit0
      in do {
        rows \<leftarrow> ent_all E CollaborationEventEnt
          (\<lambda>r. cev_ServerID r = serverID \<and> afterSequence < cev_Sequence r \<and>
               (target \<noteq> [] \<longrightarrow> cev_Target r = target) \<and>
               (aggregateID \<noteq> [] \<longrightarrow> cev_AggregateID r = aggregateID))
          (\<lambda>rs. take limit (order_asc cev_Sequence rs));
        ret (through plain (map collaborationEventFromEnt) rows)
      })"

definition ListRecentCollaborationEvents ::
  "senv \<Rightarrow> string \<Rightarrow> string \<Rightarrow> string \<Rightarrow> int \<Rightarrow> CollaborationEvent list op" where
  "ListRecentCollaborationEvents E serverID target kind limit0 =
     (let limit = clamp_limit 200 100 limit0
      in do {
        rows \<leftarrow> ent_all E CollaborationEventEnt
          (\<lambda>r. cev_ServerID r = serverID \<and>
               (target \<noteq> [] \<longrightarrow> cev_Target r = target) \<and> (kind \<noteq> [] \<longrightarrow> cev_Kind r = kind))
          (\<lambda>rs. take limit (order_desc cev_Sequence rs));
        ret (through plain (map collaborationEventFromEnt) rows)
      })"

section \<open>Idempotency records\<close>

definition same_key :: "string \<Rightarrow> string \<Rightarrow> string \<Rightarrow> string \<Rightarrow> IdempotencyRecord \<Rightarrow> bool" where
  "same_key scope meth actorID key r \<longleftrightarrow>
     idem_Scope r = scope \<and> idem_Method r = meth \<and> idem_ActorID r = actorID \<and>
     idem_IdempotencyKey r = key"

definition GetIdempotencyRecord ::
  "senv \<Rightarrow> string \<Rightarrow> string \<Rightarrow> string \<Rightarrow> string \<Rightarrow> IdempotencyRecord op" where
  "GetIdempotencyRecord E scope meth actorID key = do {
     row \<leftarrow> ent_only E IdempotencyRecordEnt (same_key scope meth actorID key);
     ret (through notFound idempotencyRecordFromEnt row)
   }"

text \<open>The boolean says whether this call made the reservation.\<close>

definition ReserveIdempotencyRecord ::
  "senv \<Rightarrow> IdempotencyRecord \<Rightarrow> (IdempotencyRecord \<times> bool) op" where
  "ReserveIdempotencyRecord E record0 = do {
     now \<leftarrow> unixNow E;
     i \<leftarrow> newID E ''idem'';
     row \<leftarrow> ent_create E IdempotencyRecordEnt
       (record0\<lparr>idem_ID := i,
          idem_CreatedUnix := (if idem_CreatedUnix record0 = 0 then now else idem_CreatedUnix record0),
          idem_ExpiresUnix :=
            (if idem_ExpiresUnix record0 = 0 then now + 86400 else idem_ExpiresUnix record0),
          idem_Status := (if idem_Status record0 = [] then ''pending'' else idem_Status record0)\<rparr>);
     case row of
       Inr r \<Rightarrow> ret (Inr (idempotencyRecordFromEnt r, True))
     | Inl e \<Rightarrow>
         if e = EntConstraint then do {
           existing \<leftarrow> GetIdempotencyRecord E (idem_Scope record0) (idem_Method record0)
                        (idem_ActorID record0) (idem_IdempotencyKey record0);
           ret (case existing of Inl ge \<Rightarrow> Inl ge | Inr x \<Rightarrow> Inr (x, False))
         }
         else ret (Inl (ErrEnt e))
   }"

definition CompleteIdempotencyRecord :: "senv \<Rightarrow> IdempotencyRecord \<Rightarrow> unit op" where
  "CompleteIdempotencyRecord E record0 = do {
     affected \<leftarrow> ent_update_where E IdempotencyRecordEnt True
       (same_key (idem_Scope record0) (idem_Method record0) (idem_ActorID record0)
          (idem_IdempotencyKey record0))
       (\<lambda>r. r\<lparr>idem_RequestHash := idem_RequestHash record0,
          idem_ResponseType := idem_ResponseType record0,
          idem_ResponseJSON := idem_ResponseJSON record0,
          idem_ResourceType := idem_ResourceType record0,
          idem_ResourceID := idem_ResourceID record0, idem_Status := ''completed''\<rparr>);
     ret (case affected of
            Inl e \<Rightarrow> Inl (ErrEnt e)
          | Inr n \<Rightarrow> if n = 0 then Inl ErrNotFound else Inr ())
   }"

section \<open>Well-formedness\<close>

lemma append_attempt_wf: "keeps (on_db store_wf) (append_attempt E ev)"
  unfolding append_attempt_def Let_def
  by (intro keeps_tx keeps_rules store_keeps_wf; (assumption | simp add: keeps_return)?)

lemma append_loop_wf: "keeps (on_db store_wf) (append_loop E n ev)"
  by (induction n) (auto intro!: keeps_rules append_attempt_wf)

lemma AppendCollaborationEvent_wf: "keeps (on_db store_wf) (AppendCollaborationEvent E ev)"
  unfolding AppendCollaborationEvent_def event_defaults_def
  by (intro keeps_rules append_loop_wf)

lemma ReserveIdempotencyRecord_wf: "keeps (on_db store_wf) (ReserveIdempotencyRecord E r)"
  unfolding ReserveIdempotencyRecord_def GetIdempotencyRecord_def
  by (intro keeps_rules store_keeps_wf)

lemma CompleteIdempotencyRecord_wf: "keeps (on_db store_wf) (CompleteIdempotencyRecord E r)"
  unfolding CompleteIdempotencyRecord_def
  by (intro keeps_rules store_keeps_wf) (auto simp: IdempotencyRecordEnt_def)

section \<open>The log has no gaps\<close>

definition server_log :: "store \<Rightarrow> string \<Rightarrow> CollaborationEvent list" where
  "server_log d s = filter (\<lambda>r. cev_ServerID r = s) (collabEvents d)"

text \<open>Read in the order of insertion, the sequence numbers of every server are 1, 2, 3 and so on.\<close>

definition log_ok :: "store \<Rightarrow> bool" where
  "log_ok d \<longleftrightarrow>
     (\<forall>s. map cev_Sequence (server_log d s) = map int [1..<Suc (length (server_log d s))])"

lemma log_okD:
  "log_ok d \<Longrightarrow> map cev_Sequence (server_log d s) = map int [1..<Suc (length (server_log d s))]"
  by (simp add: log_ok_def)

lemma log_ok_set:
  "log_ok d \<Longrightarrow> cev_Sequence ` set (server_log d s) = int ` {1..length (server_log d s)}"
  using arg_cong [OF log_okD [of d s], of set] by (simp add: atLeastLessThanSuc_atLeastAtMost del: upt_Suc)

lemma log_next:
  assumes "log_ok d" and "order_desc cev_Sequence (server_log d s) = l # ls"
  shows "cev_Sequence l = int (length (server_log d s))"
proof -
  let ?n = "length (server_log d s)"
  have l: "l \<in> set (server_log d s)" and max: "\<forall>q \<in> set (server_log d s). cev_Sequence q \<le> cev_Sequence l"
    using order_desc_head [OF assms(2)] by auto
  then have "?n \<in> {1..?n}" by (cases "server_log d s") auto
  then have "int ?n \<in> cev_Sequence ` set (server_log d s)"
    unfolding log_ok_set [OF assms(1)] by (rule imageI)
  then have "int ?n \<le> cev_Sequence l" using max by auto
  moreover have "cev_Sequence l \<le> int ?n"
    using l log_ok_set [OF assms(1), of s] by (metis (no_types, lifting) atLeastAtMost_iff image_iff of_nat_le_iff)
  ultimately show ?thesis by simp
qed

lemma log_ok_append:
  assumes "log_ok d" and "cev_Sequence e = int (Suc (length (server_log d (cev_ServerID e))))"
  shows "log_ok (d\<lparr>collabEvents := collabEvents d @ [e]\<rparr>)"
proof -
  have "map cev_Sequence (server_log (d\<lparr>collabEvents := collabEvents d @ [e]\<rparr>) s) =
     map int [1..<Suc (length (server_log (d\<lparr>collabEvents := collabEvents d @ [e]\<rparr>) s))]" for s
    using log_okD [OF assms(1), of s] assms(2) by (simp add: server_log_def)
  then show ?thesis unfolding log_ok_def by blast
qed

lemma append_attempt_run:
  assumes "log_ok (db w)" and "run_state (append_attempt E ev) w = (r, w')"
  shows "open_tx w' = open_tx w \<and>
     (case r of
        Some (Inr e) \<Rightarrow> db w' = (db w)\<lparr>collabEvents := collabEvents (db w) @ [e]\<rparr> \<and>
          cev_Sequence e = int (Suc (length (server_log (db w) (cev_ServerID ev)))) \<and>
          e\<lparr>cev_ID := [], cev_Sequence := 0\<rparr> = ev\<lparr>cev_ID := [], cev_Sequence := 0\<rparr>
      | _ \<Rightarrow> db w' = db w)"
  using assms(2) unfolding append_attempt_def Let_def
  by (elim run_elims)
    (auto simp: through_Inr_iff CollaborationEventEnt_def server_log_def [symmetric]
      log_next [OF assms(1)] dest!: run_dests split: sum.splits if_splits)

text \<open>What an append leaves behind, for the outcome \<open>out\<close>.\<close>

definition appended ::
  "store \<Rightarrow> CollaborationEvent \<Rightarrow> err + CollaborationEvent \<Rightarrow> store \<Rightarrow> bool" where
  "appended d ev out d' \<longleftrightarrow>
     (case out of
        Inl _ \<Rightarrow> d' = d
      | Inr e \<Rightarrow> d' = d\<lparr>collabEvents := collabEvents d @ [e]\<rparr> \<and>
          cev_Sequence e = int (Suc (length (server_log d (cev_ServerID ev)))) \<and>
          e\<lparr>cev_ID := [], cev_Sequence := 0\<rparr> = ev\<lparr>cev_ID := [], cev_Sequence := 0\<rparr>)"

lemma append_loop_run:
  assumes "log_ok (db w)" and "run_state (append_loop E n ev) w = (out, w')"
  shows "open_tx w' = open_tx w \<and> appended (db w) ev out (db w')"
  using assms
proof (induction n arbitrary: w)
  case (Suc n)
  obtain r w1 where r: "run_state (append_attempt E ev) w = (r, w1)" by fastforce
  note a = append_attempt_run [OF Suc.prems(1) r]
  show ?case
  proof (cases r)
    case None
    with a r Suc.prems Suc.IH [of w1] show ?thesis by simp
  next
    case (Some o)
    with a r Suc.prems(2) show ?thesis by (simp add: appended_def split: sum.splits)
  qed
qed (auto simp: appended_def)

lemma event_defaults_run:
  "run_state (event_defaults E ev) w = (e, w') \<Longrightarrow>
     db w' = db w \<and> open_tx w' = open_tx w \<and> cev_ServerID e = cev_ServerID ev"
  unfolding event_defaults_def by (elim run_elims) (auto dest!: run_reads)

lemma AppendCollaborationEvent_run:
  assumes "log_ok (db w)" and "run_state (AppendCollaborationEvent E ev) w = (out, w')"
  shows "open_tx w' = open_tx w \<and>
     (\<exists>e. cev_ServerID e = cev_ServerID ev \<and> appended (db w) e out (db w'))"
  using assms(2) unfolding AppendCollaborationEvent_def
proof (elim run_elims)
  fix e w1
  assume d: "run_state (event_defaults E ev) w = (e, w1)"
    and l: "run_state (append_loop E 5 e) w1 = (out, w')"
  from event_defaults_run [OF d] have "db w1 = db w" "open_tx w1 = open_tx w"
    "cev_ServerID e = cev_ServerID ev" by auto
  with append_loop_run [OF _ l] assms(1) show ?thesis by auto
qed (auto simp: appended_def)

lemma appended_log_ok: "log_ok d \<Longrightarrow> appended d ev out d' \<Longrightarrow> log_ok d'"
proof -
  assume ok: "log_ok d" and app: "appended d ev out d'"
  show ?thesis
  proof (cases out)
    case (Inr e)
    with app have "cev_ServerID e = cev_ServerID ev"
      by (auto simp: appended_def dest!: arg_cong [where f = cev_ServerID])
    with app Inr ok log_ok_append [of d e] show ?thesis by (simp add: appended_def)
  qed (use ok app in \<open>simp add: appended_def\<close>)
qed

lemma AppendCollaborationEvent_ok: "keeps (on_db log_ok) (AppendCollaborationEvent E ev)"
  using AppendCollaborationEvent_run appended_log_ok by (metis keepsI prod.collapse)

text \<open>
  C2: whatever the faults and however often the append is retried, an append either
  reports an error and changes nothing, or adds exactly the event it returns, at the end of the log,
  with the sequence number that follows the last one of its server; so the numbers of every server
  stay 1, 2, 3 and so on. No transaction stays open.
\<close>

theorem event_log_gap_free:
  assumes "log_ok (db w)" and "run_state (AppendCollaborationEvent E ev) w = (out, w')"
  shows "log_ok (db w') \<and> open_tx w' = open_tx w \<and>
     (case out of
        Inl _ \<Rightarrow> db w' = db w
      | Inr e \<Rightarrow> collabEvents (db w') = collabEvents (db w) @ [e] \<and>
          cev_ServerID e = cev_ServerID ev \<and>
          cev_Sequence e = int (Suc (length (server_log (db w) (cev_ServerID ev)))))"
proof -
  from AppendCollaborationEvent_run [OF assms] obtain e where
    e: "open_tx w' = open_tx w" "cev_ServerID e = cev_ServerID ev" "appended (db w) e out (db w')"
    by blast
  then show ?thesis
    using appended_log_ok [OF assms(1) e(3)]
    by (auto simp: appended_def split: sum.splits dest!: arg_cong [where f = cev_ServerID])
qed

section \<open>Reading the log in pages\<close>

lemma server_log_filter:
  "filter (\<lambda>r. cev_ServerID r = s \<and> P r) (collabEvents d) = filter P (server_log d s)"
  by (simp add: server_log_def conj_commute)

lemma log_page:
  assumes "log_ok d"
  shows "map cev_Sequence (filter (\<lambda>r. int a < cev_Sequence r) (server_log d s)) =
     map int [Suc a..<Suc (length (server_log d s))]"
proof -
  have "map cev_Sequence (filter (\<lambda>r. int a < cev_Sequence r) (server_log d s)) =
     filter (\<lambda>x. int a < x) (map int [1..<Suc (length (server_log d s))])"
    using log_okD [OF assms, of s] by (metis (no_types, lifting) filter_cong filter_map comp_def)
  also have "\<dots> = map int (filter (\<lambda>k. a < k) [1..<Suc (length (server_log d s))])"
    by (simp add: filter_map comp_def del: upt_Suc)
  also have "filter (\<lambda>k. a < k) [1..<Suc m] = [Suc a..<Suc m]" for m
    by (induction m) auto
  finally show ?thesis .
qed

text \<open>
  C17: reading the events of a server after sequence number \<open>a\<close> with a limit
  returns exactly the events numbered \<open>a + 1\<close> up to the limit or the end of the log, in order: a
  reader that asks again from the last number it saw misses no event and sees none twice.
\<close>

theorem event_page_exact:
  assumes "log_ok (db w)" and "no_faults E"
  shows "\<exists>es. result_of (ListCollaborationEvents E s [] [] (int a) limit) w = Inr es \<and>
     set es \<subseteq> set (server_log (db w) s) \<and>
     map cev_Sequence es = map int
       [Suc a..<Suc (min (length (server_log (db w) s)) (a + clamp_limit 200 100 limit))]"
proof -
  let ?n = "clamp_limit 200 100 limit" and ?rows = "filter (\<lambda>r. int a < cev_Sequence r) (server_log (db w) s)"
  let ?len = "length (server_log (db w) s)"
  have seq: "map cev_Sequence ?rows = map int [Suc a..<Suc ?len]" by (rule log_page [OF assms(1)])
  have "sorted (map cev_Sequence ?rows)"
    unfolding seq by (simp add: sorted_map del: upt_Suc)
  then have sorted: "order_asc cev_Sequence ?rows = ?rows"
    by (simp add: order_asc_def sort_key_id_if_sorted)
  have "result_of (ListCollaborationEvents E s [] [] (int a) limit) w = Inr (take ?n ?rows)"
    using assms(2) sorted
    by (simp add: ListCollaborationEvents_def run_ent map_idI server_log_filter
        CollaborationEventEnt_def)
  moreover have "map cev_Sequence (take ?n ?rows) = map int [Suc a..<Suc (min ?len (a + ?n))]"
  proof -
    have "take ?n [Suc a..<Suc ?len] = [Suc a..<Suc (min ?len (a + ?n))]"
      by (cases "?len \<le> a + ?n") (simp_all add: min_def take_upt del: upt_Suc)
    then show ?thesis using seq by (metis take_map)
  qed
  moreover have "set (take ?n ?rows) \<subseteq> set (server_log (db w) s)"
    by (auto dest: in_set_takeD)
  ultimately show ?thesis by blast
qed

section \<open>Concrete logs\<close>

definition demo_event :: CollaborationEvent where
  "demo_event =
     \<lparr>cev_ID = [], cev_ServerID = ''s1'', cev_Sequence = 0, cev_EventID = [], cev_Target = ''#dev'',
      cev_AggregateID = [], cev_Kind = ''message'', cev_Operation = ''created'', cev_ScopeType = [],
      cev_ScopeID = [], cev_WorkspaceID = [], cev_ActivityID = [], cev_PayloadJSON = [],
      cev_CreatedUnix = 0, cev_ProtocolVersion = 0\<rparr>"

definition log_world :: "nat \<Rightarrow> store world" where
  "log_world n = (after (AppendCollaborationEvent demo_env demo_event) ^^ n) (world_of empty_store)"

lemma log_world_ok: "log_ok (db (log_world n))"
proof (induction n)
  case 0
  show ?case by (simp add: log_world_def log_ok_def server_log_def empty_store_def)
next
  case (Suc n)
  then show ?case using keepsD [OF AppendCollaborationEvent_ok] by (simp add: log_world_def)
qed

definition third_append :: "(err + CollaborationEvent) \<times> store world" where
  "third_append = run_state (AppendCollaborationEvent demo_env demo_event) (log_world 2)"

theorem event_log_gap_free_witness:
  "(\<exists>e. fst third_append = Inr e \<and> cev_Sequence e = 3) \<and> log_ok (db (snd third_append))"
proof -
  have "\<not> isl (fst third_append) \<and> length (server_log (db (log_world 2)) ''s1'') = 2"
    by code_simp
  moreover have "cev_ServerID demo_event = ''s1''" by (simp add: demo_event_def)
  moreover have "run_state (AppendCollaborationEvent demo_env demo_event) (log_world 2) =
      (fst third_append, snd third_append)"
    by (simp add: third_append_def)
  note event_log_gap_free [OF log_world_ok this]
  ultimately show ?thesis by (cases "fst third_append") auto
qed

theorem event_page_exact_witness:
  "\<exists>es. result_of (ListCollaborationEvents demo_env ''s1'' [] [] 1 1) (log_world 2) = Inr es \<and>
     map cev_Sequence es = [2]"
proof -
  have "length (server_log (db (log_world 2)) ''s1'') = 2" by code_simp
  then show ?thesis
    using event_page_exact [OF log_world_ok [of 2] no_faults_demo, of "''s1''" 1 1]
    by (auto simp: clamp_limit_def)
qed

section \<open>Idempotency keys are reserved once\<close>

definition key_taken :: "string \<Rightarrow> string \<Rightarrow> string \<Rightarrow> string \<Rightarrow> store \<Rightarrow> bool" where
  "key_taken scope meth actorID key d \<longleftrightarrow> list_ex (same_key scope meth actorID key) (idemRecords d)"

lemma key_taken_create:
  "keeps (on_db (key_taken s m a k)) (ent_create E IdempotencyRecordEnt r)"
  by (rule keeps_ent_create) (simp add: key_taken_def IdempotencyRecordEnt_def)

lemma ReserveIdempotencyRecord_taken:
  "keeps (on_db (key_taken s m a k)) (ReserveIdempotencyRecord E r)"
  unfolding ReserveIdempotencyRecord_def GetIdempotencyRecord_def
  by (intro keeps_rules key_taken_create)

lemma CompleteIdempotencyRecord_taken:
  "keeps (on_db (key_taken s m a k)) (CompleteIdempotencyRecord E r)"
  unfolding CompleteIdempotencyRecord_def
  by (intro keeps_rules keeps_ent_update_where)
    (auto simp: key_taken_def IdempotencyRecordEnt_def same_key_def intro!: list_ex_map_rows)

text \<open>Any interleaving of reservations and completions, of any records and under any environments.\<close>

inductive idem_step :: "store world \<Rightarrow> store world \<Rightarrow> bool" where
  reserve: "idem_step w (after (ReserveIdempotencyRecord E r) w)"
| complete: "idem_step w (after (CompleteIdempotencyRecord E r) w)"

lemma idem_steps_taken:
  "idem_step\<^sup>*\<^sup>* w w' \<Longrightarrow> key_taken s m a k (db w) \<Longrightarrow> key_taken s m a k (db w')"
proof (induction rule: rtranclp_induct)
  case (step y z)
  from step.hyps(2) step.IH [OF step.prems] show ?case
    by cases (use keepsD [OF ReserveIdempotencyRecord_taken] keepsD [OF CompleteIdempotencyRecord_taken] in blast)+
qed

lemma clash_not_taken:
  assumes "\<not> list_ex (clash IdempotencyRecordEnt r) (idemRecords d)"
  shows "\<not> key_taken (idem_Scope r) (idem_Method r) (idem_ActorID r) (idem_IdempotencyKey r) d"
  using assms by (auto simp: key_taken_def list_ex_iff same_key_def clash_def IdempotencyRecordEnt_def)

lemma taken_append:
  "idem_Scope r = s \<Longrightarrow> idem_Method r = m \<Longrightarrow> idem_ActorID r = a \<Longrightarrow> idem_IdempotencyKey r = k \<Longrightarrow>
     key_taken s m a k (d\<lparr>idemRecords := rows @ [r]\<rparr>)"
  by (simp add: key_taken_def same_key_def)

lemma reserve_run:
  assumes "run_state (ReserveIdempotencyRecord E r) w = (Inr (x, fresh), w')"
  shows "if fresh then \<not> key_taken (idem_Scope r) (idem_Method r) (idem_ActorID r)
           (idem_IdempotencyKey r) (db w) \<and>
         key_taken (idem_Scope r) (idem_Method r) (idem_ActorID r) (idem_IdempotencyKey r) (db w')
       else x \<in> set (idemRecords (db w)) \<and>
         same_key (idem_Scope r) (idem_Method r) (idem_ActorID r) (idem_IdempotencyKey r) x"
  using assms unfolding ReserveIdempotencyRecord_def GetIdempotencyRecord_def
  by (elim run_elims)
    (auto simp: through_Inr_iff taken_append dest!: run_dests filter_singletonD clash_not_taken
      split: sum.splits)

text \<open>
  Once a call has reserved an idempotency key, no later reservation of the
  same key is reported as fresh, after any number of other reservations and completions and under any
  faults; a later call that returns a record returns one stored under that key.
\<close>

theorem idempotency_reserved_once:
  assumes "run_state (ReserveIdempotencyRecord E r) w = (Inr (x, True), w1)"
    and "idem_step\<^sup>*\<^sup>* w1 w2"
    and "run_state (ReserveIdempotencyRecord E' q) w2 = (Inr (y, fresh), w3)"
    and "idem_Scope q = idem_Scope r" and "idem_Method q = idem_Method r"
    and "idem_ActorID q = idem_ActorID r" and "idem_IdempotencyKey q = idem_IdempotencyKey r"
  shows "\<not> fresh \<and> y \<in> set (idemRecords (db w2)) \<and>
     same_key (idem_Scope r) (idem_Method r) (idem_ActorID r) (idem_IdempotencyKey r) y"
proof -
  let ?t = "key_taken (idem_Scope r) (idem_Method r) (idem_ActorID r) (idem_IdempotencyKey r)"
  have "?t (db w1)" using reserve_run [OF assms(1)] by simp
  with assms(2) have "?t (db w2)" by (rule idem_steps_taken)
  with reserve_run [OF assms(3)] assms(4-7) show ?thesis by (simp split: if_splits)
qed

definition demo_idem :: IdempotencyRecord where
  "demo_idem =
     \<lparr>idem_ID = [], idem_Scope = ''channel'', idem_Method = ''send'', idem_ActorID = ''u1'',
      idem_IdempotencyKey = ''k1'', idem_RequestHash = [], idem_ResponseType = [],
      idem_ResponseJSON = [], idem_ResourceType = [], idem_ResourceID = [], idem_Status = [],
      idem_CreatedUnix = 0, idem_ExpiresUnix = 0\<rparr>"

definition first_reserve :: "(err + IdempotencyRecord \<times> bool) \<times> store world" where
  "first_reserve = run_state (ReserveIdempotencyRecord demo_env demo_idem) (world_of empty_store)"

definition second_reserve :: "(err + IdempotencyRecord \<times> bool) \<times> store world" where
  "second_reserve = run_state (ReserveIdempotencyRecord demo_env demo_idem) (snd first_reserve)"

theorem idempotency_reserved_once_witness:
  "snd (projr (fst first_reserve)) \<and> \<not> snd (projr (fst second_reserve))"
proof -
  have ok: "\<not> isl (fst first_reserve) \<and> snd (projr (fst first_reserve)) \<and> \<not> isl (fst second_reserve)"
    by code_simp
  then obtain x y fresh where xy: "fst first_reserve = Inr (x, True)" "fst second_reserve = Inr (y, fresh)"
    by (cases "fst first_reserve"; cases "fst second_reserve") auto
  have 1: "run_state (ReserveIdempotencyRecord demo_env demo_idem) (world_of empty_store) =
      (Inr (x, True), snd first_reserve)"
    using xy(1) unfolding first_reserve_def by (simp add: prod_eq_iff)
  have 2: "run_state (ReserveIdempotencyRecord demo_env demo_idem) (snd first_reserve) =
      (Inr (y, fresh), snd second_reserve)"
    using xy(2) unfolding second_reserve_def by (simp add: prod_eq_iff)
  show ?thesis using idempotency_reserved_once [OF 1 rtranclp.rtrancl_refl 2] xy by simp
qed

end
