(* ===== verification/Store_Users.thy ===== *)
theory Store_Users
  imports Store_Events
begin

text \<open>
  Users, sessions and the first-administrator bootstrap of \<^verbatim>\<open>internal/storage/store.go\<close>.
\<close>

section \<open>Users and sessions\<close>

definition CountUsers :: "senv \<Rightarrow> nat op" where
  "CountUsers E = do {
     n \<leftarrow> ent_count E UserEnt (\<lambda>_. True);
     ret (through plain (\<lambda>n. n) n)
   }"

definition is_bootstrap_key :: "IdempotencyRecord \<Rightarrow> bool" where
  "is_bootstrap_key r \<longleftrightarrow>
     idem_Scope r = ''server'' \<and> idem_Method r = ''bootstrap'' \<and> idem_IdempotencyKey r = ''first_admin''"

definition IsInitialized :: "senv \<Rightarrow> bool op" where
  "IsInitialized E = do {
     count \<leftarrow> CountUsers E;
     case count of
       Inl e \<Rightarrow> ret (Inl e)
     | Inr n \<Rightarrow>
         if 0 < n then ret (Inr True)
         else do {
           row \<leftarrow> ent_only E IdempotencyRecordEnt is_bootstrap_key;
           ret (case row of
                  Inl e \<Rightarrow> if e = EntNotFound then Inr False else Inl (ErrEnt e)
                | Inr _ \<Rightarrow> Inr True)
         }
   }"

definition CreateUser :: "senv \<Rightarrow> User \<Rightarrow> User op" where
  "CreateUser E userModel = do {
     now \<leftarrow> unixNow E;
     let role = (if usr_Role userModel = [] then ''member'' else usr_Role userModel);
     i \<leftarrow> defaultID E ''usr'' (usr_ID userModel);
     row \<leftarrow> ent_create E UserEnt
       (userModel\<lparr>usr_ID := i, usr_Role := role, usr_CreatedUnix := now, usr_UpdatedUnix := now\<rparr>);
     ret (through conflict userFromEnt row)
   }"

text \<open>
  The bootstrap transaction: reserve the \<^verbatim>\<open>first_admin\<close> key, require an empty user table, insert.
\<close>

definition CreateFirstAdmin :: "senv \<Rightarrow> User \<Rightarrow> User op" where
  "CreateFirstAdmin E userModel = do {
     now \<leftarrow> unixNow E;
     tx \<leftarrow> BeginTx E;
     case tx of
       Inl e \<Rightarrow> ret (Inl (ErrEnt e))
     | Inr snap \<Rightarrow> do {
         ri \<leftarrow> newID E ''idem'';
         reserved \<leftarrow> ent_create E IdempotencyRecordEnt
           \<lparr>idem_ID = ri, idem_Scope = ''server'', idem_Method = ''bootstrap'', idem_ActorID = [],
            idem_IdempotencyKey = ''first_admin'', idem_RequestHash = [], idem_ResponseType = [],
            idem_ResponseJSON = ''{}'', idem_ResourceType = [], idem_ResourceID = [],
            idem_Status = ''completed'', idem_CreatedUnix = now, idem_ExpiresUnix = 0\<rparr>;
         case reserved of
           Inl e \<Rightarrow> rollback_with snap (Inl (conflict e))
         | Inr _ \<Rightarrow> do {
             count \<leftarrow> ent_count E UserEnt (\<lambda>_. True);
             case count of
               Inl e \<Rightarrow> rollback_with snap (Inl (ErrEnt e))
             | Inr n \<Rightarrow>
                 if n \<noteq> 0 then rollback_with snap (Inl ErrConflict)
                 else do {
                   let role = (if usr_Role userModel = [] then ''admin'' else usr_Role userModel);
                   i \<leftarrow> newID E ''usr'';
                   row \<leftarrow> ent_create E UserEnt
                     (userModel\<lparr>usr_ID := i, usr_Role := role, usr_CreatedUnix := now,
                       usr_UpdatedUnix := now\<rparr>);
                   case row of
                     Inl e \<Rightarrow> rollback_with snap (Inl (conflict e))
                   | Inr r \<Rightarrow> do {
                       done \<leftarrow> Commit E snap;
                       ret (through plain (\<lambda>_. userFromEnt r) done)
                     }
                 }
           }
       }
   }"

definition GetUser :: "senv \<Rightarrow> string \<Rightarrow> User op" where
  "GetUser E i = do {
     row \<leftarrow> ent_only E UserEnt (\<lambda>r. usr_ID r = i);
     ret (through notFound userFromEnt row)
   }"

definition GetUserByUsername :: "senv \<Rightarrow> string \<Rightarrow> User op" where
  "GetUserByUsername E username = do {
     row \<leftarrow> ent_only E UserEnt (\<lambda>r. usr_Username r = username);
     ret (through notFound userFromEnt row)
   }"

definition CreateSession :: "senv \<Rightarrow> Session \<Rightarrow> Session op" where
  "CreateSession E sessionModel = do {
     now \<leftarrow> unixNow E;
     i \<leftarrow> defaultID E ''ses'' (ses_ID sessionModel);
     row \<leftarrow> ent_create E SessionEnt (sessionModel\<lparr>ses_ID := i, ses_CreatedUnix := now\<rparr>);
     ret (through plain sessionFromEnt row)
   }"

definition DeleteSession :: "senv \<Rightarrow> string \<Rightarrow> unit op" where
  "DeleteSession E i = do {
     r \<leftarrow> ent_delete_one E SessionEnt i;
     ret (through plain (\<lambda>_. ()) r)
   }"

definition GetSessionByTokenHash :: "senv \<Rightarrow> string \<Rightarrow> Session op" where
  "GetSessionByTokenHash E tokenHash = do {
     row \<leftarrow> ent_only E SessionEnt (\<lambda>r. ses_TokenHash r = tokenHash);
     case row of
       Inl e \<Rightarrow> ret (Inl (notFound e))
     | Inr r \<Rightarrow> do {
         now \<leftarrow> unixNow E;
         if ses_ExpiresUnix r \<le> now then do {
           _ \<leftarrow> DeleteSession E (ses_ID r);
           ret (Inl ErrNotFound)
         }
         else ret (Inr (sessionFromEnt r))
       }
   }"

section \<open>Well-formedness\<close>

lemma CreateUser_wf: "keeps (on_db store_wf) (CreateUser E u)"
  unfolding CreateUser_def Let_def by (intro keeps_rules store_keeps_wf)

lemma CreateFirstAdmin_wf: "keeps (on_db store_wf) (CreateFirstAdmin E u)"
  unfolding CreateFirstAdmin_def Let_def
  by (intro keeps_tx keeps_rules store_keeps_wf; (assumption | simp add: keeps_return)?)

lemma CreateSession_wf: "keeps (on_db store_wf) (CreateSession E s)"
  unfolding CreateSession_def by (intro keeps_rules store_keeps_wf)

lemma DeleteSession_wf: "keeps (on_db store_wf) (DeleteSession E i)"
  unfolding DeleteSession_def by (intro keeps_rules store_keeps_wf)

lemma GetSessionByTokenHash_wf: "keeps (on_db store_wf) (GetSessionByTokenHash E h)"
  unfolding GetSessionByTokenHash_def by (intro keeps_rules DeleteSession_wf)

section \<open>The first administrator\<close>

abbreviation bootstrap_taken :: "store \<Rightarrow> bool" where
  "bootstrap_taken \<equiv> key_taken ''server'' ''bootstrap'' [] ''first_admin''"

lemma key_taken_frame [simp]:
  "key_taken s m a k (users_update f d) = key_taken s m a k d"
  "key_taken s m a k (sessions_update g d) = key_taken s m a k d"
  by (simp_all add: key_taken_def)

text \<open>The bootstrap transaction: all of it or nothing, and only while the key is free.\<close>

lemma CreateFirstAdmin_run:
  assumes "run_state (CreateFirstAdmin E u) w = (out, w')"
  shows "open_tx w' = open_tx w \<and>
     (case out of
        Inl _ \<Rightarrow> db w' = db w
      | Inr a \<Rightarrow> \<not> bootstrap_taken (db w) \<and> bootstrap_taken (db w') \<and>
          users (db w) = [] \<and> users (db w') = [a] \<and> usr_Username a = usr_Username u \<and>
          (usr_Role u = [] \<longrightarrow> usr_Role a = ''admin''))"
  using assms unfolding CreateFirstAdmin_def Let_def
  by (elim run_elims)
    (auto simp: through_Inr_iff through_Inl_iff taken_append UserEnt_def dest!: run_dests clash_not_taken
      split: sum.splits)

text \<open>No operation of this theory frees the key.\<close>

lemma user_create_taken: "keeps (on_db (key_taken s m a k)) (ent_create E UserEnt r)"
  by (rule keeps_ent_create) (simp add: UserEnt_def)

lemma session_create_taken: "keeps (on_db (key_taken s m a k)) (ent_create E SessionEnt r)"
  by (rule keeps_ent_create) (simp add: SessionEnt_def)

lemma session_delete_taken: "keeps (on_db (key_taken s m a k)) (ent_delete_one E SessionEnt i)"
  by (rule keeps_ent_delete_one) (simp add: SessionEnt_def)

lemmas taken_rules = keeps_rules user_create_taken session_create_taken session_delete_taken
  key_taken_create

lemma GetSessionByTokenHash_taken: "keeps (on_db (key_taken s m a k)) (GetSessionByTokenHash E h)"
  unfolding GetSessionByTokenHash_def DeleteSession_def by (intro taken_rules)

lemma CreateFirstAdmin_taken: "keeps (on_db (key_taken s m a k)) (CreateFirstAdmin E u)"
  unfolding CreateFirstAdmin_def Let_def
  by (intro keeps_tx taken_rules; (assumption | simp add: keeps_return)?)

text \<open>
  The bootstrap transaction is all or nothing under every fault schedule: it
  either fails, leaving the rows as they were, or the user table was empty and now holds exactly the
  returned administrator together with the reserved key. It leaves no transaction open.
\<close>

theorem first_admin_atomic:
  assumes "run_state (CreateFirstAdmin E u) w = (out, w')"
  shows "open_tx w' = open_tx w \<and>
     (case out of
        Inl _ \<Rightarrow> db w' = db w
      | Inr a \<Rightarrow> users (db w) = [] \<and> users (db w') = [a] \<and> usr_Username a = usr_Username u \<and>
          (usr_Role u = [] \<longrightarrow> usr_Role a = ''admin'') \<and> bootstrap_taken (db w'))"
  using CreateFirstAdmin_run [OF assms] by (cases out) auto

definition demo_user :: User where
  "demo_user =
     \<lparr>usr_ID = [], usr_Username = ''root'', usr_DisplayName = ''root'', usr_PasswordHash = ''h'',
      usr_Role = [], usr_CreatedUnix = 0, usr_UpdatedUnix = 0\<rparr>"

definition demo_admin :: "(err + User) \<times> store world" where
  "demo_admin = run_state (CreateFirstAdmin demo_env demo_user) (world_of empty_store)"

theorem first_admin_atomic_witness:
  "\<exists>a. fst demo_admin = Inr a \<and> users (db (snd demo_admin)) = [a] \<and> usr_Role a = ''admin'' \<and>
     open_tx (snd demo_admin) = 0"
proof -
  have "\<not> isl (fst demo_admin)" by code_simp
  moreover have "run_state (CreateFirstAdmin demo_env demo_user) (world_of empty_store) =
      (fst demo_admin, snd demo_admin)"
    by (simp add: demo_admin_def)
  note first_admin_atomic [OF this]
  ultimately show ?thesis by (cases "fst demo_admin") (auto simp: demo_user_def)
qed

end
