(* ===== verification/Encoding.thy ===== *)
theory Encoding
  imports Prelude
begin

text \<open>
  The text encodings the sources take from the standard library: unpadded URL-safe base64
  (\<^verbatim>\<open>base64.RawURLEncoding\<close>), decimal integers (\<^verbatim>\<open>strconv.Atoi\<close>) and \<^verbatim>\<open>strings.Split\<close> at one
  character. Bytes are natural numbers below 256.
\<close>

section \<open>Base64\<close>

text \<open>The URL alphabet: A to Z, a to z, 0 to 9, minus, underscore.\<close>

definition b64_char :: "nat \<Rightarrow> char" where
  "b64_char n =
     (let k = n mod 64
      in if k < 26 then char_of (65 + k)
         else if k < 52 then char_of (71 + k)
         else if k < 62 then char_of (k - 4)
         else if k = 62 then CHR ''-'' else CHR ''_'')"

fun RawURLEncode :: "nat list \<Rightarrow> string" where
  "RawURLEncode [] = []"
| "RawURLEncode [a] = [b64_char (a div 4), b64_char (a mod 4 * 16)]"
| "RawURLEncode [a, b] =
     [b64_char (a div 4), b64_char (a mod 4 * 16 + b div 16), b64_char (b mod 16 * 4)]"
| "RawURLEncode (a # b # c # rest) =
     [b64_char (a div 4), b64_char (a mod 4 * 16 + b div 16),
      b64_char (b mod 16 * 4 + c div 64), b64_char (c mod 64)] @ RawURLEncode rest"

definition b64_index :: "char \<Rightarrow> nat option" where
  "b64_index ch =
     (let n = of_char ch :: nat
      in if 65 \<le> n \<and> n \<le> 90 then Some (n - 65)
         else if 97 \<le> n \<and> n \<le> 122 then Some (n - 71)
         else if 48 \<le> n \<and> n \<le> 57 then Some (n + 4)
         else if ch = CHR ''-'' then Some 62
         else if ch = CHR ''_'' then Some 63
         else None)"

text \<open>
  The decoder on the characters left after dropping line breaks, which it skips wherever they are. A
  group of one character is an error; the unused bits of a short last group are not checked.
\<close>

fun b64_groups :: "nat list \<Rightarrow> nat list option" where
  "b64_groups [] = Some []"
| "b64_groups [i] = None"
| "b64_groups [i, j] = Some [i * 4 + j div 16]"
| "b64_groups [i, j, k] = Some [i * 4 + j div 16, j mod 16 * 16 + k div 4]"
| "b64_groups (i # j # k # l # rest) =
     map_option (\<lambda>bs. [i * 4 + j div 16, j mod 16 * 16 + k div 4, k mod 4 * 64 + l] @ bs)
       (b64_groups rest)"

definition RawURLDecode :: "string \<Rightarrow> nat list option" where
  "RawURLDecode s =
     (let cs = filter (\<lambda>c. c \<noteq> CHR 0x0A \<and> c \<noteq> CHR 0x0D) s
      in if list_all (\<lambda>c. b64_index c \<noteq> None) cs then b64_groups (map (the \<circ> b64_index) cs)
         else None)"

lemma b64_char_facts:
  assumes "n < 64"
  shows "b64_index (b64_char n) = Some n"
    and "b64_char n \<noteq> CHR 0x0A \<and> b64_char n \<noteq> CHR 0x0D \<and> b64_char n \<noteq> CHR ''$'' \<and>
      b64_char n \<noteq> CHR ''/''"
proof -
  have n: "n mod 64 = n" using assms by simp
  show "b64_index (b64_char n) = Some n"
    using assms by (auto simp: b64_char_def b64_index_def n Let_def)
  have "of_char (b64_char n) \<notin> {10, 13, 36, 47 :: nat}"
    using assms by (auto simp: b64_char_def n Let_def)
  then show "b64_char n \<noteq> CHR 0x0A \<and> b64_char n \<noteq> CHR 0x0D \<and> b64_char n \<noteq> CHR ''$'' \<and>
      b64_char n \<noteq> CHR ''/''"
    by auto
qed

abbreviation bytes :: "nat list \<Rightarrow> bool" where
  "bytes \<equiv> list_all (\<lambda>b. b < 256)"

lemma sextets:
  fixes a b c :: nat
  assumes "a < 256" "b < 256" "c < 256"
  shows "a div 4 < 64" "a mod 4 * 16 < 64" "a mod 4 * 16 + b div 16 < 64" "b mod 16 * 4 < 64"
    "b mod 16 * 4 + c div 64 < 64" "c mod 64 < 64"
proof -
  have "a mod 4 < 4" "b div 16 < 16" "b mod 16 < 16" "c div 64 < 4"
    using assms by (simp_all add: div_less_iff_less_mult)
  then show "a mod 4 * 16 < 64" "a mod 4 * 16 + b div 16 < 64" "b mod 16 * 4 < 64"
    "b mod 16 * 4 + c div 64 < 64"
    by linarith+
qed (use assms in \<open>simp_all add: div_less_iff_less_mult\<close>)

lemma RawURLEncode_chars:
  assumes "bytes bs"
  shows "\<forall>ch \<in> set (RawURLEncode bs). \<exists>n < 64. ch = b64_char n"
  using assms
proof (induction bs rule: RawURLEncode.induct)
  case (2 a)
  then have "a div 4 < 64" and "a mod 4 * 16 < 64" using sextets [of a 0 0] by simp_all
  then show ?case by (simp only: RawURLEncode.simps set_simps) blast
next
  case (3 a b)
  then have "a div 4 < 64" and "a mod 4 * 16 + b div 16 < 64" and "b mod 16 * 4 < 64"
    using sextets [of a b 0] by simp_all
  then show ?case by (simp only: RawURLEncode.simps set_simps) blast
next
  case (4 a b c rest)
  then have "a div 4 < 64" and "a mod 4 * 16 + b div 16 < 64" and "b mod 16 * 4 + c div 64 < 64"
      and "c mod 64 < 64" and "\<forall>ch \<in> set (RawURLEncode rest). \<exists>n < 64. ch = b64_char n"
    using sextets [of a b c] by simp_all
  then show ?case by (simp only: RawURLEncode.simps set_append set_simps) blast
qed simp

lemma digits_base: "(y :: nat) < n \<Longrightarrow> (x * n + y) div n = x \<and> (x * n + y) mod n = y"
  by auto

lemma regroup:
  fixes a b c :: nat
  assumes "a < 256" "b < 256" "c < 256"
  shows "a div 4 * 4 + (a mod 4 * 16 + b div 16) div 16 = a"
    "a div 4 * 4 + (a mod 4 * 16) div 16 = a"
    "(a mod 4 * 16 + b div 16) mod 16 * 16 + (b mod 16 * 4 + c div 64) div 4 = b"
    "(a mod 4 * 16 + b div 16) mod 16 * 16 + (b mod 16 * 4) div 4 = b"
    "(b mod 16 * 4 + c div 64) mod 4 * 64 + c mod 64 = c"
proof -
  have "b div 16 < 16" "c div 64 < 4" using assms by (simp_all add: div_less_iff_less_mult)
  note d = digits_base [OF this(1), of "a mod 4"] digits_base [OF this(2), of "b mod 16"]
  show "a div 4 * 4 + (a mod 4 * 16 + b div 16) div 16 = a"
    "(a mod 4 * 16 + b div 16) mod 16 * 16 + (b mod 16 * 4 + c div 64) div 4 = b"
    "(a mod 4 * 16 + b div 16) mod 16 * 16 + (b mod 16 * 4) div 4 = b"
    "(b mod 16 * 4 + c div 64) mod 4 * 64 + c mod 64 = c"
    by (simp_all only: d) simp_all
qed simp

lemma b64_groups_encode:
  "bytes bs \<Longrightarrow> b64_groups (map (the \<circ> b64_index) (RawURLEncode bs)) = Some bs"
proof (induction bs rule: RawURLEncode.induct)
  case (2 a)
  then show ?case using sextets [of a 0 0] regroup [of a 0 0] by (simp add: b64_char_facts)
next
  case (3 a b)
  then show ?case using sextets [of a b 0] regroup [of a b 0] by (simp add: b64_char_facts)
next
  case (4 a b c rest)
  then show ?case using sextets [of a b c] regroup [of a b c] by (simp add: b64_char_facts)
qed simp

lemma RawURLDecode_encode: "bytes bs \<Longrightarrow> RawURLDecode (RawURLEncode bs) = Some bs"
proof -
  assume b: "bytes bs"
  have chars: "\<forall>ch \<in> set (RawURLEncode bs). b64_index ch \<noteq> None \<and> ch \<noteq> CHR 0x0A \<and> ch \<noteq> CHR 0x0D"
    using RawURLEncode_chars [OF b] b64_char_facts by force
  then have "filter (\<lambda>c. c \<noteq> CHR 0x0A \<and> c \<noteq> CHR 0x0D) (RawURLEncode bs) = RawURLEncode bs"
    by (auto intro: filter_True)
  with chars show ?thesis
    using b64_groups_encode [OF b] by (auto simp: RawURLDecode_def Let_def list_all_iff)
qed

lemma RawURLEncode_clean: "bytes bs \<Longrightarrow> ch \<in> {CHR ''$'', CHR ''/''} \<Longrightarrow> ch \<notin> set (RawURLEncode bs)"
  using RawURLEncode_chars b64_char_facts(2) by fastforce

lemma RawURLEncode_alphabet: "bytes bs \<Longrightarrow> list_all (\<lambda>c. b64_index c \<noteq> None) (RawURLEncode bs)"
  using RawURLEncode_chars b64_char_facts(1) by (force simp: list_all_iff)

lemma RawURLEncode_length: "length (RawURLEncode bs) = (length bs * 4 + 2) div 3"
  by (induction bs rule: RawURLEncode.induct) auto

section \<open>Splitting and decimal integers\<close>

text \<open>\<^verbatim>\<open>strings.Split(s, sep)\<close> for a separator of one byte.\<close>

fun Split :: "char \<Rightarrow> string \<Rightarrow> string list" where
  "Split sep [] = [[]]"
| "Split sep (c # s) =
     (if c = sep then [] # Split sep s
      else case Split sep s of [] \<Rightarrow> [[c]] | p # ps \<Rightarrow> (c # p) # ps)"

lemma Split_no_sep: "sep \<notin> set s \<Longrightarrow> Split sep s = [s]"
  by (induction s) auto

lemma Split_append: "sep \<notin> set s \<Longrightarrow> Split sep (s @ sep # t) = s # Split sep t"
  by (induction s) auto

definition digit :: "char \<Rightarrow> nat option" where
  "digit c = (let n = of_char c :: nat in if 48 \<le> n \<and> n \<le> 57 then Some (n - 48) else None)"

fun digits_value :: "int \<Rightarrow> string \<Rightarrow> int option" where
  "digits_value acc [] = Some acc"
| "digits_value acc (c # s) =
     (case digit c of None \<Rightarrow> None | Some d \<Rightarrow> digits_value (acc * 10 + int d) s)"

text \<open>\<^verbatim>\<open>strconv.Atoi\<close> with 64-bit integers: an optional sign and digits, in range.\<close>

definition Atoi :: "string \<Rightarrow> int option" where
  "Atoi s =
     (let (neg, ds) =
        (case s of
           [] \<Rightarrow> (False, [])
         | c # t \<Rightarrow> if c = CHR ''-'' then (True, t) else if c = CHR ''+'' then (False, t) else (False, s))
      in if ds = [] then None
         else case digits_value 0 ds of
                None \<Rightarrow> None
              | Some v \<Rightarrow>
                  let x = (if neg then - v else v)
                  in if - (2 ^ 63) \<le> x \<and> x < 2 ^ 63 then Some x else None)"

text \<open>\<^verbatim>\<open>strconv.Itoa\<close> on numbers that are not negative.\<close>

fun digits_of :: "nat \<Rightarrow> string" where
  "digits_of n = (if n < 10 then [char_of (48 + n)] else digits_of (n div 10) @ [char_of (48 + n mod 10)])"

declare digits_of.simps [simp del]

text \<open>\<^verbatim>\<open>strings.Join\<close>.\<close>

fun Join :: "string \<Rightarrow> string list \<Rightarrow> string" where
  "Join sep [] = []"
| "Join sep [s] = s"
| "Join sep (s # t # ss) = s @ sep @ Join sep (t # ss)"

lemma Join_Nil_iff: "[] \<notin> set ss \<Longrightarrow> Join sep ss = [] \<longleftrightarrow> ss = []"
  by (cases "(sep, ss)" rule: Join.cases) auto

text \<open>\<^verbatim>\<open>hex.EncodeToString\<close>.\<close>

definition hex_digit :: "nat \<Rightarrow> char" where
  "hex_digit n = char_of (if n < 10 then 48 + n else 87 + n)"

definition HexEncode :: "nat list \<Rightarrow> string" where
  "HexEncode bs = concat (map (\<lambda>b. [hex_digit (b div 16), hex_digit (b mod 16)]) bs)"

end
