(* ===== verification/Auth.thy ===== *)
theory Auth
  imports Store_Users Encoding
begin

text \<open>
  Authentication: the password hashes of \<^verbatim>\<open>internal/auth/password.go\<close> and the service of
  \<^verbatim>\<open>internal/auth/service.go\<close> over the user and session tables. The cryptographic primitives of the
  standard library (random bytes, PBKDF2, SHA-256) are parameters.
\<close>

section \<open>Passwords\<close>

datatype auth_err =
    ErrBootstrapClosed
  | ErrInvalidCredential
  | AuthStore err     \<comment> \<open>an error of the store passed on\<close>
  | AuthCrypto        \<comment> \<open>an error of \<^verbatim>\<open>rand.Read\<close> or \<^verbatim>\<open>pbkdf2.Key\<close>\<close>

text \<open>
  \<open>rand_read n k\<close> is what \<^verbatim>\<open>rand.Read\<close> puts into a buffer of \<open>k\<close> bytes at interaction \<open>n\<close>,
  \<open>pbkdf2_key password salt iterations length\<close> is \<^verbatim>\<open>pbkdf2.Key\<close> with SHA-256, \<open>sha256\<close> is
  \<^verbatim>\<open>sha256.Sum256\<close>.
\<close>

record auth_env =
  rand_read :: "nat \<Rightarrow> nat \<Rightarrow> nat list option"
  pbkdf2_key :: "string \<Rightarrow> nat list \<Rightarrow> int \<Rightarrow> nat \<Rightarrow> nat list option"
  sha256 :: "string \<Rightarrow> nat list"

text \<open>What the primitives are documented to return: bytes, and as many as asked for.\<close>

definition crypto_ok :: "auth_env \<Rightarrow> bool" where
  "crypto_ok A \<longleftrightarrow>
     (\<forall>n k bs. rand_read A n k = Some bs \<longrightarrow> bytes bs \<and> length bs = k) \<and>
     (\<forall>p s i k key. pbkdf2_key A p s i k = Some key \<longrightarrow> bytes key \<and> length key = k) \<and>
     (\<forall>t. bytes (sha256 A t) \<and> length (sha256 A t) = 32)"

type_synonym 'a auth_op = "(store, auth_err + 'a) action"

definition encode_password :: "nat list \<Rightarrow> nat list \<Rightarrow> string" where
  "encode_password salt key =
     ''pbkdf2-sha256$'' @ ''210000'' @ ''$'' @ RawURLEncode salt @ ''$'' @ RawURLEncode key"

definition HashPassword :: "auth_env \<Rightarrow> string \<Rightarrow> string auth_op" where
  "HashPassword A password = do {
     salt \<leftarrow> drawn (\<lambda>n. rand_read A n 16);
     ret (case salt of
            None \<Rightarrow> Inl AuthCrypto
          | Some s \<Rightarrow>
              (case pbkdf2_key A password s 210000 32 of
                 None \<Rightarrow> Inl AuthCrypto
               | Some key \<Rightarrow> Inr (encode_password s key)))
   }"

definition VerifyPassword :: "auth_env \<Rightarrow> string \<Rightarrow> string \<Rightarrow> bool" where
  "VerifyPassword A encoded password =
     (case Split (CHR ''$'') encoded of
        [alg, iter, salt64, key64] \<Rightarrow>
          alg = ''pbkdf2-sha256'' \<and>
          (case Atoi iter of
             None \<Rightarrow> False
           | Some iterations \<Rightarrow>
               0 < iterations \<and>
               (case RawURLDecode salt64 of
                  None \<Rightarrow> False
                | Some salt \<Rightarrow>
                    (case RawURLDecode key64 of
                       None \<Rightarrow> False
                     | Some expected \<Rightarrow>
                         pbkdf2_key A password salt iterations (length expected) = Some expected)))
      | _ \<Rightarrow> False)"

section \<open>Tokens and sessions\<close>

record SessionToken =
  st_Token :: string
  st_ExpiresAt :: int
  st_User :: User

definition sessionTTL :: int where
  "sessionTTL = 30 * 24 * 3600"

definition RandomToken :: "auth_env \<Rightarrow> string auth_op" where
  "RandomToken A = do {
     buf \<leftarrow> drawn (\<lambda>n. rand_read A n 32);
     ret (case buf of None \<Rightarrow> Inl AuthCrypto | Some bs \<Rightarrow> Inr (RawURLEncode bs))
   }"

definition HashToken :: "auth_env \<Rightarrow> string \<Rightarrow> string" where
  "HashToken A token = RawURLEncode (sha256 A token)"

definition Initialized :: "senv \<Rightarrow> bool op" where
  "Initialized E = IsInitialized E"

definition issueSession :: "senv \<Rightarrow> auth_env \<Rightarrow> User \<Rightarrow> SessionToken auth_op" where
  "issueSession E A user = do {
     t \<leftarrow> RandomToken A;
     case t of
       Inl e \<Rightarrow> ret (Inl e)
     | Inr token \<Rightarrow> do {
         now \<leftarrow> unixNow E;
         let expires = now + sessionTTL;
         s \<leftarrow> CreateSession E
           \<lparr>ses_ID = [], ses_TokenHash = HashToken A token, ses_UserID = usr_ID user,
            ses_ExpiresUnix = expires, ses_CreatedUnix = 0\<rparr>;
         ret (case s of
                Inl e \<Rightarrow> Inl (AuthStore e)
              | Inr _ \<Rightarrow> Inr \<lparr>st_Token = token, st_ExpiresAt = expires, st_User = user\<rparr>)
       }
   }"

definition Bootstrap ::
  "senv \<Rightarrow> auth_env \<Rightarrow> string \<Rightarrow> string \<Rightarrow> string \<Rightarrow> SessionToken auth_op" where
  "Bootstrap E A username0 password displayName0 = do {
     h \<leftarrow> HashPassword A password;
     case h of
       Inl e \<Rightarrow> ret (Inl e)
     | Inr passwordHash \<Rightarrow> do {
         let username = TrimSpace username0;
         let trimmedName = TrimSpace displayName0;
         let displayName = (if trimmedName = [] then username else trimmedName);
         u \<leftarrow> CreateFirstAdmin E
           \<lparr>usr_ID = [], usr_Username = username, usr_DisplayName = displayName,
            usr_PasswordHash = passwordHash, usr_Role = ''admin'', usr_CreatedUnix = 0,
            usr_UpdatedUnix = 0\<rparr>;
         case u of
           Inl e \<Rightarrow> ret (Inl (if e = ErrConflict then ErrBootstrapClosed else AuthStore e))
         | Inr user \<Rightarrow> issueSession E A user
       }
   }"

definition Login :: "senv \<Rightarrow> auth_env \<Rightarrow> string \<Rightarrow> string \<Rightarrow> SessionToken auth_op" where
  "Login E A username password = do {
     u \<leftarrow> GetUserByUsername E (TrimSpace username);
     case u of
       Inl _ \<Rightarrow> ret (Inl ErrInvalidCredential)
     | Inr user \<Rightarrow>
         if \<not> VerifyPassword A (usr_PasswordHash user) password
         then ret (Inl ErrInvalidCredential)
         else issueSession E A user
   }"

definition Authenticate :: "senv \<Rightarrow> auth_env \<Rightarrow> string \<Rightarrow> (User \<times> Session) auth_op" where
  "Authenticate E A token = do {
     s \<leftarrow> GetSessionByTokenHash E (HashToken A token);
     case s of
       Inl _ \<Rightarrow> ret (Inl ErrInvalidCredential)
     | Inr session \<Rightarrow> do {
         u \<leftarrow> GetUser E (ses_UserID session);
         ret (case u of Inl _ \<Rightarrow> Inl ErrInvalidCredential | Inr user \<Rightarrow> Inr (user, session))
       }
   }"

definition Logout :: "senv \<Rightarrow> string \<Rightarrow> unit op" where
  "Logout E sessionID = DeleteSession E sessionID"

definition createUserAndSession ::
  "senv \<Rightarrow> auth_env \<Rightarrow> string \<Rightarrow> string \<Rightarrow> string \<Rightarrow> string \<Rightarrow> SessionToken auth_op" where
  "createUserAndSession E A username0 password displayName0 role = do {
     h \<leftarrow> HashPassword A password;
     case h of
       Inl e \<Rightarrow> ret (Inl e)
     | Inr passwordHash \<Rightarrow> do {
         let username = TrimSpace username0;
         let trimmedName = TrimSpace displayName0;
         let displayName = (if trimmedName = [] then username else trimmedName);
         u \<leftarrow> CreateUser E
           \<lparr>usr_ID = [], usr_Username = username, usr_DisplayName = displayName,
            usr_PasswordHash = passwordHash, usr_Role = role, usr_CreatedUnix = 0,
            usr_UpdatedUnix = 0\<rparr>;
         case u of
           Inl e \<Rightarrow> ret (Inl (AuthStore e))
         | Inr user \<Rightarrow> issueSession E A user
       }
   }"

section \<open>Well-formedness\<close>

lemma keeps_HashPassword [keeps_rules]: "keeps (on_db J) (HashPassword A p)"
  unfolding HashPassword_def by (intro keeps_rules)

lemma keeps_RandomToken [keeps_rules]: "keeps (on_db J) (RandomToken A)"
  unfolding RandomToken_def by (intro keeps_rules)

lemma HashPassword_run:
  "run_state (HashPassword A p) w = (r, w') \<Longrightarrow> db w' = db w \<and> open_tx w' = open_tx w"
  unfolding HashPassword_def by (elim run_elims) (auto dest!: drawn_run)

lemma RandomToken_run:
  "run_state (RandomToken A) w = (r, w') \<Longrightarrow> db w' = db w \<and> open_tx w' = open_tx w"
  unfolding RandomToken_def by (elim run_elims) (auto dest!: drawn_run)

lemma issueSession_wf: "keeps (on_db store_wf) (issueSession E A u)"
  unfolding issueSession_def Let_def by (intro keeps_rules CreateSession_wf)

lemma Bootstrap_wf: "keeps (on_db store_wf) (Bootstrap E A u p d)"
  unfolding Bootstrap_def Let_def by (intro keeps_rules CreateFirstAdmin_wf issueSession_wf)

lemma Login_wf: "keeps (on_db store_wf) (Login E A u p)"
  unfolding Login_def GetUserByUsername_def by (intro keeps_rules issueSession_wf)

lemma Authenticate_wf: "keeps (on_db store_wf) (Authenticate E A t)"
  unfolding Authenticate_def GetUser_def by (intro keeps_rules GetSessionByTokenHash_wf)

lemma createUserAndSession_wf: "keeps (on_db store_wf) (createUserAndSession E A u p d r)"
  unfolding createUserAndSession_def Let_def by (intro keeps_rules CreateUser_wf issueSession_wf)

section \<open>Password hashes verify\<close>

lemma Split_encode_password:
  assumes "bytes salt" and "bytes key"
  shows "Split (CHR ''$'') (encode_password salt key) =
     [''pbkdf2-sha256'', ''210000'', RawURLEncode salt, RawURLEncode key]"
proof -
  have s: "CHR ''$'' \<notin> set (RawURLEncode salt)" "CHR ''$'' \<notin> set (RawURLEncode key)"
    using RawURLEncode_clean assms by auto
  have e: "encode_password salt key =
     ''pbkdf2-sha256'' @ CHR ''$'' # ''210000'' @ CHR ''$'' # RawURLEncode salt @ CHR ''$'' # RawURLEncode key"
    by (simp add: encode_password_def)
  show ?thesis
    unfolding e using s by (subst Split_append, simp)+ (simp add: Split_no_sep)
qed

lemma Atoi_iterations: "Atoi ''210000'' = Some 210000"
  by code_simp

lemma VerifyPassword_encoded:
  assumes "bytes salt" and "bytes key"
  shows "VerifyPassword A (encode_password salt key) q \<longleftrightarrow>
     pbkdf2_key A q salt 210000 (length key) = Some key"
  using assms
  by (simp add: VerifyPassword_def Split_encode_password Atoi_iterations RawURLDecode_encode)

text \<open>
  A hash that \<^verbatim>\<open>HashPassword\<close> returned verifies the password it was made from,
  and verifies another password exactly when PBKDF2 derives the same key for it under the same salt.
\<close>

theorem password_roundtrip:
  assumes "crypto_ok A" and "run_state (HashPassword A p) w = (Inr h, w')"
  shows "VerifyPassword A h p \<and>
     (\<exists>salt. rand_read A (tick w) 16 = Some salt \<and>
        (\<forall>q. VerifyPassword A h q \<longleftrightarrow>
           pbkdf2_key A q salt 210000 32 = pbkdf2_key A p salt 210000 32))"
proof -
  obtain salt key where sk: "rand_read A (tick w) 16 = Some salt" "pbkdf2_key A p salt 210000 32 = Some key"
      "h = encode_password salt key"
    using assms(2) unfolding HashPassword_def
    by (elim run_elims) (auto dest!: drawn_run split: option.splits)
  have "bytes salt" "bytes key" "length key = 32"
    using sk assms(1) unfolding crypto_ok_def by blast+
  then show ?thesis using sk VerifyPassword_encoded [of salt key A] by auto
qed

section \<open>One bootstrap\<close>

lemma issueSession_taken: "keeps (on_db (key_taken s m a k)) (issueSession E A u)"
  unfolding issueSession_def CreateSession_def Let_def by (intro keeps_RandomToken taken_rules)

text \<open>Every way the service changes accounts and sessions.\<close>

inductive auth_step :: "store world \<Rightarrow> store world \<Rightarrow> bool" where
  bootstrap: "auth_step w (after (Bootstrap E A u p d) w)"
| login: "auth_step w (after (Login E A u p) w)"
| authenticate: "auth_step w (after (Authenticate E A t) w)"
| logout: "auth_step w (after (Logout E i) w)"
| register: "auth_step w (after (createUserAndSession E A u p d r) w)"

lemma auth_step_taken:
  assumes "auth_step w w'" and "key_taken s m a k (db w)"
  shows "key_taken s m a k (db w')"
  using assms(1)
proof cases
  case (bootstrap E A u p d)
  have "keeps (on_db (key_taken s m a k)) (Bootstrap E A u p d)"
    unfolding Bootstrap_def Let_def
    by (intro keeps_HashPassword taken_rules CreateFirstAdmin_taken issueSession_taken)
  from keepsD [OF this, of w] assms(2) bootstrap show ?thesis by simp
next
  case (login E A u p)
  have "keeps (on_db (key_taken s m a k)) (Login E A u p)"
    unfolding Login_def GetUserByUsername_def by (intro taken_rules issueSession_taken)
  from keepsD [OF this, of w] assms(2) login show ?thesis by simp
next
  case (authenticate E A t)
  have "keeps (on_db (key_taken s m a k)) (Authenticate E A t)"
    unfolding Authenticate_def GetUser_def by (intro taken_rules GetSessionByTokenHash_taken)
  from keepsD [OF this, of w] assms(2) authenticate show ?thesis by simp
next
  case (logout E i)
  have "keeps (on_db (key_taken s m a k)) (Logout E i)"
    unfolding Logout_def DeleteSession_def by (intro taken_rules)
  from keepsD [OF this, of w] assms(2) logout show ?thesis by simp
next
  case (register E A u p d r)
  have "keeps (on_db (key_taken s m a k)) (createUserAndSession E A u p d r)"
    unfolding createUserAndSession_def CreateUser_def Let_def
    by (intro keeps_HashPassword taken_rules issueSession_taken)
  from keepsD [OF this, of w] assms(2) register show ?thesis by simp
qed

lemma auth_steps_taken:
  "auth_step\<^sup>*\<^sup>* w w' \<Longrightarrow> key_taken s m a k (db w) \<Longrightarrow> key_taken s m a k (db w')"
  by (induction rule: rtranclp_induct) (auto intro: auth_step_taken)

lemma issueSession_users:
  "run_state (issueSession E A u) w = (r, w') \<Longrightarrow>
     users (db w') = users (db w) \<and> idemRecords (db w') = idemRecords (db w)"
  unfolding issueSession_def CreateSession_def Let_def
  by (elim run_elims) (auto simp: SessionEnt_def dest!: RandomToken_run run_dests split: sum.splits)

lemma Bootstrap_run:
  assumes "run_state (Bootstrap E A u p d) w = (out, w')"
  shows "(\<forall>t. out = Inr t \<longrightarrow> \<not> bootstrap_taken (db w) \<and> bootstrap_taken (db w')) \<and>
     (bootstrap_taken (db w) \<longrightarrow> db w' = db w)"
  using assms unfolding Bootstrap_def Let_def
  by (elim run_elims)
    (auto dest!: HashPassword_run CreateFirstAdmin_run issueSession_users simp: key_taken_def split: if_splits)

text \<open>
  C5: after one successful bootstrap, and any logins, logouts, authentications,
  registrations and further bootstrap attempts under any faults, every bootstrap is refused and
  changes nothing: there is one first administrator.
\<close>

theorem bootstrap_once:
  assumes "run_state (Bootstrap E A u p d) w = (Inr t, w1)" and "auth_step\<^sup>*\<^sup>* w1 w2"
    and "run_state (Bootstrap E' A' u' p' d') w2 = (out, w3)"
  shows "isl out \<and> db w3 = db w2"
proof -
  have "bootstrap_taken (db w2)"
    using Bootstrap_run [OF assms(1)] auth_steps_taken [OF assms(2)] by blast
  with Bootstrap_run [OF assms(3)] show ?thesis by (cases out) auto
qed

section \<open>Sessions\<close>

lemma session_unique:
  assumes "store_wf d" and "s \<in> set (sessions d)" and "ses_TokenHash s = h"
  shows "filter (\<lambda>r. ses_TokenHash r = h) (sessions d) = [s]"
proof (rule filter_unique)
  show "rows_free SessionEnt (sessions d)"
    using SessionTbl.wf_free [OF assms(1)] by (simp add: SessionEnt_def)
  show "clash SessionEnt s q" if "ses_TokenHash q = h" for q
    using that assms(3) by (simp add: clash_def SessionEnt_def)
qed (use assms in auto)

lemma user_unique:
  assumes "store_wf d" and "u \<in> set (users d)" and "usr_ID u = i"
  shows "filter (\<lambda>r. usr_ID r = i) (users d) = [u]"
proof (rule filter_unique)
  show "rows_free UserEnt (users d)"
    using UserTbl.wf_free [OF assms(1)] by (simp add: UserEnt_def)
  show "clash UserEnt u q" if "usr_ID q = i" for q
    using that assms(3) by (simp add: clash_def UserEnt_def)
qed (use assms in auto)

lemma issueSession_run:
  assumes "run_state (issueSession E A u) w = (Inr t, w')"
  shows "st_User t = u \<and> users (db w') = users (db w) \<and>
     (\<exists>s \<in> set (sessions (db w')). ses_TokenHash s = HashToken A (st_Token t) \<and>
        ses_UserID s = usr_ID u \<and> ses_ExpiresUnix s = st_ExpiresAt t)"
  using assms unfolding issueSession_def CreateSession_def Let_def
  by (elim run_elims)
    (auto simp: SessionEnt_def dest!: RandomToken_run run_dests split: sum.splits)

lemma Login_run:
  assumes "run_state (Login E A n p) w = (Inr t, w')"
  shows "st_User t \<in> set (users (db w')) \<and> VerifyPassword A (usr_PasswordHash (st_User t)) p \<and>
     usr_Username (st_User t) = TrimSpace n \<and>
     (\<exists>s \<in> set (sessions (db w')). ses_TokenHash s = HashToken A (st_Token t) \<and>
        ses_UserID s = usr_ID (st_User t) \<and> ses_ExpiresUnix s = st_ExpiresAt t)"
  using assms unfolding Login_def GetUserByUsername_def
  by (elim run_elims)
    (auto simp: through_Inr_iff dest!: issueSession_run only_run filter_singletonD split: if_splits)

text \<open>
  C19: the token a login returns authenticates, before it expires, as the very user
  that logged in with a verified password.
\<close>

theorem login_authenticates:
  assumes "store_wf (db w)" and "no_faults E" and "run_state (Login E A n p) w = (Inr t, w1)"
    and "clock E (Suc (tick w1)) < st_ExpiresAt t"
  shows "VerifyPassword A (usr_PasswordHash (st_User t)) p \<and> usr_Username (st_User t) = TrimSpace n \<and>
     (\<exists>s. result_of (Authenticate E A (st_Token t)) w1 = Inr (st_User t, s))"
proof -
  have wf: "store_wf (db w1)" using keepsD [OF Login_wf, of w E A n p] assms(1,3) by simp
  from Login_run [OF assms(3)] obtain s where
    s: "s \<in> set (sessions (db w1))" "ses_TokenHash s = HashToken A (st_Token t)"
      "ses_UserID s = usr_ID (st_User t)" "ses_ExpiresUnix s = st_ExpiresAt t"
    and u: "st_User t \<in> set (users (db w1))" by auto
  have "result_of (Authenticate E A (st_Token t)) w1 = Inr (st_User t, s)"
    using assms(2,4) session_unique [OF wf s(1,2)] user_unique [OF wf u] s(3,4)
    by (simp add: Authenticate_def GetSessionByTokenHash_def GetUser_def run_ent SessionEnt_def UserEnt_def)
  with Login_run [OF assms(3)] show ?thesis by blast
qed

lemma Authenticate_run:
  assumes "run_state (Authenticate E A tok) w = (Inr (u, s), w')"
  shows "db w' = db w \<and> filter (\<lambda>r. ses_TokenHash r = HashToken A tok) (sessions (db w)) = [s] \<and>
     u \<in> set (users (db w)) \<and> usr_ID u = ses_UserID s \<and> clock E (Suc (tick w)) < ses_ExpiresUnix s"
  using assms unfolding Authenticate_def GetSessionByTokenHash_def GetUser_def
  by (elim run_elims)
    (auto simp: through_Inr_iff dest!: run_reads filter_singletonD [where xs = "users (db w)"]
      split: sum.splits)

text \<open>
  C4: whatever the faults, a token is accepted only for a stored session whose token
  hash is the hash of that token and which has not expired at the time of the check, and the user
  returned is the user of that session; authentication changes no row then.
\<close>

theorem authenticate_sound:
  assumes "run_state (Authenticate E A tok) w = (Inr (u, s), w')"
  shows "s \<in> set (sessions (db w)) \<and> ses_TokenHash s = HashToken A tok \<and>
     clock E (Suc (tick w)) < ses_ExpiresUnix s \<and> u \<in> set (users (db w)) \<and>
     usr_ID u = ses_UserID s \<and> db w' = db w"
  using Authenticate_run [OF assms] by (auto dest: filter_singletonD)

lemma Logout_run:
  "run_state (Logout E i) w = (Inr (), w') \<Longrightarrow>
     sessions (db w') = filter (\<lambda>r. ses_ID r \<noteq> i) (sessions (db w))"
  unfolding Logout_def DeleteSession_def
  by (elim run_elims) (auto simp: SessionEnt_def through_Inr_iff dest!: run_dests)

text \<open>
  Once a session that authenticated has been logged out, its token is refused in
  every environment.
\<close>

theorem logout_revokes:
  assumes "run_state (Authenticate E A tok) w = (Inr (u, s), w1)"
    and "run_state (Logout E' (ses_ID s)) w1 = (Inr (), w2)"
  shows "result_of (Authenticate E'' A tok) w2 = Inl ErrInvalidCredential"
proof -
  have "r = s" if "r \<in> set (sessions (db w))" "ses_TokenHash r = HashToken A tok" for r
    using Authenticate_run [OF assms(1)] that by (blast intro: filter_singleton_only)
  then have "filter (\<lambda>r. ses_TokenHash r = HashToken A tok) (sessions (db w2)) = []"
    using Authenticate_run [OF assms(1)] Logout_run [OF assms(2)] by (auto simp: filter_empty_conv)
  then show ?thesis
    by (simp add: Authenticate_def GetSessionByTokenHash_def ent_only_def run_stmt SessionEnt_def)
qed

section \<open>A concrete service\<close>

definition demo_auth :: auth_env where
  "demo_auth =
     \<lparr>rand_read = (\<lambda>n k. Some (replicate k (n mod 256))),
      pbkdf2_key = (\<lambda>p s i k. Some (take k (map of_char p @ replicate k 0))),
      sha256 = (\<lambda>t. take 32 (map of_char t @ replicate 32 0))\<rparr>"

lemma crypto_ok_demo: "crypto_ok demo_auth"
proof -
  have "(of_char c :: nat) < 256" for c by simp
  then show ?thesis
    by (auto simp: crypto_ok_def demo_auth_def list_all_iff dest!: in_set_takeD)
qed

definition demo_hash :: "(auth_err + string) \<times> store world" where
  "demo_hash = run_state (HashPassword demo_auth ''secret'') (world_of empty_store)"

theorem password_roundtrip_witness:
  "\<exists>h. fst demo_hash = Inr h \<and> VerifyPassword demo_auth h ''secret'' \<and>
     \<not> VerifyPassword demo_auth h ''wrong''"
proof -
  have "\<not> isl (fst demo_hash)" and no: "\<not> VerifyPassword demo_auth (projr (fst demo_hash)) ''wrong''"
    by code_simp+
  then obtain h where h: "fst demo_hash = Inr h" by (cases "fst demo_hash") auto
  then have "run_state (HashPassword demo_auth ''secret'') (world_of empty_store) = (Inr h, snd demo_hash)"
    unfolding demo_hash_def by (simp add: prod_eq_iff)
  from password_roundtrip [OF crypto_ok_demo this] show ?thesis using h no by simp
qed

text \<open>Primitives with short outputs, on which whole sessions are evaluated.\<close>

definition lite_auth :: auth_env where
  "lite_auth =
     \<lparr>rand_read = (\<lambda>n k. Some (replicate n 0)), pbkdf2_key = (\<lambda>p s i k. Some [length p]),
      sha256 = (\<lambda>t. [length t])\<rparr>"

definition demo_boot :: "(auth_err + SessionToken) \<times> store world" where
  "demo_boot = run_state (Bootstrap demo_env lite_auth ''root'' ''secret'' []) (world_of empty_store)"

definition demo_reboot :: "(auth_err + SessionToken) \<times> store world" where
  "demo_reboot = run_state (Bootstrap demo_env lite_auth ''eve'' ''secret'' []) (snd demo_boot)"

definition demo_account :: User where
  "demo_account =
     \<lparr>usr_ID = ''u1'', usr_Username = ''root'', usr_DisplayName = ''root'',
      usr_PasswordHash = ''pbkdf2-sha256$1$$Bg'', usr_Role = ''admin'', usr_CreatedUnix = 0,
      usr_UpdatedUnix = 0\<rparr>"

definition demo_session :: Session where
  "demo_session =
     \<lparr>ses_ID = ''s1'', ses_TokenHash = HashToken lite_auth ''tok'', ses_UserID = ''u1'',
      ses_ExpiresUnix = 5000, ses_CreatedUnix = 0\<rparr>"

definition account_world :: "store world" where
  "account_world = world_of (empty_store\<lparr>users := [demo_account], sessions := [demo_session]\<rparr>)"

definition demo_login :: "(auth_err + SessionToken) \<times> store world" where
  "demo_login = run_state (Login demo_env lite_auth '' root'' ''secret'') account_world"

definition demo_check :: "(auth_err + User \<times> Session) \<times> store world" where
  "demo_check = run_state (Authenticate demo_env lite_auth ''tok'') account_world"

definition demo_logout :: "(err + unit) \<times> store world" where
  "demo_logout = run_state (Logout demo_env ''s1'') (snd demo_check)"

lemma demo_boot_ok: "\<not> isl (fst demo_boot)"
  by code_simp

lemma demo_login_ok: "\<not> isl (fst demo_login)"
  by code_simp

lemma demo_check_ok: "\<not> isl (fst demo_check)"
  by code_simp

lemma demo_logout_ok: "\<not> isl (fst demo_logout)"
  by code_simp

lemma demo_login_fresh: "clock demo_env (Suc (tick (snd demo_login))) < st_ExpiresAt (projr (fst demo_login))"
  by code_simp

lemma demo_check_session: "ses_ID (snd (projr (fst demo_check))) = ''s1''"
  by code_simp

lemmas demo_auth_runs = demo_boot_ok demo_login_ok demo_check_ok demo_logout_ok demo_login_fresh demo_check_session

lemma run_Inr: "\<not> isl (fst r) \<Longrightarrow> r = (Inr (projr (fst r)), snd r)"
  by (simp add: prod_eq_iff)

lemma account_world_wf: "store_wf (db account_world)"
  by (simp add: account_world_def demo_account_def demo_session_def HashToken_def lite_auth_def
      empty_store_def store_wf_def table_wf_def rows_free_def UserEnt_def SessionEnt_def)

theorem bootstrap_once_witness: "isl (fst demo_reboot) \<and> db (snd demo_reboot) = db (snd demo_boot)"
proof -
  have "run_state (Bootstrap demo_env lite_auth ''root'' ''secret'' []) (world_of empty_store) =
      (Inr (projr (fst demo_boot)), snd demo_boot)"
    using run_Inr [OF demo_auth_runs(1)] by (simp only: demo_boot_def)
  then show ?thesis
    by (rule bootstrap_once [OF _ rtranclp.rtrancl_refl, where out = "fst demo_reboot"])
      (simp add: demo_reboot_def)
qed

theorem login_authenticates_witness:
  "\<exists>s. result_of (Authenticate demo_env lite_auth (st_Token (projr (fst demo_login)))) (snd demo_login) =
     Inr (st_User (projr (fst demo_login)), s)"
proof -
  have "run_state (Login demo_env lite_auth '' root'' ''secret'') account_world =
      (Inr (projr (fst demo_login)), snd demo_login)"
    using run_Inr [OF demo_auth_runs(2)] by (simp only: demo_login_def)
  from login_authenticates [OF account_world_wf no_faults_demo this demo_auth_runs(5)]
  show ?thesis by blast
qed

lemma demo_check_run:
  "run_state (Authenticate demo_env lite_auth ''tok'') account_world =
     (Inr (fst (projr (fst demo_check)), snd (projr (fst demo_check))), snd demo_check)"
  using run_Inr [OF demo_auth_runs(3)] by (simp add: demo_check_def)

theorem authenticate_sound_witness:
  "snd (projr (fst demo_check)) \<in> set (sessions (db account_world))"
  using authenticate_sound [OF demo_check_run] by blast

theorem logout_revokes_witness:
  "result_of (Authenticate demo_env lite_auth ''tok'') (snd demo_logout) = Inl ErrInvalidCredential"
proof -
  have "run_state (Logout demo_env (ses_ID (snd (projr (fst demo_check))))) (snd demo_check) =
      (Inr (), snd demo_logout)"
    using run_Inr [OF demo_auth_runs(4)] demo_auth_runs(6) by (simp add: demo_logout_def)
  then show ?thesis by (rule logout_revokes [OF demo_check_run])
qed

end
