(* ===== verification/Enrollment.thy ===== *)
theory Enrollment
  imports Auth "HOL-Library.AList"
begin

text \<open>
  The enrollments of daemons (\<^verbatim>\<open>internal/server/daemon_enrollment.go\<close>) and the interceptor that admits
  their calls (\<^verbatim>\<open>internal/server/connect_auth.go\<close>). An enrollment is one JSON file of a directory; every
  method holds the mutex of the store, so a method is one step. The store is configured (the server
  refuses every call of a daemon otherwise).
\<close>

section \<open>Files\<close>

text \<open>
  The directory: names of files with their contents. A call of the operating system at interaction
  \<open>n\<close> fails when \<open>fs_fault\<close> says so, and a failed write may leave the file with any contents,
  \<open>fs_torn\<close>. \<open>en_marshal\<close> and \<open>en_unmarshal\<close> are \<^verbatim>\<open>encoding/json\<close> on enrollments.
\<close>

type_synonym files = "(string \<times> string) list"

record daemonEnrollment =
  en_ID :: string
  en_TokenHash :: string
  en_TokenPrefix :: string
  en_InstallCodeHash :: string
  en_InstallCodePrefix :: string
  en_InstallCodeExpiry :: int
  en_InstallCodeUsed :: int
  en_DisplayName :: string
  en_ComputerID :: string
  en_DaemonID :: string
  en_Hostname :: string
  en_CreatedUnix :: int
  en_ExpiresUnix :: int
  en_ConnectedUnix :: int
  en_LastHeartbeatUnix :: int
  en_RevokedUnix :: int
  en_Status :: string

record daemonEnrollmentCreate =
  ec_DisplayName :: string
  ec_ComputerID :: string
  ec_Hostname :: string
  ec_ExpiresUnix :: int

record fs_env =
  fs_fault :: "nat \<Rightarrow> bool"
  fs_torn :: "nat \<Rightarrow> string option"
  en_marshal :: "daemonEnrollment \<Rightarrow> string option"
  en_unmarshal :: "string \<Rightarrow> daemonEnrollment option"

datatype enroll_err =
    EnrollNotFound     \<comment> \<open>\<^verbatim>\<open>storage.ErrNotFound\<close>\<close>
  | EnrollFailed       \<comment> \<open>an error of the operating system, of JSON or of the random source\<close>

type_synonym 'a fs = "(files, 'a) action"

definition MkdirAll :: "fs_env \<Rightarrow> bool fs" where
  "MkdirAll F = drawn (\<lambda>n. \<not> fs_fault F n)"

text \<open>\<^const>\<open>None\<close> within the result says that the file does not exist.\<close>

definition ReadFile :: "fs_env \<Rightarrow> string \<Rightarrow> (enroll_err + string option) fs" where
  "ReadFile F p = State (\<lambda>w.
     (if fs_fault F (tick w) then Inl EnrollFailed else Inr (map_of (db w) p), w\<lparr>tick := Suc (tick w)\<rparr>))"

definition ReadDir :: "fs_env \<Rightarrow> (enroll_err + string list) fs" where
  "ReadDir F = State (\<lambda>w.
     (if fs_fault F (tick w) then Inl EnrollFailed else Inr (sort (map fst (db w))), w\<lparr>tick := Suc (tick w)\<rparr>))"

definition WriteFile :: "fs_env \<Rightarrow> string \<Rightarrow> string \<Rightarrow> bool fs" where
  "WriteFile F p data = State (\<lambda>w.
     if fs_fault F (tick w)
     then (False, w\<lparr>tick := Suc (tick w),
             db := (case fs_torn F (tick w) of None \<Rightarrow> db w | Some t \<Rightarrow> AList.update p t (db w))\<rparr>)
     else (True, w\<lparr>tick := Suc (tick w), db := AList.update p data (db w)\<rparr>))"

definition Rename :: "fs_env \<Rightarrow> string \<Rightarrow> string \<Rightarrow> bool fs" where
  "Rename F a b = State (\<lambda>w.
     case (if fs_fault F (tick w) then None else map_of (db w) a) of
       None \<Rightarrow> (False, w\<lparr>tick := Suc (tick w)\<rparr>)
     | Some data \<Rightarrow> (True, w\<lparr>tick := Suc (tick w), db := AList.update b data (AList.delete a (db w))\<rparr>))"

definition Ext :: "string \<Rightarrow> string" where
  "Ext name =
     (let tail = takeWhile (\<lambda>c. c \<noteq> CHR ''.'') (rev name)
      in if length tail < length name then CHR ''.'' # rev tail else [])"

definition TrimSuffix :: "string \<Rightarrow> string \<Rightarrow> string" where
  "TrimSuffix s p = (if HasSuffix s p then take (length s - length p) s else s)"

section \<open>The store of enrollments\<close>

definition path :: "string \<Rightarrow> string option" where
  "path id0 =
     (let i = TrimSpace id0
      in if i = [] \<or> list_ex (\<lambda>c. c = CHR ''/'' \<or> c = CHR 0x5C) i \<or> HasPrefix i ''.'' then None
         else Some (i @ ''.json''))"

definition save :: "fs_env \<Rightarrow> daemonEnrollment \<Rightarrow> (enroll_err + unit) fs" where
  "save F e = do {
     made \<leftarrow> MkdirAll F;
     if \<not> made then ret (Inl EnrollFailed)
     else case path (en_ID e) of
       None \<Rightarrow> ret (Inl EnrollNotFound)
     | Some p \<Rightarrow> (case en_marshal F e of
           None \<Rightarrow> ret (Inl EnrollFailed)
         | Some data \<Rightarrow> do {
             written \<leftarrow> WriteFile F (p @ ''.tmp'') data;
             if \<not> written then ret (Inl EnrollFailed)
             else do {
               renamed \<leftarrow> Rename F (p @ ''.tmp'') p;
               ret (if renamed then Inr () else Inl EnrollFailed)
             }
           })
   }"

definition getLocked :: "fs_env \<Rightarrow> string \<Rightarrow> (enroll_err + daemonEnrollment) fs" where
  "getLocked F i =
     (case path i of
        None \<Rightarrow> ret (Inl EnrollNotFound)
      | Some p \<Rightarrow> do {
          data \<leftarrow> ReadFile F p;
          ret (case data of
                 Inl e \<Rightarrow> Inl e
               | Inr None \<Rightarrow> Inl EnrollNotFound
               | Inr (Some text1) \<Rightarrow>
                   (case en_unmarshal F text1 of
                      None \<Rightarrow> Inl EnrollFailed
                    | Some e \<Rightarrow> if en_ID e = [] then Inl EnrollNotFound else Inr e))
        })"

definition hashDaemonEnrollmentToken :: "auth_env \<Rightarrow> string \<Rightarrow> string" where
  "hashDaemonEnrollmentToken A token = HexEncode (sha256 A token)"

definition tokenPrefix :: "string \<Rightarrow> string" where
  "tokenPrefix token = take 12 (TrimSpace token)"

definition newDaemonEnrollmentToken :: "auth_env \<Rightarrow> string option fs" where
  "newDaemonEnrollmentToken A = do {
     buf \<leftarrow> drawn (\<lambda>n. rand_read A n 32);
     ret (map_option (\<lambda>bs. ''ndt_'' @ RawURLEncode bs) buf)
   }"

definition newDaemonInstallCode :: "auth_env \<Rightarrow> string option fs" where
  "newDaemonInstallCode A = do {
     buf \<leftarrow> drawn (\<lambda>n. rand_read A n 24);
     ret (map_option (\<lambda>bs. ''ndi_'' @ RawURLEncode bs) buf)
   }"

definition daemonInstallCodeExpiry :: "int \<Rightarrow> int \<Rightarrow> int" where
  "daemonInstallCodeExpiry now enrollmentExpiry =
     (let expires = now + 3600
      in if 0 < enrollmentExpiry \<and> enrollmentExpiry < expires then enrollmentExpiry else expires)"

definition create ::
  "'z env_scheme \<Rightarrow> auth_env \<Rightarrow> fs_env \<Rightarrow> daemonEnrollmentCreate \<Rightarrow>
     (enroll_err + daemonEnrollment \<times> string \<times> string) fs" where
  "create E A F req = do {
     made \<leftarrow> MkdirAll F;
     if \<not> made then ret (Inl EnrollFailed)
     else do {
       t \<leftarrow> newDaemonEnrollmentToken A;
       case t of
         None \<Rightarrow> ret (Inl EnrollFailed)
       | Some token \<Rightarrow> do {
           c \<leftarrow> newDaemonInstallCode A;
           case c of
             None \<Rightarrow> ret (Inl EnrollFailed)
           | Some installCode \<Rightarrow> do {
               now \<leftarrow> unixNow E;
               i \<leftarrow> newID E ''den'';
               let enrollment =
                 \<lparr>en_ID = i, en_TokenHash = hashDaemonEnrollmentToken A token, en_TokenPrefix = tokenPrefix token,
                  en_InstallCodeHash = hashDaemonEnrollmentToken A installCode,
                  en_InstallCodePrefix = tokenPrefix installCode,
                  en_InstallCodeExpiry = daemonInstallCodeExpiry now (ec_ExpiresUnix req),
                  en_InstallCodeUsed = 0, en_DisplayName = TrimSpace (ec_DisplayName req),
                  en_ComputerID = (if TrimSpace (ec_ComputerID req) = [] then ''computer-'' @ i
                                   else TrimSpace (ec_ComputerID req)),
                  en_DaemonID = [], en_Hostname = TrimSpace (ec_Hostname req), en_CreatedUnix = now,
                  en_ExpiresUnix = ec_ExpiresUnix req, en_ConnectedUnix = 0, en_LastHeartbeatUnix = 0,
                  en_RevokedUnix = 0, en_Status = ''pending''\<rparr>;
               s \<leftarrow> save F enrollment;
               ret (case s of Inl e \<Rightarrow> Inl e | Inr _ \<Rightarrow> Inr (enrollment, token, installCode))
             }
         }
     }
   }"

definition expired :: "int \<Rightarrow> int \<Rightarrow> bool" where
  "expired limit now \<longleftrightarrow> 0 < limit \<and> limit \<le> now"

fun find_token :: "fs_env \<Rightarrow> string \<Rightarrow> int \<Rightarrow> string list \<Rightarrow> (enroll_err + daemonEnrollment) fs" where
  "find_token F h now [] = ret (Inl EnrollNotFound)"
| "find_token F h now (name # names) =
     (if Ext name \<noteq> ''.json'' then find_token F h now names
      else do {
        r \<leftarrow> getLocked F (TrimSuffix name ''.json'');
        case r of
          Inl _ \<Rightarrow> find_token F h now names
        | Inr enrollment \<Rightarrow>
            if expired (en_ExpiresUnix enrollment) now then find_token F h now names
            else if en_TokenHash enrollment = h then ret (Inr enrollment)
            else find_token F h now names
      })"

definition authenticate :: "'z env_scheme \<Rightarrow> auth_env \<Rightarrow> fs_env \<Rightarrow> string \<Rightarrow> (enroll_err + daemonEnrollment) fs" where
  "authenticate E A F token0 =
     (let token = TrimSpace token0
      in if token = [] then ret (Inl EnrollNotFound)
         else do {
           entries \<leftarrow> ReadDir F;
           case entries of
             Inl e \<Rightarrow> ret (Inl e)
           | Inr names \<Rightarrow> do {
               now \<leftarrow> unixNow E;
               find_token F (hashDaemonEnrollmentToken A token) now names
             }
         })"

text \<open>The checks of an install code.\<close>

definition code_accepted :: "auth_env \<Rightarrow> int \<Rightarrow> string \<Rightarrow> daemonEnrollment \<Rightarrow> bool" where
  "code_accepted A now code e \<longleftrightarrow>
     (en_Status e = [] \<or> en_Status e = ''pending'') \<and> \<not> expired (en_ExpiresUnix e) now \<and>
     \<not> expired (en_InstallCodeExpiry e) now \<and> en_InstallCodeHash e \<noteq> [] \<and>
     en_InstallCodeHash e = hashDaemonEnrollmentToken A code"

definition consumeInstallCode ::
  "'z env_scheme \<Rightarrow> auth_env \<Rightarrow> fs_env \<Rightarrow> string \<Rightarrow> string \<Rightarrow> (enroll_err + daemonEnrollment \<times> string) fs" where
  "consumeInstallCode E A F i code0 =
     (let code = TrimSpace code0
      in if code = [] then ret (Inl EnrollNotFound)
         else do {
           r \<leftarrow> getLocked F i;
           case r of
             Inl e \<Rightarrow> ret (Inl e)
           | Inr enrollment \<Rightarrow> do {
               now \<leftarrow> unixNow E;
               if \<not> code_accepted A now code enrollment then ret (Inl EnrollNotFound)
               else do {
                 t \<leftarrow> newDaemonEnrollmentToken A;
                 case t of
                   None \<Rightarrow> ret (Inl EnrollFailed)
                 | Some token \<Rightarrow> do {
                     let enrollment1 = enrollment\<lparr>en_TokenHash := hashDaemonEnrollmentToken A token,
                                                  en_TokenPrefix := tokenPrefix token\<rparr>;
                     s \<leftarrow> save F enrollment1;
                     ret (case s of Inl e \<Rightarrow> Inl e | Inr _ \<Rightarrow> Inr (enrollment1, token))
                   }
               }
             }
         })"

definition revoked_entry :: "int \<Rightarrow> daemonEnrollment \<Rightarrow> daemonEnrollment" where
  "revoked_entry now e = e\<lparr>en_Status := ''revoked'', en_RevokedUnix := now, en_TokenHash := [],
     en_InstallCodeHash := [], en_InstallCodeUsed := now\<rparr>"

definition revoke :: "'z env_scheme \<Rightarrow> fs_env \<Rightarrow> string \<Rightarrow> (enroll_err + daemonEnrollment) fs" where
  "revoke E F i = do {
     r \<leftarrow> getLocked F i;
     case r of
       Inl e \<Rightarrow> ret (Inl e)
     | Inr enrollment \<Rightarrow> do {
         now \<leftarrow> unixNow E;
         s \<leftarrow> save F (revoked_entry now enrollment);
         ret (case s of Inl e \<Rightarrow> Inl e | Inr _ \<Rightarrow> Inr (revoked_entry now enrollment))
       }
   }"

text \<open>The fields of the computer's description that the enrollment takes over.\<close>

record ConnectInfo =
  cn_ComputerId :: string
  cn_DaemonId :: string
  cn_Hostname :: string

definition take_over :: "string \<Rightarrow> string \<Rightarrow> string" where
  "take_over old given = (if TrimSpace given \<noteq> [] then TrimSpace given else old)"

definition connected_entry :: "int \<Rightarrow> ConnectInfo option \<Rightarrow> bool \<Rightarrow> daemonEnrollment \<Rightarrow> daemonEnrollment" where
  "connected_entry now info heartbeat e0 =
     (let e1 = e0\<lparr>en_Status := ''connected'',
            en_ConnectedUnix := (if en_ConnectedUnix e0 = 0 then now else en_ConnectedUnix e0),
            en_LastHeartbeatUnix := (if heartbeat then now else en_LastHeartbeatUnix e0)\<rparr>;
          e2 = (case info of
                  None \<Rightarrow> e1
                | Some c \<Rightarrow> e1\<lparr>en_ComputerID := take_over (en_ComputerID e1) (cn_ComputerId c),
                    en_DaemonID := take_over (en_DaemonID e1) (cn_DaemonId c),
                    en_Hostname := take_over (en_Hostname e1) (cn_Hostname c)\<rparr>)
      in if en_InstallCodeUsed e2 = 0 then e2\<lparr>en_InstallCodeUsed := now, en_InstallCodeHash := []\<rparr> else e2)"

definition markConnected ::
  "'z env_scheme \<Rightarrow> fs_env \<Rightarrow> string \<Rightarrow> ConnectInfo option \<Rightarrow> bool \<Rightarrow> (enroll_err + unit) fs" where
  "markConnected E F i info heartbeat = do {
     r \<leftarrow> getLocked F i;
     case r of
       Inl e \<Rightarrow> ret (Inl e)
     | Inr enrollment \<Rightarrow> do {
         now \<leftarrow> unixNow E;
         save F (connected_entry now info heartbeat enrollment)
       }
   }"

section \<open>The interceptor\<close>

definition bearerTokenFromHeader :: "string list \<Rightarrow> string" where
  "bearerTokenFromHeader values =
     (case filter (\<lambda>v. CHR '' '' \<in> set v \<and> map lower_char (takeWhile (\<lambda>c. c \<noteq> CHR '' '') v) = ''bearer'')
             (map TrimSpace values) of
        [] \<Rightarrow> []
      | v # _ \<Rightarrow> TrimSpace (tl (dropWhile (\<lambda>c. c \<noteq> CHR '' '') v)))"

text \<open>A call of another type than the three does not touch the enrollment; a stream passes no request.\<close>

datatype daemon_request =
    StreamOpened
  | RegisterComputerRequest "ConnectInfo option"
  | HeartbeatComputerRequest "ConnectInfo option"
  | SyncComputerInventoryRequest "ConnectInfo option"
  | OtherRequest

definition markDaemonEnrollmentConnected :: "'z env_scheme \<Rightarrow> fs_env \<Rightarrow> string \<Rightarrow> daemon_request \<Rightarrow> unit fs" where
  "markDaemonEnrollmentConnected E F i req =
     (if TrimSpace i = [] then ret ()
      else case req of
        StreamOpened \<Rightarrow> do { _ \<leftarrow> markConnected E F i None False; ret () }
      | RegisterComputerRequest info \<Rightarrow> do { _ \<leftarrow> markConnected E F i info True; ret () }
      | HeartbeatComputerRequest info \<Rightarrow> do { _ \<leftarrow> markConnected E F i info True; ret () }
      | SyncComputerInventoryRequest info \<Rightarrow> do { _ \<leftarrow> markConnected E F i info False; ret () }
      | OtherRequest \<Rightarrow> ret ())"

datatype connect_err =
    UnauthenticatedToken         \<comment> \<open>invalid daemon enrollment token\<close>
  | UnauthenticatedUnavailable   \<comment> \<open>daemon enrollment unavailable\<close>

definition authenticateDaemonConnect ::
  "'z env_scheme \<Rightarrow> auth_env \<Rightarrow> fs_env \<Rightarrow> string list \<Rightarrow> (connect_err + daemonEnrollment) fs" where
  "authenticateDaemonConnect E A F header = do {
     r \<leftarrow> authenticate E A F (bearerTokenFromHeader header);
     ret (case r of
            Inl EnrollNotFound \<Rightarrow> Inl UnauthenticatedToken
          | Inl EnrollFailed \<Rightarrow> Inl UnauthenticatedUnavailable
          | Inr e \<Rightarrow> Inr e)
   }"

text \<open>\<open>handler\<close> is the rest of the server; it may also stand for other calls that run meanwhile.\<close>

definition WrapUnary ::
  "'z env_scheme \<Rightarrow> auth_env \<Rightarrow> fs_env \<Rightarrow> (daemonEnrollment \<Rightarrow> ('e + 'a) fs) \<Rightarrow> string list \<Rightarrow> daemon_request \<Rightarrow>
     ((connect_err + 'e) + 'a) fs" where
  "WrapUnary E A F handler header req = do {
     r \<leftarrow> authenticateDaemonConnect E A F header;
     case r of
       Inl e \<Rightarrow> ret (Inl (Inl e))
     | Inr enrollment \<Rightarrow> do {
         resp \<leftarrow> handler enrollment;
         case resp of
           Inl e \<Rightarrow> ret (Inl (Inr e))
         | Inr x \<Rightarrow> do { markDaemonEnrollmentConnected E F (en_ID enrollment) req; ret (Inr x) }
       }
   }"

definition WrapStreamingHandler ::
  "'z env_scheme \<Rightarrow> auth_env \<Rightarrow> fs_env \<Rightarrow> (daemonEnrollment \<Rightarrow> ('e + unit) fs) \<Rightarrow> string list \<Rightarrow>
     ((connect_err + 'e) + unit) fs" where
  "WrapStreamingHandler E A F handler header = do {
     r \<leftarrow> authenticateDaemonConnect E A F header;
     case r of
       Inl e \<Rightarrow> ret (Inl (Inl e))
     | Inr enrollment \<Rightarrow> do {
         markDaemonEnrollmentConnected E F (en_ID enrollment) StreamOpened;
         resp \<leftarrow> handler enrollment;
         ret (case resp of Inl e \<Rightarrow> Inl (Inr e) | Inr x \<Rightarrow> Inr x)
       }
   }"

section \<open>What the methods do to the directory\<close>

text \<open>The files that hold enrollments; temporary files have another extension.\<close>

definition json_files :: "files \<Rightarrow> string \<rightharpoonup> string" where
  "json_files d p = (if HasSuffix p ''.json'' then map_of d p else None)"

lemma HasSuffix_iff: "HasSuffix s p \<longleftrightarrow> (\<exists>t. s = t @ p)"
  unfolding HasSuffix_def HasPrefix_iff by (metis rev_append rev_rev_ident)

lemma tmp_not_json [simp]: "\<not> HasSuffix (p @ ''.tmp'') ''.json''"
  by (simp add: HasSuffix_def HasPrefix_def)

lemma json_files_tmp [simp]: "json_files (AList.update (p @ ''.tmp'') t d) = json_files d"
proof
  fix q
  show "json_files (AList.update (p @ ''.tmp'') t d) q = json_files d q"
    by (cases "q = p @ ''.tmp''") (auto simp: json_files_def update_conv')
qed

lemma json_files_rename [simp]:
  "json_files (AList.update p t (AList.delete (r @ ''.tmp'') d)) =
     (if HasSuffix p ''.json'' then (json_files d)(p \<mapsto> t) else json_files d)"
proof
  fix q
  show "json_files (AList.update p t (AList.delete (r @ ''.tmp'') d)) q =
     (if HasSuffix p ''.json'' then (json_files d)(p \<mapsto> t) else json_files d) q"
    by (cases "q = r @ ''.tmp''") (auto simp: json_files_def update_conv' delete_conv')
qed

lemma path_json: "path i = Some p \<Longrightarrow> HasSuffix p ''.json''"
  by (auto simp: path_def Let_def HasSuffix_iff split: if_splits)

definition written :: "fs_env \<Rightarrow> files world \<Rightarrow> files world \<Rightarrow> daemonEnrollment \<Rightarrow> bool" where
  "written F w w' e \<longleftrightarrow> (\<exists>p data. path (en_ID e) = Some p \<and> en_marshal F e = Some data \<and>
     json_files (db w') = (json_files (db w))(p \<mapsto> data))"

definition loaded :: "fs_env \<Rightarrow> files world \<Rightarrow> string \<Rightarrow> daemonEnrollment \<Rightarrow> bool" where
  "loaded F w i e \<longleftrightarrow> (\<exists>p data. path i = Some p \<and> json_files (db w) p = Some data \<and>
     en_unmarshal F data = Some e)"

lemma WriteFile_run:
  "run_state (WriteFile F p data) w = (ok, w') \<Longrightarrow>
     tick w' = Suc (tick w) \<and>
     (if ok then db w' = AList.update p data (db w)
      else db w' = db w \<or> (\<exists>t. db w' = AList.update p t (db w)))"
  by (auto simp: WriteFile_def split: if_splits option.splits)

lemma Rename_run:
  "run_state (Rename F a b) w = (ok, w') \<Longrightarrow>
     tick w' = Suc (tick w) \<and>
     (if ok then \<exists>data. map_of (db w) a = Some data \<and> db w' = AList.update b data (AList.delete a (db w))
      else db w' = db w)"
  by (auto simp: Rename_def split: if_splits option.splits)

text \<open>A failed \<^verbatim>\<open>save\<close> changes no enrollment, whatever the failure was.\<close>

lemma save_run:
  assumes "run_state (save F e) w = (r, w')"
  shows "tick w \<le> tick w' \<and> (case r of Inl _ \<Rightarrow> json_files (db w') = json_files (db w) | Inr _ \<Rightarrow> written F w w' e)"
  using assms unfolding save_def MkdirAll_def
  by (elim run_elims)
    (auto dest!: drawn_run WriteFile_run Rename_run simp: path_json written_def update_conv' split: if_splits)

lemma getLocked_run:
  "run_state (getLocked F i) w = (r, w') \<Longrightarrow>
     db w' = db w \<and> tick w \<le> tick w' \<and> (case r of Inl _ \<Rightarrow> True | Inr e \<Rightarrow> loaded F w i e)"
  unfolding getLocked_def
  by (elim run_elims)
    (auto simp: ReadFile_def loaded_def json_files_def dest: path_json split: if_splits option.splits sum.splits)

text \<open>How an enrollment on disk is rewritten.\<close>

inductive rewritten :: "auth_env \<Rightarrow> daemonEnrollment \<Rightarrow> daemonEnrollment \<Rightarrow> bool" for A where
  revoked: "rewritten A e (revoked_entry now e)"
| connected: "rewritten A e (connected_entry now info heartbeat e)"
| reissued: "code_accepted A now code e \<Longrightarrow>
     rewritten A e (e\<lparr>en_TokenHash := hashDaemonEnrollmentToken A token, en_TokenPrefix := tokenPrefix token\<rparr>)"

definition den_id :: "'z env_scheme \<Rightarrow> nat \<Rightarrow> string" where
  "den_id E n = ''den_'' @ rand_hex E n"

text \<open>A method of the store leaves the enrollments alone, adds one under a new identifier, or rewritten one.\<close>

definition enroll_effect :: "'z env_scheme \<Rightarrow> auth_env \<Rightarrow> fs_env \<Rightarrow> files world \<Rightarrow> files world \<Rightarrow> bool" where
  "enroll_effect E A F w w' \<longleftrightarrow> tick w \<le> tick w' \<and>
     (json_files (db w') = json_files (db w) \<or>
      (\<exists>n e. tick w \<le> n \<and> n < tick w' \<and> en_ID e = den_id E n \<and> written F w w' e) \<or>
      (\<exists>i e e'. loaded F w i e \<and> rewritten A e e' \<and> written F w w' e'))"

lemma effect_same: "db w' = db w \<Longrightarrow> tick w \<le> tick w' \<Longrightarrow> enroll_effect E A F w w'"
  by (simp add: enroll_effect_def)

lemma effect_created:
  assumes "run_state (save F e) w1 = (r, w')" and "db w1 = db w" and "en_ID e = den_id E n"
    and "tick w \<le> n" and "n < tick w1"
  shows "enroll_effect E A F w w'"
proof -
  have t: "tick w1 \<le> tick w'" using save_run [OF assms(1)] by blast
  show ?thesis
  proof (cases r)
    case (Inl x)
    then show ?thesis using save_run [OF assms(1)] t assms(2,4,5) by (simp add: enroll_effect_def)
  next
    case (Inr x)
    then have "written F w w' e" using save_run [OF assms(1)] assms(2) by (simp add: written_def)
    moreover have "n < tick w'" "tick w \<le> tick w'" using t assms(4,5) by simp_all
    ultimately show ?thesis using assms(3,4) unfolding enroll_effect_def by blast
  qed
qed

lemma effect_rewritten:
  assumes "run_state (save F e') w1 = (r, w')" and "db w1 = db w" and "tick w \<le> tick w1"
    and "loaded F w i e" and "rewritten A e e'"
  shows "enroll_effect E A F w w'"
proof -
  have t: "tick w \<le> tick w'" using save_run [OF assms(1)] assms(3) by auto
  show ?thesis
  proof (cases r)
    case (Inl x)
    then show ?thesis using save_run [OF assms(1)] t assms(2) by (simp add: enroll_effect_def)
  next
    case (Inr x)
    then have "written F w w' e'" using save_run [OF assms(1)] assms(2) by (simp add: written_def)
    then show ?thesis using t assms(4,5) unfolding enroll_effect_def by blast
  qed
qed

lemma token_run:
  "run_state (newDaemonEnrollmentToken A) w = (t, w') \<Longrightarrow> db w' = db w \<and> tick w' = Suc (tick w)"
  "run_state (newDaemonInstallCode A) w = (t, w') \<Longrightarrow> db w' = db w \<and> tick w' = Suc (tick w)"
  unfolding newDaemonEnrollmentToken_def newDaemonInstallCode_def
  by (elim run_elims; auto dest!: drawn_run)+

lemmas enroll_dests = token_run getLocked_run drawn_run now_run newID_run

lemma create_effect: "run_state (create E A F req) w = (r, w') \<Longrightarrow> enroll_effect E A F w w'"
  unfolding create_def MkdirAll_def Let_def
  by (elim run_elims; hypsubst?; (erule effect_created | rule effect_same))
    (auto dest!: enroll_dests simp: den_id_def)

lemma revoke_effect: "run_state (revoke E F i) w = (r, w') \<Longrightarrow> enroll_effect E A F w w'"
  unfolding revoke_def
  by (elim run_elims; hypsubst?; (erule effect_rewritten | rule effect_same))
    (auto dest!: enroll_dests intro: rewritten.intros)

lemma markConnected_effect: "run_state (markConnected E F i info hb) w = (r, w') \<Longrightarrow> enroll_effect E A F w w'"
  unfolding markConnected_def
  by (elim run_elims; hypsubst?; (erule effect_rewritten | rule effect_same))
    (auto dest!: enroll_dests intro: rewritten.intros)

lemma consume_effect:
  "run_state (consumeInstallCode E A F i code) w = (r, w') \<Longrightarrow> enroll_effect E A F w w'"
  unfolding consumeInstallCode_def Let_def
  by (elim run_elims; hypsubst?; (erule effect_rewritten | rule effect_same))
    (auto dest!: enroll_dests intro: rewritten.intros)

lemma find_token_run:
  "run_state (find_token F h now names) w = (r, w') \<Longrightarrow>
     db w' = db w \<and> tick w \<le> tick w' \<and>
     (case r of Inl _ \<Rightarrow> True
      | Inr e \<Rightarrow> \<not> expired (en_ExpiresUnix e) now \<and> en_TokenHash e = h \<and> (\<exists>i. loaded F w i e))"
proof (induction names arbitrary: w)
  case (Cons name names)
  show ?case
  proof (cases "Ext name = ''.json''")
    case True
    let ?rest = "find_token F h now names"
    obtain x w1 where g: "run_state (getLocked F (TrimSuffix name ''.json'')) w = (x, w1)" by fastforce
    have g': "db w1 = db w" "tick w \<le> tick w1" "\<And>e. x = Inr e \<Longrightarrow> loaded F w (TrimSuffix name ''.json'') e"
      using getLocked_run [OF g] by auto
    have l: "loaded F w1 i e = loaded F w i e" for i e using g'(1) by (simp add: loaded_def)
    consider (rest) "run_state ?rest w1 = (r, w')"
      | (hit) e where "x = Inr e" "\<not> expired (en_ExpiresUnix e) now" "en_TokenHash e = h" "r = Inr e" "w' = w1"
      using Cons.prems True g by (auto split: sum.splits if_splits)
    then show ?thesis
    proof cases
      case rest
      from Cons.IH [OF this] show ?thesis using g' l by (auto split: sum.splits)
    next
      case hit
      then show ?thesis using g' by auto
    qed
  next
    case False
    then show ?thesis using Cons by simp
  qed
qed auto

lemma authenticate_run:
  assumes "run_state (authenticate E A F token) w = (r, w')"
  shows "db w' = db w \<and> tick w \<le> tick w' \<and>
     (case r of Inl _ \<Rightarrow> True
      | Inr e \<Rightarrow> en_TokenHash e = hashDaemonEnrollmentToken A (TrimSpace token) \<and> (\<exists>i. loaded F w i e))"
  using assms unfolding authenticate_def Let_def ReadDir_def
  by (elim run_elims) (auto dest!: now_run find_token_run simp: loaded_def split: sum.splits)

section \<open>Any sequence of calls\<close>

inductive enroll_step :: "'z env_scheme \<Rightarrow> auth_env \<Rightarrow> fs_env \<Rightarrow> files world \<Rightarrow> files world \<Rightarrow> bool" for E A F where
  create_step: "enroll_step E A F w (after (create E A F req) w)"
| get_step: "enroll_step E A F w (after (getLocked F i) w)"
| authenticate_step: "enroll_step E A F w (after (authenticate E A F token) w)"
| consume_step: "enroll_step E A F w (after (consumeInstallCode E A F i code) w)"
| revoke_step: "enroll_step E A F w (after (revoke E F i) w)"
| connect_step: "enroll_step E A F w (after (markConnected E F i info hb) w)"

lemma enroll_step_effect: "enroll_step E A F w w' \<Longrightarrow> enroll_effect E A F w w'"
proof (induction rule: enroll_step.induct)
  case (get_step w i)
  show ?case using getLocked_run [OF run_pair] by (intro effect_same) blast+
next
  case (authenticate_step w token)
  show ?case using authenticate_run [OF run_pair] by (intro effect_same) blast+
qed (rule create_effect consume_effect revoke_effect markConnected_effect, rule run_pair)+

text \<open>
  What \<^verbatim>\<open>encoding/json\<close> promises of a document it wrote: it reads the same numbers back, and the same text
  where the text is ASCII (bytes that are no UTF-8 are replaced).
\<close>

definition same_text :: "string \<Rightarrow> string \<Rightarrow> bool" where
  "same_text s t \<longleftrightarrow> (list_all is_ascii s \<longrightarrow> t = s)"

definition reread :: "daemonEnrollment \<Rightarrow> daemonEnrollment \<Rightarrow> bool" where
  "reread e e' \<longleftrightarrow>
     same_text (en_ID e) (en_ID e') \<and> same_text (en_TokenHash e) (en_TokenHash e') \<and>
     same_text (en_InstallCodeHash e) (en_InstallCodeHash e') \<and> same_text (en_Status e) (en_Status e') \<and>
     same_text (en_DisplayName e) (en_DisplayName e') \<and> same_text (en_ComputerID e) (en_ComputerID e') \<and>
     same_text (en_Hostname e) (en_Hostname e') \<and> en_ExpiresUnix e' = en_ExpiresUnix e \<and>
     en_InstallCodeExpiry e' = en_InstallCodeExpiry e \<and> en_InstallCodeUsed e' = en_InstallCodeUsed e"

definition codec_ok :: "fs_env \<Rightarrow> bool" where
  "codec_ok F \<longleftrightarrow>
     (\<forall>e data. en_marshal F e = Some data \<longrightarrow> (\<exists>e'. en_unmarshal F data = Some e' \<and> reread e e'))"

text \<open>\<^verbatim>\<open>hex.EncodeToString\<close> draws from sixteen characters, and random identifiers do not repeat.\<close>

definition hex_ids :: "'z env_scheme \<Rightarrow> bool" where
  "hex_ids E \<longleftrightarrow> inj (rand_hex E) \<and> (\<forall>n. list_all (\<lambda>c. c \<in> set ''0123456789abcdef'') (rand_hex E n))"

definition visible :: "char \<Rightarrow> bool" where
  "visible c \<longleftrightarrow> (33 \<le> (of_char c :: nat) \<and> (of_char c :: nat) < 127)"

lemma strip_first_visible:
  assumes "list_all visible s" and "list_all (\<lambda>e. e \<noteq> [] \<and> \<not> visible (hd e)) es"
  shows "strip_first es s = None"
  using assms
proof (induction es)
  case (Cons e es)
  then obtain c cs where e: "e = c # cs" "\<not> visible c" by (cases e) auto
  then have "\<not> HasPrefix s e" using Cons.prems(1) by (cases s) (auto simp: HasPrefix_def)
  with Cons show ?case by simp
qed simp

lemma TrimSpace_visible: "list_all visible s \<Longrightarrow> TrimSpace s = s"
proof -
  assume v: "list_all visible s"
  then have r: "list_all visible (rev s)" by (simp add: list_all_iff)
  have a: "list_all (\<lambda>e. e \<noteq> [] \<and> \<not> visible (hd e)) space_encodings"
    and b: "list_all (\<lambda>e. e \<noteq> [] \<and> \<not> visible (hd e)) (map rev space_encodings)"
    by code_simp+
  show ?thesis
    unfolding TrimSpace_def
    by (simp add: trim_left_fixed strip_first_visible [OF v a] strip_first_visible [OF r b])
qed

definition hex_char :: "char \<Rightarrow> bool" where
  "hex_char c \<longleftrightarrow> visible c \<and> is_ascii c \<and> c \<noteq> CHR ''/'' \<and> c \<noteq> CHR 0x5C"

lemma hex_chars: "list_all hex_char ''0123456789abcdef''"
  by code_simp

lemma den_id_path:
  assumes "hex_ids E"
  shows "path (den_id E n) = Some (den_id E n @ ''.json'')" and "list_all is_ascii (den_id E n)"
proof -
  have h: "list_all (\<lambda>c. c \<in> set ''0123456789abcdef'') (rand_hex E n)"
    using assms by (simp add: hex_ids_def)
  have v: "list_all visible (rand_hex E n)" and a: "list_all is_ascii (rand_hex E n)"
    and s: "list_all (\<lambda>c. c \<noteq> CHR ''/'' \<and> c \<noteq> CHR 0x5C) (rand_hex E n)"
    using list.pred_mono_strong [OF h, of hex_char] hex_chars unfolding list.pred_set hex_char_def by blast+
  have t: "TrimSpace (den_id E n) = den_id E n"
    using v by (intro TrimSpace_visible) (simp add: den_id_def visible_def)
  show "path (den_id E n) = Some (den_id E n @ ''.json'')"
    unfolding path_def t using s
    by (auto simp: den_id_def HasPrefix_def list_ex_iff list_all_iff)
  show "list_all is_ascii (den_id E n)"
    using a by (simp add: den_id_def is_ascii_def)
qed

text \<open>Every enrollment lies in the file of its identifier, which was drawn earlier.\<close>

definition filed :: "'z env_scheme \<Rightarrow> fs_env \<Rightarrow> files world \<Rightarrow> bool" where
  "filed E F w \<longleftrightarrow>
     (\<forall>p data. json_files (db w) p = Some data \<longrightarrow>
        (\<exists>e n. en_unmarshal F data = Some e \<and> en_ID e = den_id E n \<and> n < tick w \<and> p = den_id E n @ ''.json''))"

lemma filed_loaded:
  assumes "filed E F w" and "loaded F w i e"
  obtains n where "en_ID e = den_id E n" and "n < tick w" and "path i = Some (en_ID e @ ''.json'')"
proof -
  obtain p data where p: "path i = Some p" "json_files (db w) p = Some data" "en_unmarshal F data = Some e"
    using assms(2) unfolding loaded_def by blast
  obtain e' n where "en_unmarshal F data = Some e'" "en_ID e' = den_id E n" "n < tick w" "p = den_id E n @ ''.json''"
    using assms(1) p(2) unfolding filed_def by blast
  then show thesis using that [of n] p by simp
qed

lemma rewritten_ID: "rewritten A e e' \<Longrightarrow> en_ID e' = en_ID e"
  by (induction rule: rewritten.induct) (auto simp: revoked_entry_def connected_entry_def Let_def split: option.splits)

lemma written_filed:
  assumes "codec_ok F" "hex_ids E" "written F w w' e" "en_ID e = den_id E n"
  obtains data e' where "json_files (db w') = (json_files (db w))(den_id E n @ ''.json'' \<mapsto> data)"
    and "en_unmarshal F data = Some e'" and "reread e e'" and "en_ID e' = den_id E n"
proof -
  obtain p data where p: "path (en_ID e) = Some p" "en_marshal F e = Some data"
      "json_files (db w') = (json_files (db w))(p \<mapsto> data)"
    using assms(3) unfolding written_def by blast
  have q: "p = den_id E n @ ''.json''" using p(1) assms(4) den_id_path(1) [OF assms(2)] by simp
  obtain e' where e': "en_unmarshal F data = Some e'" "reread e e'"
    using assms(1) p(2) unfolding codec_ok_def by blast
  have "en_ID e' = den_id E n"
    using e'(2) den_id_path(2) [OF assms(2)] assms(4) by (simp add: reread_def same_text_def)
  then show thesis using that p(3) q e' by blast
qed

lemma written_keeps_filed:
  assumes "codec_ok F" "hex_ids E" "filed E F w" "written F w w' e" "en_ID e = den_id E n" "n < tick w'"
    and "tick w \<le> tick w'"
  shows "filed E F w'"
proof -
  obtain data e' where d: "json_files (db w') = (json_files (db w))(den_id E n @ ''.json'' \<mapsto> data)"
      "en_unmarshal F data = Some e'" "en_ID e' = den_id E n"
    by (rule written_filed [OF assms(1,2,4,5)]) blast
  show ?thesis
    unfolding filed_def d(1)
  proof (intro allI impI)
    fix p x
    assume "((json_files (db w))(den_id E n @ ''.json'' \<mapsto> data)) p = Some x"
    then consider "p = den_id E n @ ''.json''" "x = data" | "json_files (db w) p = Some x"
      by (cases "p = den_id E n @ ''.json''") simp_all
    then show "\<exists>e m. en_unmarshal F x = Some e \<and> en_ID e = den_id E m \<and> m < tick w' \<and> p = den_id E m @ ''.json''"
    proof cases
      case 1
      then show ?thesis using d(2,3) assms(6) by blast
    next
      case 2
      then obtain e m where "en_unmarshal F x = Some e" "en_ID e = den_id E m" "m < tick w" "p = den_id E m @ ''.json''"
        using assms(3) unfolding filed_def by blast
      moreover have "m < tick w'" using \<open>m < tick w\<close> assms(7) by simp
      ultimately show ?thesis by blast
    qed
  qed
qed

lemma effect_keeps_filed:
  assumes "codec_ok F" "hex_ids E" "filed E F w" "enroll_effect E A F w w'"
  shows "filed E F w'"
proof -
  have t: "tick w \<le> tick w'" using assms(4) by (simp add: enroll_effect_def)
  consider (same) "json_files (db w') = json_files (db w)"
    | (new) n e where "n < tick w'" "en_ID e = den_id E n" "written F w w' e"
    | (old) i e e' where "loaded F w i e" "rewritten A e e'" "written F w w' e'"
    using assms(4) unfolding enroll_effect_def by blast
  then show ?thesis
  proof cases
    case same
    show ?thesis
      unfolding filed_def same
    proof (intro allI impI)
      fix p data
      assume "json_files (db w) p = Some data"
      then obtain e n where "en_unmarshal F data = Some e" "en_ID e = den_id E n" "n < tick w" "p = den_id E n @ ''.json''"
        using assms(3) unfolding filed_def by blast
      moreover have "n < tick w'" using \<open>n < tick w\<close> t by simp
      ultimately show "\<exists>e n. en_unmarshal F data = Some e \<and> en_ID e = den_id E n \<and> n < tick w' \<and> p = den_id E n @ ''.json''"
        by blast
    qed
  next
    case new
    then show ?thesis using written_keeps_filed [OF assms(1-3) new(3,2,1) t] by simp
  next
    case old
    obtain n where "en_ID e = den_id E n" "n < tick w" by (rule filed_loaded [OF assms(3) old(1)])
    then show ?thesis
      using written_keeps_filed [OF assms(1-3) old(3)] rewritten_ID [OF old(2)] t by simp
  qed
qed

section \<open>States an enrollment never leaves\<close>

definition enrolled_as :: "(daemonEnrollment \<Rightarrow> bool) \<Rightarrow> fs_env \<Rightarrow> string \<Rightarrow> files world \<Rightarrow> bool" where
  "enrolled_as Q F i w \<longleftrightarrow>
     (\<exists>data e. json_files (db w) (i @ ''.json'') = Some data \<and> en_unmarshal F data = Some e \<and> Q e)"

text \<open>A condition on an enrollment that survives being rewritten and being read back.\<close>

locale final_condition =
  fixes A :: auth_env and Q :: "daemonEnrollment \<Rightarrow> bool"
  assumes rewrite: "rewritten A e e' \<Longrightarrow> Q e \<Longrightarrow> Q e'"
    and reading: "reread e e' \<Longrightarrow> Q e \<Longrightarrow> Q e'"
begin

lemma loaded_final:
  assumes "filed E F w" and "enrolled_as Q F i w" and "loaded F w j e" and "en_ID e = i"
  shows "Q e"
proof -
  obtain n where "path j = Some (i @ ''.json'')"
    by (rule filed_loaded [OF assms(1,3)]) (use assms(4) in simp)
  then show ?thesis using assms(2,3) unfolding enrolled_as_def loaded_def by fastforce
qed

lemma written_final:
  assumes "codec_ok F" "hex_ids E" "written F w w' e" "en_ID e = den_id E n" "Q e"
  shows "enrolled_as Q F (den_id E n) w'"
proof -
  obtain data e' where "json_files (db w') = (json_files (db w))(den_id E n @ ''.json'' \<mapsto> data)"
      "en_unmarshal F data = Some e'" "reread e e'"
    by (rule written_filed [OF assms(1-4)]) blast
  then show ?thesis using reading [OF _ assms(5)] unfolding enrolled_as_def by auto
qed

lemma other_file:
  assumes "codec_ok F" "hex_ids E" "written F w w' e" "en_ID e = den_id E n" "den_id E n \<noteq> i"
  shows "enrolled_as Q F i w' = enrolled_as Q F i w"
proof -
  obtain data where "json_files (db w') = (json_files (db w))(den_id E n @ ''.json'' \<mapsto> data)"
    by (rule written_filed [OF assms(1-4)]) blast
  then show ?thesis using assms(5) unfolding enrolled_as_def by simp
qed

lemma effect_final:
  assumes "codec_ok F" "hex_ids E" "filed E F w" "enroll_effect E A F w w'" "enrolled_as Q F i w"
  shows "enrolled_as Q F i w'"
proof -
  obtain m where m: "i = den_id E m" "m < tick w"
    using assms(3,5) unfolding enrolled_as_def filed_def by fastforce
  consider (same) "json_files (db w') = json_files (db w)"
    | (new) n e where "tick w \<le> n" "en_ID e = den_id E n" "written F w w' e"
    | (old) j e e' where "loaded F w j e" "rewritten A e e'" "written F w w' e'"
    using assms(4) unfolding enroll_effect_def by blast
  then show ?thesis
  proof cases
    case same
    then show ?thesis using assms(5) unfolding enrolled_as_def by simp
  next
    case new
    have "den_id E n \<noteq> i"
      using m new(1) assms(2) by (auto simp: den_id_def hex_ids_def dest: injD)
    then show ?thesis using other_file [OF assms(1,2) new(3,2)] assms(5) by blast
  next
    case old
    obtain n where n: "en_ID e = den_id E n" by (rule filed_loaded [OF assms(3) old(1)])
    have n': "en_ID e' = den_id E n" using rewritten_ID [OF old(2)] n by simp
    show ?thesis
    proof (cases "den_id E n = i")
      case True
      have "Q e'" using rewrite [OF old(2)] loaded_final [OF assms(3,5) old(1)] n True by simp
      then show ?thesis using written_final [OF assms(1,2) old(3) n'] True by simp
    next
      case False
      then show ?thesis using other_file [OF assms(1,2) old(3) n'] assms(5) by blast
    qed
  qed
qed

lemma steps_final:
  assumes "(enroll_step E A F)\<^sup>*\<^sup>* w w'" "codec_ok F" "hex_ids E" "filed E F w" "enrolled_as Q F i w"
  shows "filed E F w' \<and> enrolled_as Q F i w'"
  using assms
proof (induction rule: rtranclp_induct)
  case (step u v)
  from step.IH [OF step.prems] step.hyps(2) show ?case
    using effect_keeps_filed [OF assms(2,3)] effect_final [OF assms(2,3)] enroll_step_effect by blast
qed simp

end

definition locked_out :: "daemonEnrollment \<Rightarrow> bool" where
  "locked_out e \<longleftrightarrow> en_TokenHash e = [] \<and> en_InstallCodeHash e = []"

definition past_install :: "daemonEnrollment \<Rightarrow> bool" where
  "past_install e \<longleftrightarrow> en_Status e = ''connected'' \<or> en_Status e = ''revoked''"

lemma connected_entry_fields:
  "en_TokenHash (connected_entry now info hb e) = en_TokenHash e"
  "en_InstallCodeHash (connected_entry now info hb e) = (if en_InstallCodeUsed e = 0 then [] else en_InstallCodeHash e)"
  "en_Status (connected_entry now info hb e) = ''connected''"
  "en_ID (connected_entry now info hb e) = en_ID e"
  by (simp_all add: connected_entry_def Let_def split: option.splits)

interpretation revocation: final_condition A locked_out for A
proof unfold_locales
  show "rewritten A e e' \<Longrightarrow> locked_out e \<Longrightarrow> locked_out e'" for e e'
    by (induction rule: rewritten.induct)
      (auto simp: locked_out_def revoked_entry_def connected_entry_fields code_accepted_def)
  show "reread e e' \<Longrightarrow> locked_out e \<Longrightarrow> locked_out e'" for e e'
    by (auto simp: locked_out_def reread_def same_text_def)
qed

interpretation installation: final_condition A past_install for A
proof unfold_locales
  show "rewritten A e e' \<Longrightarrow> past_install e \<Longrightarrow> past_install e'" for e e'
    by (induction rule: rewritten.induct)
      (auto simp: past_install_def revoked_entry_def connected_entry_fields)
  show "reread e e' \<Longrightarrow> past_install e \<Longrightarrow> past_install e'" for e e'
    by (auto simp: past_install_def reread_def same_text_def is_ascii_def)
qed

lemma reachable_filed:
  assumes "(enroll_step E A F)\<^sup>*\<^sup>* (world_of []) w" "codec_ok F" "hex_ids E"
  shows "filed E F w"
  using assms(1)
proof (induction rule: rtranclp_induct)
  case base
  show ?case by (simp add: filed_def json_files_def)
next
  case (step u v)
  then show ?case using effect_keeps_filed [OF assms(2,3)] enroll_step_effect by blast
qed

lemma hash_not_empty: "crypto_ok A \<Longrightarrow> hashDaemonEnrollmentToken A t \<noteq> []"
proof -
  assume "crypto_ok A"
  then have "length (sha256 A t) = 32" by (simp add: crypto_ok_def)
  then show ?thesis by (cases "sha256 A t") (auto simp: hashDaemonEnrollmentToken_def HexEncode_def)
qed

text \<open>A code is refused when the enrollment on disk does not accept it.\<close>

lemma consume_refused:
  assumes "\<And>e now. loaded F w i e \<Longrightarrow> \<not> code_accepted A now (TrimSpace code) e"
  shows "isl (result_of (consumeInstallCode E A F i code) w)"
proof -
  obtain r w' where r: "run_state (consumeInstallCode E A F i code) w = (r, w')" by fastforce
  have "isl r"
    using r assms unfolding consumeInstallCode_def Let_def
    by (elim run_elims) (auto dest!: getLocked_run)
  then show ?thesis using r by simp
qed

lemma revoke_locks:
  assumes "run_state (revoke E F i) w = (Inr e, w1)"
  shows "written F w w1 e \<and> locked_out e \<and> (\<exists>e0. loaded F w i e0 \<and> en_ID e = en_ID e0)"
  using assms unfolding revoke_def
  by (elim run_elims)
    (auto dest!: getLocked_run now_run save_run simp: locked_out_def revoked_entry_def written_def split: sum.splits)

lemma connect_closes:
  assumes "run_state (markConnected E F i info hb) w = (Inr (), w1)"
  shows "\<exists>e e0. written F w w1 e \<and> past_install e \<and> loaded F w i e0 \<and> en_ID e = en_ID e0"
proof -
  obtain e0 u v now where r: "run_state (getLocked F i) w = (Inr e0, u)" "run_state (unixNow E) u = (now, v)"
      "run_state (save F (connected_entry now info hb e0)) v = (Inr (), w1)"
    using assms unfolding markConnected_def by (elim run_elims) simp_all
  have l: "loaded F w i e0" and d: "db v = db w"
    using getLocked_run [OF r(1)] now_run [OF r(2)] by simp_all
  have "written F w w1 (connected_entry now info hb e0)"
    using save_run [OF r(3)] d by (simp add: written_def)
  then show ?thesis
    using l connected_entry_fields(3,4) [of now info hb e0] unfolding past_install_def by blast
qed

text \<open>
  C6: once an enrollment has been revoked, nothing the daemon's side or another administrator
  does, in any order and with any failures of the file system in between, lets a token in as that
  enrollment or turns its install code into a token again.
\<close>

theorem revocation_final:
  assumes "codec_ok F" and "crypto_ok A" and "hex_ids E"
    and "(enroll_step E A F)\<^sup>*\<^sup>* (world_of []) w"
    and "run_state (revoke E F i) w = (Inr e, w1)"
    and "(enroll_step E A F)\<^sup>*\<^sup>* w1 w2"
  shows "isl (result_of (consumeInstallCode E A F i code) w2) \<and>
     (\<forall>e'. result_of (authenticate E A F token) w2 = Inr e' \<longrightarrow> en_ID e' \<noteq> en_ID e)"
proof -
  have f: "filed E F w" by (rule reachable_filed [OF assms(4,1,3)])
  obtain e0 where r: "written F w w1 e" "locked_out e" "loaded F w i e0" "en_ID e = en_ID e0"
    using revoke_locks [OF assms(5)] by blast
  obtain n where n: "en_ID e0 = den_id E n" "path i = Some (en_ID e0 @ ''.json'')"
    by (rule filed_loaded [OF f r(3)])
  have e: "en_ID e = den_id E n" using r(4) n(1) by simp
  have f1: "filed E F w1" by (rule effect_keeps_filed [OF assms(1,3) f revoke_effect [OF assms(5)]])
  have h1: "enrolled_as locked_out F (den_id E n) w1"
    by (rule revocation.written_final [OF assms(1,3) r(1) e r(2)])
  note s = revocation.steps_final [OF assms(6,1,3) f1 h1]
  have f2: "filed E F w2" and h2: "enrolled_as locked_out F (den_id E n) w2" using s by blast+
  have lock: "locked_out x" if "loaded F w2 j x" "en_ID x = den_id E n" for j x
    by (rule revocation.loaded_final [OF f2 h2 that])
  have "\<not> code_accepted A now (TrimSpace code) x" if x: "loaded F w2 i x" for x now
  proof -
    obtain m where "en_ID x = den_id E m" "path i = Some (en_ID x @ ''.json'')" by (rule filed_loaded [OF f2 x])
    then have "en_ID x = den_id E n" using n by simp
    from lock [OF x this] show ?thesis by (simp add: locked_out_def code_accepted_def)
  qed
  then have "isl (result_of (consumeInstallCode E A F i code) w2)" by (rule consume_refused)
  moreover have "en_ID e' \<noteq> en_ID e" if a: "result_of (authenticate E A F token) w2 = Inr e'" for e'
  proof
    assume "en_ID e' = en_ID e"
    moreover obtain j where "loaded F w2 j e'" "en_TokenHash e' = hashDaemonEnrollmentToken A (TrimSpace token)"
      using authenticate_run [OF run_pair [of "authenticate E A F token" w2]] a by auto
    ultimately show False using lock [of j e'] e hash_not_empty [OF assms(2)] by (simp add: locked_out_def)
  qed
  ultimately show ?thesis by blast
qed

text \<open>
  C20: once \<^verbatim>\<open>markConnected\<close> has succeeded for an enrollment, its install code is refused for
  good, after any sequence of operations on the enrollments, torn and failed writes included. The
  interceptor calls it after registrations, heartbeats and inventories of a daemon and at the opening of a
  stream, not after other calls, and only logs its failure; until it has succeeded, and
  the code has not expired, the install script can be fetched with it again and again.
\<close>

theorem install_code_burned:
  assumes "codec_ok F" and "hex_ids E" and "(enroll_step E A F)\<^sup>*\<^sup>* (world_of []) w"
    and "run_state (markConnected E F i info hb) w = (Inr (), w1)"
    and "(enroll_step E A F)\<^sup>*\<^sup>* w1 w2"
  shows "isl (result_of (consumeInstallCode E A F i code) w2)"
proof -
  have f: "filed E F w" by (rule reachable_filed [OF assms(3,1,2)])
  obtain e e0 where r: "written F w w1 e" "past_install e" "loaded F w i e0" "en_ID e = en_ID e0"
    using connect_closes [OF assms(4)] by blast
  obtain n where n: "en_ID e0 = den_id E n" "path i = Some (en_ID e0 @ ''.json'')"
    by (rule filed_loaded [OF f r(3)])
  have e: "en_ID e = den_id E n" using r(4) n(1) by simp
  have f1: "filed E F w1" by (rule effect_keeps_filed [OF assms(1,2) f markConnected_effect [OF assms(4)]])
  have h1: "enrolled_as past_install F (den_id E n) w1"
    by (rule installation.written_final [OF assms(1,2) r(1) e r(2)])
  note s = installation.steps_final [OF assms(5,1,2) f1 h1]
  show ?thesis
  proof (rule consume_refused)
    fix x now
    assume x: "loaded F w2 i x"
    obtain m where "en_ID x = den_id E m" "path i = Some (en_ID x @ ''.json'')"
      by (rule filed_loaded [OF conjunct1 [OF s] x])
    then have "en_ID x = den_id E n" using n by simp
    from installation.loaded_final [OF conjunct1 [OF s] conjunct2 [OF s] x this]
    show "\<not> code_accepted A now (TrimSpace code) x" by (auto simp: past_install_def code_accepted_def)
  qed
qed

section \<open>A concrete directory\<close>

text \<open>Primitives of the right lengths that are cheap to evaluate.\<close>

definition plain_auth :: auth_env where
  "plain_auth = \<lparr>rand_read = (\<lambda>n k. Some (replicate k 0)), pbkdf2_key = (\<lambda>p s i k. Some (replicate k 0)),
     sha256 = (\<lambda>t. replicate 32 0)\<rparr>"

lemma crypto_ok_plain: "crypto_ok plain_auth"
  by (auto simp: crypto_ok_def plain_auth_def list_all_iff)

definition demo_enrollment :: daemonEnrollment where
  "demo_enrollment =
     \<lparr>en_ID = ''den_aaaaa'', en_TokenHash = replicate 64 CHR ''0'', en_TokenPrefix = ''ndt_AAAAAAAA'',
      en_InstallCodeHash = replicate 64 CHR ''0'', en_InstallCodePrefix = ''ndi_AAAAAAAA'',
      en_InstallCodeExpiry = 4603, en_InstallCodeUsed = 0, en_DisplayName = [],
      en_ComputerID = ''computer-den_aaaaa'', en_DaemonID = [], en_Hostname = [],
      en_CreatedUnix = 1003, en_ExpiresUnix = 0, en_ConnectedUnix = 0, en_LastHeartbeatUnix = 0,
      en_RevokedUnix = 0, en_Status = ''pending''\<rparr>"

text \<open>A codec for the documents of one enrollment.\<close>

definition demo_documents :: "(string \<times> daemonEnrollment) list" where
  "demo_documents = [(''P'', demo_enrollment), (''R'', revoked_entry 1009 demo_enrollment),
     (''C'', connected_entry 1009 None True demo_enrollment)]"

definition demo_fs :: fs_env where
  "demo_fs = \<lparr>fs_fault = (\<lambda>_. False), fs_torn = (\<lambda>_. None),
     en_marshal = (\<lambda>e. map_option fst (find (\<lambda>d. snd d = e) demo_documents)),
     en_unmarshal = map_of demo_documents\<rparr>"

lemma codec_ok_demo: "codec_ok demo_fs"
proof -
  have d: "distinct (map fst demo_documents)" by (simp add: demo_documents_def)
  have "map_of demo_documents data = Some e"
    if m: "map_option fst (find (\<lambda>d. snd d = e) demo_documents) = Some data" for e data
  proof -
    obtain x where x: "find (\<lambda>d. snd d = e) demo_documents = Some x" "fst x = data" using m by blast
    then have "(data, e) \<in> set demo_documents" using find_SomeD [OF x(1)] by (cases x) auto
    then show ?thesis by (rule map_of_is_SomeI [OF d])
  qed
  moreover have "reread e e" for e by (simp add: reread_def same_text_def)
  ultimately show ?thesis by (simp add: codec_ok_def demo_fs_def)
qed

lemma hex_ids_demo: "hex_ids demo_env"
  by (auto simp: hex_ids_def demo_env_def inj_on_def list_all_iff dest: arg_cong [where f = length])

definition demo_created :: "(enroll_err + daemonEnrollment \<times> string \<times> string) \<times> files world" where
  "demo_created = run_state (create demo_env plain_auth demo_fs
     \<lparr>ec_DisplayName = [], ec_ComputerID = [], ec_Hostname = [], ec_ExpiresUnix = 0\<rparr>) (world_of [])"

lemma demo_created_files: "snd demo_created = \<lparr>db = [(''den_aaaaa.json'', ''P'')], tick = 8, open_tx = 0\<rparr>"
  by code_simp

definition demo_enrolled :: "files world" where
  "demo_enrolled = \<lparr>db = [(''den_aaaaa.json'', ''P'')], tick = 8, open_tx = 0\<rparr>"

lemma demo_enrolled_reached: "(enroll_step demo_env plain_auth demo_fs)\<^sup>*\<^sup>* (world_of []) demo_enrolled"
  using create_step [of demo_env plain_auth demo_fs "world_of []"
      "\<lparr>ec_DisplayName = [], ec_ComputerID = [], ec_Hostname = [], ec_ExpiresUnix = 0\<rparr>"] demo_created_files
  by (simp add: demo_enrolled_def demo_created_def)

definition demo_revoked :: "files world" where
  "demo_revoked = \<lparr>db = [(''den_aaaaa.json'', ''R'')], tick = 13, open_tx = 0\<rparr>"

definition demo_connected :: "files world" where
  "demo_connected = \<lparr>db = [(''den_aaaaa.json'', ''C'')], tick = 13, open_tx = 0\<rparr>"

lemma demo_revoke: "run_state (revoke demo_env demo_fs ''den_aaaaa'') demo_enrolled =
   (Inr (revoked_entry 1009 demo_enrollment), demo_revoked)"
  by code_simp

lemma demo_connect: "run_state (markConnected demo_env demo_fs ''den_aaaaa'' None True) demo_enrolled =
   (Inr (), demo_connected)"
  by code_simp

theorem revocation_final_witness:
  "isl (result_of (consumeInstallCode demo_env plain_auth demo_fs ''den_aaaaa'' ''ndi_A'') demo_revoked) \<and>
   result_of (authenticate demo_env plain_auth demo_fs ''ndt_A'') demo_revoked \<noteq> Inr demo_enrollment"
proof -
  note r = revocation_final [OF codec_ok_demo crypto_ok_plain hex_ids_demo demo_enrolled_reached demo_revoke
      rtranclp.rtrancl_refl, of "''ndi_A''" "''ndt_A''"]
  have "en_ID demo_enrollment = en_ID (revoked_entry 1009 demo_enrollment)" by (simp add: revoked_entry_def)
  then show ?thesis using r by blast
qed

text \<open>Before the revocation the token is let in, and before the connection the code is accepted.\<close>

lemma demo_admitted:
  "result_of (authenticate demo_env plain_auth demo_fs ''ndt_A'') demo_enrolled = Inr demo_enrollment"
  by code_simp

lemma demo_code_accepted: "code_accepted plain_auth 1009 ''ndi_A'' demo_enrollment"
  by code_simp

theorem install_code_burned_witness:
  "isl (result_of (consumeInstallCode demo_env plain_auth demo_fs ''den_aaaaa'' ''ndi_A'') demo_connected)"
  by (rule install_code_burned [OF codec_ok_demo hex_ids_demo demo_enrolled_reached demo_connect rtranclp.rtrancl_refl])

text \<open>
  A call that was admitted before the revocation and ends after it marks the enrollment as connected
  again, although nobody is let in under it any more.
\<close>

lemma revoked_status_overwritten:
  "en_Status (connected_entry now info hb (revoked_entry t e)) = ''connected'' \<and>
   locked_out (connected_entry now info hb (revoked_entry t e))"
  by (simp add: connected_entry_fields locked_out_def revoked_entry_def)

section \<open>The interceptor lets nobody else through\<close>

text \<open>A call reaches the server only under an enrollment whose token it carries; otherwise nothing is changed.\<close>

lemma WrapUnary_unauthenticated:
  assumes "run_state (authenticateDaemonConnect E A F header) w = (Inl e, w')"
  shows "run_state (WrapUnary E A F handler header req) w = (Inl (Inl e), w')" and "db w' = db w"
proof -
  show "run_state (WrapUnary E A F handler header req) w = (Inl (Inl e), w')"
    using assms by (simp add: WrapUnary_def)
  show "db w' = db w"
    using assms unfolding authenticateDaemonConnect_def
    by (elim run_elims) (auto dest!: authenticate_run)
qed

lemma authenticateDaemonConnect_token:
  assumes "run_state (authenticateDaemonConnect E A F header) w = (Inr e, w')"
  shows "bearerTokenFromHeader header \<noteq> [] \<and>
     en_TokenHash e = hashDaemonEnrollmentToken A (TrimSpace (bearerTokenFromHeader header)) \<and> (\<exists>i. loaded F w i e)"
proof -
  have r: "run_state (authenticate E A F (bearerTokenFromHeader header)) w = (Inr e, w')"
    using assms unfolding authenticateDaemonConnect_def
    by (elim run_elims) (auto split: sum.splits enroll_err.splits)
  have "bearerTokenFromHeader header \<noteq> []"
  proof
    assume "bearerTokenFromHeader header = []"
    with r show False by (simp add: authenticate_def)
  qed
  then show ?thesis using authenticate_run [OF r] by simp
qed

end
