(* ===== verification/Store_Endpoints.thy ===== *)
theory Store_Endpoints
  imports Store_Base
begin

text \<open>
  Interaction endpoints, the configured connections to chat providers: the endpoint operations of
  \<^verbatim>\<open>internal/storage/store.go\<close>.
\<close>

section \<open>Operations\<close>

definition CreateInteractionEndpoint :: "senv \<Rightarrow> InteractionEndpoint \<Rightarrow> InteractionEndpoint op" where
  "CreateInteractionEndpoint E endpoint = do {
     now \<leftarrow> unixNow E;
     i \<leftarrow> defaultID E ''iep'' (iep_ID endpoint);
     row \<leftarrow> ent_create E InteractionEndpointEnt
       (endpoint\<lparr>iep_ID := i, iep_CreatedUnix := now, iep_UpdatedUnix := now\<rparr>);
     ret (through conflict endpointFromEnt row)
   }"

definition ListInteractionEndpoints :: "senv \<Rightarrow> int \<Rightarrow> InteractionEndpoint list op" where
  "ListInteractionEndpoints E limit0 =
     (let limit = clamp_limit 200 100 limit0
      in do {
        rows \<leftarrow> ent_all E InteractionEndpointEnt (\<lambda>_. True)
          (\<lambda>rs. take limit (order_desc (\<lambda>r. (iep_CreatedUnix r, iep_ID r)) rs));
        ret (through plain (map endpointFromEnt) rows)
      })"

definition GetInteractionEndpoint :: "senv \<Rightarrow> string \<Rightarrow> InteractionEndpoint op" where
  "GetInteractionEndpoint E i = do {
     row \<leftarrow> ent_only E InteractionEndpointEnt (\<lambda>r. iep_ID r = i);
     ret (through notFound endpointFromEnt row)
   }"

text \<open>The fields a patch sets; a blank text or an invalid document is refused.\<close>

definition required_text :: "string option \<Rightarrow> err + string option" where
  "required_text v =
     (case v of
        None \<Rightarrow> Inr None
      | Some t \<Rightarrow> if TrimSpace t = [] then Inl ErrInvalidState else Inr (Some (TrimSpace t)))"

definition required_json :: "'z env_scheme \<Rightarrow> string option \<Rightarrow> err + string option" where
  "required_json E v =
     (case v of
        None \<Rightarrow> Inr None
      | Some t \<Rightarrow>
          (case normalizeJSONDocument E t of
             None \<Rightarrow> Inl ErrInvalidState
           | Some c \<Rightarrow> Inr (Some c)))"

definition UpdateInteractionEndpoint ::
  "senv \<Rightarrow> string \<Rightarrow> InteractionEndpointPatch \<Rightarrow> InteractionEndpoint op" where
  "UpdateInteractionEndpoint E i patch = do {
     now \<leftarrow> unixNow E;
     case required_text (iepp_DisplayName patch) of
       Inl e \<Rightarrow> ret (Inl e)
     | Inr displayName \<Rightarrow>
         (case required_text (iepp_TargetPrefix patch) of
            Inl e \<Rightarrow> ret (Inl e)
          | Inr targetPrefix \<Rightarrow>
              (case required_text (iepp_AuthMode patch) of
                 Inl e \<Rightarrow> ret (Inl e)
               | Inr authMode \<Rightarrow>
                   (case required_json E (iepp_ConfigJSON patch) of
                      Inl e \<Rightarrow> ret (Inl e)
                    | Inr configJSON \<Rightarrow> do {
                        row \<leftarrow> ent_update_one E InteractionEndpointEnt (displayName \<noteq> Some [])
                          (TrimSpace i)
                          (\<lambda>r. r\<lparr>iep_UpdatedUnix := now,
                             iep_DisplayName := the_or (iep_DisplayName r) displayName,
                             iep_TargetPrefix := the_or (iep_TargetPrefix r) targetPrefix,
                             iep_InboundEnabled :=
                               the_or (iep_InboundEnabled r) (iepp_InboundEnabled patch),
                             iep_OutboundEnabled :=
                               the_or (iep_OutboundEnabled r) (iepp_OutboundEnabled patch),
                             iep_AuthMode := the_or (iep_AuthMode r) authMode,
                             iep_ConfigJSON := the_or (iep_ConfigJSON r) configJSON\<rparr>);
                        ret (through notFoundOrConflict endpointFromEnt row)
                      })))
   }"

text \<open>Deletion is refused while a route, a delivery, an authorization request or a subscription
  still names the endpoint.\<close>

definition DeleteInteractionEndpoint :: "senv \<Rightarrow> string \<Rightarrow> unit op" where
  "DeleteInteractionEndpoint E id0 =
     (let i = TrimSpace id0
      in if i = [] then ret (Inl ErrNotFound)
         else do {
           routeCount \<leftarrow> ent_count E NotificationRouteEnt (\<lambda>r. nroute_EndpointID r = i);
           case routeCount of Inl e \<Rightarrow> ret (Inl (ErrEnt e)) | Inr nr \<Rightarrow> do {
           deliveryCount \<leftarrow> ent_count E OutboundDeliveryEnt (\<lambda>r. odlv_EndpointID r = i);
           case deliveryCount of Inl e \<Rightarrow> ret (Inl (ErrEnt e)) | Inr nd \<Rightarrow> do {
           authCount \<leftarrow> ent_count E IMChatAuthRequestEnt (\<lambda>r. imreq_EndpointID r = i);
           case authCount of Inl e \<Rightarrow> ret (Inl (ErrEnt e)) | Inr na \<Rightarrow> do {
           subCount \<leftarrow> ent_count E IMChatSubscriptionEnt (\<lambda>r. imsub_EndpointID r = i);
           case subCount of Inl e \<Rightarrow> ret (Inl (ErrEnt e)) | Inr ns \<Rightarrow>
             if 0 < nr \<or> 0 < nd \<or> 0 < na \<or> 0 < ns then ret (Inl ErrConflict)
             else do {
               r \<leftarrow> ent_delete_one E InteractionEndpointEnt i;
               ret (through notFound (\<lambda>_. ()) r)
             } } } }
         })"

section \<open>Well-formedness\<close>

lemmas endpoint_wf_defs = InteractionEndpointEnt_def the_or_def

lemma required_text_nonempty: "required_text v = Inr t \<Longrightarrow> t \<noteq> Some []"
  by (auto simp: required_text_def split: option.splits if_splits)

lemma CreateInteractionEndpoint_wf: "keeps (on_db store_wf) (CreateInteractionEndpoint E e)"
  unfolding CreateInteractionEndpoint_def by (intro keeps_rules store_keeps_wf)

lemma UpdateInteractionEndpoint_wf: "keeps (on_db store_wf) (UpdateInteractionEndpoint E i p)"
  unfolding UpdateInteractionEndpoint_def
  by (intro keeps_rules store_keeps_wf) (auto simp: endpoint_wf_defs split: option.splits)

lemma DeleteInteractionEndpoint_wf: "keeps (on_db store_wf) (DeleteInteractionEndpoint E i)"
  unfolding DeleteInteractionEndpoint_def Let_def by (intro keeps_rules store_keeps_wf)

end
