(* ===== verification/Store_IMChat.thy ===== *)
theory Store_IMChat
  imports Store_Endpoints
begin

text \<open>
  Chat authorization requests and chat subscriptions of \<^verbatim>\<open>internal/storage/store.go\<close>: a chat asks
  to be connected, a user approves, and the approval and the subscription commit together.
\<close>

section \<open>Normalization\<close>

definition normalizeIMChatAuthRequestStatus :: "'z env_scheme \<Rightarrow> string \<Rightarrow> string" where
  "normalizeIMChatAuthRequestStatus E status =
     (let s = ToLower E (TrimSpace status)
      in if s = [] \<or> s = ''pending'' then ''pending''
         else if s = ''approved'' then ''approved''
         else if s = ''rejected'' then ''rejected''
         else if s = ''expired'' then ''expired''
         else s)"

definition validIMChatAuthRequestStatus :: "string \<Rightarrow> bool" where
  "validIMChatAuthRequestStatus status \<longleftrightarrow>
     status \<in> {''pending'', ''approved'', ''rejected'', ''expired''}"

definition normalizeIMChatAuthRequest :: "'z env_scheme \<Rightarrow> IMChatAuthRequest \<Rightarrow> IMChatAuthRequest" where
  "normalizeIMChatAuthRequest E r =
     r\<lparr>imreq_ID := TrimSpace (imreq_ID r), imreq_EndpointID := TrimSpace (imreq_EndpointID r),
       imreq_Provider := TrimSpace (imreq_Provider r),
       imreq_ConversationID := TrimSpace (imreq_ConversationID r),
       imreq_ExternalThreadID := TrimSpace (imreq_ExternalThreadID r),
       imreq_ChatTitle := TrimSpace (imreq_ChatTitle r),
       imreq_SenderExternalID := TrimSpace (imreq_SenderExternalID r),
       imreq_TokenHash := TrimSpace (imreq_TokenHash r),
       imreq_TokenPrefix := TrimSpace (imreq_TokenPrefix r),
       imreq_Status := normalizeIMChatAuthRequestStatus E (imreq_Status r),
       imreq_RequestedTarget := TrimSpace (imreq_RequestedTarget r),
       imreq_RequestedThreadID := TrimSpace (imreq_RequestedThreadID r),
       imreq_ExpiresUnix := max 0 (imreq_ExpiresUnix r),
       imreq_ResolvedByUserID := TrimSpace (imreq_ResolvedByUserID r),
       imreq_ResolvedUnix := max 0 (imreq_ResolvedUnix r)\<rparr>"

definition normalizeIMChatSubscription :: "IMChatSubscription \<Rightarrow> IMChatSubscription" where
  "normalizeIMChatSubscription s =
     s\<lparr>imsub_ID := TrimSpace (imsub_ID s), imsub_EndpointID := TrimSpace (imsub_EndpointID s),
       imsub_Provider := TrimSpace (imsub_Provider s),
       imsub_ConversationID := TrimSpace (imsub_ConversationID s),
       imsub_ExternalThreadID := TrimSpace (imsub_ExternalThreadID s),
       imsub_ChatTitle := TrimSpace (imsub_ChatTitle s), imsub_Target := TrimSpace (imsub_Target s),
       imsub_ThreadID := TrimSpace (imsub_ThreadID s),
       imsub_SenderExternalID := TrimSpace (imsub_SenderExternalID s),
       imsub_AuthorizedByRequestID := TrimSpace (imsub_AuthorizedByRequestID s),
       imsub_AuthorizedUnix := max 0 (imsub_AuthorizedUnix s),
       imsub_SubscribedUnix := max 0 (imsub_SubscribedUnix s)\<rparr>"

section \<open>Authorization requests\<close>

definition CreateIMChatAuthRequest :: "senv \<Rightarrow> IMChatAuthRequest \<Rightarrow> IMChatAuthRequest op" where
  "CreateIMChatAuthRequest E request0 =
     (let request = normalizeIMChatAuthRequest E request0
      in if imreq_EndpointID request = [] \<or> imreq_ConversationID request = [] \<or>
            imreq_TokenHash request = []
         then ret (Inl ErrInvalidState)
         else if \<not> validIMChatAuthRequestStatus (imreq_Status request) then ret (Inl ErrInvalidState)
         else do {
           now \<leftarrow> unixNow E;
           i \<leftarrow> defaultID E ''imreq'' (imreq_ID request);
           row \<leftarrow> ent_create E IMChatAuthRequestEnt
             (request\<lparr>imreq_ID := i, imreq_ResolvedByUserID := [], imreq_ResolvedUnix := 0,
                imreq_CreatedUnix := now, imreq_UpdatedUnix := now\<rparr>);
           ret (through conflict imChatAuthRequestFromEnt row)
         })"

definition ListIMChatAuthRequests ::
  "senv \<Rightarrow> IMChatAuthRequestListOptions \<Rightarrow> IMChatAuthRequest list op" where
  "ListIMChatAuthRequests E opts =
     (let limit = clamp_limit 200 100 (imreqo_Limit opts);
          endpointID = TrimSpace (imreqo_EndpointID opts);
          status = normalizeIMChatAuthRequestStatus E (imreqo_Status opts)
      in do {
        cutoff \<leftarrow> (if status = ''pending'' \<and> \<not> imreqo_IncludeExpired opts
                  then State_Monad.bind (unixNow E) (\<lambda>now. ret (Some now)) else ret None);
        rows \<leftarrow> ent_all E IMChatAuthRequestEnt
          (\<lambda>r. (endpointID \<noteq> [] \<longrightarrow> imreq_EndpointID r = endpointID) \<and>
               (status \<noteq> [] \<longrightarrow> imreq_Status r = status) \<and>
               (case cutoff of
                  None \<Rightarrow> True
                | Some now \<Rightarrow> imreq_ExpiresUnix r = 0 \<or> now < imreq_ExpiresUnix r))
          (\<lambda>rs. take limit (order_desc (\<lambda>r. (imreq_CreatedUnix r, imreq_ID r)) rs));
        ret (through plain (map imChatAuthRequestFromEnt) rows)
      })"

definition GetIMChatAuthRequestByTokenHash :: "senv \<Rightarrow> string \<Rightarrow> IMChatAuthRequest op" where
  "GetIMChatAuthRequestByTokenHash E hash0 =
     (let tokenHash = TrimSpace hash0
      in if tokenHash = [] then ret (Inl ErrNotFound)
         else do {
           row \<leftarrow> ent_only E IMChatAuthRequestEnt (\<lambda>r. imreq_TokenHash r = tokenHash);
           ret (through notFound imChatAuthRequestFromEnt row)
         })"

definition GetIMChatAuthRequest :: "senv \<Rightarrow> string \<Rightarrow> IMChatAuthRequest op" where
  "GetIMChatAuthRequest E id0 =
     (let i = TrimSpace id0
      in if i = [] then ret (Inl ErrNotFound)
         else do {
           row \<leftarrow> ent_only E IMChatAuthRequestEnt (\<lambda>r. imreq_ID r = i);
           ret (through notFound imChatAuthRequestFromEnt row)
         })"

definition UpdateIMChatAuthRequestStatus ::
  "senv \<Rightarrow> string \<Rightarrow> string \<Rightarrow> string \<Rightarrow> IMChatAuthRequest op" where
  "UpdateIMChatAuthRequestStatus E id0 status0 resolvedByUserID =
     (let i = TrimSpace id0; statusValue = normalizeIMChatAuthRequestStatus E status0
      in if i = [] then ret (Inl ErrNotFound)
         else if \<not> validIMChatAuthRequestStatus statusValue then ret (Inl ErrInvalidState)
         else do {
           now \<leftarrow> unixNow E;
           row \<leftarrow> ent_update_one E IMChatAuthRequestEnt True i
             (\<lambda>r. r\<lparr>imreq_Status := statusValue, imreq_UpdatedUnix := now,
                imreq_ResolvedByUserID :=
                  (if statusValue = ''pending'' then [] else TrimSpace resolvedByUserID),
                imreq_ResolvedUnix := (if statusValue = ''pending'' then 0 else now)\<rparr>);
           ret (through notFound imChatAuthRequestFromEnt row)
         })"

section \<open>Subscriptions\<close>

definition same_chat :: "IMChatSubscription \<Rightarrow> IMChatSubscription \<Rightarrow> bool" where
  "same_chat s r \<longleftrightarrow>
     imsub_EndpointID r = imsub_EndpointID s \<and> imsub_ConversationID r = imsub_ConversationID s \<and>
     imsub_ExternalThreadID r = imsub_ExternalThreadID s"

text \<open>
  The two branches \<^verbatim>\<open>UpsertIMChatSubscription\<close> and \<^verbatim>\<open>ApproveIMChatAuthRequest\<close> share: the update of the
  subscription that is there, and the insert of a new one.
\<close>

definition subscription_upd ::
  "int \<Rightarrow> IMChatSubscription \<Rightarrow> IMChatSubscription \<Rightarrow> IMChatSubscription \<Rightarrow> IMChatSubscription" where
  "subscription_upd now s existing r =
     r\<lparr>imsub_Provider := imsub_Provider s, imsub_ChatTitle := imsub_ChatTitle s,
       imsub_Target := imsub_Target s, imsub_ThreadID := imsub_ThreadID s,
       imsub_SenderExternalID := imsub_SenderExternalID s,
       imsub_AuthorizedByRequestID := imsub_AuthorizedByRequestID s,
       imsub_Subscribed := imsub_Subscribed s, imsub_Verbose := imsub_Verbose s,
       imsub_UpdatedUnix := now,
       imsub_AuthorizedUnix :=
         (if 0 < imsub_AuthorizedUnix s then imsub_AuthorizedUnix s
          else if imsub_AuthorizedUnix existing = 0 then now else imsub_AuthorizedUnix r),
       imsub_SubscribedUnix :=
         (if imsub_Subscribed s then
            if 0 < imsub_SubscribedUnix s then imsub_SubscribedUnix s
            else if \<not> imsub_Subscribed existing \<or> imsub_SubscribedUnix existing = 0 then now
            else imsub_SubscribedUnix r
          else imsub_SubscribedUnix r)\<rparr>"

definition new_subscription :: "int \<Rightarrow> IMChatSubscription \<Rightarrow> IMChatSubscription" where
  "new_subscription now s =
     s\<lparr>imsub_AuthorizedUnix := (if imsub_AuthorizedUnix s = 0 then now else imsub_AuthorizedUnix s),
       imsub_SubscribedUnix :=
         (if imsub_Subscribed s \<and> imsub_SubscribedUnix s = 0 then now else imsub_SubscribedUnix s),
       imsub_CreatedUnix := now, imsub_UpdatedUnix := now\<rparr>"

definition write_subscription ::
  "senv \<Rightarrow> int \<Rightarrow> IMChatSubscription \<Rightarrow> IMChatSubscription option \<Rightarrow>
     (store, err + IMChatSubscription) action" where
  "write_subscription E now s existing =
     (case existing of
        Some old \<Rightarrow> do {
          row \<leftarrow> ent_update_one E IMChatSubscriptionEnt True (imsub_ID old)
            (subscription_upd now s old);
          ret (through notFound imChatSubscriptionFromEnt row)
        }
      | None \<Rightarrow> do {
          i \<leftarrow> defaultID E ''imsub'' (imsub_ID s);
          row \<leftarrow> ent_create E IMChatSubscriptionEnt ((new_subscription now s)\<lparr>imsub_ID := i\<rparr>);
          ret (through conflict imChatSubscriptionFromEnt row)
        })"

definition GetIMChatSubscription ::
  "senv \<Rightarrow> string \<Rightarrow> string \<Rightarrow> string \<Rightarrow> IMChatSubscription op" where
  "GetIMChatSubscription E endpoint0 conversation0 thread0 =
     (let endpointID = TrimSpace endpoint0; conversationID = TrimSpace conversation0;
          externalThreadID = TrimSpace thread0
      in if endpointID = [] \<or> conversationID = [] then ret (Inl ErrNotFound)
         else do {
           row \<leftarrow> ent_only E IMChatSubscriptionEnt
             (\<lambda>r. imsub_EndpointID r = endpointID \<and> imsub_ConversationID r = conversationID \<and>
                  imsub_ExternalThreadID r = externalThreadID);
           ret (through notFound imChatSubscriptionFromEnt row)
         })"

definition UpsertIMChatSubscription :: "senv \<Rightarrow> IMChatSubscription \<Rightarrow> IMChatSubscription op" where
  "UpsertIMChatSubscription E subscription0 =
     (let s = normalizeIMChatSubscription subscription0
      in if imsub_EndpointID s = [] \<or> imsub_ConversationID s = [] then ret (Inl ErrInvalidState)
         else do {
           now \<leftarrow> unixNow E;
           existing \<leftarrow> GetIMChatSubscription E (imsub_EndpointID s) (imsub_ConversationID s)
             (imsub_ExternalThreadID s);
           case existing of
             Inr old \<Rightarrow> write_subscription E now s (Some old)
           | Inl e \<Rightarrow>
               if e \<noteq> ErrNotFound then ret (Inl e) else write_subscription E now s None
         })"

definition ListIMChatSubscriptions ::
  "senv \<Rightarrow> IMChatSubscriptionListOptions \<Rightarrow> IMChatSubscription list op" where
  "ListIMChatSubscriptions E opts =
     (let limit = clamp_limit 200 100 (imsubo_Limit opts);
          endpointID = TrimSpace (imsubo_EndpointID opts);
          provider = TrimSpace (imsubo_Provider opts)
      in do {
        rows \<leftarrow> ent_all E IMChatSubscriptionEnt
          (\<lambda>r. (endpointID \<noteq> [] \<longrightarrow> imsub_EndpointID r = endpointID) \<and>
               (provider \<noteq> [] \<longrightarrow> imsub_Provider r = provider) \<and>
               (case imsubo_Subscribed opts of None \<Rightarrow> True | Some b \<Rightarrow> imsub_Subscribed r = b))
          (\<lambda>rs. take limit (order_desc (\<lambda>r. (imsub_UpdatedUnix r, imsub_ID r)) rs));
        ret (through plain (map imChatSubscriptionFromEnt) rows)
      })"

definition UpdateIMChatSubscription ::
  "senv \<Rightarrow> string \<Rightarrow> IMChatSubscriptionPatch \<Rightarrow> IMChatSubscription op" where
  "UpdateIMChatSubscription E id0 patch =
     (let i = TrimSpace id0
      in if i = [] then ret (Inl ErrNotFound)
         else do {
           now \<leftarrow> unixNow E;
           row \<leftarrow> ent_update_one E IMChatSubscriptionEnt True i
             (\<lambda>r. r\<lparr>imsub_UpdatedUnix := now,
                imsub_ChatTitle := the_or (imsub_ChatTitle r) (map_option TrimSpace (imsubp_ChatTitle patch)),
                imsub_Target := the_or (imsub_Target r) (map_option TrimSpace (imsubp_Target patch)),
                imsub_ThreadID := the_or (imsub_ThreadID r) (map_option TrimSpace (imsubp_ThreadID patch)),
                imsub_Subscribed := the_or (imsub_Subscribed r) (imsubp_Subscribed patch),
                imsub_SubscribedUnix :=
                  (if imsubp_Subscribed patch = Some True then now else imsub_SubscribedUnix r),
                imsub_Verbose := the_or (imsub_Verbose r) (imsubp_Verbose patch)\<rparr>);
           ret (through notFound imChatSubscriptionFromEnt row)
         })"

section \<open>Approval\<close>

definition ApproveIMChatAuthRequest ::
  "senv \<Rightarrow> string \<Rightarrow> string \<Rightarrow> IMChatSubscription \<Rightarrow> (IMChatAuthRequest \<times> IMChatSubscription) op" where
  "ApproveIMChatAuthRequest E id0 resolvedByUserID subscription0 =
     (let i = TrimSpace id0; s = normalizeIMChatSubscription subscription0
      in if i = [] then ret (Inl ErrNotFound)
         else if imsub_EndpointID s = [] \<or> imsub_ConversationID s = [] then ret (Inl ErrInvalidState)
         else do {
           now \<leftarrow> unixNow E;
           tx \<leftarrow> BeginTx E;
           case tx of
             Inl e \<Rightarrow> ret (Inl (ErrEnt e))
           | Inr snap \<Rightarrow> do {
               requestRow \<leftarrow> ent_only E IMChatAuthRequestEnt (\<lambda>r. imreq_ID r = i);
               case requestRow of
                 Inl e \<Rightarrow> rollback_with snap (Inl (notFound e))
               | Inr request \<Rightarrow>
                   if imreq_Status request \<noteq> ''pending'' then rollback_with snap (Inl ErrInvalidState)
                   else do {
                     updated \<leftarrow> ent_update_one E IMChatAuthRequestEnt True i
                       (\<lambda>r. r\<lparr>imreq_Status := ''approved'',
                          imreq_ResolvedByUserID := TrimSpace resolvedByUserID,
                          imreq_ResolvedUnix := now, imreq_UpdatedUnix := now\<rparr>);
                     case updated of
                       Inl e \<Rightarrow> rollback_with snap (Inl (notFound e))
                     | Inr approved \<Rightarrow> do {
                         existing \<leftarrow> ent_only E IMChatSubscriptionEnt (same_chat s);
                         case (case existing of
                                 Inl e \<Rightarrow> if e = EntNotFound then Inr None else Inl e
                               | Inr old \<Rightarrow> Inr (Some old)) of
                           Inl e \<Rightarrow> rollback_with snap (Inl (ErrEnt e))
                         | Inr old \<Rightarrow> do {
                             written \<leftarrow> write_subscription E now s old;
                             case written of
                               Inl e \<Rightarrow> rollback_with snap (Inl e)
                             | Inr sub \<Rightarrow> do {
                                 done \<leftarrow> Commit E snap;
                                 ret (through plain (\<lambda>_. (imChatAuthRequestFromEnt approved, sub)) done)
                               }
                           }
                       }
                   }
             }
         })"

section \<open>Well-formedness\<close>

lemmas imchat_wf_defs = IMChatAuthRequestEnt_def IMChatSubscriptionEnt_def subscription_upd_def
  new_subscription_def

lemma CreateIMChatAuthRequest_wf: "keeps (on_db store_wf) (CreateIMChatAuthRequest E r)"
  unfolding CreateIMChatAuthRequest_def Let_def by (intro keeps_rules store_keeps_wf)

lemma UpdateIMChatAuthRequestStatus_wf: "keeps (on_db store_wf) (UpdateIMChatAuthRequestStatus E i s u)"
  unfolding UpdateIMChatAuthRequestStatus_def Let_def
  by (intro keeps_rules store_keeps_wf) (auto simp: imchat_wf_defs)

lemma write_subscription_wf: "keeps (on_db store_wf) (write_subscription E now s old)"
  unfolding write_subscription_def
  by (intro keeps_rules store_keeps_wf) (auto simp: imchat_wf_defs)

lemma UpsertIMChatSubscription_wf: "keeps (on_db store_wf) (UpsertIMChatSubscription E s)"
  unfolding UpsertIMChatSubscription_def GetIMChatSubscription_def Let_def
  by (intro keeps_rules write_subscription_wf)

lemma UpdateIMChatSubscription_wf: "keeps (on_db store_wf) (UpdateIMChatSubscription E i p)"
  unfolding UpdateIMChatSubscription_def Let_def
  by (intro keeps_rules store_keeps_wf) (auto simp: imchat_wf_defs)

lemma ApproveIMChatAuthRequest_wf: "keeps (on_db store_wf) (ApproveIMChatAuthRequest E i u s)"
  unfolding ApproveIMChatAuthRequest_def Let_def
  by (intro keeps_tx keeps_rules write_subscription_wf store_keeps_wf;
      (assumption | simp add: keeps_return imchat_wf_defs)?)

end
