(* ===== verification/Store_Tasks.thy ===== *)
theory Store_Tasks
  imports Store_Base
begin

text \<open>
  Tasks and task attempts of \<^verbatim>\<open>internal/storage/store.go\<close>: creation, filtered listing, patching, the
  compare-and-set claim, and the attempt records that join tasks to agent runs.
\<close>

section \<open>Task states\<close>

definition normalizeTaskState :: "'z env_scheme \<Rightarrow> string \<Rightarrow> string" where
  "normalizeTaskState E s =
     (let state = ToLower E (TrimSpace s)
      in if state = ''cancelled'' then ''canceled'' else state)"

definition task_states :: "string set" where
  "task_states = {''todo'', ''in_progress'', ''in_review'', ''blocked'', ''done'', ''canceled''}"

definition validTaskState :: "'z env_scheme \<Rightarrow> string \<Rightarrow> bool" where
  "validTaskState E state \<longleftrightarrow> normalizeTaskState E state \<in> task_states"

definition normalizeTaskAttemptStatus :: "'z env_scheme \<Rightarrow> string \<Rightarrow> string" where
  "normalizeTaskAttemptStatus E s =
     (let status = ToLower E (TrimSpace s)
      in if status = ''cancelled'' then ''canceled'' else status)"

definition validTaskAttemptStatuses :: "string set" where
  "validTaskAttemptStatuses = {''claimed'', ''running'', ''completed'', ''failed'', ''canceled''}"

definition validTaskAttemptStatus :: "'z env_scheme \<Rightarrow> string \<Rightarrow> bool" where
  "validTaskAttemptStatus E status \<longleftrightarrow>
     normalizeTaskAttemptStatus E status \<in> validTaskAttemptStatuses"

definition terminalTaskAttemptStatus :: "'z env_scheme \<Rightarrow> string \<Rightarrow> bool" where
  "terminalTaskAttemptStatus E status \<longleftrightarrow>
     normalizeTaskAttemptStatus E status \<in> {''completed'', ''failed'', ''canceled''}"

section \<open>Tasks\<close>

definition CreateTask :: "senv \<Rightarrow> Task \<Rightarrow> Task op" where
  "CreateTask E taskModel = do {
     now \<leftarrow> unixNow E;
     let normalized = normalizeTaskState E (tsk_State taskModel);
     let state = (if normalized = [] then ''todo'' else normalized);
     if \<not> validTaskState E state then ret (Inl ErrInvalidState)
     else do {
       i \<leftarrow> defaultID E ''tsk'' (tsk_ID taskModel);
       row \<leftarrow> ent_create E TaskEnt (taskModel\<lparr>tsk_ID := i, tsk_State := state, tsk_Version := 1,
                tsk_CreatedUnix := now, tsk_UpdatedUnix := now\<rparr>);
       ret (through plain taskFromEnt row)
     }
   }"

definition ListTasks :: "senv \<Rightarrow> string \<Rightarrow> string \<Rightarrow> int \<Rightarrow> Task list op" where
  "ListTasks E state0 target limit0 =
     (let limit = clamp_limit 200 100 limit0; state = normalizeTaskState E state0
      in if state \<noteq> [] \<and> \<not> validTaskState E state then ret (Inl ErrInvalidState)
         else do {
           rows \<leftarrow> ent_all E TaskEnt
             (\<lambda>r. (state \<noteq> [] \<longrightarrow> tsk_State r = state) \<and> (target \<noteq> [] \<longrightarrow> tsk_Target r = target))
             (\<lambda>rs. take limit (order_desc (\<lambda>r. (tsk_UpdatedUnix r, tsk_ID r)) rs));
           ret (through plain (map taskFromEnt) rows)
         })"

definition ListTaskTargets :: "senv \<Rightarrow> int \<Rightarrow> string list op" where
  "ListTaskTargets E limit0 =
     (let limit = clamp_limit 500 200 limit0
      in do {
        rows \<leftarrow> ent_all E TaskEnt (\<lambda>_. True) (\<lambda>rs. take limit (sort (remdups (map tsk_Target rs))));
        ret (through plain compactTargets rows)
      })"

definition GetTask :: "senv \<Rightarrow> string \<Rightarrow> Task op" where
  "GetTask E i = do {
     row \<leftarrow> ent_only E TaskEnt (\<lambda>r. tsk_ID r = i);
     ret (through notFound taskFromEnt row)
   }"

definition set_opt :: "'a option \<Rightarrow> ('a \<Rightarrow> 'r \<Rightarrow> 'r) \<Rightarrow> 'r \<Rightarrow> 'r" where
  "set_opt v f r = (case v of None \<Rightarrow> r | Some x \<Rightarrow> f x r)"

definition UpdateTask :: "senv \<Rightarrow> string \<Rightarrow> TaskPatch \<Rightarrow> Task op" where
  "UpdateTask E i patch =
     (let state = map_option (normalizeTaskState E) (tskp_State patch)
      in if (case state of None \<Rightarrow> False | Some st \<Rightarrow> \<not> validTaskState E st)
         then ret (Inl ErrInvalidState)
         else do {
           now \<leftarrow> unixNow E;
           row \<leftarrow> ent_update_one E TaskEnt (tskp_Summary patch \<noteq> Some []) i
             (\<lambda>r. (set_opt (tskp_Summary patch) (\<lambda>v r. r\<lparr>tsk_Summary := v\<rparr>) \<circ>
                   set_opt (tskp_Description patch) (\<lambda>v r. r\<lparr>tsk_Description := v\<rparr>) \<circ>
                   set_opt state (\<lambda>v r. r\<lparr>tsk_State := v\<rparr>) \<circ>
                   set_opt (tskp_AssigneeID patch) (\<lambda>v r. r\<lparr>tsk_AssigneeID := v\<rparr>) \<circ>
                   set_opt (tskp_BlockedReason patch) (\<lambda>v r. r\<lparr>tsk_BlockedReason := v\<rparr>))
                  (r\<lparr>tsk_Version := tsk_Version r + 1, tsk_UpdatedUnix := now\<rparr>));
           ret (through notFound taskFromEnt row)
         })"

text \<open>
  The claim: one UPDATE guarded by the assignee, then a read that reports the row that is there.
  The boolean says whether this call took or renewed the claim.
\<close>

definition ClaimTaskCAS :: "senv \<Rightarrow> string \<Rightarrow> string \<Rightarrow> string \<Rightarrow> (Task \<times> bool) op" where
  "ClaimTaskCAS E i assigneeID leaseID = do {
     now \<leftarrow> unixNow E;
     affected \<leftarrow> ent_update_where E TaskEnt True
       (\<lambda>r. tsk_ID r = i \<and> (tsk_AssigneeID r = [] \<or> tsk_AssigneeID r = assigneeID))
       (\<lambda>r. r\<lparr>tsk_AssigneeID := assigneeID, tsk_ClaimLeaseID := leaseID,
              tsk_Version := tsk_Version r + 1, tsk_UpdatedUnix := now\<rparr>);
     case affected of
       Inl e \<Rightarrow> ret (Inl (ErrEnt e))
     | Inr n \<Rightarrow> do {
         current \<leftarrow> GetTask E i;
         ret (case current of Inl e \<Rightarrow> Inl e | Inr t \<Rightarrow> Inr (t, n \<noteq> 0))
       }
   }"

section \<open>Task attempts\<close>

definition TaskAttempt_trim :: "TaskAttempt \<Rightarrow> TaskAttempt" where
  "TaskAttempt_trim a =
     a\<lparr>tat_TaskID := TrimSpace (tat_TaskID a), tat_RunID := TrimSpace (tat_RunID a),
       tat_AgentID := TrimSpace (tat_AgentID a), tat_ClaimLeaseID := TrimSpace (tat_ClaimLeaseID a)\<rparr>"

text \<open>The fields a repeated claim and a report of a run set on the attempt that is there.\<close>

definition attempt_claim_upd ::
  "string \<Rightarrow> int \<Rightarrow> TaskAttempt \<Rightarrow> TaskAttempt \<Rightarrow> TaskAttempt \<Rightarrow> TaskAttempt" where
  "attempt_claim_upd status now attempt old r =
     r\<lparr>tat_Status := status, tat_UpdatedUnix := now,
       tat_RunID := (if tat_RunID attempt \<noteq> [] then tat_RunID attempt else tat_RunID r),
       tat_AgentID := (if tat_AgentID attempt \<noteq> [] then tat_AgentID attempt else tat_AgentID r),
       tat_ClaimLeaseID :=
         (if tat_ClaimLeaseID attempt \<noteq> [] then tat_ClaimLeaseID attempt else tat_ClaimLeaseID r),
       tat_ClaimedUnix := (if tat_ClaimedUnix old = 0 then now else tat_ClaimedUnix r)\<rparr>"

definition attempt_run_upd ::
  "'z env_scheme \<Rightarrow> string \<Rightarrow> string \<Rightarrow> int \<Rightarrow> TaskAttempt \<Rightarrow> TaskAttempt \<Rightarrow> TaskAttempt \<Rightarrow>
     TaskAttempt" where
  "attempt_run_upd E status outputJSON now u old r =
     r\<lparr>tat_Status := status, tat_UpdatedUnix := now,
       tat_RunID := (if tat_RunID u \<noteq> [] then tat_RunID u else tat_RunID r),
       tat_AgentID := (if tat_AgentID u \<noteq> [] then tat_AgentID u else tat_AgentID r),
       tat_ClaimLeaseID :=
         (if tat_ClaimLeaseID u \<noteq> [] then tat_ClaimLeaseID u else tat_ClaimLeaseID r),
       tat_OutputJSON := (if outputJSON \<noteq> [] then outputJSON else tat_OutputJSON r),
       tat_OutputDigest := (if tat_OutputDigest u \<noteq> [] then tat_OutputDigest u else tat_OutputDigest r),
       tat_OutputSignature :=
         (if tat_OutputSignature u \<noteq> [] then tat_OutputSignature u else tat_OutputSignature r),
       tat_SignaturePublicKey :=
         (if tat_SignaturePublicKey u \<noteq> [] then tat_SignaturePublicKey u
          else tat_SignaturePublicKey r),
       tat_ErrorMessage := (if tat_ErrorMessage u \<noteq> [] then tat_ErrorMessage u else tat_ErrorMessage r),
       tat_ClaimedUnix := (if tat_ClaimedUnix old = 0 then now else tat_ClaimedUnix r),
       tat_StartedUnix :=
         (if tat_StartedUnix old = 0 \<and> status \<noteq> ''claimed'' then now else tat_StartedUnix r),
       tat_CompletedUnix :=
         (if terminalTaskAttemptStatus E status \<and> tat_CompletedUnix old = 0 then now
          else tat_CompletedUnix r)\<rparr>"

definition RecordTaskAttemptClaim :: "senv \<Rightarrow> TaskAttempt \<Rightarrow> TaskAttempt op" where
  "RecordTaskAttemptClaim E attempt0 =
     (let attempt = TaskAttempt_trim attempt0;
          normalized = normalizeTaskAttemptStatus E (tat_Status attempt);
          status = (if normalized = [] then ''claimed'' else normalized)
      in if tat_TaskID attempt = [] \<or> tat_Attempt attempt = 0 then ret (Inl ErrInvalid)
         else if \<not> validTaskAttemptStatus E status then ret (Inl ErrInvalid)
         else do {
           now \<leftarrow> unixNow E;
           existing \<leftarrow> ent_only E TaskAttemptEnt
             (\<lambda>r. tat_TaskID r = tat_TaskID attempt \<and> tat_Attempt r = tat_Attempt attempt);
           case existing of
             Inr old \<Rightarrow> do {
               row \<leftarrow> ent_update_one E TaskAttemptEnt True (tat_ID old)
                 (attempt_claim_upd status now attempt old);
               ret (through plain taskAttemptFromEnt row)
             }
           | Inl e \<Rightarrow>
               if e \<noteq> EntNotFound then ret (Inl (ErrEnt e))
               else do {
                 i \<leftarrow> defaultID E ''tat'' (tat_ID attempt);
                 row \<leftarrow> ent_create E TaskAttemptEnt
                   \<lparr>tat_ID = i, tat_TaskID = tat_TaskID attempt, tat_Attempt = tat_Attempt attempt,
                    tat_RunID = tat_RunID attempt, tat_AgentID = tat_AgentID attempt,
                    tat_ClaimLeaseID = tat_ClaimLeaseID attempt, tat_Status = status,
                    tat_OutputJSON = [], tat_OutputDigest = [], tat_OutputSignature = [],
                    tat_SignaturePublicKey = [], tat_ErrorMessage = [],
                    tat_ClaimedUnix =
                      (if tat_ClaimedUnix attempt = 0 then now else tat_ClaimedUnix attempt),
                    tat_StartedUnix = 0, tat_CompletedUnix = 0, tat_UpdatedUnix = now\<rparr>;
                 case row of
                   Inr r \<Rightarrow> ret (Inr (taskAttemptFromEnt r))
                 | Inl e \<Rightarrow>
                     if e = EntConstraint then do {
                       again \<leftarrow> ent_only E TaskAttemptEnt
                         (\<lambda>r. tat_TaskID r = tat_TaskID attempt \<and> tat_Attempt r = tat_Attempt attempt);
                       ret (through plain taskAttemptFromEnt again)
                     }
                     else ret (Inl (ErrEnt e))
               }
         })"

definition lookupTaskAttempt ::
  "senv \<Rightarrow> string \<Rightarrow> 32 word \<Rightarrow> string \<Rightarrow> TaskAttempt op" where
  "lookupTaskAttempt E taskID attempt runID =
     (let byTask = do {
            row \<leftarrow> ent_only E TaskAttemptEnt (\<lambda>r. tat_TaskID r = taskID \<and> tat_Attempt r = attempt);
            ret (through notFound (\<lambda>r. r) row)
          }
      in if runID \<noteq> [] then do {
           row \<leftarrow> ent_only E TaskAttemptEnt (\<lambda>r. tat_RunID r = runID);
           case row of
             Inr r \<Rightarrow> ret (Inr r)
           | Inl e \<Rightarrow> if e \<noteq> EntNotFound then ret (Inl (ErrEnt e)) else byTask
         }
         else byTask)"

definition UpdateTaskAttemptFromRun :: "senv \<Rightarrow> TaskAttempt \<Rightarrow> TaskAttempt op" where
  "UpdateTaskAttemptFromRun E updateAttempt =
     (let u = TaskAttempt_trim updateAttempt;
          normalized = normalizeTaskAttemptStatus E (tat_Status u);
          status = (if normalized = [] then ''running'' else normalized)
      in if tat_TaskID u = [] \<or> tat_Attempt u = 0 then ret (Inl ErrInvalid)
         else if \<not> validTaskAttemptStatus E status then ret (Inl ErrInvalid)
         else case normalizeOptionalJSON E (tat_OutputJSON u) of
           Inl e \<Rightarrow> ret (Inl e)
         | Inr outputJSON \<Rightarrow> do {
             now \<leftarrow> unixNow E;
             existing \<leftarrow> lookupTaskAttempt E (tat_TaskID u) (tat_Attempt u) (tat_RunID u);
             case existing of
               Inl e \<Rightarrow>
                 if e \<noteq> ErrNotFound then ret (Inl e)
                 else do {
                   i \<leftarrow> newID E ''tat'';
                   row \<leftarrow> ent_create E TaskAttemptEnt
                     (u\<lparr>tat_ID := i, tat_Status := status, tat_OutputJSON := outputJSON,
                        tat_ClaimedUnix := (if tat_ClaimedUnix u = 0 then now else tat_ClaimedUnix u),
                        tat_StartedUnix :=
                          (if tat_StartedUnix u = 0 \<and> status \<noteq> ''claimed'' then now
                           else tat_StartedUnix u),
                        tat_CompletedUnix :=
                          (if tat_CompletedUnix u = 0 \<and> terminalTaskAttemptStatus E status then now
                           else tat_CompletedUnix u),
                        tat_UpdatedUnix := now\<rparr>);
                   ret (through plain taskAttemptFromEnt row)
                 }
             | Inr old \<Rightarrow> do {
                 row \<leftarrow> ent_update_one E TaskAttemptEnt True (tat_ID old)
                   (attempt_run_upd E status outputJSON now u old);
                 ret (through plain taskAttemptFromEnt row)
               }
           })"

definition ListTaskAttempts :: "senv \<Rightarrow> string \<Rightarrow> TaskAttempt list op" where
  "ListTaskAttempts E taskID0 =
     (let taskID = TrimSpace taskID0
      in if taskID = [] then ret (Inl ErrInvalid)
         else do {
           rows \<leftarrow> ent_all E TaskAttemptEnt (\<lambda>r. tat_TaskID r = taskID)
             (order_asc (\<lambda>r. unat (tat_Attempt r)));
           ret (through plain (map taskAttemptFromEnt) rows)
         })"

text \<open>Several claims for one task, one after the other.\<close>

fun ClaimMany ::
  "senv \<Rightarrow> string \<Rightarrow> (string \<times> string) list \<Rightarrow>
     (store, (string \<times> (err + Task \<times> bool)) list) action" where
  "ClaimMany E i [] = ret []"
| "ClaimMany E i ((a, l) # cs) = do {
     r \<leftarrow> ClaimTaskCAS E i a l;
     rs \<leftarrow> ClaimMany E i cs;
     ret ((a, r) # rs)
   }"

section \<open>Well-formedness\<close>

lemmas task_wf_defs = TaskEnt_def TaskAttemptEnt_def set_opt_def attempt_claim_upd_def
  attempt_run_upd_def

lemma CreateTask_wf: "keeps (on_db store_wf) (CreateTask E t)"
  unfolding CreateTask_def Let_def by (intro keeps_rules store_keeps_wf)

lemma UpdateTask_wf: "keeps (on_db store_wf) (UpdateTask E i patch)"
  unfolding UpdateTask_def Let_def
  by (intro keeps_rules store_keeps_wf) (auto simp: task_wf_defs split: option.splits)

lemma ClaimTaskCAS_wf: "keeps (on_db store_wf) (ClaimTaskCAS E i a l)"
  unfolding ClaimTaskCAS_def GetTask_def Let_def
  by (intro keeps_rules store_keeps_wf) (auto simp: task_wf_defs)

lemma RecordTaskAttemptClaim_wf: "keeps (on_db store_wf) (RecordTaskAttemptClaim E a)"
  unfolding RecordTaskAttemptClaim_def Let_def
  by (intro keeps_rules store_keeps_wf) (auto simp: task_wf_defs)

lemma UpdateTaskAttemptFromRun_wf: "keeps (on_db store_wf) (UpdateTaskAttemptFromRun E a)"
  unfolding UpdateTaskAttemptFromRun_def lookupTaskAttempt_def Let_def
  by (intro keeps_rules store_keeps_wf) (auto simp: task_wf_defs)

section \<open>The claim is exclusive\<close>

definition held_by :: "string \<Rightarrow> string \<Rightarrow> store \<Rightarrow> bool" where
  "held_by i a d \<longleftrightarrow> (\<forall>r \<in> set (tasks d). tsk_ID r = i \<longrightarrow> tsk_AssigneeID r = a)"

lemma task_id_unique:
  assumes "store_wf d" and "r \<in> set (tasks d)" and "q \<in> set (tasks d)" and "tsk_ID r = tsk_ID q"
  shows "r = q"
  using assms rows_free_clash [of TaskEnt "tasks d" r q] clash_id [of TaskEnt r q]
  by (simp add: store_wf_def table_wf_def)

lemma ClaimTaskCAS_success_holds:
  assumes "store_wf (db w)" and "result_of (ClaimTaskCAS E i a l) w = Inr (t, True)"
  shows "held_by i a (db (after (ClaimTaskCAS E i a l) w))"
  using assms task_id_unique [OF assms(1)]
  by (auto simp: ClaimTaskCAS_def GetTask_def run_ent held_by_def map_rows_def filter_empty_conv
      split: if_splits sum.splits)

lemma ClaimTaskCAS_other_fails:
  assumes "held_by i a (db w)" and "a \<noteq> []" and "b \<noteq> a"
  shows "result_of (ClaimTaskCAS E i b l) w \<noteq> Inr (t, True)"
  using assms
  by (auto simp: ClaimTaskCAS_def GetTask_def run_ent held_by_def filter_empty_conv through_def
      split: if_splits sum.splits)

lemma ClaimTaskCAS_keeps_held:
  "a \<noteq> [] \<Longrightarrow> keeps (on_db (held_by i a)) (ClaimTaskCAS E i b l)"
  unfolding ClaimTaskCAS_def GetTask_def
  by (intro keeps_rules keeps_ent_update_where) (simp add: held_by_def ball_map_rows, metis)

lemma ClaimMany_Cons_mem:
  "(y, Inr (v, True)) \<in> set (result_of (ClaimMany E i ((x, l) # cs)) w) \<longleftrightarrow>
     (y = x \<and> result_of (ClaimTaskCAS E i x l) w = Inr (v, True)) \<or>
     (y, Inr (v, True)) \<in> set (result_of (ClaimMany E i cs) (after (ClaimTaskCAS E i x l) w))"
  by (auto simp: split_beta)

lemma ClaimMany_held:
  assumes "held_by i a (db w)" and "a \<noteq> []"
    and "(b, Inr (t, True)) \<in> set (result_of (ClaimMany E i cs) w)"
  shows "b = a"
  using assms
proof (induction cs arbitrary: w)
  case (Cons c cs)
  obtain x l where c: "c = (x, l)" by fastforce
  have "held_by i a (db (after (ClaimTaskCAS E i x l) w))"
    using keepsD [OF ClaimTaskCAS_keeps_held] Cons.prems(1,2) by blast
  with Cons.prems Cons.IH ClaimTaskCAS_other_fails show ?case
    unfolding c ClaimMany_Cons_mem by blast
qed simp

text \<open>
  C1: for every fault schedule of the database, among any sequence of claims for the same task
  by non-empty assignees, the claims that report success are all of one assignee.
\<close>

theorem claims_exclusive:
  assumes "store_wf (db w)" and "\<forall>c \<in> set cs. fst c \<noteq> []"
    and "(a, Inr (t, True)) \<in> set (result_of (ClaimMany E i cs) w)"
    and "(b, Inr (u, True)) \<in> set (result_of (ClaimMany E i cs) w)"
  shows "a = b"
  using assms
proof (induction cs arbitrary: w)
  case (Cons c cs)
  obtain x l where c: "c = (x, l)" by fastforce
  let ?w = "after (ClaimTaskCAS E i x l) w"
  have x: "x \<noteq> []" using Cons.prems(2) c by simp
  have wf: "store_wf (db ?w)"
    using keepsD [OF ClaimTaskCAS_wf] Cons.prems(1) by blast
  show ?case
  proof (cases "\<exists>v. result_of (ClaimTaskCAS E i x l) w = Inr (v, True)")
    case True
    then have "held_by i x (db ?w)"
      using ClaimTaskCAS_success_holds Cons.prems(1) by blast
    with Cons.prems(3,4) ClaimMany_held x show ?thesis
      unfolding c ClaimMany_Cons_mem by metis
  next
    case False
    with Cons.prems Cons.IH [OF wf] show ?thesis
      unfolding c ClaimMany_Cons_mem by auto
  qed
qed simp

definition demo_task :: Task where
  "demo_task =
     \<lparr>tsk_ID = ''t1'', tsk_Summary = ''fix'', tsk_Description = [], tsk_State = ''todo'',
      tsk_Target = ''#dev'', tsk_AssigneeID = [], tsk_CreatedByUserID = [], tsk_BlockedReason = [],
      tsk_Version = 1, tsk_ClaimLeaseID = [], tsk_CreatedUnix = 0, tsk_UpdatedUnix = 0\<rparr>"

definition task_world :: "store world" where
  "task_world = world_of (empty_store\<lparr>tasks := [demo_task]\<rparr>)"

lemmas task_demo_defs = task_world_def demo_task_def demo_env_def empty_store_def

lemma task_world_wf: "store_wf (db task_world)"
  by (simp add: task_demo_defs store_wf_def table_wf_def rows_free_def TaskEnt_def)

definition demo_claims :: "(string \<times> (err + Task \<times> bool)) list" where
  "demo_claims =
     result_of (ClaimMany demo_env ''t1'' [(''ann'', ''l1''), (''bob'', ''l2'')]) task_world"

theorem claims_exclusive_witness:
  "(\<exists>t. (''ann'', Inr (t, True)) \<in> set demo_claims) \<and>
   (\<forall>u. (''bob'', Inr (u, True)) \<notin> set demo_claims)"
proof -
  have a: "\<exists>t. (''ann'', Inr (t, True)) \<in> set demo_claims"
    by (simp add: demo_claims_def task_demo_defs ClaimTaskCAS_def GetTask_def run_ent map_rows_def
        rows_free_def)
  then show ?thesis
    using claims_exclusive [OF task_world_wf, of "[(''ann'', ''l1''), (''bob'', ''l2'')]" "''ann''" _
        demo_env "''t1''" "''bob''"] unfolding demo_claims_def by auto
qed

section \<open>The claim as an operation on a map of tasks\<close>

definition task_map :: "store \<Rightarrow> string \<rightharpoonup> Task" where
  "task_map d = row_map TaskEnt (tasks d)"

text \<open>
  What a claim promises, on the map of tasks: a free task or one already held by the same assignee is
  taken over with the new lease and the next version; any other task is reported unchanged.
\<close>

definition claim_spec ::
  "string \<Rightarrow> string \<Rightarrow> string \<Rightarrow> int \<Rightarrow> (string \<rightharpoonup> Task) \<Rightarrow>
     (err + Task \<times> bool) \<times> (string \<rightharpoonup> Task)" where
  "claim_spec i a l now m =
     (case m i of
        None \<Rightarrow> (Inl ErrNotFound, m)
      | Some t \<Rightarrow>
          if tsk_AssigneeID t = [] \<or> tsk_AssigneeID t = a
          then let t' = t\<lparr>tsk_AssigneeID := a, tsk_ClaimLeaseID := l,
                          tsk_Version := tsk_Version t + 1, tsk_UpdatedUnix := now\<rparr>
               in (Inr (t', True), m(i \<mapsto> t'))
          else (Inr (t, False), m))"

lemma map_rows_guard:
  "map_rows (\<lambda>r. p r \<and> q r) f rows = map_rows p (\<lambda>r. if q r then f r else r) rows"
  by (simp add: map_rows_def)

lemma task_rows_free: "store_wf d \<Longrightarrow> rows_free TaskEnt (tasks d)"
  using TaskTbl.wf_free by (simp add: TaskEnt_def)

text \<open>
  C10: without database faults the compare-and-set claim returns what the
  specification on the map of tasks returns and leaves the map the specification leaves, on every
  branch: taken, renewed, refused, not found.
\<close>

theorem ClaimTaskCAS_refines:
  assumes "store_wf (db w)" and "no_faults E"
  shows "(result_of (ClaimTaskCAS E i a l) w, task_map (db (after (ClaimTaskCAS E i a l) w))) =
     claim_spec i a l (clock E (tick w)) (task_map (db w))"
proof -
  let ?now = "clock E (tick w)"
  let ?ok = "\<lambda>r. tsk_AssigneeID r = [] \<or> tsk_AssigneeID r = a"
  let ?f = "\<lambda>r. r\<lparr>tsk_AssigneeID := a, tsk_ClaimLeaseID := l, tsk_Version := tsk_Version r + 1,
                 tsk_UpdatedUnix := ?now\<rparr>"
  let ?g = "\<lambda>r. if ?ok r then ?f r else r"
  let ?rows = "tasks (db w)"
  have free: "rows_free TaskEnt ?rows" by (rule task_rows_free) (rule assms(1))
  have free': "rows_free TaskEnt (map_rows (\<lambda>q. tsk_ID q = i) ?g ?rows)"
    by (rule rows_free_map_rows [OF free]) (simp_all add: TaskEnt_def)
  have upd: "row_map TaskEnt (map_rows (\<lambda>q. tsk_ID q = i) ?g ?rows) =
     (case row_map TaskEnt ?rows i of None \<Rightarrow> row_map TaskEnt ?rows
      | Some r \<Rightarrow> (row_map TaskEnt ?rows)(i \<mapsto> ?g r))"
    using row_map_update [OF free, of ?g i] by (simp add: TaskEnt_def)
  have look: "filter (\<lambda>r. tsk_ID r = i) rows =
     (case row_map TaskEnt rows i of None \<Rightarrow> [] | Some r \<Rightarrow> [r])" if "rows_free TaskEnt rows" for rows
    using filter_row_map [OF that, of i] by (simp add: TaskEnt_def)
  have count: "filter (\<lambda>r. tsk_ID r = i \<and> ?ok r) ?rows =
     (case row_map TaskEnt ?rows i of None \<Rightarrow> [] | Some r \<Rightarrow> if ?ok r then [r] else [])"
    using look [OF free] by (simp add: filter_filter [symmetric] conj_commute split: option.splits)
  show ?thesis
    using assms(2) free' look [OF free'] upd count
    by (auto simp: ClaimTaskCAS_def GetTask_def run_ent map_rows_guard task_map_def claim_spec_def
        notFound_def split: option.splits)
qed

theorem ClaimTaskCAS_refines_witness:
  "result_of (ClaimTaskCAS demo_env ''t1'' ''ann'' ''l1'') task_world =
     Inr (demo_task\<lparr>tsk_AssigneeID := ''ann'', tsk_ClaimLeaseID := ''l1'', tsk_Version := 2,
                    tsk_UpdatedUnix := 1000\<rparr>, True)"
proof -
  have "task_map (db task_world) ''t1'' = Some demo_task"
    by (simp add: task_world_def task_map_def row_map_def TaskEnt_def demo_task_def)
  then have "fst (claim_spec ''t1'' ''ann'' ''l1'' (clock demo_env (tick task_world))
      (task_map (db task_world))) =
      Inr (demo_task\<lparr>tsk_AssigneeID := ''ann'', tsk_ClaimLeaseID := ''l1'', tsk_Version := 2,
                    tsk_UpdatedUnix := 1000\<rparr>, True)"
    by (simp add: claim_spec_def task_demo_defs Let_def)
  then show ?thesis
    using ClaimTaskCAS_refines [OF task_world_wf no_faults_demo, of "''t1''" "''ann''" "''l1''"]
    by (metis fst_conv)
qed

section \<open>States and versions\<close>

definition tasks_ok :: "store \<Rightarrow> bool" where
  "tasks_ok d \<longleftrightarrow> (\<forall>r \<in> set (tasks d). tsk_State r \<in> task_states \<and> 1 \<le> tsk_Version r)"

lemma canceled_norm: "ToLower E (TrimSpace ''canceled'') = ''canceled''"
  by (rule norm_word) (code_simp)

lemma todo_norm: "ToLower E (TrimSpace ''todo'') = ''todo''"
  by (rule norm_word) (code_simp)

lemma normalizeTaskState_idem:
  "lower_stable E \<Longrightarrow> normalizeTaskState E (normalizeTaskState E s) = normalizeTaskState E s"
  by (auto simp: normalizeTaskState_def Let_def canceled_norm)

lemma validTaskState_normalized:
  "lower_stable E \<Longrightarrow> validTaskState E (normalizeTaskState E s) \<longleftrightarrow>
     normalizeTaskState E s \<in> task_states"
  by (simp add: validTaskState_def normalizeTaskState_idem)

lemma CreateTask_ok:
  assumes "lower_stable E"
  shows "keeps (on_db tasks_ok) (CreateTask E t)"
  unfolding CreateTask_def Let_def
  using validTaskState_normalized [OF assms, of "tsk_State t"]
  by (intro keeps_rules keeps_ent_create) (auto simp: tasks_ok_def TaskEnt_def task_states_def)

lemma UpdateTask_ok:
  assumes "lower_stable E"
  shows "keeps (on_db tasks_ok) (UpdateTask E i p)"
  unfolding UpdateTask_def Let_def
  by (intro keeps_rules keeps_ent_update_one)
    (auto simp: tasks_ok_def TaskEnt_def ball_map_rows set_opt_def validTaskState_normalized [OF assms]
      split: option.splits)

lemma ClaimTaskCAS_ok: "keeps (on_db tasks_ok) (ClaimTaskCAS E i a l)"
  unfolding ClaimTaskCAS_def GetTask_def
  by (intro keeps_rules keeps_ent_update_where) (auto simp: tasks_ok_def TaskEnt_def ball_map_rows)

text \<open>
  C21: under every fault schedule, creating, patching and claiming tasks keeps every task
  in one of the six states with a version of at least one.
\<close>

theorem tasks_ok_kept:
  assumes "lower_stable E" and "tasks_ok (db w)"
  shows "tasks_ok (db (after (CreateTask E t) w)) \<and> tasks_ok (db (after (UpdateTask E i p) w)) \<and>
     tasks_ok (db (after (ClaimTaskCAS E j a l) w))"
  using assms keepsD [OF CreateTask_ok] keepsD [OF UpdateTask_ok] keepsD [OF ClaimTaskCAS_ok] by blast

theorem tasks_ok_kept_witness:
  "tasks_ok (db (after (CreateTask demo_env demo_task) task_world)) \<and>
   tasks_ok (db (after (UpdateTask demo_env ''t1''
     \<lparr>tskp_Summary = None, tskp_Description = None, tskp_State = Some '' Cancelled '',
      tskp_AssigneeID = None, tskp_BlockedReason = None\<rparr>) task_world)) \<and>
   tasks_ok (db (after (ClaimTaskCAS demo_env ''t1'' ''ann'' ''l1'') task_world))"
proof -
  have "tasks_ok (db task_world)"
    by (simp add: tasks_ok_def task_demo_defs task_states_def)
  then show ?thesis by (rule tasks_ok_kept [OF lower_stable_demo])
qed

section \<open>Attempt records\<close>

lemma attempt_unique:
  assumes "store_wf d" and "x \<in> set (taskAttempts d)"
    and "tat_TaskID x = t" and "tat_Attempt x = n"
  shows "filter (\<lambda>r. tat_TaskID r = t \<and> tat_Attempt r = n) (taskAttempts d) = [x]"
proof (rule filter_unique)
  show "rows_free TaskAttemptEnt (taskAttempts d)"
    using TaskAttemptTbl.wf_free [OF assms(1)] by (simp add: TaskAttemptEnt_def)
  show "clash TaskAttemptEnt x q" if "tat_TaskID q = t \<and> tat_Attempt q = n" for q
    using that assms(3,4) by (simp add: clash_def TaskAttemptEnt_def)
qed (use assms in auto)

text \<open>The key fields of an attempt survive both updates.\<close>

lemma attempt_upd_key [simp]:
  "tat_ID (attempt_claim_upd st now a old r) = tat_ID r"
  "tat_TaskID (attempt_claim_upd st now a old r) = tat_TaskID r"
  "tat_Attempt (attempt_claim_upd st now a old r) = tat_Attempt r"
  "tat_ID (attempt_run_upd E st out now u old r) = tat_ID r"
  "tat_TaskID (attempt_run_upd E st out now u old r) = tat_TaskID r"
  "tat_Attempt (attempt_run_upd E st out now u old r) = tat_Attempt r"
  by (simp_all add: attempt_claim_upd_def attempt_run_upd_def)

lemma attempt_update_run:
  assumes "run_state (ent_update_one E TaskAttemptEnt chk (tat_ID x) f) w = (Inr q, w')"
    and "store_wf (db w)" and "x \<in> set (taskAttempts (db w))"
  shows "q = f x" and "q \<in> set (taskAttempts (db w'))"
    and "length (taskAttempts (db w')) = length (taskAttempts (db w))"
  using TaskAttemptTbl.update_known_run [of E chk x f w q w'] assms
  by (auto simp: TaskAttemptEnt_def)

lemma TaskAttempt_trim_simps [simp]:
  "tat_TaskID (TaskAttempt_trim a) = TrimSpace (tat_TaskID a)"
  "tat_Attempt (TaskAttempt_trim a) = tat_Attempt a"
  by (simp_all add: TaskAttempt_trim_def)

lemma RecordTaskAttemptClaim_stores:
  assumes wf: "store_wf (db w)" and run: "run_state (RecordTaskAttemptClaim E a) w = (Inr x, w')"
  shows "x \<in> set (taskAttempts (db w')) \<and>
     tat_TaskID x = TrimSpace (tat_TaskID a) \<and> tat_Attempt x = tat_Attempt a"
  using run unfolding RecordTaskAttemptClaim_def Let_def
  by (elim run_elims)
    (auto simp: through_Inr_iff wf dest!: run_reads create_run filter_singletonD
      dest: attempt_update_run)

lemma RecordTaskAttemptClaim_again:
  assumes wf: "store_wf (db w)" and x: "x \<in> set (taskAttempts (db w))"
    "tat_TaskID x = TrimSpace (tat_TaskID b)" "tat_Attempt x = tat_Attempt b"
    and run: "run_state (RecordTaskAttemptClaim E b) w = (Inr y, w')"
  shows "tat_ID y = tat_ID x \<and> length (taskAttempts (db w')) = length (taskAttempts (db w)) \<and>
     (tat_ClaimedUnix x \<noteq> 0 \<longrightarrow> tat_ClaimedUnix y = tat_ClaimedUnix x)"
  using run attempt_unique [OF wf x] x(1) unfolding RecordTaskAttemptClaim_def Let_def
  by (elim run_elims)
    (auto simp: through_Inr_iff wf attempt_claim_upd_def dest!: run_reads create_run
      dest: attempt_update_run)

text \<open>
  Recording a claim twice for the same task and attempt number, with any
  faults and any other field values, leaves one record: the second call reports the identifier the
  first one reported, adds no row, and keeps the time of the first claim.
\<close>

theorem attempt_claim_once:
  assumes "store_wf (db w)"
    and "run_state (RecordTaskAttemptClaim E a) w = (Inr x, w1)"
    and "run_state (RecordTaskAttemptClaim E b) w1 = (Inr y, w2)"
    and "TrimSpace (tat_TaskID b) = TrimSpace (tat_TaskID a)" and "tat_Attempt b = tat_Attempt a"
  shows "tat_ID y = tat_ID x \<and> length (taskAttempts (db w2)) = length (taskAttempts (db w1)) \<and>
     (tat_ClaimedUnix x \<noteq> 0 \<longrightarrow> tat_ClaimedUnix y = tat_ClaimedUnix x)"
proof -
  have wf1: "store_wf (db w1)"
    using keepsD [OF RecordTaskAttemptClaim_wf, of w E a] assms(1,2) by simp
  show ?thesis
    using RecordTaskAttemptClaim_stores [OF assms(1,2)] 
      RecordTaskAttemptClaim_again [OF wf1, of x b E y w2] assms(3-5) by simp
qed

definition demo_attempt :: TaskAttempt where
  "demo_attempt =
     \<lparr>tat_ID = [], tat_TaskID = '' t1 '', tat_Attempt = 1, tat_RunID = [], tat_AgentID = ''a1'',
      tat_ClaimLeaseID = ''l1'', tat_Status = [], tat_OutputJSON = [], tat_OutputDigest = [],
      tat_OutputSignature = [], tat_SignaturePublicKey = [], tat_ErrorMessage = [],
      tat_ClaimedUnix = 0, tat_StartedUnix = 0, tat_CompletedUnix = 0, tat_UpdatedUnix = 0\<rparr>"

definition demo_claim_1 :: "(err + TaskAttempt) \<times> store world" where
  "demo_claim_1 = run_state (RecordTaskAttemptClaim demo_env demo_attempt) (world_of empty_store)"

definition demo_claim_2 :: "(err + TaskAttempt) \<times> store world" where
  "demo_claim_2 = run_state (RecordTaskAttemptClaim demo_env (demo_attempt\<lparr>tat_Status := ''Running''\<rparr>))
     (snd demo_claim_1)"

theorem attempt_claim_once_witness:
  "tat_ID (projr (fst demo_claim_2)) = tat_ID (projr (fst demo_claim_1)) \<and>
   length (taskAttempts (db (snd demo_claim_2))) = length (taskAttempts (db (snd demo_claim_1))) \<and>
   tat_Status (projr (fst demo_claim_2)) = ''running''"
proof -
  have ok: "\<not> isl (fst demo_claim_1)" "\<not> isl (fst demo_claim_2)"
    "tat_Status (projr (fst demo_claim_2)) = ''running''"
    by code_simp+
  have "run_state (RecordTaskAttemptClaim demo_env demo_attempt) (world_of empty_store) =
      (Inr (projr (fst demo_claim_1)), snd demo_claim_1)"
    "run_state (RecordTaskAttemptClaim demo_env (demo_attempt\<lparr>tat_Status := ''Running''\<rparr>))
       (snd demo_claim_1) = (Inr (projr (fst demo_claim_2)), snd demo_claim_2)"
    using ok(1,2) unfolding demo_claim_1_def demo_claim_2_def by (simp_all add: prod_eq_iff)
  from attempt_claim_once [OF _ this] show ?thesis using ok(3) by simp
qed

end
