(* ===== verification/Store_Channels.thy ===== *)
theory Store_Channels
  imports Store_Base
begin

text \<open>
  Channels and channel members of \<^verbatim>\<open>internal/storage/store.go\<close>: normalization of targets, kinds,
  roles and visibilities, and the create, list, update, upsert and delete operations.
\<close>

section \<open>Normalization\<close>

definition normalizeChannelTarget :: "string \<Rightarrow> string" where
  "normalizeChannelTarget t =
     (let target = TrimSpace t
      in if target = [] then [] else ''#'' @ TrimPrefix target ''#'')"

definition normalizeChannelVisibility :: "'z env_scheme \<Rightarrow> string \<Rightarrow> string" where
  "normalizeChannelVisibility E visibility =
     (let v = ToLower E (TrimSpace visibility)
      in if v = [] \<or> v = ''public'' then ''public''
         else if v = ''private'' then ''private'' else v)"

definition validChannelVisibility :: "string \<Rightarrow> bool" where
  "validChannelVisibility visibility \<longleftrightarrow> visibility \<in> {''public'', ''private''}"

definition normalizeChannelMemberKind :: "'z env_scheme \<Rightarrow> string \<Rightarrow> string" where
  "normalizeChannelMemberKind E kind =
     (let k = ToLower E (TrimSpace kind)
      in if k = [] \<or> k = ''human'' \<or> k = ''user'' then ''human''
         else if k = ''agent'' then ''agent'' else k)"

definition validChannelMemberKind :: "string \<Rightarrow> bool" where
  "validChannelMemberKind kind \<longleftrightarrow> kind \<in> {''human'', ''agent''}"

definition normalizeChannelMemberRole :: "'z env_scheme \<Rightarrow> string \<Rightarrow> string" where
  "normalizeChannelMemberRole E role =
     (let r = ToLower E (TrimSpace role)
      in if r = [] \<or> r = ''member'' then ''member'' else r)"

definition validChannelMemberRole :: "string \<Rightarrow> bool" where
  "validChannelMemberRole role \<longleftrightarrow> role \<in> {''admin'', ''member'', ''viewer''}"

definition normalizeChannelSummary :: "'z env_scheme \<Rightarrow> ChannelSummary \<Rightarrow> err + ChannelSummary" where
  "normalizeChannelSummary E c =
     (let target = normalizeChannelTarget (chs_Target c);
          name = TrimSpace (chs_DisplayName c);
          ctype0 = ToLower E (TrimSpace (chs_ChannelType c));
          visibility = normalizeChannelVisibility E (chs_Visibility c);
          ctype = (if ctype0 = [] then ''channel'' else ctype0);
          displayName = (if name = [] then TrimPrefix target ''#'' else name)
      in if target = [] \<or> \<not> HasPrefix target ''#'' \<or> displayName = [] then Inl ErrInvalidState
         else if ctype \<noteq> ''channel'' \<or> \<not> validChannelVisibility visibility then Inl ErrInvalidState
         else Inr (c\<lparr>chs_Target := target, chs_DisplayName := displayName,
                     chs_ChannelType := ctype, chs_Visibility := visibility\<rparr>))"

definition normalizeChannelMember :: "'z env_scheme \<Rightarrow> ChannelMember \<Rightarrow> err + ChannelMember" where
  "normalizeChannelMember E m =
     (let target = normalizeChannelTarget (chm_Target m);
          memberID = TrimSpace (chm_MemberID m);
          username = TrimSpace (chm_Username m);
          name = TrimSpace (chm_DisplayName m);
          kind = normalizeChannelMemberKind E (chm_Kind m);
          role = normalizeChannelMemberRole E (chm_Role m);
          displayName = (if name = [] then firstNonEmpty [username, memberID] else name)
      in if target = [] \<or> memberID = [] \<or> displayName = [] then Inl ErrInvalidState
         else if \<not> validChannelMemberKind kind \<or> \<not> validChannelMemberRole role
         then Inl ErrInvalidState
         else Inr (m\<lparr>chm_Target := target, chm_MemberID := memberID, chm_Username := username,
                     chm_DisplayName := displayName, chm_Kind := kind, chm_Role := role\<rparr>))"

section \<open>Channels\<close>

definition CreateChannel :: "senv \<Rightarrow> ChannelSummary \<Rightarrow> ChannelSummary op" where
  "CreateChannel E channelModel =
     (case normalizeChannelSummary E channelModel of
        Inl e \<Rightarrow> ret (Inl e)
      | Inr n \<Rightarrow> do {
          now \<leftarrow> unixNow E;
          i \<leftarrow> newID E ''chn'';
          row \<leftarrow> ent_create E ChannelEnt
            \<lparr>chn_ID = i, chn_Target = chs_Target n, chn_DisplayName = chs_DisplayName n,
             chn_ChannelType = chs_ChannelType n, chn_Visibility = chs_Visibility n,
             chn_CreatedByUserID = TrimSpace (chs_CreatedByUserID n), chn_CreatedUnix = now,
             chn_UpdatedUnix = now\<rparr>;
          ret (through conflict channelFromEnt row)
        })"

text \<open>\<^verbatim>\<open>channelMemberTargets\<close> keeps the first occurrence of each target without trimming it.\<close>

fun dedup_loop :: "string set \<Rightarrow> string list \<Rightarrow> string list" where
  "dedup_loop seen [] = []"
| "dedup_loop seen (t # ts) =
     (if t \<in> seen then dedup_loop seen ts else t # dedup_loop (insert t seen) ts)"

definition channelMemberTargets :: "senv \<Rightarrow> string \<Rightarrow> string list op" where
  "channelMemberTargets E userID0 =
     (let userID = TrimSpace userID0
      in if userID = [] then ret (Inr [])
         else do {
           rows \<leftarrow> ent_all E ChannelMemberEnt
             (\<lambda>r. chmr_Kind r = ''human'' \<and> chmr_MemberID r = userID) (\<lambda>rs. rs);
           ret (through plain (\<lambda>rs. dedup_loop {} (map chmr_Target rs)) rows)
         })"

definition ListChannels :: "senv \<Rightarrow> ChannelListOptions \<Rightarrow> ChannelSummary list op" where
  "ListChannels E opts =
     (let limit = clamp_limit 200 100 (chso_Limit opts);
          query = (\<lambda>p. do {
            rows \<leftarrow> ent_all E ChannelEnt p (\<lambda>rs. take limit (order_asc chn_Target rs));
            ret (through plain (map channelFromEnt) rows)
          })
      in if chso_JoinedOnly opts then do {
           targets \<leftarrow> channelMemberTargets E (chso_UserID opts);
           case targets of
             Inl e \<Rightarrow> ret (Inl e)
           | Inr ts \<Rightarrow> if ts = [] then ret (Inr []) else query (\<lambda>r. chn_Target r \<in> set ts)
         }
         else query (\<lambda>_. True))"

definition GetChannel :: "senv \<Rightarrow> string \<Rightarrow> ChannelSummary op" where
  "GetChannel E t =
     (let target = normalizeChannelTarget t
      in if target = [] then ret (Inl ErrNotFound)
         else do {
           row \<leftarrow> ent_only E ChannelEnt (\<lambda>r. chn_Target r = target);
           ret (through notFound channelFromEnt row)
         })"

definition UpdateChannel :: "senv \<Rightarrow> string \<Rightarrow> ChannelPatch \<Rightarrow> ChannelSummary op" where
  "UpdateChannel E t patch =
     (let target = normalizeChannelTarget t;
          name = map_option TrimSpace (chsp_DisplayName patch);
          visibility = map_option (normalizeChannelVisibility E) (chsp_Visibility patch)
      in if target = [] then ret (Inl ErrNotFound)
         else do {
           now \<leftarrow> unixNow E;
           if name = Some [] then ret (Inl ErrInvalidState)
           else if (case visibility of None \<Rightarrow> False | Some v \<Rightarrow> \<not> validChannelVisibility v)
           then ret (Inl ErrInvalidState)
           else do {
             affected \<leftarrow> ent_update_where E ChannelEnt True (\<lambda>r. chn_Target r = target)
               (\<lambda>r. r\<lparr>chn_UpdatedUnix := now,
                 chn_DisplayName := (case name of None \<Rightarrow> chn_DisplayName r | Some v \<Rightarrow> v),
                 chn_Visibility := (case visibility of None \<Rightarrow> chn_Visibility r | Some v \<Rightarrow> v)\<rparr>);
             case affected of
               Inl e \<Rightarrow> ret (Inl (ErrEnt e))
             | Inr n \<Rightarrow> if n = 0 then ret (Inl ErrNotFound) else GetChannel E target
           }
         })"

definition DeleteChannel :: "senv \<Rightarrow> string \<Rightarrow> unit op" where
  "DeleteChannel E t =
     (let target = normalizeChannelTarget t
      in if target = [] then ret (Inl ErrNotFound)
         else do {
           members \<leftarrow> ent_count E ChannelMemberEnt (\<lambda>r. chmr_Target r = target);
           case members of
             Inl e \<Rightarrow> ret (Inl (ErrEnt e))
           | Inr memberCount \<Rightarrow> do {
               msgs \<leftarrow> ent_count E MessageEnt (\<lambda>r. msgr_Target r = target);
               case msgs of
                 Inl e \<Rightarrow> ret (Inl (ErrEnt e))
               | Inr messageCount \<Rightarrow> do {
                   ts \<leftarrow> ent_count E TaskEnt (\<lambda>r. tsk_Target r = target);
                   case ts of
                     Inl e \<Rightarrow> ret (Inl (ErrEnt e))
                   | Inr taskCount \<Rightarrow>
                       if 0 < memberCount \<or> 0 < messageCount \<or> 0 < taskCount
                       then ret (Inl ErrConflict)
                       else do {
                         affected \<leftarrow> ent_delete_where E ChannelEnt (\<lambda>r. chn_Target r = target);
                         ret (case affected of
                                Inl e \<Rightarrow> Inl (ErrEnt e)
                              | Inr n \<Rightarrow> if n = 0 then Inl ErrNotFound else Inr ())
                       }
                 }
             }
         })"

section \<open>Members\<close>

definition UpsertChannelMember :: "senv \<Rightarrow> ChannelMember \<Rightarrow> ChannelMember op" where
  "UpsertChannelMember E member =
     (case normalizeChannelMember E member of
        Inl e \<Rightarrow> ret (Inl e)
      | Inr n \<Rightarrow> do {
          ch \<leftarrow> GetChannel E (chm_Target n);
          case ch of
            Inl e \<Rightarrow> ret (Inl e)
          | Inr _ \<Rightarrow> do {
              now \<leftarrow> unixNow E;
              found \<leftarrow> ent_only E ChannelMemberEnt
                (\<lambda>r. chmr_Target r = chm_Target n \<and> chmr_Kind r = chm_Kind n \<and>
                     chmr_MemberID r = chm_MemberID n);
              case found of
                Inl e \<Rightarrow>
                  if e = EntNotFound then do {
                    i \<leftarrow> newID E ''chm'';
                    row \<leftarrow> ent_create E ChannelMemberEnt
                      \<lparr>chmr_ID = i, chmr_Target = chm_Target n, chmr_MemberID = chm_MemberID n,
                       chmr_Username = chm_Username n, chmr_DisplayName = chm_DisplayName n,
                       chmr_Kind = chm_Kind n, chmr_Role = chm_Role n, chmr_JoinedTimeUnix = now,
                       chmr_UpdatedUnix = now\<rparr>;
                    ret (through conflict channelMemberFromEnt row)
                  }
                  else ret (Inl (ErrEnt e))
              | Inr old \<Rightarrow> do {
                  row \<leftarrow> ent_update_one E ChannelMemberEnt (chm_DisplayName n \<noteq> []) (chmr_ID old)
                    (\<lambda>r. r\<lparr>chmr_Username := chm_Username n, chmr_DisplayName := chm_DisplayName n,
                           chmr_Role := chm_Role n, chmr_UpdatedUnix := now\<rparr>);
                  ret (through plain channelMemberFromEnt row)
                }
            }
        })"

definition ListChannelMembers :: "senv \<Rightarrow> string \<Rightarrow> int \<Rightarrow> ChannelMember list op" where
  "ListChannelMembers E t limit0 =
     (let target = normalizeChannelTarget t; limit = clamp_limit 200 100 limit0
      in if target = [] then ret (Inl ErrNotFound)
         else do {
           rows \<leftarrow> ent_all E ChannelMemberEnt (\<lambda>r. chmr_Target r = target)
             (\<lambda>rs. take limit
                (order_asc (\<lambda>r. (chmr_Kind r, chmr_DisplayName r, chmr_MemberID r)) rs));
           ret (through plain (map channelMemberFromEnt) rows)
         })"

definition UpdateChannelMember ::
  "senv \<Rightarrow> string \<Rightarrow> string \<Rightarrow> string \<Rightarrow> ChannelMemberPatch \<Rightarrow> ChannelMember op" where
  "UpdateChannelMember E t k m patch =
     (let target = normalizeChannelTarget t; kind = normalizeChannelMemberKind E k;
          memberID = TrimSpace m;
          username = map_option TrimSpace (chmp_Username patch);
          name = map_option TrimSpace (chmp_DisplayName patch);
          role = map_option (normalizeChannelMemberRole E) (chmp_Role patch);
          here = (\<lambda>r. chmr_Target r = target \<and> chmr_Kind r = kind \<and> chmr_MemberID r = memberID)
      in if target = [] \<or> kind = [] \<or> memberID = [] then ret (Inl ErrNotFound)
         else do {
           now \<leftarrow> unixNow E;
           if name = Some [] then ret (Inl ErrInvalidState)
           else if (case role of None \<Rightarrow> False | Some v \<Rightarrow> \<not> validChannelMemberRole v)
           then ret (Inl ErrInvalidState)
           else do {
             affected \<leftarrow> ent_update_where E ChannelMemberEnt True here
               (\<lambda>r. r\<lparr>chmr_UpdatedUnix := now,
                 chmr_Username := (case username of None \<Rightarrow> chmr_Username r | Some v \<Rightarrow> v),
                 chmr_DisplayName := (case name of None \<Rightarrow> chmr_DisplayName r | Some v \<Rightarrow> v),
                 chmr_Role := (case role of None \<Rightarrow> chmr_Role r | Some v \<Rightarrow> v)\<rparr>);
             case affected of
               Inl e \<Rightarrow> ret (Inl (ErrEnt e))
             | Inr n \<Rightarrow>
                 if n = 0 then ret (Inl ErrNotFound)
                 else do {
                   row \<leftarrow> ent_only E ChannelMemberEnt here;
                   ret (through plain channelMemberFromEnt row)
                 }
           }
         })"

definition DeleteChannelMember :: "senv \<Rightarrow> string \<Rightarrow> string \<Rightarrow> string \<Rightarrow> unit op" where
  "DeleteChannelMember E t k m =
     (let target = normalizeChannelTarget t; kind = normalizeChannelMemberKind E k;
          memberID = TrimSpace m
      in if target = [] \<or> kind = [] \<or> memberID = [] then ret (Inl ErrNotFound)
         else do {
           affected \<leftarrow> ent_delete_where E ChannelMemberEnt
             (\<lambda>r. chmr_Target r = target \<and> chmr_Kind r = kind \<and> chmr_MemberID r = memberID);
           ret (case affected of
                  Inl e \<Rightarrow> Inl (ErrEnt e)
                | Inr n \<Rightarrow> if n = 0 then Inl ErrNotFound else Inr ())
         })"

section \<open>Well-formedness\<close>

lemmas channel_wf_defs = ChannelEnt_def ChannelMemberEnt_def

lemma CreateChannel_wf: "keeps (on_db store_wf) (CreateChannel E c)"
  unfolding CreateChannel_def by (intro keeps_rules store_keeps_wf)

lemma UpdateChannel_wf: "keeps (on_db store_wf) (UpdateChannel E t p)"
  unfolding UpdateChannel_def GetChannel_def Let_def
  by (intro keeps_rules store_keeps_wf) (auto simp: channel_wf_defs split: option.splits)

lemma DeleteChannel_wf: "keeps (on_db store_wf) (DeleteChannel E t)"
  unfolding DeleteChannel_def Let_def by (intro keeps_rules store_keeps_wf)

lemma UpsertChannelMember_wf: "keeps (on_db store_wf) (UpsertChannelMember E m)"
  unfolding UpsertChannelMember_def GetChannel_def Let_def
  by (intro keeps_rules store_keeps_wf) (auto simp: channel_wf_defs)

lemma UpdateChannelMember_wf: "keeps (on_db store_wf) (UpdateChannelMember E t k m p)"
  unfolding UpdateChannelMember_def Let_def
  by (intro keeps_rules store_keeps_wf) (auto simp: channel_wf_defs split: option.splits)

lemma DeleteChannelMember_wf: "keeps (on_db store_wf) (DeleteChannelMember E t k m)"
  unfolding DeleteChannelMember_def Let_def by (intro keeps_rules store_keeps_wf)

end
