(* ===== verification/Store_Messages.thy ===== *)
theory Store_Messages
  imports Store_Base
begin

text \<open>
  Messages, saved messages, the thread inbox and read states of \<^verbatim>\<open>internal/storage/store.go\<close>, and the
  message kinds of \<^verbatim>\<open>internal/storage/decisions.go\<close>.
\<close>

section \<open>Rows and attachments\<close>

definition normalizeMessageKind :: "'z env_scheme \<Rightarrow> string \<Rightarrow> string" where
  "normalizeMessageKind E kind =
     (let k = ToLower E (TrimSpace kind)
      in if k = [] \<or> k = ''note'' then []
         else if k = ''decision'' then ''decision''
         else if k = ''blocker'' then ''blocker''
         else if k = ''status'' then ''status''
         else [])"

definition marshalAttachments :: "senv \<Rightarrow> Attachment list \<Rightarrow> string" where
  "marshalAttachments E as = (if as = [] then ''[]'' else enc_attachments E as)"

definition unmarshalAttachments :: "senv \<Rightarrow> string \<Rightarrow> Attachment list" where
  "unmarshalAttachments E value =
     (if TrimSpace value = [] then []
      else case dec_attachments E value of None \<Rightarrow> [] | Some as \<Rightarrow> as)"

definition messageFromEnt :: "senv \<Rightarrow> MessageRow \<Rightarrow> Message" where
  "messageFromEnt E r =
     \<lparr>msg_ID = msgr_ID r, msg_Target = msgr_Target r, msg_ThreadID = msgr_ThreadID r,
      msg_Role = msgr_Role r, msg_Content = msgr_Content r,
      msg_ReplyToMessageID = msgr_ReplyToMessageID r, msg_SenderUserID = msgr_SenderUserID r,
      msg_SenderAgentID = msgr_SenderAgentID r, msg_SenderDisplayName = msgr_SenderDisplayName r,
      msg_SenderKind = msgr_SenderKind r, msg_SourceEndpointID = msgr_SourceEndpointID r,
      msg_ExternalMessageID = msgr_ExternalMessageID r, msg_MetadataJSON = msgr_MetadataJSON r,
      msg_Attachments = unmarshalAttachments E (msgr_AttachmentsJSON r),
      msg_RequestID = msgr_RequestID r, msg_CreatedUnix = msgr_CreatedUnix r,
      msg_Kind = msgr_Kind r\<rparr>"

definition previewText :: "string \<Rightarrow> int \<Rightarrow> string" where
  "previewText value limit =
     (let t = TrimSpace value
      in if limit \<le> 0 \<or> int (length (runes t)) \<le> limit then t
         else concat (take (nat limit) (runes t)) @ ''...'')"

section \<open>Messages\<close>

definition CreateMessage :: "senv \<Rightarrow> Message \<Rightarrow> Message op" where
  "CreateMessage E m = do {
     created \<leftarrow> (if msg_CreatedUnix m = 0 then unixNow E else ret (msg_CreatedUnix m));
     i \<leftarrow> defaultID E ''msg'' (msg_ID m);
     row \<leftarrow> ent_create E MessageEnt
       \<lparr>msgr_ID = i, msgr_Target = msg_Target m, msgr_ThreadID = msg_ThreadID m,
        msgr_Role = msg_Role m, msgr_Content = msg_Content m,
        msgr_ReplyToMessageID = msg_ReplyToMessageID m, msgr_SenderUserID = msg_SenderUserID m,
        msgr_SenderAgentID = msg_SenderAgentID m, msgr_SenderDisplayName = msg_SenderDisplayName m,
        msgr_SenderKind = msg_SenderKind m, msgr_SourceEndpointID = msg_SourceEndpointID m,
        msgr_ExternalMessageID = msg_ExternalMessageID m, msgr_MetadataJSON = msg_MetadataJSON m,
        msgr_AttachmentsJSON = marshalAttachments E (msg_Attachments m),
        msgr_RequestID = msg_RequestID m, msgr_CreatedUnix = created,
        msgr_Kind = normalizeMessageKind E (msg_Kind m)\<rparr>;
     ret (through conflict (messageFromEnt E) row)
   }"

definition GetMessage :: "senv \<Rightarrow> string \<Rightarrow> string \<Rightarrow> Message op" where
  "GetMessage E target i = do {
     row \<leftarrow> ent_only E MessageEnt (\<lambda>r. msgr_ID r = i \<and> (target \<noteq> [] \<longrightarrow> msgr_Target r = target));
     ret (through notFound (messageFromEnt E) row)
   }"

definition newest_first :: "MessageRow list \<Rightarrow> MessageRow list" where
  "newest_first rs = order_desc (\<lambda>r. (msgr_CreatedUnix r, msgr_ID r)) rs"

definition in_thread :: "string \<Rightarrow> string \<Rightarrow> MessageRow \<Rightarrow> bool" where
  "in_thread target threadID r \<longleftrightarrow> msgr_Target r = target \<and> msgr_ThreadID r = threadID"

definition ListMessages :: "senv \<Rightarrow> string \<Rightarrow> string \<Rightarrow> int \<Rightarrow> Message list op" where
  "ListMessages E target threadID limit0 =
     (let limit = clamp_limit 200 50 limit0
      in do {
        rows \<leftarrow> ent_all E MessageEnt (in_thread target threadID) (\<lambda>rs. take limit (newest_first rs));
        ret (through plain (map (messageFromEnt E)) rows)
      })"

text \<open>
  \<^verbatim>\<open>strings.EqualFold(s, word)\<close> for a word of ASCII letters other than k and s, which are the only
  ones with a non-ASCII case variant.
\<close>

definition equal_fold_word :: "string \<Rightarrow> string \<Rightarrow> bool" where
  "equal_fold_word s word \<longleftrightarrow> map lower_char s = map lower_char word"

definition SearchMessages :: "senv \<Rightarrow> MessageSearchOptions \<Rightarrow> Message list op" where
  "SearchMessages E opts =
     (let limit = clamp_limit 200 50 (mso_Limit opts);
          search = TrimSpace (mso_Query opts);
          handle = TrimPrefix search ''@'';
          sender = TrimPrefix (TrimSpace (mso_SenderHandle opts)) ''@'';
          matches = (\<lambda>r. contains_fold E (msgr_ID r) search \<or> contains_fold E (msgr_Content r) search \<or>
             contains_fold E (msgr_SenderDisplayName r) search \<or>
             contains_fold E (msgr_SenderAgentID r) handle \<or>
             contains_fold E (msgr_SenderUserID r) handle \<or>
             contains_fold E (msgr_AttachmentsJSON r) search);
          by_sender = (\<lambda>r. contains_fold E (msgr_SenderDisplayName r) sender \<or>
             contains_fold E (msgr_SenderAgentID r) sender \<or>
             contains_fold E (msgr_SenderUserID r) sender);
          ord = (if equal_fold_word (mso_Sort opts) ''relevance'' \<and> search \<noteq> []
                 then order_desc (\<lambda>r. (msgr_SenderDisplayName r, msgr_CreatedUnix r, msgr_ID r))
                 else newest_first)
      in do {
        rows \<leftarrow> ent_all E MessageEnt
          (\<lambda>r. (mso_Target opts \<noteq> [] \<longrightarrow> msgr_Target r = mso_Target opts) \<and>
               (search \<noteq> [] \<longrightarrow> matches r) \<and>
               (mso_HasAttachment opts \<longrightarrow> msgr_AttachmentsJSON r \<noteq> ''[]'') \<and>
               (sender \<noteq> [] \<longrightarrow> by_sender r))
          (\<lambda>rs. take limit (ord rs));
        ret (through plain (map (messageFromEnt E)) rows)
      })"

definition ListMessageTargets :: "senv \<Rightarrow> int \<Rightarrow> string list op" where
  "ListMessageTargets E limit0 =
     (let limit = clamp_limit 500 200 limit0
      in do {
        rows \<leftarrow> ent_all E MessageEnt (\<lambda>_. True)
          (\<lambda>rs. take limit (sort (remdups (map msgr_Target rs))));
        ret (through plain compactTargets rows)
      })"

definition ListTaskComments :: "senv \<Rightarrow> string \<Rightarrow> int \<Rightarrow> Message list op" where
  "ListTaskComments E taskID limit0 =
     (let limit = clamp_limit 200 50 limit0
      in do {
        rows \<leftarrow> ent_all E MessageEnt (\<lambda>r. msgr_ThreadID r = taskID)
          (\<lambda>rs. take limit (order_asc (\<lambda>r. (msgr_CreatedUnix r, msgr_ID r)) rs));
        ret (through plain (map (messageFromEnt E)) rows)
      })"

definition getMessage :: "senv \<Rightarrow> string \<Rightarrow> Message op" where
  "getMessage E i = do {
     row \<leftarrow> ent_only E MessageEnt (\<lambda>r. msgr_ID r = i);
     ret (through notFound (messageFromEnt E) row)
   }"

section \<open>Saved messages\<close>

definition savedMessagePredicates :: "string \<Rightarrow> string \<Rightarrow> string \<Rightarrow> SavedMessageRow \<Rightarrow> bool" where
  "savedMessagePredicates target userID agentID r \<longleftrightarrow>
     (target \<noteq> [] \<longrightarrow> savr_Target r = target) \<and> (userID \<noteq> [] \<longrightarrow> savr_SavedByUserID r = userID) \<and>
     (agentID \<noteq> [] \<longrightarrow> savr_SavedByAgentID r = agentID)"

definition savedMessageFromEnt :: "senv \<Rightarrow> SavedMessageRow \<Rightarrow> SavedMessage op" where
  "savedMessageFromEnt E row = do {
     msg \<leftarrow> GetMessage E (savr_Target row) (savr_MessageID row);
     ret (case msg of
            Inl e \<Rightarrow> Inl e
          | Inr m \<Rightarrow> Inr \<lparr>sav_ID = savr_ID row, sav_Target = savr_Target row,
              sav_MessageID = savr_MessageID row, sav_SavedByUserID = savr_SavedByUserID row,
              sav_SavedByAgentID = savr_SavedByAgentID row, sav_CreatedUnix = savr_CreatedUnix row,
              sav_Message = m\<rparr>)
   }"

definition GetSavedMessage ::
  "senv \<Rightarrow> string \<Rightarrow> string \<Rightarrow> string \<Rightarrow> string \<Rightarrow> SavedMessage op" where
  "GetSavedMessage E target messageID userID agentID = do {
     row \<leftarrow> ent_only E SavedMessageEnt
       (\<lambda>r. savedMessagePredicates target userID agentID r \<and> savr_MessageID r = messageID);
     case row of
       Inl e \<Rightarrow> ret (Inl (notFound e))
     | Inr r \<Rightarrow> savedMessageFromEnt E r
   }"

definition SaveMessage ::
  "senv \<Rightarrow> string \<Rightarrow> string \<Rightarrow> string \<Rightarrow> string \<Rightarrow> SavedMessage op" where
  "SaveMessage E target messageID userID agentID = do {
     msg \<leftarrow> GetMessage E target messageID;
     case msg of
       Inl e \<Rightarrow> ret (Inl e)
     | Inr m \<Rightarrow> do {
         now \<leftarrow> unixNow E;
         i \<leftarrow> newID E ''sav'';
         row \<leftarrow> ent_create E SavedMessageEnt
           \<lparr>savr_ID = i, savr_Target = msg_Target m, savr_MessageID = msg_ID m,
            savr_SavedByUserID = userID, savr_SavedByAgentID = agentID, savr_CreatedUnix = now\<rparr>;
         case row of
           Inr r \<Rightarrow> savedMessageFromEnt E r
         | Inl e \<Rightarrow>
             if e = EntConstraint
             then GetSavedMessage E (msg_Target m) (msg_ID m) userID agentID
             else ret (Inl (ErrEnt e))
       }
   }"

definition UnsaveMessage ::
  "senv \<Rightarrow> string \<Rightarrow> string \<Rightarrow> string \<Rightarrow> string \<Rightarrow> SavedMessage op" where
  "UnsaveMessage E target messageID userID agentID = do {
     saved \<leftarrow> GetSavedMessage E target messageID userID agentID;
     case saved of
       Inl e \<Rightarrow> ret (Inl e)
     | Inr sm \<Rightarrow> do {
         n \<leftarrow> ent_delete_where E SavedMessageEnt
           (\<lambda>r. savedMessagePredicates target userID agentID r \<and> savr_MessageID r = messageID);
         ret (through plain (\<lambda>_. sm) n)
       }
   }"

definition hasFilters :: "SavedMessageListOptions \<Rightarrow> bool" where
  "hasFilters opts \<longleftrightarrow> smo_HasAttachment opts \<or> TrimSpace (smo_Query opts) \<noteq> []"

definition messageMatchesSavedFilters :: "senv \<Rightarrow> Message \<Rightarrow> SavedMessageListOptions \<Rightarrow> bool" where
  "messageMatchesSavedFilters E msg opts =
     (if smo_HasAttachment opts \<and> msg_Attachments msg = [] then False
      else
        let search = ToLower E (TrimSpace (smo_Query opts));
            values =
              [msg_ID msg, msg_Content msg, msg_SenderDisplayName msg, msg_SenderAgentID msg,
               msg_SenderUserID msg] @
              concat (map (\<lambda>a. [att_ID a, att_Filename a, att_MimeType a]) (msg_Attachments msg))
        in search = [] \<or> list_ex (\<lambda>v. Contains (ToLower E v) search) values)"

fun savedMessagesFromEnt :: "senv \<Rightarrow> SavedMessageRow list \<Rightarrow> SavedMessage list op" where
  "savedMessagesFromEnt E [] = ret (Inr [])"
| "savedMessagesFromEnt E (row # rows) = do {
     rec \<leftarrow> savedMessageFromEnt E row;
     case rec of
       Inl e \<Rightarrow> ret (Inl e)
     | Inr s \<Rightarrow> do {
         rest \<leftarrow> savedMessagesFromEnt E rows;
         ret (case rest of Inl e \<Rightarrow> Inl e | Inr ss \<Rightarrow> Inr (s # ss))
       }
   }"

text \<open>The inner loop over one page; the boolean says that the limit was reached.\<close>

fun saved_page ::
  "senv \<Rightarrow> SavedMessageListOptions \<Rightarrow> nat \<Rightarrow> SavedMessage list \<Rightarrow> SavedMessageRow list \<Rightarrow>
     (SavedMessage list \<times> bool) op" where
  "saved_page E opts limit saved [] = ret (Inr (saved, False))"
| "saved_page E opts limit saved (row # rows) = do {
     rec \<leftarrow> savedMessageFromEnt E row;
     case rec of
       Inl e \<Rightarrow> ret (Inl e)
     | Inr s \<Rightarrow>
         if \<not> messageMatchesSavedFilters E (sav_Message s) opts
         then saved_page E opts limit saved rows
         else if limit \<le> length (saved @ [s]) then ret (Inr (saved @ [s], True))
         else saved_page E opts limit (saved @ [s]) rows
   }"

definition saved_order :: "SavedMessageRow list \<Rightarrow> SavedMessageRow list" where
  "saved_order rs = order_desc (\<lambda>r. (savr_CreatedUnix r, savr_ID r)) rs"

text \<open>
  The outer loop. It has no bound in the source; \<open>fuel\<close> counts the pages it may read and
  \<^const>\<open>None\<close> means that they ran out.
\<close>

fun saved_pages ::
  "nat \<Rightarrow> senv \<Rightarrow> SavedMessageListOptions \<Rightarrow> nat \<Rightarrow> nat \<Rightarrow> nat \<Rightarrow> SavedMessage list \<Rightarrow>
     (store, (err + SavedMessage list) option) action" where
  "saved_pages 0 E opts limit pageSize offset saved = ret None"
| "saved_pages (Suc fuel) E opts limit pageSize offset saved = do {
     rows \<leftarrow> ent_all E SavedMessageEnt
       (savedMessagePredicates (smo_Target opts) (smo_UserID opts) (smo_AgentID opts))
       (\<lambda>rs. take pageSize (drop offset (saved_order rs)));
     case rows of
       Inl e \<Rightarrow> ret (Some (Inl (ErrEnt e)))
     | Inr rs \<Rightarrow>
         if rs = [] then ret (Some (Inr saved))
         else do {
           page \<leftarrow> saved_page E opts limit saved rs;
           case page of
             Inl e \<Rightarrow> ret (Some (Inl e))
           | Inr (saved', full) \<Rightarrow>
               if full then ret (Some (Inr saved'))
               else if length rs < pageSize then ret (Some (Inr saved'))
               else saved_pages fuel E opts limit pageSize (offset + pageSize) saved'
         }
   }"

definition ListSavedMessagesWithOptions ::
  "nat \<Rightarrow> senv \<Rightarrow> SavedMessageListOptions \<Rightarrow> (store, (err + SavedMessage list) option) action" where
  "ListSavedMessagesWithOptions fuel E opts =
     (let limit = clamp_limit 200 50 (smo_Limit opts)
      in if \<not> hasFilters opts then do {
           rows \<leftarrow> ent_all E SavedMessageEnt
             (savedMessagePredicates (smo_Target opts) (smo_UserID opts) (smo_AgentID opts))
             (\<lambda>rs. take limit (saved_order rs));
           case rows of
             Inl e \<Rightarrow> ret (Some (Inl (ErrEnt e)))
           | Inr rs \<Rightarrow> do {
               out \<leftarrow> savedMessagesFromEnt E rs;
               ret (Some out)
             }
         }
         else saved_pages fuel E opts limit (if limit < 50 then 50 else limit) 0 [])"

definition ListSavedMessages ::
  "nat \<Rightarrow> senv \<Rightarrow> string \<Rightarrow> string \<Rightarrow> string \<Rightarrow> int \<Rightarrow>
     (store, (err + SavedMessage list) option) action" where
  "ListSavedMessages fuel E target userID agentID limit =
     ListSavedMessagesWithOptions fuel E
       \<lparr>smo_Target = target, smo_UserID = userID, smo_AgentID = agentID, smo_Query = [],
        smo_HasAttachment = False, smo_Limit = limit\<rparr>"

section \<open>The thread inbox\<close>

definition getThreadReadState ::
  "senv \<Rightarrow> string \<Rightarrow> string \<Rightarrow> string \<Rightarrow> (string \<times> int) op" where
  "getThreadReadState E userID target threadID = do {
     row \<leftarrow> ent_only E ThreadReadStateEnt
       (\<lambda>r. trs_UserID r = userID \<and> trs_Target r = target \<and> trs_ThreadID r = threadID);
     ret (through notFound (\<lambda>r. (trs_LastReadMessageID r, trs_LastReadUnix r)) row)
   }"

text \<open>The counting loop over the newest messages of a thread.\<close>

fun unread_loop :: "string \<Rightarrow> int \<Rightarrow> nat \<Rightarrow> MessageRow list \<Rightarrow> nat option" where
  "unread_loop lastID lastUnix unread [] = None"
| "unread_loop lastID lastUnix unread (r # rs) =
     (if msgr_ID r = lastID then Some unread
      else if 0 < lastUnix \<and> msgr_CreatedUnix r < lastUnix then Some unread
      else unread_loop lastID lastUnix (Suc unread) rs)"

definition countUnreadThreadMessages ::
  "senv \<Rightarrow> string \<Rightarrow> string \<Rightarrow> int \<Rightarrow> string \<Rightarrow> nat op" where
  "countUnreadThreadMessages E target threadID lastReadUnix lastReadMessageID =
     (if lastReadMessageID = [] then do {
        n \<leftarrow> ent_count E MessageEnt
          (\<lambda>r. in_thread target threadID r \<and> (0 < lastReadUnix \<longrightarrow> lastReadUnix < msgr_CreatedUnix r));
        ret (through plain (\<lambda>n. n) n)
      }
      else do {
        rows \<leftarrow> ent_all E MessageEnt (in_thread target threadID) (\<lambda>rs. take 5000 (newest_first rs));
        ret (through plain
          (\<lambda>rs. case unread_loop lastReadMessageID lastReadUnix 0 rs of
                  Some n \<Rightarrow> n
                | None \<Rightarrow> length rs) rows)
      })"

definition latestThreadMessage :: "senv \<Rightarrow> string \<Rightarrow> string \<Rightarrow> Message op" where
  "latestThreadMessage E target threadID = do {
     row \<leftarrow> ent_first E MessageEnt (in_thread target threadID) newest_first;
     case row of
       Inr r \<Rightarrow> ret (Inr (messageFromEnt E r))
     | Inl e \<Rightarrow>
         if e = EntNotFound then do {
           parent \<leftarrow> getMessage E threadID;
           ret (case parent of
                  Inl pe \<Rightarrow> Inl pe
                | Inr p \<Rightarrow> if msg_Target p \<noteq> target then Inl ErrNotFound else Inr p)
         }
         else ret (Inl (ErrEnt e))
   }"

definition MarkThreadRead :: "senv \<Rightarrow> string \<Rightarrow> string \<Rightarrow> string \<Rightarrow> unit op" where
  "MarkThreadRead E userID target threadID = do {
     latest \<leftarrow> latestThreadMessage E target threadID;
     case latest of
       Inl e \<Rightarrow> ret (Inl e)
     | Inr m \<Rightarrow> do {
         now \<leftarrow> unixNow E;
         let here = (\<lambda>r. trs_UserID r = userID \<and> trs_Target r = target \<and> trs_ThreadID r = threadID);
         let upd = (\<lambda>r. r\<lparr>trs_LastReadMessageID := msg_ID m, trs_LastReadUnix := msg_CreatedUnix m,
                          trs_UpdatedUnix := now\<rparr>);
         affected \<leftarrow> ent_update_where E ThreadReadStateEnt True here upd;
         case affected of
           Inl e \<Rightarrow> ret (Inl (ErrEnt e))
         | Inr n \<Rightarrow>
             if 0 < n then ret (Inr ())
             else do {
               i \<leftarrow> newID E ''trs'';
               row \<leftarrow> ent_create E ThreadReadStateEnt
                 \<lparr>trs_ID = i, trs_UserID = userID, trs_Target = target, trs_ThreadID = threadID,
                  trs_LastReadMessageID = msg_ID m, trs_LastReadUnix = msg_CreatedUnix m,
                  trs_UpdatedUnix = now\<rparr>;
               case row of
                 Inr _ \<Rightarrow> ret (Inr ())
               | Inl e \<Rightarrow>
                   if e = EntConstraint then do {
                     again \<leftarrow> ent_update_where E ThreadReadStateEnt True here upd;
                     ret (through plain (\<lambda>_. ()) again)
                   }
                   else ret (Inl (ErrEnt e))
             }
       }
   }"

text \<open>The grouping loop: the map of the source as an association list in insertion order.\<close>

definition inbox_key :: "Message \<Rightarrow> string" where
  "inbox_key m = msg_Target m @ [CHR 0x00] @ msg_ThreadID m"

definition new_item :: "Message \<Rightarrow> ThreadInboxItem" where
  "new_item m =
     \<lparr>tii_Target = msg_Target m, tii_ThreadID = msg_ThreadID m, tii_Topic = [], tii_MessageCount = 0,
      tii_UnreadCount = 0, tii_LastReadUnix = 0, tii_LastReadMessageID = [], tii_FirstMessage = m,
      tii_LatestMessage = m, tii_UpdatedUnix = msg_CreatedUnix m\<rparr>"

definition touch_item :: "Message \<Rightarrow> ThreadInboxItem \<Rightarrow> ThreadInboxItem" where
  "touch_item m item = item\<lparr>tii_MessageCount := tii_MessageCount item + 1, tii_FirstMessage := m\<rparr>"

fun group_message ::
  "Message \<Rightarrow> (string \<times> ThreadInboxItem) list \<Rightarrow> (string \<times> ThreadInboxItem) list" where
  "group_message m [] = [(inbox_key m, touch_item m (new_item m))]"
| "group_message m ((k, item) # rest) =
     (if k = inbox_key m then (k, touch_item m item) # rest else (k, item) # group_message m rest)"

definition group_threads :: "Message list \<Rightarrow> ThreadInboxItem list" where
  "group_threads ms = map snd (fold group_message ms [])"

text \<open>The parent message as the topic, the read state and the unread count of one thread.\<close>

definition fill_item :: "senv \<Rightarrow> string \<Rightarrow> ThreadInboxItem \<Rightarrow> ThreadInboxItem op" where
  "fill_item E userID item = do {
     parent \<leftarrow> getMessage E (tii_ThreadID item);
     let item1 = (case parent of
         Inr p \<Rightarrow> if msg_Target p = tii_Target item then item\<lparr>tii_FirstMessage := p\<rparr> else item
       | Inl _ \<Rightarrow> item);
     let item2 = item1\<lparr>tii_Topic := previewText (msg_Content (tii_FirstMessage item1)) 96\<rparr>;
     rs \<leftarrow> getThreadReadState E userID (tii_Target item2) (tii_ThreadID item2);
     case (case rs of
             Inl e \<Rightarrow> if e = ErrNotFound then Inr item2 else Inl e
           | Inr (lastID, lastUnix) \<Rightarrow>
               Inr (item2\<lparr>tii_LastReadUnix := lastUnix, tii_LastReadMessageID := lastID\<rparr>)) of
       Inl e \<Rightarrow> ret (Inl e)
     | Inr item3 \<Rightarrow> do {
         unread \<leftarrow> countUnreadThreadMessages E (tii_Target item3) (tii_ThreadID item3)
           (tii_LastReadUnix item3) (tii_LastReadMessageID item3);
         ret (case unread of Inl e \<Rightarrow> Inl e | Inr n \<Rightarrow> Inr (item3\<lparr>tii_UnreadCount := int n\<rparr>))
       }
   }"

fun fill_items :: "senv \<Rightarrow> string \<Rightarrow> ThreadInboxItem list \<Rightarrow> ThreadInboxItem list op" where
  "fill_items E userID [] = ret (Inr [])"
| "fill_items E userID (item # items) = do {
     r \<leftarrow> fill_item E userID item;
     case r of
       Inl e \<Rightarrow> ret (Inl e)
     | Inr x \<Rightarrow> do {
         rest \<leftarrow> fill_items E userID items;
         ret (case rest of Inl e \<Rightarrow> Inl e | Inr xs \<Rightarrow> Inr (x # xs))
       }
   }"

definition scan_limit :: "nat \<Rightarrow> nat" where
  "scan_limit limit = min 5000 (max 500 (limit * 100))"

text \<open>\<open>iter\<close> is the order in which the runtime iterates over the map of groups.\<close>

definition ListThreadInbox ::
  "senv \<Rightarrow> (ThreadInboxItem list \<Rightarrow> ThreadInboxItem list) \<Rightarrow> string \<Rightarrow> string \<Rightarrow> int \<Rightarrow>
     ThreadInboxItem list op" where
  "ListThreadInbox E iter userID targetPrefix limit0 =
     (let limit = clamp_limit 200 100 limit0; prefix = TrimSpace targetPrefix
      in do {
        rows \<leftarrow> ent_all E MessageEnt
          (\<lambda>r. msgr_ThreadID r \<noteq> [] \<and> (prefix \<noteq> [] \<longrightarrow> like_prefix E (msgr_Target r) prefix))
          (\<lambda>rs. take (scan_limit limit) (newest_first rs));
        case rows of
          Inl e \<Rightarrow> ret (Inl (ErrEnt e))
        | Inr rs \<Rightarrow> do {
            items \<leftarrow> fill_items E userID (iter (group_threads (map (messageFromEnt E) rs)));
            ret (case items of
                   Inl e \<Rightarrow> Inl e
                 | Inr xs \<Rightarrow>
                     Inr (take limit (stable_desc (\<lambda>x. (tii_UpdatedUnix x, tii_ThreadID x)) xs)))
          }
      })"

fun mark_all :: "senv \<Rightarrow> string \<Rightarrow> ThreadInboxItem list \<Rightarrow> unit op" where
  "mark_all E userID [] = ret (Inr ())"
| "mark_all E userID (item # items) = do {
     r \<leftarrow> MarkThreadRead E userID (tii_Target item) (tii_ThreadID item);
     case r of Inl e \<Rightarrow> ret (Inl e) | Inr _ \<Rightarrow> mark_all E userID items
   }"

definition MarkThreadInboxRead ::
  "senv \<Rightarrow> (ThreadInboxItem list \<Rightarrow> ThreadInboxItem list) \<Rightarrow> string \<Rightarrow> string \<Rightarrow> unit op" where
  "MarkThreadInboxRead E iter userID targetPrefix = do {
     items \<leftarrow> ListThreadInbox E iter userID targetPrefix 200;
     case items of Inl e \<Rightarrow> ret (Inl e) | Inr xs \<Rightarrow> mark_all E userID xs
   }"

section \<open>Well-formedness\<close>

lemmas message_wf_defs = MessageEnt_def SavedMessageEnt_def ThreadReadStateEnt_def

lemma CreateMessage_wf: "keeps (on_db store_wf) (CreateMessage E m)"
  unfolding CreateMessage_def by (intro keeps_rules store_keeps_wf)

text \<open>The readers of this theory leave every predicate on the rows alone.\<close>

lemma keeps_GetMessage [keeps_rules]: "keeps (on_db J) (GetMessage E t i)"
  unfolding GetMessage_def by (intro keeps_rules)

lemma keeps_getMessage [keeps_rules]: "keeps (on_db J) (getMessage E i)"
  unfolding getMessage_def by (intro keeps_rules)

lemma keeps_savedMessageFromEnt [keeps_rules]: "keeps (on_db J) (savedMessageFromEnt E r)"
  unfolding savedMessageFromEnt_def by (intro keeps_rules)

lemma keeps_GetSavedMessage [keeps_rules]: "keeps (on_db J) (GetSavedMessage E t m u a)"
  unfolding GetSavedMessage_def by (intro keeps_rules)

lemma keeps_latestThreadMessage [keeps_rules]: "keeps (on_db J) (latestThreadMessage E t th)"
  unfolding latestThreadMessage_def by (intro keeps_rules)

lemma keeps_fill_item [keeps_rules]: "keeps (on_db J) (fill_item E u item)"
  unfolding fill_item_def getThreadReadState_def countUnreadThreadMessages_def Let_def
  by (intro keeps_rules)

lemma keeps_fill_items [keeps_rules]: "keeps (on_db J) (fill_items E u items)"
  by (induction items) (auto intro!: keeps_rules)

lemma keeps_ListThreadInbox [keeps_rules]: "keeps (on_db J) (ListThreadInbox E iter u p l)"
  unfolding ListThreadInbox_def Let_def by (intro keeps_rules)

lemma SaveMessage_wf: "keeps (on_db store_wf) (SaveMessage E t m u a)"
  unfolding SaveMessage_def by (intro keeps_rules store_keeps_wf)

lemma UnsaveMessage_wf: "keeps (on_db store_wf) (UnsaveMessage E t m u a)"
  unfolding UnsaveMessage_def by (intro keeps_rules store_keeps_wf)

lemma MarkThreadRead_wf: "keeps (on_db store_wf) (MarkThreadRead E u t th)"
  unfolding MarkThreadRead_def Let_def
  by (intro keeps_rules store_keeps_wf) (auto simp: message_wf_defs)

lemma mark_all_wf: "keeps (on_db store_wf) (mark_all E u items)"
  by (induction items) (auto intro!: keeps_rules MarkThreadRead_wf)

lemma MarkThreadInboxRead_wf: "keeps (on_db store_wf) (MarkThreadInboxRead E iter u p)"
  unfolding MarkThreadInboxRead_def by (intro keeps_rules mark_all_wf)

end
