(* ===== verification/Store_Deliveries.thy ===== *)
theory Store_Deliveries
  imports Store_Endpoints
begin

text \<open>
  Outbound deliveries and notification routes of \<^verbatim>\<open>internal/storage/store.go\<close>: the delivery
  lifecycle with its retry back-off, and the rules by which an event picks the endpoints it is
  delivered to. Attempt counts are 32-bit words, as in the source.
\<close>

section \<open>Deliveries\<close>

definition normalizeOutboundDeliveryStatus :: "'z env_scheme \<Rightarrow> string \<Rightarrow> string" where
  "normalizeOutboundDeliveryStatus E status =
     (let s = ToLower E (TrimSpace status)
      in if s = [] \<or> s = ''pending'' then ''pending''
         else if s = ''delivered'' then ''delivered''
         else if s = ''failed'' then ''failed''
         else if s = ''retry'' \<or> s = ''retrying'' then ''retrying''
         else if s = ''cancelled'' \<or> s = ''canceled'' then ''canceled''
         else s)"

definition delivery_statuses :: "string set" where
  "delivery_statuses = {''pending'', ''delivered'', ''failed'', ''retrying'', ''canceled''}"

definition validOutboundDeliveryStatus :: "string \<Rightarrow> bool" where
  "validOutboundDeliveryStatus status \<longleftrightarrow> status \<in> delivery_statuses"

text \<open>The back-off loop: the delay doubles from 30 seconds until it reaches 900.\<close>

function retry_loop :: "32 word \<Rightarrow> 32 word \<Rightarrow> int \<Rightarrow> int" where
  "retry_loop attempt i delay =
     (if i < attempt \<and> delay < 900 then retry_loop attempt (i + 1) (delay * 2) else delay)"
  by pat_completeness auto
termination
proof (relation "measure (\<lambda>(attempt, i, delay). unat (attempt - i))")
  fix attempt i :: "32 word" and delay :: int
  assume "i < attempt \<and> delay < 900"
  then have nz: "attempt - i \<noteq> 0" by auto
  have "unat (attempt - (i + 1)) = unat (attempt - i) - 1"
    using unat_minus_one [OF nz] by (simp add: algebra_simps)
  with nz show "((attempt, i + 1, delay * 2), (attempt, i, delay)) \<in>
      measure (\<lambda>(attempt, i, delay). unat (attempt - i))"
    by (simp add: unat_gt_0)
qed simp

declare retry_loop.simps [simp del]

definition outboundRetryDelaySeconds :: "32 word \<Rightarrow> int" where
  "outboundRetryDelaySeconds attempt0 =
     (let attempt = (if attempt0 = 0 then 1 else attempt0);
          delay = retry_loop attempt 1 30
      in if 900 < delay then 900 else delay)"

definition CreateOutboundDelivery :: "senv \<Rightarrow> OutboundDelivery \<Rightarrow> OutboundDelivery op" where
  "CreateOutboundDelivery E delivery =
     (let status = normalizeOutboundDeliveryStatus E (odlv_Status delivery)
      in if \<not> validOutboundDeliveryStatus status then ret (Inl ErrInvalidState)
         else do {
           now \<leftarrow> unixNow E;
           i \<leftarrow> defaultID E ''odlv'' (odlv_ID delivery);
           row \<leftarrow> ent_create E OutboundDeliveryEnt
             (delivery\<lparr>odlv_ID := i, odlv_Status := status,
                odlv_CreatedUnix :=
                  (if odlv_CreatedUnix delivery = 0 then now else odlv_CreatedUnix delivery),
                odlv_UpdatedUnix := now\<rparr>);
           ret (through conflict outboundDeliveryFromEnt row)
         })"

definition GetOutboundDelivery :: "senv \<Rightarrow> string \<Rightarrow> OutboundDelivery op" where
  "GetOutboundDelivery E i = do {
     row \<leftarrow> ent_only E OutboundDeliveryEnt (\<lambda>r. odlv_ID r = i);
     ret (through notFound outboundDeliveryFromEnt row)
   }"

definition ListOutboundDeliveries ::
  "senv \<Rightarrow> OutboundDeliveryListOptions \<Rightarrow> OutboundDelivery list op" where
  "ListOutboundDeliveries E opts =
     (let limit = clamp_limit 200 50 (odlvo_Limit opts);
          statuses = map (normalizeOutboundDeliveryStatus E) (odlvo_Statuses opts)
      in if \<not> list_all validOutboundDeliveryStatus statuses then ret (Inl ErrInvalidState)
         else do {
           rows \<leftarrow> ent_all E OutboundDeliveryEnt
             (\<lambda>r. (odlvo_Target opts \<noteq> [] \<longrightarrow> odlv_Target r = odlvo_Target opts) \<and>
                  (odlvo_MessageID opts \<noteq> [] \<longrightarrow> odlv_MessageID r = odlvo_MessageID opts) \<and>
                  (odlvo_EndpointID opts \<noteq> [] \<longrightarrow> odlv_EndpointID r = odlvo_EndpointID opts) \<and>
                  (statuses \<noteq> [] \<longrightarrow> odlv_Status r \<in> set statuses) \<and>
                  (0 < odlvo_ReadyUnix opts \<longrightarrow>
                     odlv_Status r \<noteq> ''retrying'' \<or>
                     odlv_NextRetryTimeUnix r \<le> odlvo_ReadyUnix opts))
             (\<lambda>rs. take limit (order_desc (\<lambda>r. (odlv_UpdatedUnix r, odlv_ID r)) rs));
           ret (through plain (map outboundDeliveryFromEnt) rows)
         })"

definition UpdateOutboundDeliveryStatus ::
  "senv \<Rightarrow> string \<Rightarrow> string \<Rightarrow> string \<Rightarrow> int \<Rightarrow> int \<Rightarrow> OutboundDelivery op" where
  "UpdateOutboundDeliveryStatus E i statusValue0 lastError nextRetryUnix deliveredUnix =
     (let statusValue = normalizeOutboundDeliveryStatus E statusValue0
      in if \<not> validOutboundDeliveryStatus statusValue then ret (Inl ErrInvalidState)
         else do {
           now \<leftarrow> unixNow E;
           row \<leftarrow> ent_update_one E OutboundDeliveryEnt True i
             (\<lambda>r. r\<lparr>odlv_Status := statusValue, odlv_LastError := lastError,
                odlv_NextRetryTimeUnix := nextRetryUnix, odlv_DeliveredTimeUnix := deliveredUnix,
                odlv_UpdatedUnix := now\<rparr>);
           ret (through notFound outboundDeliveryFromEnt row)
         })"

definition ScheduleOutboundDeliveryRetry :: "senv \<Rightarrow> string \<Rightarrow> int \<Rightarrow> OutboundDelivery op" where
  "ScheduleOutboundDeliveryRetry E i nextRetry = do {
     now \<leftarrow> unixNow E;
     let nextRetryUnix = (if nextRetry = 0 then now else nextRetry);
     row \<leftarrow> ent_update_one E OutboundDeliveryEnt True i
       (\<lambda>r. r\<lparr>odlv_Status := ''retrying'', odlv_AttemptCount := odlv_AttemptCount r + 1,
          odlv_NextRetryTimeUnix := nextRetryUnix, odlv_DeliveredTimeUnix := 0,
          odlv_LastError := [], odlv_UpdatedUnix := now\<rparr>);
     ret (through notFound outboundDeliveryFromEnt row)
   }"

definition RecordOutboundDeliveryFailure ::
  "senv \<Rightarrow> string \<Rightarrow> string \<Rightarrow> 32 word \<Rightarrow> int \<Rightarrow> OutboundDelivery op" where
  "RecordOutboundDeliveryFailure E i lastError maxAttempts0 nowUnix0 = do {
     let maxAttempts = (if maxAttempts0 = 0 then 3 else maxAttempts0);
     nowUnix \<leftarrow> (if nowUnix0 = 0 then unixNow E else ret nowUnix0);
     current \<leftarrow> GetOutboundDelivery E i;
     case current of
       Inl e \<Rightarrow> ret (Inl e)
     | Inr c \<Rightarrow> do {
         let attempt = odlv_AttemptCount c + 1;
         let failed = maxAttempts \<le> attempt;
         row \<leftarrow> ent_update_one E OutboundDeliveryEnt True i
           (\<lambda>r. r\<lparr>odlv_Status := (if failed then ''failed'' else ''retrying''),
              odlv_AttemptCount := attempt,
              odlv_NextRetryTimeUnix :=
                (if failed then 0 else nowUnix + outboundRetryDelaySeconds attempt),
              odlv_DeliveredTimeUnix := 0, odlv_LastError := TrimSpace lastError,
              odlv_UpdatedUnix := nowUnix\<rparr>);
         ret (through notFound outboundDeliveryFromEnt row)
       }
   }"

section \<open>Notification routes\<close>

definition ReplaceAll_char :: "char \<Rightarrow> char \<Rightarrow> string \<Rightarrow> string" where
  "ReplaceAll_char old new s = map (\<lambda>c. if c = old then new else c) s"

definition normalizeNotificationEventKind :: "'z env_scheme \<Rightarrow> string \<Rightarrow> string" where
  "normalizeNotificationEventKind E kind0 =
     (let kind = ReplaceAll_char CHR ''-'' CHR ''_'' (ToLower E (TrimSpace kind0))
      in if kind \<in> {[], ''messages''} then ''message''
         else if kind \<in> {''*'', ''any''} then ''all''
         else if kind = ''mentions'' then ''mention''
         else if kind = ''tasks'' then ''task''
         else if kind = ''reminders'' then ''reminder''
         else if kind = ''runs'' then ''run''
         else if kind = ''activities'' then ''activity''
         else if kind \<in> {''delivery'', ''delivery_status'', ''outbound'', ''outbound_delivery''}
         then ''delivery_status''
         else kind)"

definition validNotificationEventKind :: "string \<Rightarrow> bool" where
  "validNotificationEventKind kind \<longleftrightarrow>
     kind \<in> {''all'', ''message'', ''mention'', ''task'', ''reminder'', ''run'', ''activity'',
       ''delivery_status''}"

definition normalizeNotificationPreference :: "'z env_scheme \<Rightarrow> string \<Rightarrow> string" where
  "normalizeNotificationPreference E preference =
     (let p = ToLower E (TrimSpace preference)
      in if p \<in> {[], ''all'', ''enabled''} then ''all''
         else if p \<in> {''mention'', ''mentions''} then ''mentions''
         else if p \<in> {''none'', ''mute'', ''muted'', ''disabled'', ''off''} then ''muted''
         else p)"

definition validNotificationPreference :: "string \<Rightarrow> bool" where
  "validNotificationPreference preference \<longleftrightarrow> preference \<in> {''all'', ''mentions'', ''muted''}"

definition normalizeNotificationRoute ::
  "'z env_scheme \<Rightarrow> NotificationRoute \<Rightarrow> err + NotificationRoute" where
  "normalizeNotificationRoute E route =
     (let target = TrimSpace (nroute_Target route);
          threadID = TrimSpace (nroute_ThreadID route);
          endpointID = TrimSpace (nroute_EndpointID route);
          eventKind = normalizeNotificationEventKind E (nroute_EventKind route);
          preference = normalizeNotificationPreference E (nroute_Preference route)
      in case normalizeJSONDocument E (nroute_ConfigJSON route) of
           None \<Rightarrow> Inl ErrInvalidState
         | Some configJSON \<Rightarrow>
             if target = [] \<or> endpointID = [] then Inl ErrInvalidState
             else if \<not> validNotificationEventKind eventKind \<or>
                     \<not> validNotificationPreference preference
             then Inl ErrInvalidState
             else Inr (route\<lparr>nroute_Target := target, nroute_ThreadID := threadID,
                         nroute_EndpointID := endpointID, nroute_EventKind := eventKind,
                         nroute_Preference := preference, nroute_ConfigJSON := configJSON\<rparr>))"

definition CreateNotificationRoute :: "senv \<Rightarrow> NotificationRoute \<Rightarrow> NotificationRoute op" where
  "CreateNotificationRoute E route =
     (case normalizeNotificationRoute E route of
        Inl e \<Rightarrow> ret (Inl e)
      | Inr normalized \<Rightarrow> do {
          now \<leftarrow> unixNow E;
          i \<leftarrow> defaultID E ''nroute'' (nroute_ID normalized);
          row \<leftarrow> ent_create E NotificationRouteEnt
            (normalized\<lparr>nroute_ID := i, nroute_CreatedUnix := now, nroute_UpdatedUnix := now\<rparr>);
          ret (through conflict notificationRouteFromEnt row)
        })"

definition GetNotificationRoute :: "senv \<Rightarrow> string \<Rightarrow> NotificationRoute op" where
  "GetNotificationRoute E i = do {
     row \<leftarrow> ent_only E NotificationRouteEnt (\<lambda>r. nroute_ID r = i);
     ret (through notFound notificationRouteFromEnt row)
   }"

definition ListNotificationRoutes ::
  "senv \<Rightarrow> NotificationRouteListOptions \<Rightarrow> NotificationRoute list op" where
  "ListNotificationRoutes E opts =
     (let limit = clamp_limit 200 100 (nrouteo_Limit opts);
          eventKind = normalizeNotificationEventKind E (nrouteo_EventKind opts)
      in if nrouteo_EventKind opts \<noteq> [] \<and> \<not> validNotificationEventKind eventKind
         then ret (Inl ErrInvalidState)
         else do {
           rows \<leftarrow> ent_all E NotificationRouteEnt
             (\<lambda>r. (nrouteo_Target opts \<noteq> [] \<longrightarrow> nroute_Target r = TrimSpace (nrouteo_Target opts)) \<and>
                  (nrouteo_ThreadID opts \<noteq> [] \<longrightarrow>
                     nroute_ThreadID r = TrimSpace (nrouteo_ThreadID opts)) \<and>
                  (nrouteo_EndpointID opts \<noteq> [] \<longrightarrow>
                     nroute_EndpointID r = TrimSpace (nrouteo_EndpointID opts)) \<and>
                  (nrouteo_EventKind opts \<noteq> [] \<longrightarrow> nroute_EventKind r = eventKind) \<and>
                  (case nrouteo_Enabled opts of None \<Rightarrow> True | Some b \<Rightarrow> nroute_Enabled r = b))
             (\<lambda>rs. take limit (order_desc (\<lambda>r. (nroute_UpdatedUnix r, nroute_ID r)) rs));
           ret (through plain (map notificationRouteFromEnt) rows)
         })"

text \<open>
  The checks of the patch run in the order of the source; the endpoint check reads the endpoint
  table. \<open>upd\<close> is the builder after all of them.
\<close>

definition route_patch_upd ::
  "int \<Rightarrow> string option \<Rightarrow> string option \<Rightarrow> string option \<Rightarrow> string option \<Rightarrow> string option \<Rightarrow>
     bool option \<Rightarrow> string option \<Rightarrow> NotificationRoute \<Rightarrow> NotificationRoute" where
  "route_patch_upd now target thread endpoint kind pref enabled config r =
     r\<lparr>nroute_UpdatedUnix := now,
       nroute_Target := (case target of None \<Rightarrow> nroute_Target r | Some v \<Rightarrow> v),
       nroute_ThreadID := (case thread of None \<Rightarrow> nroute_ThreadID r | Some v \<Rightarrow> v),
       nroute_EndpointID := (case endpoint of None \<Rightarrow> nroute_EndpointID r | Some v \<Rightarrow> v),
       nroute_EventKind := (case kind of None \<Rightarrow> nroute_EventKind r | Some v \<Rightarrow> v),
       nroute_Preference := (case pref of None \<Rightarrow> nroute_Preference r | Some v \<Rightarrow> v),
       nroute_Enabled := (case enabled of None \<Rightarrow> nroute_Enabled r | Some v \<Rightarrow> v),
       nroute_ConfigJSON := (case config of None \<Rightarrow> nroute_ConfigJSON r | Some v \<Rightarrow> v)\<rparr>"

definition UpdateNotificationRoute ::
  "senv \<Rightarrow> string \<Rightarrow> NotificationRoutePatch \<Rightarrow> NotificationRoute op" where
  "UpdateNotificationRoute E i patch = do {
     now \<leftarrow> unixNow E;
     let target = map_option TrimSpace (nroutep_Target patch);
     let thread = map_option TrimSpace (nroutep_ThreadID patch);
     let endpoint = map_option TrimSpace (nroutep_EndpointID patch);
     let kind = map_option (normalizeNotificationEventKind E) (nroutep_EventKind patch);
     let pref = map_option (normalizeNotificationPreference E) (nroutep_Preference patch);
     if target = Some [] then ret (Inl ErrInvalidState)
     else if endpoint = Some [] then ret (Inl ErrInvalidState)
     else do {
       ok \<leftarrow> (case endpoint of
               None \<Rightarrow> ret (Inr ())
             | Some ep \<Rightarrow> do {
                 found \<leftarrow> GetInteractionEndpoint E ep;
                 ret (case found of
                        Inl e \<Rightarrow> Inl (if e = ErrNotFound then ErrInvalidState else e)
                      | Inr _ \<Rightarrow> Inr ())
               });
       case ok of
         Inl e \<Rightarrow> ret (Inl e)
       | Inr _ \<Rightarrow>
           if (case kind of None \<Rightarrow> False | Some k \<Rightarrow> \<not> validNotificationEventKind k)
           then ret (Inl ErrInvalidState)
           else if (case pref of None \<Rightarrow> False | Some p \<Rightarrow> \<not> validNotificationPreference p)
           then ret (Inl ErrInvalidState)
           else if (case nroutep_ConfigJSON patch of
                      None \<Rightarrow> False | Some c \<Rightarrow> normalizeJSONDocument E c = None)
           then ret (Inl ErrInvalidState)
           else do {
             let config = (case nroutep_ConfigJSON patch of
                             None \<Rightarrow> None | Some c \<Rightarrow> normalizeJSONDocument E c);
             row \<leftarrow> ent_update_one E NotificationRouteEnt True (TrimSpace i)
               (route_patch_upd now target thread endpoint kind pref (nroutep_Enabled patch) config);
             ret (through notFoundOrConflict notificationRouteFromEnt row)
           }
     }
   }"

definition DeleteNotificationRoute :: "senv \<Rightarrow> string \<Rightarrow> unit op" where
  "DeleteNotificationRoute E i = do {
     r \<leftarrow> ent_delete_one E NotificationRouteEnt (TrimSpace i);
     ret (through notFound (\<lambda>_. ()) r)
   }"

text \<open>The score of a route for an event; \<^const>\<open>None\<close> is the source's \<^verbatim>\<open>(0, false)\<close>.\<close>

definition notificationRouteScore :: "NotificationRoute \<Rightarrow> string \<Rightarrow> string \<Rightarrow> nat option" where
  "notificationRouteScore route threadID eventKind =
     (if \<not> nroute_Enabled route \<or> nroute_Preference route = ''muted'' then None
      else if nroute_ThreadID route \<noteq> [] \<and> nroute_ThreadID route \<noteq> threadID then None
      else
        let thread_score = (if threadID \<noteq> [] \<and> nroute_ThreadID route = threadID then 4 else 0);
            kind_score = (if nroute_EventKind route = eventKind then Some 2
                          else if nroute_EventKind route = ''all'' then Some 1 else None)
        in case kind_score of
             None \<Rightarrow> None
           | Some k \<Rightarrow>
               if nroute_Preference route = ''mentions'' \<and> eventKind \<noteq> ''mention'' then None
               else Some (thread_score + k))"

text \<open>Score every route, drop those without a score.\<close>

fun score_routes :: "string \<Rightarrow> string \<Rightarrow> NotificationRoute list \<Rightarrow> (NotificationRoute \<times> nat) list" where
  "score_routes threadID eventKind [] = []"
| "score_routes threadID eventKind (r # rs) =
     (case notificationRouteScore r threadID eventKind of
        None \<Rightarrow> score_routes threadID eventKind rs
      | Some s \<Rightarrow> (r, s) # score_routes threadID eventKind rs)"

text \<open>The selection loop: the first route of each endpoint, at most \<open>limit\<close> of them.\<close>

fun pick_routes ::
  "nat \<Rightarrow> string set \<Rightarrow> NotificationRoute list \<Rightarrow> (NotificationRoute \<times> nat) list \<Rightarrow>
     NotificationRoute list" where
  "pick_routes limit seen out [] = out"
| "pick_routes limit seen out ((r, s) # rest) =
     (if nroute_EndpointID r \<in> seen then pick_routes limit seen out rest
      else let out' = out @ [r]
           in if limit \<le> length out' then out'
              else pick_routes limit (insert (nroute_EndpointID r) seen) out' rest)"

definition route_rank :: "NotificationRoute \<times> nat \<Rightarrow> nat \<times> int \<times> string" where
  "route_rank x = (snd x, nroute_UpdatedUnix (fst x), nroute_ID (fst x))"

definition sort_routes :: "(NotificationRoute \<times> nat) list \<Rightarrow> (NotificationRoute \<times> nat) list" where
  "sort_routes xs = stable_desc route_rank xs"

definition ResolveNotificationRoutes ::
  "senv \<Rightarrow> NotificationRouteResolveOptions \<Rightarrow> NotificationRoute list op" where
  "ResolveNotificationRoutes E opts =
     (let target = TrimSpace (nrouter_Target opts);
          eventKind = normalizeNotificationEventKind E (nrouter_EventKind opts);
          limit = clamp_limit 200 100 (nrouter_Limit opts);
          threadID = TrimSpace (nrouter_ThreadID opts)
      in if target = [] then ret (Inl ErrInvalidState)
         else if \<not> validNotificationEventKind eventKind \<or> eventKind = ''all''
         then ret (Inl ErrInvalidState)
         else do {
           rs \<leftarrow> ListNotificationRoutes E
             \<lparr>nrouteo_Target = target, nrouteo_ThreadID = [], nrouteo_EndpointID = [],
              nrouteo_EventKind = [], nrouteo_Enabled = Some True, nrouteo_Limit = 200\<rparr>;
           ret (case rs of
                  Inl e \<Rightarrow> Inl e
                | Inr listed \<Rightarrow>
                    Inr (pick_routes limit {} [] (sort_routes (score_routes threadID eventKind listed))))
         })"

section \<open>Well-formedness\<close>

lemmas delivery_wf_defs = OutboundDeliveryEnt_def NotificationRouteEnt_def

lemma CreateOutboundDelivery_wf: "keeps (on_db store_wf) (CreateOutboundDelivery E d)"
  unfolding CreateOutboundDelivery_def Let_def by (intro keeps_rules store_keeps_wf)

lemma UpdateOutboundDeliveryStatus_wf:
  "keeps (on_db store_wf) (UpdateOutboundDeliveryStatus E i s l n d)"
  unfolding UpdateOutboundDeliveryStatus_def Let_def
  by (intro keeps_rules store_keeps_wf) (auto simp: delivery_wf_defs)

lemma ScheduleOutboundDeliveryRetry_wf: "keeps (on_db store_wf) (ScheduleOutboundDeliveryRetry E i n)"
  unfolding ScheduleOutboundDeliveryRetry_def Let_def
  by (intro keeps_rules store_keeps_wf) (auto simp: delivery_wf_defs)

lemma RecordOutboundDeliveryFailure_wf:
  "keeps (on_db store_wf) (RecordOutboundDeliveryFailure E i l m n)"
  unfolding RecordOutboundDeliveryFailure_def GetOutboundDelivery_def Let_def
  by (intro keeps_rules store_keeps_wf) (auto simp: delivery_wf_defs)

lemma CreateNotificationRoute_wf: "keeps (on_db store_wf) (CreateNotificationRoute E r)"
  unfolding CreateNotificationRoute_def by (intro keeps_rules store_keeps_wf)

lemma UpdateNotificationRoute_wf: "keeps (on_db store_wf) (UpdateNotificationRoute E i p)"
  unfolding UpdateNotificationRoute_def GetInteractionEndpoint_def Let_def
  by (intro keeps_rules store_keeps_wf)
    (auto simp: delivery_wf_defs route_patch_upd_def split: option.splits)

lemma DeleteNotificationRoute_wf: "keeps (on_db store_wf) (DeleteNotificationRoute E i)"
  unfolding DeleteNotificationRoute_def by (intro keeps_rules store_keeps_wf)

section \<open>The back-off\<close>

lemma retry_loop_min:
  assumes "i \<le> attempt" and "0 < delay"
  shows "min 900 (retry_loop attempt i delay) = min 900 (delay * 2 ^ (unat attempt - unat i))"
  using assms
proof (induction attempt i delay rule: retry_loop.induct)
  case (1 attempt i delay)
  show ?case
  proof (cases "i < attempt \<and> delay < 900")
    case True
    then have lt: "unat i < unat attempt" by (simp add: word_less_nat_alt)
    have u: "unat (i + 1) = unat i + 1"
      using lt unsigned_less [of attempt, where 'a = nat] by (simp add: unat_word_ariths)
    with lt have le: "i + 1 \<le> attempt" by (simp add: word_le_nat_alt)
    from lt
    have "2 ^ (unat attempt - unat i) = 2 * (2 :: int) ^ (unat attempt - (unat i + 1))"
      by (metis Suc_diff_Suc Suc_eq_plus1 power_Suc)
    with 1 True le u show ?thesis by (subst retry_loop.simps) simp
  next
    case False
    show ?thesis
    proof (cases "delay < 900")
      case True
      with False 1(2) have "i = attempt" by simp
      with False show ?thesis by (subst retry_loop.simps) simp
    next
      case False
      have "delay \<le> delay * 2 ^ (unat attempt - unat i)"
        using 1(3) by (simp add: mult_le_cancel_left1)
      with False have "900 \<le> delay * 2 ^ (unat attempt - unat i)" by linarith
      with False show ?thesis by (subst retry_loop.simps) (simp only: min_absorb1 if_False simp_thms)
    qed
  qed
qed

lemma retry_delay_eq: "outboundRetryDelaySeconds n = min 900 (30 * 2 ^ (unat n - 1))"
proof -
  let ?a = "if n = 0 then 1 else n"
  have "1 \<le> ?a" by (auto simp: word_le_nat_alt unat_gt_0 Suc_le_eq)
  then have "min 900 (retry_loop ?a 1 30) = min 900 (30 * 2 ^ (unat ?a - 1))"
    using retry_loop_min [of 1 ?a 30] by simp
  moreover have "unat ?a - 1 = unat n - 1" by simp
  ultimately show ?thesis
    by (simp add: outboundRetryDelaySeconds_def Let_def min_def split: if_splits)
qed

text \<open>
  The back-off loop computes thirty seconds doubled once per further
  attempt, capped at fifteen minutes, for every 32-bit attempt count (counts 0 and 1 both wait thirty
  seconds); the delay is always between thirty seconds and fifteen minutes.
\<close>

theorem outboundRetryDelay_closed:
  "outboundRetryDelaySeconds n = min 900 (30 * 2 ^ (unat n - 1)) \<and>
   30 \<le> outboundRetryDelaySeconds n \<and> outboundRetryDelaySeconds n \<le> 900"
proof -
  have "(30 :: int) \<le> 30 * 2 ^ (unat n - 1)" by simp
  then show ?thesis by (simp only: retry_delay_eq) simp
qed

section \<open>The delivery lifecycle\<close>

definition deliveries_ok :: "store \<Rightarrow> bool" where
  "deliveries_ok d \<longleftrightarrow> (\<forall>r \<in> set (deliveries d). odlv_Status r \<in> delivery_statuses)"

lemmas delivery_ok_defs = deliveries_ok_def OutboundDeliveryEnt_def ball_map_rows delivery_statuses_def
  validOutboundDeliveryStatus_def

lemma CreateOutboundDelivery_ok: "keeps (on_db deliveries_ok) (CreateOutboundDelivery E d)"
  unfolding CreateOutboundDelivery_def Let_def
  by (intro keeps_rules keeps_ent_create) (auto simp: delivery_ok_defs)

lemma UpdateOutboundDeliveryStatus_ok:
  "keeps (on_db deliveries_ok) (UpdateOutboundDeliveryStatus E i s l n d)"
  unfolding UpdateOutboundDeliveryStatus_def Let_def
  by (intro keeps_rules keeps_ent_update_one) (auto simp: delivery_ok_defs)

lemma ScheduleOutboundDeliveryRetry_ok: "keeps (on_db deliveries_ok) (ScheduleOutboundDeliveryRetry E i n)"
  unfolding ScheduleOutboundDeliveryRetry_def Let_def
  by (intro keeps_rules keeps_ent_update_one) (auto simp: delivery_ok_defs)

lemma RecordOutboundDeliveryFailure_ok:
  "keeps (on_db deliveries_ok) (RecordOutboundDeliveryFailure E i l m n)"
  unfolding RecordOutboundDeliveryFailure_def GetOutboundDelivery_def Let_def
  by (intro keeps_rules keeps_ent_update_one) (auto simp: delivery_ok_defs)

text \<open>The number of attempts that are made, and the row a recorded failure leaves.\<close>

definition attempts_allowed :: "32 word \<Rightarrow> 32 word" where
  "attempts_allowed maxAttempts = (if maxAttempts = 0 then 3 else maxAttempts)"

definition failed_row :: "string \<Rightarrow> 32 word \<Rightarrow> int \<Rightarrow> OutboundDelivery \<Rightarrow> OutboundDelivery" where
  "failed_row lastError maxAttempts now r =
     (let attempt = odlv_AttemptCount r + 1; failed = attempts_allowed maxAttempts \<le> attempt
      in r\<lparr>odlv_Status := (if failed then ''failed'' else ''retrying''), odlv_AttemptCount := attempt,
           odlv_NextRetryTimeUnix :=
             (if failed then 0 else now + outboundRetryDelaySeconds attempt),
           odlv_DeliveredTimeUnix := 0, odlv_LastError := TrimSpace lastError,
           odlv_UpdatedUnix := now\<rparr>)"

definition delivery_map :: "store \<Rightarrow> string \<rightharpoonup> OutboundDelivery" where
  "delivery_map d = row_map OutboundDeliveryEnt (deliveries d)"

lemma RecordOutboundDeliveryFailure_step:
  assumes "store_wf (db w)" and "no_faults E" and "delivery_map (db w) i = Some r"
    and "now \<noteq> 0"
  shows "\<exists>w'. run_state (RecordOutboundDeliveryFailure E i l m now) w = (Inr (failed_row l m now r), w') \<and>
     store_wf (db w') \<and> delivery_map (db w') = (delivery_map (db w))(i \<mapsto> failed_row l m now r)"
proof -
  let ?f = "\<lambda>q. q\<lparr>odlv_Status := odlv_Status (failed_row l m now r),
     odlv_AttemptCount := odlv_AttemptCount r + 1,
     odlv_NextRetryTimeUnix := odlv_NextRetryTimeUnix (failed_row l m now r),
     odlv_DeliveredTimeUnix := 0, odlv_LastError := TrimSpace l, odlv_UpdatedUnix := now\<rparr>"
  let ?w = "w\<lparr>tick := Suc (tick w)\<rparr>"
  have get: "run_state (ent_only E OutboundDeliveryEnt (\<lambda>r. odlv_ID r = i)) w = (Inr r, ?w)"
    using OutboundDeliveryTbl.run_get [OF assms(1,2), of i] assms(3)
    by (simp add: ent_get_def delivery_map_def OutboundDeliveryEnt_def)
  have upd: "run_state (ent_update_one E OutboundDeliveryEnt True i ?f) ?w = (Inr (?f r),
     w\<lparr>tick := tick w + 2, db := (db w)\<lparr>deliveries := map_rows (\<lambda>q. odlv_ID q = i) ?f (deliveries (db w))\<rparr>\<rparr>)"
    using OutboundDeliveryTbl.run_update_one [of ?w E ?f i] assms
    by (simp add: delivery_map_def OutboundDeliveryEnt_def)
  have "row_map OutboundDeliveryEnt (map_rows (\<lambda>q. odlv_ID q = i) ?f (deliveries (db w))) =
     (delivery_map (db w))(i \<mapsto> ?f r)"
    using row_map_update [OF OutboundDeliveryTbl.wf_free [OF assms(1)], of ?f i] assms(3)
    by (simp add: delivery_map_def OutboundDeliveryEnt_def)
  moreover have row: "?f r = failed_row l m now r" by (simp add: failed_row_def Let_def)
  moreover have run: "run_state (RecordOutboundDeliveryFailure E i l m now) w = (Inr (?f r),
     w\<lparr>tick := tick w + 2, db := (db w)\<lparr>deliveries := map_rows (\<lambda>q. odlv_ID q = i) ?f (deliveries (db w))\<rparr>\<rparr>)"
    using get upd assms(4)
    by (simp add: RecordOutboundDeliveryFailure_def GetOutboundDelivery_def failed_row_def attempts_allowed_def Let_def
        cong: if_cong)
  ultimately show ?thesis
    using keepsD [OF RecordOutboundDeliveryFailure_wf, of w E i l m now] assms(1)
    by (simp add: delivery_map_def)
qed

text \<open>Failures recorded one after the other, at given times and with given error texts.\<close>

fun record_failures ::
  "senv \<Rightarrow> string \<Rightarrow> 32 word \<Rightarrow> (string \<times> int) list \<Rightarrow> (store, unit) action" where
  "record_failures E i m [] = ret ()"
| "record_failures E i m ((l, now) # fs) = do {
     _ \<leftarrow> RecordOutboundDeliveryFailure E i l m now;
     record_failures E i m fs
   }"

lemma record_failures_rows:
  assumes "store_wf (db w)" and "no_faults E" and "delivery_map (db w) i = Some r"
    and "\<forall>f \<in> set fs. snd f \<noteq> 0"
  shows "delivery_map (db (after (record_failures E i m fs) w)) i =
     Some (fold (\<lambda>(l, now). failed_row l m now) fs r)"
  using assms
proof (induction fs arbitrary: w r)
  case (Cons f fs)
  obtain l now where f: "f = (l, now)" by fastforce
  obtain w' where w': "run_state (RecordOutboundDeliveryFailure E i l m now) w =
      (Inr (failed_row l m now r), w')" "store_wf (db w')"
      "delivery_map (db w') i = Some (failed_row l m now r)"
    using RecordOutboundDeliveryFailure_step [OF Cons.prems(1-3), of now l m] Cons.prems(4) f by auto
  then show ?case
    using Cons.IH [OF w'(2) Cons.prems(2) w'(3)] Cons.prems(4) f by simp
qed simp

lemma failed_rows_count:
  "odlv_AttemptCount (fold (\<lambda>(l, now). failed_row l m now) fs r) =
     odlv_AttemptCount r + of_nat (length fs)"
  by (induction fs arbitrary: r) (auto simp: failed_row_def Let_def algebra_simps)

text \<open>
  C13: with a database that does not fail, a delivery that was never attempted is retried until
  the configured number of attempts, three when none is given, and given up for good then. After any number
  \<open>k\<close> of recorded failures (below the width of the counter) its attempt count is \<open>k\<close> and it has the last
  error; while \<open>k\<close> is below the maximum it is retrying, at the time of the last failure plus the back-off
  of that count, and from the maximum on, however many failures follow, it is failed with no retry time.
\<close>

theorem delivery_gives_up:
  assumes "store_wf (db w)" and "no_faults E" and "delivery_map (db w) i = Some r"
    and "odlv_AttemptCount r = 0" and "\<forall>f \<in> set (fs @ [(l, now)]). snd f \<noteq> 0"
    and "Suc (length fs) < 2 ^ 32"
  shows "\<exists>q. delivery_map (db (after (record_failures E i m (fs @ [(l, now)])) w)) i = Some q \<and>
     unat (odlv_AttemptCount q) = Suc (length fs) \<and> odlv_LastError q = TrimSpace l \<and>
     (if (if m = 0 then 3 else unat m) \<le> Suc (length fs)
      then odlv_Status q = ''failed'' \<and> odlv_NextRetryTimeUnix q = 0
      else odlv_Status q = ''retrying'' \<and>
           odlv_NextRetryTimeUnix q = now + min 900 (30 * 2 ^ length fs))"
proof -
  let ?p = "fold (\<lambda>(l, now). failed_row l m now) fs r"
  let ?q = "failed_row l m now ?p"
  have map: "delivery_map (db (after (record_failures E i m (fs @ [(l, now)])) w)) i = Some ?q"
    using record_failures_rows [OF assms(1-3,5)] by simp
  have u: "unat (odlv_AttemptCount ?p + 1) = Suc (length fs)"
    using assms(6) by (simp add: failed_rows_count assms(4) unat_word_ariths unat_of_nat flip: of_nat_Suc)
  then have "attempts_allowed m \<le> odlv_AttemptCount ?p + 1 \<longleftrightarrow> (if m = 0 then 3 else unat m) \<le> Suc (length fs)"
    by (simp add: word_le_nat_alt attempts_allowed_def)
  with map u show ?thesis
    by (intro exI [of _ ?q]) (simp add: failed_row_def Let_def retry_delay_eq)
qed

definition demo_delivery :: OutboundDelivery where
  "demo_delivery =
     \<lparr>odlv_ID = ''d1'', odlv_Target = ''#dev'', odlv_MessageID = ''m1'', odlv_EndpointID = ''e1'',
      odlv_EndpointKind = ''im'', odlv_ExternalMessageID = [], odlv_Status = ''pending'',
      odlv_AttemptCount = 0, odlv_NextRetryTimeUnix = 0, odlv_DeliveredTimeUnix = 0,
      odlv_LastError = [], odlv_RequestID = [],
      odlv_CreatedUnix = 0, odlv_UpdatedUnix = 0\<rparr>"

definition delivery_world :: "store world" where
  "delivery_world = world_of (empty_store\<lparr>deliveries := [demo_delivery]\<rparr>)"

lemma delivery_world_facts:
  "store_wf (db delivery_world)" "delivery_map (db delivery_world) ''d1'' = Some demo_delivery"
  by (simp_all add: delivery_world_def demo_delivery_def empty_store_def store_wf_def table_wf_def
      rows_free_def OutboundDeliveryEnt_def delivery_map_def row_map_def)

text \<open>Witness: no maximum is given, so the second failure is retried; the third and every later one is final.\<close>

theorem delivery_gives_up_witness:
  "(\<exists>q. delivery_map (db (after (record_failures demo_env ''d1'' 0 [(''timeout'', 100), (''refused'', 200)])
      delivery_world)) ''d1'' = Some q \<and> odlv_Status q = ''retrying'' \<and> odlv_NextRetryTimeUnix q = 260) \<and>
   (\<exists>q. delivery_map (db (after (record_failures demo_env ''d1'' 0 [(''timeout'', 100), (''refused'', 200),
      (''refused'', 300), (''refused'', 400)]) delivery_world)) ''d1'' = Some q \<and> odlv_Status q = ''failed'' \<and>
      odlv_NextRetryTimeUnix q = 0)"
proof -
  note f = delivery_gives_up [OF delivery_world_facts(1) no_faults_demo delivery_world_facts(2), where m = 0]
  show ?thesis
    using f [of "[(''timeout'', 100)]" "''refused''" 200]
      f [of "[(''timeout'', 100), (''refused'', 200), (''refused'', 300)]" "''refused''" 400]
    by (auto simp: demo_delivery_def)
qed

section \<open>Route resolution\<close>

text \<open>The specification of the selection loop: the first route of every endpoint, in order.\<close>

fun first_per_endpoint ::
  "string set \<Rightarrow> (NotificationRoute \<times> nat) list \<Rightarrow> (NotificationRoute \<times> nat) list" where
  "first_per_endpoint seen [] = []"
| "first_per_endpoint seen ((r, s) # rest) =
     (if nroute_EndpointID r \<in> seen then first_per_endpoint seen rest
      else (r, s) # first_per_endpoint (insert (nroute_EndpointID r) seen) rest)"

lemma pick_routes_eq:
  "length out < limit \<Longrightarrow> pick_routes limit seen out xs =
     out @ take (limit - length out) (map fst (first_per_endpoint seen xs))"
proof (induction limit seen out xs rule: pick_routes.induct)
  case (2 limit seen out r s rest)
  then have "limit - length out = Suc (limit - Suc (length out))" by simp
  with 2 show ?case by (auto simp: Let_def not_le)
qed simp

lemma first_per_endpoint_sub: "set (first_per_endpoint seen xs) \<subseteq> set xs"
  by (induction seen xs rule: first_per_endpoint.induct) auto

lemma first_per_endpoint_fresh:
  "x \<in> set (first_per_endpoint seen xs) \<Longrightarrow> nroute_EndpointID (fst x) \<notin> seen"
  by (induction seen xs rule: first_per_endpoint.induct) (auto split: if_splits)

lemma first_per_endpoint_distinct:
  "distinct (map (nroute_EndpointID \<circ> fst) (first_per_endpoint seen xs))"
  by (induction seen xs rule: first_per_endpoint.induct)
    (auto dest: first_per_endpoint_fresh)

lemma first_per_endpoint_complete:
  "x \<in> set xs \<Longrightarrow> nroute_EndpointID (fst x) \<notin> seen \<Longrightarrow>
     \<exists>y \<in> set (first_per_endpoint seen xs). nroute_EndpointID (fst y) = nroute_EndpointID (fst x)"
  by (induction seen xs rule: first_per_endpoint.induct) force+

lemma first_per_endpoint_best:
  assumes "sorted_wrt (\<lambda>a b. route_rank b \<le> route_rank a) xs"
    and "y \<in> set (first_per_endpoint seen xs)" and "x \<in> set xs"
    and "nroute_EndpointID (fst x) = nroute_EndpointID (fst y)"
  shows "route_rank x \<le> route_rank y"
  using assms
proof (induction seen xs rule: first_per_endpoint.induct)
  case (2 seen r s rest)
  then show ?case
    using first_per_endpoint_fresh [of y seen rest]
      first_per_endpoint_fresh [of y "insert (nroute_EndpointID r) seen" rest]
    by (auto split: if_splits)
qed simp

lemma score_routes_set:
  "set (score_routes t k rs) = {(r, s). r \<in> set rs \<and> notificationRouteScore r t k = Some s}"
  by (induction rs) (auto split: option.splits)

text \<open>
  The routes an event at a target may use: enabled, for that target, not muted, for its thread or for
  all threads, and for its kind of event (or for all kinds).
\<close>

definition eligible :: "string \<Rightarrow> string \<Rightarrow> string \<Rightarrow> NotificationRoute \<Rightarrow> bool" where
  "eligible target threadID kind r \<longleftrightarrow>
     nroute_Enabled r \<and> nroute_Target r = target \<and> nroute_Preference r \<noteq> ''muted'' \<and>
     (nroute_ThreadID r = [] \<or> nroute_ThreadID r = threadID) \<and>
     (nroute_EventKind r = kind \<or> nroute_EventKind r = ''all'') \<and>
     (nroute_Preference r = ''mentions'' \<longrightarrow> kind = ''mention'')"

definition specificity :: "string \<Rightarrow> string \<Rightarrow> NotificationRoute \<Rightarrow> nat" where
  "specificity threadID kind r =
     (if threadID \<noteq> [] \<and> nroute_ThreadID r = threadID then 4 else 0) +
     (if nroute_EventKind r = kind then 2 else 1)"

lemma score_iff:
  "notificationRouteScore r t k = Some s \<longleftrightarrow>
     eligible (nroute_Target r) t k r \<and> s = specificity t k r"
  by (auto simp: notificationRouteScore_def eligible_def specificity_def Let_def)

definition rank_for :: "string \<Rightarrow> string \<Rightarrow> NotificationRoute \<Rightarrow> nat \<times> int \<times> string" where
  "rank_for threadID kind r = (specificity threadID kind r, nroute_UpdatedUnix r, nroute_ID r)"

lemma ResolveNotificationRoutes_run:
  assumes "run_state (ResolveNotificationRoutes E opts) w = (Inr out, w')"
  defines "target \<equiv> TrimSpace (nrouter_Target opts)" and "t \<equiv> TrimSpace (nrouter_ThreadID opts)"
    and "k \<equiv> normalizeNotificationEventKind E (nrouter_EventKind opts)"
  shows "out = take (clamp_limit 200 100 (nrouter_Limit opts)) (map fst (first_per_endpoint {}
     (sort_routes (score_routes t k (take 200 (order_desc (\<lambda>r. (nroute_UpdatedUnix r, nroute_ID r))
       (filter (\<lambda>r. nroute_Target r = target \<and> nroute_Enabled r) (routes (db w)))))))))"
proof -
  have pos: "0 < clamp_limit 200 100 l" for l by (simp add: clamp_limit_def)
  have lim: "clamp_limit 200 100 200 = 200" by (simp add: clamp_limit_def)
  show ?thesis
    using assms(1) unfolding ResolveNotificationRoutes_def ListNotificationRoutes_def Let_def
    by (elim run_elims)
      (auto simp: through_Inr_iff pick_routes_eq pos lim map_idI target_def t_def k_def
        dest!: run_dests split: sum.splits)
qed

text \<open>The ranked list the selection reads, for the rows \<open>rs\<close> the query returns.\<close>

definition ranked_routes :: "string \<Rightarrow> string \<Rightarrow> NotificationRoute list \<Rightarrow> (NotificationRoute \<times> nat) list" where
  "ranked_routes t k rs =
     sort_routes (score_routes t k (take 200 (order_desc (\<lambda>r. (nroute_UpdatedUnix r, nroute_ID r)) rs)))"

abbreviation enabled_at :: "string \<Rightarrow> store \<Rightarrow> NotificationRoute list" where
  "enabled_at target d \<equiv> filter (\<lambda>r. nroute_Target r = target \<and> nroute_Enabled r) (routes d)"

lemma ranked_sub:
  "(q, s) \<in> set (ranked_routes t k (enabled_at target d)) \<Longrightarrow>
     q \<in> set (routes d) \<and> eligible target t k q \<and> s = specificity t k q"
  by (auto simp: ranked_routes_def sort_routes_def score_routes_set score_iff eligible_def dest!: in_set_takeD)

lemma ranked_all:
  "length (enabled_at target d) \<le> 200 \<Longrightarrow> q \<in> set (routes d) \<Longrightarrow> eligible target t k q \<Longrightarrow>
     (q, specificity t k q) \<in> set (ranked_routes t k (enabled_at target d))"
  by (auto simp: ranked_routes_def sort_routes_def score_routes_set score_iff eligible_def)

lemma resolved_run:
  assumes "run_state (ResolveNotificationRoutes E opts) w = (Inr out, w')"
  shows "out = take (clamp_limit 200 100 (nrouter_Limit opts)) (map fst (first_per_endpoint {}
     (ranked_routes (TrimSpace (nrouter_ThreadID opts)) (normalizeNotificationEventKind E (nrouter_EventKind opts))
       (enabled_at (TrimSpace (nrouter_Target opts)) (db w)))))"
  using ResolveNotificationRoutes_run [OF assms] by (simp add: ranked_routes_def)

lemma take_fst_mem: "r \<in> set (take n (map fst xs)) \<Longrightarrow> \<exists>s. (r, s) \<in> set xs"
  by (drule in_set_takeD, unfold set_map, erule imageE) (metis prod.collapse)

lemma fst_image: "y \<in> set xs \<Longrightarrow> f (fst y) = c \<Longrightarrow> c \<in> f ` set (map fst xs)"
  by auto

lemma resolved_picked:
  assumes "run_state (ResolveNotificationRoutes E opts) w = (Inr out, w')" and "r \<in> set out"
  shows "\<exists>s. (r, s) \<in> set (first_per_endpoint {} (ranked_routes (TrimSpace (nrouter_ThreadID opts))
     (normalizeNotificationEventKind E (nrouter_EventKind opts)) (enabled_at (TrimSpace (nrouter_Target opts)) (db w))))"
  using assms(2) unfolding resolved_run [OF assms(1)] by (rule take_fst_mem)

lemma resolved_sound:
  assumes "run_state (ResolveNotificationRoutes E opts) w = (Inr out, w')"
  shows "distinct (map nroute_EndpointID out)"
    and "r \<in> set out \<Longrightarrow> r \<in> set (routes (db w)) \<and> eligible (TrimSpace (nrouter_Target opts))
      (TrimSpace (nrouter_ThreadID opts)) (normalizeNotificationEventKind E (nrouter_EventKind opts)) r"
proof -
  show "distinct (map nroute_EndpointID out)"
    unfolding resolved_run [OF assms] using first_per_endpoint_distinct
    by (simp add: take_map [symmetric] distinct_take)
  show "r \<in> set (routes (db w)) \<and> eligible (TrimSpace (nrouter_Target opts))
      (TrimSpace (nrouter_ThreadID opts)) (normalizeNotificationEventKind E (nrouter_EventKind opts)) r"
    if "r \<in> set out"
    using resolved_picked [OF assms that] first_per_endpoint_sub ranked_sub by blast
qed

lemma resolved_complete:
  assumes "run_state (ResolveNotificationRoutes E opts) w = (Inr out, w')"
    and "length (enabled_at (TrimSpace (nrouter_Target opts)) (db w)) \<le> 200"
    and "length out < clamp_limit 200 100 (nrouter_Limit opts)"
    and "q \<in> set (routes (db w))" and "eligible (TrimSpace (nrouter_Target opts))
      (TrimSpace (nrouter_ThreadID opts)) (normalizeNotificationEventKind E (nrouter_EventKind opts)) q"
  shows "nroute_EndpointID q \<in> nroute_EndpointID ` set out"
proof -
  let ?xs = "ranked_routes (TrimSpace (nrouter_ThreadID opts))
    (normalizeNotificationEventKind E (nrouter_EventKind opts)) (enabled_at (TrimSpace (nrouter_Target opts)) (db w))"
  have "out = map fst (first_per_endpoint {} ?xs)"
    using assms(3) unfolding resolved_run [OF assms(1)] by simp
  moreover obtain y where "y \<in> set (first_per_endpoint {} ?xs)" and "nroute_EndpointID (fst y) = nroute_EndpointID q"
    using first_per_endpoint_complete [OF ranked_all [OF assms(2,4,5)], of "{}"] by auto
  ultimately show ?thesis by (simp only: fst_image)
qed

text \<open>
  C14: when the enabled routes of a target fit in the 200 rows the
  resolver reads, its answer has one route per endpoint, at most as many as the limit, all eligible
  for the event, each of the highest rank among the eligible routes of its endpoint (thread match
  before event match, then the most recently updated); and when the answer is shorter than the limit,
  no endpoint with an eligible route is left out.
\<close>

theorem ResolveNotificationRoutes_best:
  assumes run: "run_state (ResolveNotificationRoutes E opts) w = (Inr out, w')"
    and few: "length (filter (\<lambda>r. nroute_Target r = TrimSpace (nrouter_Target opts) \<and> nroute_Enabled r)
      (routes (db w))) \<le> 200"
  shows "let target = TrimSpace (nrouter_Target opts); t = TrimSpace (nrouter_ThreadID opts);
       k = normalizeNotificationEventKind E (nrouter_EventKind opts);
       limit = clamp_limit 200 100 (nrouter_Limit opts)
     in distinct (map nroute_EndpointID out) \<and> length out \<le> limit \<and>
        (\<forall>r \<in> set out. r \<in> set (routes (db w)) \<and> eligible target t k r \<and>
           (\<forall>q \<in> set (routes (db w)). eligible target t k q \<and>
              nroute_EndpointID q = nroute_EndpointID r \<longrightarrow> rank_for t k q \<le> rank_for t k r)) \<and>
        (length out < limit \<longrightarrow>
           (\<forall>q \<in> set (routes (db w)). eligible target t k q \<longrightarrow>
              nroute_EndpointID q \<in> nroute_EndpointID ` set out))"
proof -
  define target where "target = TrimSpace (nrouter_Target opts)"
  define t where "t = TrimSpace (nrouter_ThreadID opts)"
  define k where "k = normalizeNotificationEventKind E (nrouter_EventKind opts)"
  define limit where "limit = clamp_limit 200 100 (nrouter_Limit opts)"
  note folds = target_def [symmetric] t_def [symmetric] k_def [symmetric] limit_def [symmetric]
  let ?xs = "ranked_routes t k (enabled_at target (db w))"
  have rank: "(q, s) \<in> set ?xs \<Longrightarrow> route_rank (q, s) = rank_for t k q" for q s
    by (auto simp: route_rank_def rank_for_def dest: ranked_sub)
  have sorted: "sorted_wrt (\<lambda>a b. route_rank b \<le> route_rank a) ?xs"
    by (simp add: ranked_routes_def sort_routes_def stable_desc_sorted)
  have best: "rank_for t k q \<le> rank_for t k r"
    if r: "r \<in> set out" and q: "q \<in> set (routes (db w))" "eligible target t k q"
      "nroute_EndpointID q = nroute_EndpointID r" for r q
  proof -
    obtain s where s: "(r, s) \<in> set (first_per_endpoint {} ?xs)"
      using resolved_picked [OF run r] unfolding folds by blast
    then have "(r, s) \<in> set ?xs" using first_per_endpoint_sub by blast
    moreover have "(q, specificity t k q) \<in> set ?xs"
      using ranked_all [OF few q(1), unfolded folds] q(2) by blast
    ultimately show ?thesis
      using first_per_endpoint_best [OF sorted s, of "(q, specificity t k q)"] rank q(3) by simp
  qed
  have "length out \<le> limit" using resolved_run [OF run] by (simp add: limit_def)
  then show ?thesis
    using best resolved_sound [OF run] resolved_complete [OF run few] unfolding Let_def folds by blast
qed

definition demo_route :: "string \<Rightarrow> string \<Rightarrow> string \<Rightarrow> int \<Rightarrow> NotificationRoute" where
  "demo_route i endpoint kind updated =
     \<lparr>nroute_ID = i, nroute_Target = ''#dev'', nroute_ThreadID = [], nroute_EndpointID = endpoint,
      nroute_EventKind = kind, nroute_Preference = ''all'', nroute_Enabled = True,
      nroute_ConfigJSON = ''{}'', nroute_CreatedUnix = 0, nroute_UpdatedUnix = updated\<rparr>"

definition route_world :: "store world" where
  "route_world = world_of (empty_store\<lparr>routes :=
     [demo_route ''r1'' ''e1'' ''all'' 9, demo_route ''r2'' ''e1'' ''mention'' 5,
      demo_route ''r3'' ''e2'' ''all'' 7, demo_route ''r4'' ''e2'' ''all'' 8]\<rparr>)"

definition route_opts :: NotificationRouteResolveOptions where
  "route_opts =
     \<lparr>nrouter_Target = ''#dev '', nrouter_ThreadID = [], nrouter_EventKind = ''Mention'', nrouter_Limit = 0\<rparr>"

definition resolved :: "(err + NotificationRoute list) \<times> store world" where
  "resolved = run_state (ResolveNotificationRoutes demo_env route_opts) route_world"

theorem ResolveNotificationRoutes_best_witness:
  "map nroute_ID (projr (fst resolved)) = [''r2'', ''r4''] \<and>
   distinct (map nroute_EndpointID (projr (fst resolved)))"
proof -
  have ok: "\<not> isl (fst resolved)" "map nroute_ID (projr (fst resolved)) = [''r2'', ''r4'']"
    by code_simp+
  have few: "length (filter (\<lambda>r. nroute_Target r = TrimSpace (nrouter_Target route_opts) \<and>
      nroute_Enabled r) (routes (db route_world))) \<le> 200"
    by code_simp
  have "run_state (ResolveNotificationRoutes demo_env route_opts) route_world =
      (Inr (projr (fst resolved)), snd resolved)"
    using ok(1) unfolding resolved_def by (simp add: prod_eq_iff)
  from ResolveNotificationRoutes_best [OF this few] show ?thesis
    using ok(2) unfolding Let_def by blast
qed

end
