(* ===== verification/Store_Reminders.thy ===== *)
theory Store_Reminders
  imports Store_Base
begin

text \<open>
  Reminders and their audit trail: \<^verbatim>\<open>internal/storage/reminders.go\<close>. Every change runs in a
  transaction that also writes one reminder event.
\<close>

section \<open>Normalization\<close>

definition normalizeReminderStatus :: "'z env_scheme \<Rightarrow> string \<Rightarrow> string" where
  "normalizeReminderStatus E v =
     (let value = ToLower E (TrimSpace v)
      in if value = ''cancelled'' then ''canceled'' else value)"

definition reminder_statuses :: "string set" where
  "reminder_statuses = {''active'', ''done'', ''canceled'', ''paused'', ''failed''}"

definition validReminderStatus :: "'z env_scheme \<Rightarrow> string \<Rightarrow> bool" where
  "validReminderStatus E value \<longleftrightarrow> normalizeReminderStatus E value \<in> reminder_statuses"

definition normalizeReminderScheduleKind :: "'z env_scheme \<Rightarrow> string \<Rightarrow> string" where
  "normalizeReminderScheduleKind E v =
     (let value = ToLower E (TrimSpace v)
      in if value = ''reminder_schedule_kind_cron'' then ''cron''
         else if value = ''reminder_schedule_kind_every'' then ''every''
         else if value = ''reminder_schedule_kind_at'' then ''at''
         else if value = ''reminder_schedule_kind_rrule'' then ''rrule''
         else if value = ''reminder_schedule_kind_natural'' then ''natural''
         else value)"

definition validReminderScheduleKind :: "'z env_scheme \<Rightarrow> string \<Rightarrow> bool" where
  "validReminderScheduleKind E value \<longleftrightarrow>
     normalizeReminderScheduleKind E value \<in> {''cron'', ''every'', ''at'', ''rrule'', ''natural''}"

definition normalizeReminderEventType :: "'z env_scheme \<Rightarrow> string \<Rightarrow> string" where
  "normalizeReminderEventType E v =
     (let value = ToLower E (TrimSpace v)
      in if value = ''reminder_event_type_created'' then ''created''
         else if value = ''reminder_event_type_fired'' then ''fired''
         else if value = ''reminder_event_type_snoozed'' then ''snoozed''
         else if value = ''reminder_event_type_updated'' then ''updated''
         else if value = ''reminder_event_type_canceled'' \<or> value = ''cancelled'' then ''canceled''
         else if value = ''reminder_event_type_failed'' then ''failed''
         else value)"

definition normalizeReminderActorType :: "'z env_scheme \<Rightarrow> string \<Rightarrow> string" where
  "normalizeReminderActorType E v =
     (let value = ToLower E (TrimSpace v)
      in if value \<in> {''human'', ''agent'', ''system''} then value else ''system'')"

section \<open>Operations\<close>

definition createReminderEvent :: "senv \<Rightarrow> ReminderEvent \<Rightarrow> ReminderEvent op" where
  "createReminderEvent E event = do {
     occurred \<leftarrow> (if rev_OccurredTimeUnix event = 0 then unixNow E
                 else ret (rev_OccurredTimeUnix event));
     let eventType = normalizeReminderEventType E (rev_EventType event);
     if eventType = [] then ret (Inl ErrInvalidState)
     else do {
       i \<leftarrow> newID E ''rev'';
       row \<leftarrow> ent_create E ReminderEventEnt
         \<lparr>rev_ID = i, rev_ReminderID = rev_ReminderID event, rev_EventType = eventType,
          rev_ActorType = normalizeReminderActorType E (rev_ActorType event),
          rev_ActorID = rev_ActorID event, rev_OccurredTimeUnix = occurred,
          rev_NextFireTimeUnix = rev_NextFireTimeUnix event, rev_Detail = rev_Detail event\<rparr>;
       ret (through plain reminderEventFromEnt row)
     }
   }"

text \<open>The tail every operation shares: write the audit event, commit, return the row.\<close>

definition audit_and_commit ::
  "senv \<Rightarrow> store \<Rightarrow> string \<Rightarrow> string \<Rightarrow> string \<Rightarrow> string \<Rightarrow> string \<Rightarrow> int \<Rightarrow> int \<Rightarrow> Reminder \<Rightarrow>
     Reminder op" where
  "audit_and_commit E snap reminderID eventType actorType actorID detail now nextFire row = do {
     ev \<leftarrow> createReminderEvent E
       \<lparr>rev_ID = [], rev_ReminderID = reminderID, rev_EventType = eventType,
        rev_ActorType = normalizeReminderActorType E actorType, rev_ActorID = TrimSpace actorID,
        rev_OccurredTimeUnix = now, rev_NextFireTimeUnix = nextFire, rev_Detail = TrimSpace detail\<rparr>;
     case ev of
       Inl e \<Rightarrow> rollback_with snap (Inl e)
     | Inr _ \<Rightarrow> do {
         done \<leftarrow> Commit E snap;
         ret (through plain (\<lambda>_. reminderFromEnt row) done)
       }
   }"

definition CreateReminder ::
  "senv \<Rightarrow> Reminder \<Rightarrow> string \<Rightarrow> string \<Rightarrow> string \<Rightarrow> Reminder op" where
  "CreateReminder E m actorType actorID detail = do {
     now \<leftarrow> unixNow E;
     let status0 = normalizeReminderStatus E (rem_Status m);
     let status = (if status0 = [] then ''active'' else status0);
     if \<not> validReminderStatus E status then ret (Inl ErrInvalidState)
     else do {
       let kind0 = normalizeReminderScheduleKind E (rem_ScheduleKind m);
       let kind = (if kind0 = [] then ''at'' else kind0);
       if \<not> validReminderScheduleKind E kind then ret (Inl ErrInvalidState)
       else do {
         tx \<leftarrow> BeginTx E;
         case tx of
           Inl e \<Rightarrow> ret (Inl (ErrEnt e))
         | Inr snap \<Rightarrow> do {
             i \<leftarrow> defaultID E ''rem'' (rem_ID m);
             row \<leftarrow> ent_create E ReminderEnt
               (m\<lparr>rem_ID := i, rem_Status := status, rem_ScheduleKind := kind,
                  rem_CreatedUnix := (if rem_CreatedUnix m = 0 then now else rem_CreatedUnix m),
                  rem_UpdatedUnix := now, rem_Enabled := (status = ''active'')\<rparr>);
             case row of
               Inl e \<Rightarrow> rollback_with snap (Inl (conflict e))
             | Inr r \<Rightarrow>
                 audit_and_commit E snap (rem_ID r) ''created'' actorType actorID detail now
                   (rem_NextRunUnix r) r
           }
       }
     }
   }"

definition ListReminders ::
  "senv \<Rightarrow> string \<Rightarrow> string list \<Rightarrow> bool \<Rightarrow> int \<Rightarrow> Reminder list op" where
  "ListReminders E target0 statuses includeCanceled limit0 =
     (let limit = clamp_limit 200 100 limit0;
          target = TrimSpace target0;
          normalized = filter (\<lambda>s. s \<noteq> []) (map (normalizeReminderStatus E) statuses)
      in if \<not> list_all (validReminderStatus E) normalized then ret (Inl ErrInvalidState)
         else do {
           rows \<leftarrow> ent_all E ReminderEnt
             (\<lambda>r. (target \<noteq> [] \<longrightarrow> rem_Target r = target) \<and>
                  (if statuses \<noteq> [] then normalized \<noteq> [] \<longrightarrow> rem_Status r \<in> set normalized
                   else \<not> includeCanceled \<longrightarrow> rem_Status r \<noteq> ''canceled''))
             (\<lambda>rs. take limit (order_desc (\<lambda>r. (rem_UpdatedUnix r, rem_ID r)) rs));
           ret (through plain (map reminderFromEnt) rows)
         })"

definition GetReminder :: "senv \<Rightarrow> string \<Rightarrow> Reminder op" where
  "GetReminder E i = do {
     row \<leftarrow> ent_only E ReminderEnt (\<lambda>r. rem_ID r = i);
     ret (through notFound reminderFromEnt row)
   }"

definition CancelReminder ::
  "senv \<Rightarrow> string \<Rightarrow> string \<Rightarrow> string \<Rightarrow> string \<Rightarrow> Reminder op" where
  "CancelReminder E i actorType actorID detail = do {
     now \<leftarrow> unixNow E;
     tx \<leftarrow> BeginTx E;
     case tx of
       Inl e \<Rightarrow> ret (Inl (ErrEnt e))
     | Inr snap \<Rightarrow> do {
         row \<leftarrow> ent_update_one E ReminderEnt True i
           (\<lambda>r. r\<lparr>rem_Status := ''canceled'', rem_Enabled := False, rem_UpdatedUnix := now\<rparr>);
         case row of
           Inl e \<Rightarrow> rollback_with snap (Inl (notFound e))
         | Inr r \<Rightarrow>
             audit_and_commit E snap i ''canceled'' actorType actorID detail now (rem_NextRunUnix r) r
       }
   }"

definition SnoozeReminder ::
  "senv \<Rightarrow> string \<Rightarrow> int \<Rightarrow> string \<Rightarrow> string \<Rightarrow> string \<Rightarrow> string \<Rightarrow> Reminder op" where
  "SnoozeReminder E i nextRunUnix schedule actorType actorID detail = do {
     now \<leftarrow> unixNow E;
     tx \<leftarrow> BeginTx E;
     case tx of
       Inl e \<Rightarrow> ret (Inl (ErrEnt e))
     | Inr snap \<Rightarrow> do {
         row \<leftarrow> ent_update_one E ReminderEnt True i
           (\<lambda>r. r\<lparr>rem_ScheduleKind := ''at'', rem_Schedule := TrimSpace schedule,
              rem_NextRunUnix := nextRunUnix, rem_Status := ''active'', rem_Enabled := True,
              rem_UpdatedUnix := now\<rparr>);
         case row of
           Inl e \<Rightarrow> rollback_with snap (Inl (notFound e))
         | Inr r \<Rightarrow>
             audit_and_commit E snap i ''snoozed'' actorType actorID detail now nextRunUnix r
       }
   }"

text \<open>A patch that touches the schedule re-activates the reminder.\<close>

definition reminder_patch_upd ::
  "int \<Rightarrow> string option \<Rightarrow> ReminderPatch \<Rightarrow> Reminder \<Rightarrow> Reminder" where
  "reminder_patch_upd now kind patch r =
     (let wake = kind \<noteq> None \<or> remp_Schedule patch \<noteq> None \<or> remp_NextRunUnix patch \<noteq> None
      in r\<lparr>rem_UpdatedUnix := now,
           rem_Title := (case remp_Title patch of None \<Rightarrow> rem_Title r | Some v \<Rightarrow> TrimSpace v),
           rem_ScheduleKind := (case kind of None \<Rightarrow> rem_ScheduleKind r | Some v \<Rightarrow> v),
           rem_Schedule :=
             (case remp_Schedule patch of None \<Rightarrow> rem_Schedule r | Some v \<Rightarrow> TrimSpace v),
           rem_NextRunUnix :=
             (case remp_NextRunUnix patch of None \<Rightarrow> rem_NextRunUnix r | Some v \<Rightarrow> v),
           rem_Status := (if wake then ''active'' else rem_Status r),
           rem_Enabled := (if wake then True else rem_Enabled r),
           rem_RecurrenceRule :=
             (case remp_RecurrenceRule patch of None \<Rightarrow> rem_RecurrenceRule r | Some v \<Rightarrow> TrimSpace v),
           rem_RecurrenceDescription :=
             (case remp_RecurrenceDescription patch of
                None \<Rightarrow> rem_RecurrenceDescription r | Some v \<Rightarrow> TrimSpace v),
           rem_RecurrenceTimezone :=
             (case remp_RecurrenceTimezone patch of
                None \<Rightarrow> rem_RecurrenceTimezone r | Some v \<Rightarrow> TrimSpace v)\<rparr>)"

definition UpdateReminder ::
  "senv \<Rightarrow> string \<Rightarrow> ReminderPatch \<Rightarrow> string \<Rightarrow> string \<Rightarrow> string \<Rightarrow> Reminder op" where
  "UpdateReminder E i patch actorType actorID detail = do {
     now \<leftarrow> unixNow E;
     tx \<leftarrow> BeginTx E;
     case tx of
       Inl e \<Rightarrow> ret (Inl (ErrEnt e))
     | Inr snap \<Rightarrow> do {
         let kind = map_option (normalizeReminderScheduleKind E) (remp_ScheduleKind patch);
         if (case kind of None \<Rightarrow> False | Some k \<Rightarrow> \<not> validReminderScheduleKind E k)
         then rollback_with snap (Inl ErrInvalidState)
         else do {
           row \<leftarrow> ent_update_one E ReminderEnt True i (reminder_patch_upd now kind patch);
           case row of
             Inl e \<Rightarrow> rollback_with snap (Inl (notFound e))
           | Inr r \<Rightarrow>
               audit_and_commit E snap i ''updated'' actorType actorID detail now (rem_NextRunUnix r) r
         }
       }
   }"

definition ListReminderEvents :: "senv \<Rightarrow> string \<Rightarrow> int \<Rightarrow> ReminderEvent list op" where
  "ListReminderEvents E i limit0 =
     (let limit = clamp_limit 200 100 limit0
      in do {
        r \<leftarrow> GetReminder E i;
        case r of
          Inl e \<Rightarrow> ret (Inl e)
        | Inr _ \<Rightarrow> do {
            rows \<leftarrow> ent_all E ReminderEventEnt (\<lambda>r. rev_ReminderID r = i)
              (\<lambda>rs. take limit (order_asc (\<lambda>r. (rev_OccurredTimeUnix r, rev_ID r)) rs));
            ret (through plain (map reminderEventFromEnt) rows)
          }
      })"

section \<open>Well-formedness\<close>

lemmas reminder_wf_defs = ReminderEnt_def ReminderEventEnt_def reminder_patch_upd_def

lemma audit_and_commit_wf:
  "store_wf snap \<Longrightarrow> keeps (on_db store_wf) (audit_and_commit E snap i t a b c n f r)"
  unfolding audit_and_commit_def createReminderEvent_def Let_def
  by (intro keeps_rules store_keeps_wf)

lemma CreateReminder_wf: "keeps (on_db store_wf) (CreateReminder E m a b c)"
  unfolding CreateReminder_def Let_def
  by (intro keeps_tx keeps_rules audit_and_commit_wf store_keeps_wf; (assumption | simp add: keeps_return)?)

lemma CancelReminder_wf: "keeps (on_db store_wf) (CancelReminder E i a b c)"
  unfolding CancelReminder_def Let_def
  by (intro keeps_tx keeps_rules audit_and_commit_wf store_keeps_wf;
      (assumption | simp add: keeps_return reminder_wf_defs)?)

lemma SnoozeReminder_wf: "keeps (on_db store_wf) (SnoozeReminder E i n s a b c)"
  unfolding SnoozeReminder_def Let_def
  by (intro keeps_tx keeps_rules audit_and_commit_wf store_keeps_wf;
      (assumption | simp add: keeps_return reminder_wf_defs)?)

lemma UpdateReminder_wf: "keeps (on_db store_wf) (UpdateReminder E i p a b c)"
  unfolding UpdateReminder_def Let_def
  by (intro keeps_tx keeps_rules audit_and_commit_wf store_keeps_wf;
      (assumption | simp add: keeps_return reminder_wf_defs Let_def split: option.splits)?)

section \<open>The commands of the component\<close>

datatype reminder_cmd =
    RCreate Reminder
  | RCancel string
  | RSnooze string int string
  | RUpdate string ReminderPatch

text \<open>A command with the actor and the detail text that go into the audit trail.\<close>

fun run_reminder_cmd :: "senv \<Rightarrow> string \<Rightarrow> string \<Rightarrow> string \<Rightarrow> reminder_cmd \<Rightarrow> Reminder op" where
  "run_reminder_cmd E at aid detail (RCreate m) = CreateReminder E m at aid detail"
| "run_reminder_cmd E at aid detail (RCancel i) = CancelReminder E i at aid detail"
| "run_reminder_cmd E at aid detail (RSnooze i n s) = SnoozeReminder E i n s at aid detail"
| "run_reminder_cmd E at aid detail (RUpdate i p) = UpdateReminder E i p at aid detail"

fun cmd_event :: "reminder_cmd \<Rightarrow> string" where
  "cmd_event (RCreate m) = ''created''"
| "cmd_event (RCancel i) = ''canceled''"
| "cmd_event (RSnooze i n s) = ''snoozed''"
| "cmd_event (RUpdate i p) = ''updated''"

lemma reminder_event_types:
  "normalizeReminderEventType E ''created'' = ''created''"
  "normalizeReminderEventType E ''canceled'' = ''canceled''"
  "normalizeReminderEventType E ''snoozed'' = ''snoozed''"
  "normalizeReminderEventType E ''updated'' = ''updated''"
proof -
  have "ToLower E (TrimSpace ''created'') = ''created''" "ToLower E (TrimSpace ''canceled'') = ''canceled''"
    "ToLower E (TrimSpace ''snoozed'') = ''snoozed''" "ToLower E (TrimSpace ''updated'') = ''updated''"
    by (rule norm_word, code_simp)+
  then show "normalizeReminderEventType E ''created'' = ''created''"
    "normalizeReminderEventType E ''canceled'' = ''canceled''"
    "normalizeReminderEventType E ''snoozed'' = ''snoozed''"
    "normalizeReminderEventType E ''updated'' = ''updated''"
    by (simp_all add: normalizeReminderEventType_def)
qed

text \<open>The shared tail: one event and a commit, or the snapshot back.\<close>

lemma audit_and_commit_run:
  assumes "run_state (audit_and_commit E snap i ty at aid detail now next row) w = (out, w')"
    and "normalizeReminderEventType E ty = ty"
  shows "open_tx w' = open_tx w - 1 \<and>
     (case out of
        Inl _ \<Rightarrow> db w' = snap
      | Inr r \<Rightarrow> r = row \<and> (\<exists>ev. db w' = (db w)\<lparr>reminderEvents := reminderEvents (db w) @ [ev]\<rparr> \<and>
          rev_ReminderID ev = i \<and> rev_EventType ev = ty \<and> rev_NextFireTimeUnix ev = next \<and>
          rev_ActorID ev = TrimSpace aid \<and> rev_Detail ev = TrimSpace detail))"
  using assms unfolding audit_and_commit_def createReminderEvent_def Let_def
  by (elim run_elims)
    (auto simp: through_Inr_iff through_Inl_iff ReminderEventEnt_def dest!: run_dests
      split: sum.splits if_splits)

definition audited ::
  "string \<Rightarrow> string \<Rightarrow> string \<Rightarrow> store world \<Rightarrow> err + Reminder \<Rightarrow> store world \<Rightarrow> bool" where
  "audited ty aid detail w out w' \<longleftrightarrow>
     open_tx w' = open_tx w \<and>
     (case out of
        Inl _ \<Rightarrow> db w' = db w
      | Inr r \<Rightarrow> r \<in> set (reminders (db w')) \<and>
          (\<exists>ev. reminderEvents (db w') = reminderEvents (db w) @ [ev] \<and>
             rev_ReminderID ev = rem_ID r \<and> rev_EventType ev = ty \<and>
             rev_NextFireTimeUnix ev = rem_NextRunUnix r \<and>
             rev_ActorID ev = TrimSpace aid \<and> rev_Detail ev = TrimSpace detail))"

lemma CreateReminder_audited:
  "run_state (CreateReminder E m at aid detail) w = (out, w') \<Longrightarrow>
     audited ''created'' aid detail w out w'"
  unfolding CreateReminder_def Let_def
  by (elim run_elims)
    (auto simp: audited_def ReminderEnt_def reminder_event_types
      dest!: run_dests audit_and_commit_run split: sum.splits)

lemma reminder_update_run:
  assumes "run_state (ent_update_one E ReminderEnt True i f) w = (Inr q, w')"
    and "\<And>r. rem_ID (f r) = rem_ID r"
  shows "rem_ID q = i \<and> db w' = (db w)\<lparr>reminders := map_rows (\<lambda>r. rem_ID r = i) f (reminders (db w))\<rparr> \<and>
     q \<in> set (map_rows (\<lambda>r. rem_ID r = i) f (reminders (db w))) \<and> open_tx w' = open_tx w \<and>
     (\<exists>r. q = f r)"
  using update_one_run [OF assms(1)] assms(2)
  by (auto simp: ReminderEnt_def dest!: find_SomeD intro: map_rows_mem)

lemma reminder_update_fail:
  "run_state (ent_update_one E ReminderEnt True i f) w = (Inl e, w') \<Longrightarrow>
     db w' = db w \<and> open_tx w' = open_tx w"
  by (auto dest!: update_one_run)

lemma CancelReminder_audited:
  "run_state (CancelReminder E i at aid detail) w = (out, w') \<Longrightarrow>
     audited ''canceled'' aid detail w out w'"
  unfolding CancelReminder_def Let_def
  by (elim run_elims)
    (auto simp: audited_def reminder_event_types
      dest!: run_reads begin_run reminder_update_fail reminder_update_run audit_and_commit_run
      split: sum.splits)

lemma SnoozeReminder_audited:
  "run_state (SnoozeReminder E i n s at aid detail) w = (out, w') \<Longrightarrow>
     audited ''snoozed'' aid detail w out w'"
  unfolding SnoozeReminder_def Let_def
  by (elim run_elims)
    (auto simp: audited_def reminder_event_types
      dest!: run_reads begin_run reminder_update_fail reminder_update_run audit_and_commit_run
      split: sum.splits)

lemma UpdateReminder_audited:
  "run_state (UpdateReminder E i p at aid detail) w = (out, w') \<Longrightarrow>
     audited ''updated'' aid detail w out w'"
  unfolding UpdateReminder_def Let_def
  by (elim run_elims)
    (auto simp: audited_def reminder_event_types reminder_patch_upd_def Let_def
      dest!: run_reads begin_run reminder_update_fail reminder_update_run audit_and_commit_run
      split: sum.splits)

text \<open>
  C18: every command on reminders, under every fault schedule, either fails and leaves
  the rows as they were, or adds exactly one event to the audit trail, of the kind of the command, with
  the reminder, its next fire time, the actor and the detail; and it closes its transaction.
\<close>

theorem reminder_audited:
  assumes "run_state (run_reminder_cmd E at aid detail c) w = (out, w')"
  shows "audited (cmd_event c) aid detail w out w'"
  using assms CreateReminder_audited CancelReminder_audited SnoozeReminder_audited UpdateReminder_audited
  by (cases c) auto

section \<open>Enabled means active\<close>

definition reminders_ok :: "store \<Rightarrow> bool" where
  "reminders_ok d \<longleftrightarrow>
     (\<forall>r \<in> set (reminders d). (rem_Enabled r \<longleftrightarrow> rem_Status r = ''active'') \<and>
        rem_Status r \<in> reminder_statuses)"

lemma reminder_event_ok: "keeps (on_db reminders_ok) (ent_create E ReminderEventEnt r)"
  by (rule keeps_ent_create) (simp add: reminders_ok_def ReminderEventEnt_def)

lemma audit_and_commit_ok:
  "reminders_ok snap \<Longrightarrow> keeps (on_db reminders_ok) (audit_and_commit E snap i t a b c n f r)"
  unfolding audit_and_commit_def createReminderEvent_def Let_def
  by (intro keeps_rules reminder_event_ok)

lemma reminder_update_ok:
  assumes "\<And>r. reminders_ok (d\<lparr>reminders := [r]\<rparr>) \<Longrightarrow> reminders_ok (d\<lparr>reminders := [f r]\<rparr>)"
  shows "keeps (on_db reminders_ok) (ent_update_one E ReminderEnt c i f)"
  by (rule keeps_ent_update_one)
    (use assms in \<open>simp add: reminders_ok_def ReminderEnt_def ball_map_rows\<close>)

lemma canceled_word: "ToLower E (TrimSpace ''canceled'') = ''canceled''"
  by (rule norm_word) code_simp

lemma normalizeReminderStatus_idem:
  "lower_stable E \<Longrightarrow>
     normalizeReminderStatus E (normalizeReminderStatus E s) = normalizeReminderStatus E s"
  by (auto simp: normalizeReminderStatus_def Let_def canceled_word)

lemma CreateReminder_ok:
  assumes "lower_stable E"
  shows "keeps (on_db reminders_ok) (CreateReminder E m a b c)"
  unfolding CreateReminder_def Let_def
  by (intro keeps_tx keeps_rules audit_and_commit_ok keeps_ent_create;
      (assumption | auto simp: keeps_return reminders_ok_def ReminderEnt_def validReminderStatus_def
        reminder_statuses_def normalizeReminderStatus_idem [OF assms] split: if_splits)?)

lemma CancelReminder_ok: "keeps (on_db reminders_ok) (CancelReminder E i a b c)"
  unfolding CancelReminder_def Let_def
  by (intro keeps_tx keeps_rules audit_and_commit_ok reminder_update_ok;
      (assumption | simp add: keeps_return reminders_ok_def reminder_statuses_def)?)

lemma SnoozeReminder_ok: "keeps (on_db reminders_ok) (SnoozeReminder E i n s a b c)"
  unfolding SnoozeReminder_def Let_def
  by (intro keeps_tx keeps_rules audit_and_commit_ok reminder_update_ok;
      (assumption | simp add: keeps_return reminders_ok_def reminder_statuses_def)?)

lemma UpdateReminder_ok: "keeps (on_db reminders_ok) (UpdateReminder E i p a b c)"
  unfolding UpdateReminder_def Let_def
  by (intro keeps_tx keeps_rules audit_and_commit_ok reminder_update_ok;
      (assumption | simp add: keeps_return reminders_ok_def reminder_statuses_def reminder_patch_upd_def
         Let_def)?)

text \<open>
  Every command on reminders, under every fault schedule, keeps each
  reminder in one of the five statuses and enabled exactly when it is active.
\<close>

theorem reminder_enabled_active:
  assumes "lower_stable E" and "reminders_ok (db w)"
  shows "reminders_ok (db (after (run_reminder_cmd E at aid detail c) w))"
  using assms keepsD [OF CreateReminder_ok] keepsD [OF CancelReminder_ok] keepsD [OF SnoozeReminder_ok]
    keepsD [OF UpdateReminder_ok]
  by (cases c) auto

definition demo_reminder :: Reminder where
  "demo_reminder =
     \<lparr>rem_ID = ''r1'', rem_Target = ''#dev'', rem_ScheduleKind = ''at'', rem_Schedule = ''9:00'',
      rem_Prompt = ''standup'', rem_Enabled = True, rem_NextRunUnix = 2000, rem_LastRunUnix = 0,
      rem_RunCount = 0, rem_LastError = [], rem_Title = ''standup'', rem_Status = ''active'',
      rem_MsgRef = [], rem_RecurrenceRule = [], rem_RecurrenceDescription = [],
      rem_RecurrenceTimezone = [], rem_CancelToken = [], rem_CreatedUnix = 0, rem_UpdatedUnix = 0\<rparr>"

definition reminder_world :: "store world" where
  "reminder_world = world_of (empty_store\<lparr>reminders := [demo_reminder]\<rparr>)"

definition demo_cancel :: "(err + Reminder) \<times> store world" where
  "demo_cancel = run_state (run_reminder_cmd demo_env ''human'' ''u1'' ''done'' (RCancel ''r1'')) reminder_world"

theorem reminder_audited_witness:
  "\<exists>r ev. fst demo_cancel = Inr r \<and> reminderEvents (db (snd demo_cancel)) = [ev] \<and>
     rev_EventType ev = ''canceled'' \<and> rev_ReminderID ev = rem_ID r \<and> rev_Detail ev = TrimSpace ''done''"
proof -
  have "\<not> isl (fst demo_cancel)" by code_simp
  moreover have "run_state (run_reminder_cmd demo_env ''human'' ''u1'' ''done'' (RCancel ''r1'')) reminder_world =
      (fst demo_cancel, snd demo_cancel)"
    by (simp add: demo_cancel_def)
  note reminder_audited [OF this]
  moreover have "reminderEvents (db reminder_world) = []"
    by (simp add: reminder_world_def empty_store_def)
  ultimately show ?thesis by (cases "fst demo_cancel") (auto simp: audited_def)
qed

theorem reminder_enabled_active_witness: "reminders_ok (db (snd demo_cancel))"
proof -
  have "reminders_ok (db reminder_world)"
    by (simp add: reminders_ok_def reminder_world_def demo_reminder_def reminder_statuses_def)
  then show ?thesis
    unfolding demo_cancel_def by (rule reminder_enabled_active [OF lower_stable_demo])
qed

end
