(* ===== verification/Store_Decisions.thy ===== *)
theory Store_Decisions
  imports Store_Base
begin

text \<open>
  Channel decisions and their votes: \<^verbatim>\<open>internal/storage/decisions.go\<close>. A vote is an upsert that
  recounts the votes of the decision in the same transaction, ratifies it at quorum and retires the
  decision it supersedes.
\<close>

section \<open>Statuses and votes\<close>

definition validDecisionStatuses :: "string set" where
  "validDecisionStatuses = {''proposed'', ''ratified'', ''rejected'', ''retired''}"

definition validDecisionVotes :: "string set" where
  "validDecisionVotes = {''approve'', ''reject'', ''abstain''}"

section \<open>Operations\<close>

definition CreateDecision :: "senv \<Rightarrow> ChannelDecision \<Rightarrow> ChannelDecision op" where
  "CreateDecision E decision = do {
     created \<leftarrow> (if dec_CreatedUnix decision = 0 then unixNow E else ret (dec_CreatedUnix decision));
     let status = (if dec_Status decision = [] then ''proposed'' else dec_Status decision);
     if status \<notin> validDecisionStatuses then ret (Inl ErrInvalid)
     else do {
       i \<leftarrow> defaultID E ''dec'' (dec_ID decision);
       row \<leftarrow> ent_create E ChannelDecisionEnt
         (decision\<lparr>dec_ID := i, dec_Status := status, dec_CreatedUnix := created\<rparr>);
       ret (through conflict decisionFromEnt row)
     }
   }"

definition GetDecision :: "senv \<Rightarrow> string \<Rightarrow> ChannelDecision op" where
  "GetDecision E i = do {
     row \<leftarrow> ent_get E ChannelDecisionEnt i;
     ret (through notFound decisionFromEnt row)
   }"

definition ListDecisions :: "senv \<Rightarrow> ChannelDecisionListOptions \<Rightarrow> ChannelDecision list op" where
  "ListDecisions E opts = do {
     rows \<leftarrow> ent_all E ChannelDecisionEnt
       (\<lambda>r. dec_Target r = deco_Target opts \<and>
            (deco_StatusFilter opts \<noteq> [] \<longrightarrow> dec_Status r \<in> set (deco_StatusFilter opts)) \<and>
            (0 < deco_AfterCreated opts \<longrightarrow> deco_AfterCreated opts < dec_CreatedUnix r))
       (\<lambda>rs. limit_rows (deco_Limit opts) (order_desc dec_CreatedUnix rs));
     ret (through plain (map decisionFromEnt) rows)
   }"

text \<open>The vote row: insert, or rewrite the row of this voter.\<close>

definition write_vote ::
  "senv \<Rightarrow> ChannelDecisionVote \<Rightarrow> ChannelDecisionVote option \<Rightarrow>
     (store, ent_err + ChannelDecisionVote) action" where
  "write_vote E vote existing =
     (case existing of
        None \<Rightarrow> do {
          i \<leftarrow> defaultID E ''vot'' (vot_ID vote);
          ent_create E ChannelDecisionVoteEnt (vote\<lparr>vot_ID := i\<rparr>)
        }
      | Some old \<Rightarrow>
          ent_update_one E ChannelDecisionVoteEnt (vot_VoterKind vote \<noteq> [] \<and> vot_Decision vote \<noteq> [])
            (vot_ID old)
            (\<lambda>r. r\<lparr>vot_VoterKind := vot_VoterKind vote, vot_Decision := vot_Decision vote,
                   vot_VotedUnix := vot_VotedUnix vote, vot_Reason := vot_Reason vote\<rparr>))"

text \<open>The counting loop, with 32-bit counters.\<close>

fun count_votes ::
  "32 word \<Rightarrow> 32 word \<Rightarrow> 32 word \<Rightarrow> ChannelDecisionVote list \<Rightarrow> 32 word \<times> 32 word \<times> 32 word" where
  "count_votes approve reject abstain [] = (approve, reject, abstain)"
| "count_votes approve reject abstain (v # vs) =
     (if vot_Decision v = ''approve'' then count_votes (approve + 1) reject abstain vs
      else if vot_Decision v = ''reject'' then count_votes approve (reject + 1) abstain vs
      else if vot_Decision v = ''abstain'' then count_votes approve reject (abstain + 1) vs
      else count_votes approve reject abstain vs)"

definition quorum :: "32 word \<Rightarrow> 32 word \<Rightarrow> bool" where
  "quorum approve reject \<longleftrightarrow> 2 \<le> approve \<and> reject = 0"

text \<open>Write the recounted totals, and ratify at quorum.\<close>

definition update_tally ::
  "senv \<Rightarrow> string \<Rightarrow> 32 word \<times> 32 word \<times> 32 word \<Rightarrow> (store, ent_err + ChannelDecision) action" where
  "update_tally E i counts =
     (case counts of (approve, reject, abstain) \<Rightarrow>
        if quorum approve reject then do {
          now \<leftarrow> unixNow E;
          ent_update_one E ChannelDecisionEnt True i
            (\<lambda>r. r\<lparr>dec_ApproveCount := approve, dec_RejectCount := reject,
                   dec_AbstainCount := abstain, dec_Status := ''ratified'', dec_RatifiedUnix := now\<rparr>)
        }
        else ent_update_one E ChannelDecisionEnt True i
               (\<lambda>r. r\<lparr>dec_ApproveCount := approve, dec_RejectCount := reject,
                      dec_AbstainCount := abstain\<rparr>))"

definition retire_superseded ::
  "senv \<Rightarrow> string \<Rightarrow> string \<Rightarrow> ChannelDecision \<Rightarrow> (store, ent_err + unit) action" where
  "retire_superseded E ratified voterID updated =
     (if ratified = ''ratified'' \<and> dec_SupersedesDecisionID updated \<noteq> [] then do {
        now \<leftarrow> unixNow E;
        row \<leftarrow> ent_update_one E ChannelDecisionEnt True (dec_SupersedesDecisionID updated)
          (\<lambda>r. r\<lparr>dec_Status := ''retired'', dec_RetiredUnix := now, dec_RetiredBy := voterID,
                 dec_RetireReason := ''superseded-by='' @ dec_ID updated\<rparr>);
        ret (case row of
               Inl e \<Rightarrow> if e = EntNotFound then Inr () else Inl e
             | Inr _ \<Rightarrow> Inr ())
      }
      else ret (Inr ()))"

text \<open>
  The work between the status check and the commit. Every error it returns makes the deferred
  function roll back. On success it returns the vote that was there before.
\<close>

definition vote_body ::
  "senv \<Rightarrow> ChannelDecisionVote \<Rightarrow> ChannelDecision \<Rightarrow> ChannelDecisionVote option op" where
  "vote_body E vote decision = do {
     existing \<leftarrow> ent_only E ChannelDecisionVoteEnt
       (\<lambda>r. vot_DecisionID r = vot_DecisionID vote \<and> vot_VoterID r = vot_VoterID vote);
     case (case existing of
             Inl e \<Rightarrow> if e = EntNotFound then Inr None else Inl e
           | Inr old \<Rightarrow> Inr (Some old)) of
       Inl e \<Rightarrow> ret (Inl (ErrEnt e))
     | Inr old \<Rightarrow> do {
         written \<leftarrow> write_vote E vote old;
         case written of
           Inl e \<Rightarrow> ret (Inl (ErrEnt e))
         | Inr _ \<Rightarrow> do {
             votes \<leftarrow> ent_all E ChannelDecisionVoteEnt
               (\<lambda>r. vot_DecisionID r = vot_DecisionID vote) (\<lambda>rs. rs);
             case votes of
               Inl e \<Rightarrow> ret (Inl (ErrEnt e))
             | Inr vs \<Rightarrow> do {
                 let counts = count_votes 0 0 0 vs;
                 updated \<leftarrow> update_tally E (vot_DecisionID vote) counts;
                 let ratified = (if quorum (fst counts) (fst (snd counts))
                                 then ''ratified'' else dec_Status decision);
                 case updated of
                   Inl e \<Rightarrow> ret (Inl (ErrEnt e))
                 | Inr u \<Rightarrow> do {
                     retired \<leftarrow> retire_superseded E ratified (vot_VoterID vote) u;
                     case retired of Inl e \<Rightarrow> ret (Inl (ErrEnt e)) | Inr _ \<Rightarrow> ret (Inr old)
                   }
               }
           }
       }
   }"

text \<open>
  The whole operation. The early return for a decision that is not proposed leaves without
  rolling the transaction back: at that point the variable the deferred function tests is nil.
\<close>

definition UpsertDecisionVote ::
  "senv \<Rightarrow> ChannelDecisionVote \<Rightarrow> (ChannelDecision \<times> ChannelDecisionVote) op" where
  "UpsertDecisionVote E vote0 =
     (if vot_Decision vote0 \<notin> validDecisionVotes then ret (Inl ErrInvalid)
      else do {
        voted \<leftarrow> (if vot_VotedUnix vote0 = 0 then unixNow E else ret (vot_VotedUnix vote0));
        let vote = vote0\<lparr>vot_VotedUnix := voted\<rparr>;
        tx \<leftarrow> BeginTx E;
        case tx of
          Inl e \<Rightarrow> ret (Inl (ErrEnt e))
        | Inr snap \<Rightarrow> do {
            decisionRow \<leftarrow> ent_get E ChannelDecisionEnt (vot_DecisionID vote);
            case decisionRow of
              Inl e \<Rightarrow> rollback_with snap (Inl (notFound e))
            | Inr decision \<Rightarrow>
                if dec_Status decision \<noteq> ''proposed'' then ret (Inl ErrInvalid)
                else do {
                  body \<leftarrow> vote_body E vote decision;
                  case body of
                    Inl e \<Rightarrow> rollback_with snap (Inl e)
                  | Inr old \<Rightarrow> do {
                      done \<leftarrow> Commit E snap;
                      case done of
                        Inl e \<Rightarrow> ret (Inl (ErrEnt e))
                      | Inr _ \<Rightarrow> do {
                          final \<leftarrow> GetDecision E (vot_DecisionID vote);
                          ret (case final of
                                 Inl e \<Rightarrow> Inl e
                               | Inr d \<Rightarrow> Inr (d, case old of
                                     Some q \<Rightarrow> if vot_ID vote = [] then vote\<lparr>vot_ID := vot_ID q\<rparr> else vote
                                   | None \<Rightarrow> vote))
                        }
                    }
                }
          }
      })"

definition ForceRatifyDecision :: "senv \<Rightarrow> string \<Rightarrow> ChannelDecision op" where
  "ForceRatifyDecision E i = do {
     now \<leftarrow> unixNow E;
     row \<leftarrow> ent_update_one E ChannelDecisionEnt True i
       (\<lambda>r. r\<lparr>dec_Status := ''ratified'', dec_RatifiedUnix := now\<rparr>);
     ret (through notFound decisionFromEnt row)
   }"

definition RetireDecision :: "senv \<Rightarrow> string \<Rightarrow> string \<Rightarrow> string \<Rightarrow> ChannelDecision op" where
  "RetireDecision E i retiredBy reason = do {
     now \<leftarrow> unixNow E;
     row \<leftarrow> ent_update_one E ChannelDecisionEnt True i
       (\<lambda>r. r\<lparr>dec_Status := ''retired'', dec_RetiredUnix := now, dec_RetiredBy := retiredBy,
              dec_RetireReason := reason\<rparr>);
     ret (through notFound decisionFromEnt row)
   }"

definition ListDecisionVotes :: "senv \<Rightarrow> string \<Rightarrow> ChannelDecisionVote list op" where
  "ListDecisionVotes E i = do {
     rows \<leftarrow> ent_all E ChannelDecisionVoteEnt (\<lambda>r. vot_DecisionID r = i) (order_asc vot_VotedUnix);
     ret (through plain (map decisionVoteFromEnt) rows)
   }"

section \<open>Well-formedness\<close>

lemmas decision_wf_defs = ChannelDecisionEnt_def ChannelDecisionVoteEnt_def

lemma CreateDecision_wf: "keeps (on_db store_wf) (CreateDecision E d)"
  unfolding CreateDecision_def Let_def by (intro keeps_rules store_keeps_wf)

lemma write_vote_wf: "keeps (on_db store_wf) (write_vote E v old)"
  unfolding write_vote_def
  by (intro keeps_rules store_keeps_wf) (auto simp: decision_wf_defs)

lemma update_tally_wf: "keeps (on_db store_wf) (update_tally E i c)"
  unfolding update_tally_def
  by (intro keeps_rules store_keeps_wf) (auto simp: decision_wf_defs)

lemma retire_superseded_wf: "keeps (on_db store_wf) (retire_superseded E s v u)"
  unfolding retire_superseded_def
  by (intro keeps_rules store_keeps_wf) (auto simp: decision_wf_defs)

lemma vote_body_wf: "keeps (on_db store_wf) (vote_body E v d)"
  unfolding vote_body_def Let_def
  by (intro keeps_rules write_vote_wf update_tally_wf retire_superseded_wf)

lemma UpsertDecisionVote_wf: "keeps (on_db store_wf) (UpsertDecisionVote E v)"
  unfolding UpsertDecisionVote_def GetDecision_def Let_def
  by (intro keeps_tx keeps_rules vote_body_wf;
      (assumption | simp add: keeps_return)?)

lemma ForceRatifyDecision_wf: "keeps (on_db store_wf) (ForceRatifyDecision E i)"
  unfolding ForceRatifyDecision_def
  by (intro keeps_rules store_keeps_wf) (auto simp: decision_wf_defs)

lemma RetireDecision_wf: "keeps (on_db store_wf) (RetireDecision E i b r)"
  unfolding RetireDecision_def
  by (intro keeps_rules store_keeps_wf) (auto simp: decision_wf_defs)

section \<open>Votes\<close>

lemma count_votes_eq:
  "count_votes a r n vs =
     (a + of_nat (length (filter (\<lambda>v. vot_Decision v = ''approve'') vs)),
      r + of_nat (length (filter (\<lambda>v. vot_Decision v = ''reject'') vs)),
      n + of_nat (length (filter (\<lambda>v. vot_Decision v = ''abstain'') vs)))"
  by (induction vs arbitrary: a r n) auto

definition votes_for :: "string \<Rightarrow> string \<Rightarrow> store \<Rightarrow> nat" where
  "votes_for i v d =
     length (filter (\<lambda>r. vot_DecisionID r = i \<and> vot_Decision r = v) (decisionVotes d))"

text \<open>The totals of a decision are the counts of its votes, modulo the width of the counters.\<close>

definition tally_ok :: "store \<Rightarrow> ChannelDecision \<Rightarrow> bool" where
  "tally_ok d r \<longleftrightarrow>
     dec_ApproveCount r = of_nat (votes_for (dec_ID r) ''approve'' d) \<and>
     dec_RejectCount r = of_nat (votes_for (dec_ID r) ''reject'' d) \<and>
     dec_AbstainCount r = of_nat (votes_for (dec_ID r) ''abstain'' d)"

lemma count_votes_for:
  "count_votes 0 0 0 (filter (\<lambda>r. vot_DecisionID r = i) (decisionVotes d)) =
     (of_nat (votes_for i ''approve'' d), of_nat (votes_for i ''reject'' d),
      of_nat (votes_for i ''abstain'' d))"
  by (simp add: count_votes_eq votes_for_def conj_commute)

lemma write_vote_run:
  assumes "run_state (write_vote E v old) w = (out, w')" and "store_wf (db w)"
    and "\<And>pv. old = Some pv \<Longrightarrow> pv \<in> set (decisionVotes (db w)) \<and>
       vot_DecisionID pv = vot_DecisionID v \<and> vot_VoterID pv = vot_VoterID v"
  shows "open_tx w' = open_tx w \<and> decisions (db w') = decisions (db w) \<and>
     (case out of
        Inl _ \<Rightarrow> True
      | Inr q \<Rightarrow> q \<in> set (decisionVotes (db w')) \<and> vot_DecisionID q = vot_DecisionID v \<and>
          vot_VoterID q = vot_VoterID v \<and> vot_Decision q = vot_Decision v)"
proof (cases old)
  case None
  with assms(1) show ?thesis unfolding write_vote_def
    by (elim run_elims) (auto simp: ChannelDecisionVoteEnt_def dest!: run_dests split: sum.splits)
next
  case (Some pv)
  with assms(1) have u: "run_state (ent_update_one E ChannelDecisionVoteEnt
      (vot_VoterKind v \<noteq> [] \<and> vot_Decision v \<noteq> []) (vot_ID pv)
      (\<lambda>r. r\<lparr>vot_VoterKind := vot_VoterKind v, vot_Decision := vot_Decision v,
         vot_VotedUnix := vot_VotedUnix v, vot_Reason := vot_Reason v\<rparr>)) w = (out, w')"
    by (simp add: write_vote_def)
  show ?thesis
  proof (cases out)
    case (Inr q)
    have id: "row_id ChannelDecisionVoteEnt pv = vot_ID pv" by (simp add: ChannelDecisionVoteEnt_def)
    have rows: "pv \<in> set (rows_of ChannelDecisionVoteEnt (db w))"
      using assms(3) [OF Some] by (simp add: ChannelDecisionVoteEnt_def)
    from u have "run_state (ent_update_one E ChannelDecisionVoteEnt
      (vot_VoterKind v \<noteq> [] \<and> vot_Decision v \<noteq> []) (row_id ChannelDecisionVoteEnt pv)
      (\<lambda>r. r\<lparr>vot_VoterKind := vot_VoterKind v, vot_Decision := vot_Decision v,
         vot_VotedUnix := vot_VotedUnix v, vot_Reason := vot_Reason v\<rparr>)) w = (Inr q, w')"
      by (simp only: id Inr)
    from ChannelDecisionVoteTbl.update_known_run [OF this assms(2) rows] update_one_run [OF u] Inr
      assms(3) [OF Some]
    show ?thesis by (simp add: ChannelDecisionVoteEnt_def)
  qed (use update_one_run [OF u] in auto)
qed

text \<open>What the vote transaction does to the decision rows: the tally, then the retirement.\<close>

definition tally_upd ::
  "int \<Rightarrow> 32 word \<times> 32 word \<times> 32 word \<Rightarrow> ChannelDecision \<Rightarrow> ChannelDecision" where
  "tally_upd now c r =
     (let counted = r\<lparr>dec_ApproveCount := fst c, dec_RejectCount := fst (snd c),
                      dec_AbstainCount := snd (snd c)\<rparr>
      in if quorum (fst c) (fst (snd c))
         then counted\<lparr>dec_Status := ''ratified'', dec_RatifiedUnix := now\<rparr> else counted)"

lemma tally_upd_simps [simp]:
  "dec_ID (tally_upd now c r) = dec_ID r"
  "dec_SupersedesDecisionID (tally_upd now c r) = dec_SupersedesDecisionID r"
  "dec_ApproveCount (tally_upd now c r) = fst c"
  "dec_RejectCount (tally_upd now c r) = fst (snd c)"
  "dec_AbstainCount (tally_upd now c r) = snd (snd c)"
  "dec_Status (tally_upd now c r) =
     (if quorum (fst c) (fst (snd c)) then ''ratified'' else dec_Status r)"
  by (simp_all add: tally_upd_def Let_def)

lemma decision_update_run:
  assumes "run_state (ent_update_one E ChannelDecisionEnt True i f) w = (out, w')"
  shows "open_tx w' = open_tx w \<and>
     (case out of
        Inl e \<Rightarrow> db w' = db w \<and> (e = EntNotFound \<longrightarrow> (\<forall>r \<in> set (decisions (db w)). dec_ID r \<noteq> i))
      | Inr q \<Rightarrow> db w' = (db w)\<lparr>decisions := map_rows (\<lambda>r. dec_ID r = i) f (decisions (db w))\<rparr> \<and>
          (\<exists>r \<in> set (decisions (db w)). dec_ID r = i \<and> q = f r))"
  using update_one_run [OF assms]
  by (auto simp: ChannelDecisionEnt_def split: sum.splits dest!: find_SomeD)

lemma update_tally_run:
  assumes "run_state (update_tally E i c) w = (out, w')"
  shows "open_tx w' = open_tx w \<and>
     (case out of
        Inl _ \<Rightarrow> True
      | Inr q \<Rightarrow> (\<exists>now. db w' = (db w)\<lparr>decisions := map_rows (\<lambda>r. dec_ID r = i) (tally_upd now c) (decisions (db w))\<rparr> \<and>
          (\<exists>r \<in> set (decisions (db w)). dec_ID r = i \<and> q = tally_upd now c r)))"
proof -
  obtain a r n where c: "c = (a, r, n)" by (metis prod.collapse)
  from assms [unfolded update_tally_def c prod.case] show ?thesis
  proof (elim run_elims)
    fix now w1
    assume q: "quorum a r" and now: "run_state (unixNow E) w = (now, w1)"
      and u: "run_state (ent_update_one E ChannelDecisionEnt True i
        (\<lambda>p. p\<lparr>dec_ApproveCount := a, dec_RejectCount := r, dec_AbstainCount := n,
          dec_Status := ''ratified'', dec_RatifiedUnix := now\<rparr>)) w1 = (out, w')"
    have "(\<lambda>p. p\<lparr>dec_ApproveCount := a, dec_RejectCount := r, dec_AbstainCount := n,
          dec_Status := ''ratified'', dec_RatifiedUnix := now\<rparr>) = tally_upd now (a, r, n)"
      using q by (simp add: tally_upd_def fun_eq_iff)
    note decision_update_run [OF u [unfolded this]]
    with now_run [OF now] c show ?thesis by (auto split: sum.splits)
  next
    assume q: "\<not> quorum a r"
      and u: "run_state (ent_update_one E ChannelDecisionEnt True i
        (\<lambda>p. p\<lparr>dec_ApproveCount := a, dec_RejectCount := r, dec_AbstainCount := n\<rparr>)) w = (out, w')"
    have "(\<lambda>p. p\<lparr>dec_ApproveCount := a, dec_RejectCount := r, dec_AbstainCount := n\<rparr>) =
        tally_upd 0 (a, r, n)"
      using q by (simp add: tally_upd_def fun_eq_iff)
    note decision_update_run [OF u [unfolded this]]
    with c show ?thesis by (auto split: sum.splits)
  qed
qed

lemma retire_superseded_run:
  assumes "run_state (retire_superseded E st voter u) w = (out, w')"
  shows "open_tx w' = open_tx w \<and> decisionVotes (db w') = decisionVotes (db w) \<and>
     (\<forall>r. dec_ID r \<noteq> dec_SupersedesDecisionID u \<longrightarrow>
        (r \<in> set (decisions (db w')) \<longleftrightarrow> r \<in> set (decisions (db w)))) \<and>
     (out = Inr () \<and> st = ''ratified'' \<and> dec_SupersedesDecisionID u \<noteq> [] \<longrightarrow>
        (\<forall>r \<in> set (decisions (db w')). dec_ID r = dec_SupersedesDecisionID u \<longrightarrow>
           dec_Status r = ''retired''))"
  using assms unfolding retire_superseded_def
  by (elim run_elims)
    (auto simp: map_rows_set dest!: now_run decision_update_run split: sum.splits if_splits)

lemma vote_body_tx: "keeps (tx_is n) (vote_body E v p)"
  unfolding vote_body_def write_vote_def update_tally_def retire_superseded_def Let_def
  by (intro keeps_rules tx_statements)

lemma vote_body_stages:
  assumes "run_state (vote_body E v p) w = (Inr old, w')"
  obtains ex w1 q w2 vs w3 u w4 where
    "run_state (ent_only E ChannelDecisionVoteEnt
       (\<lambda>r. vot_DecisionID r = vot_DecisionID v \<and> vot_VoterID r = vot_VoterID v)) w = (ex, w1)"
    "\<And>x. old = Some x \<Longrightarrow> ex = Inr x"
    "run_state (write_vote E v old) w1 = (Inr q, w2)"
    "run_state (ent_all E ChannelDecisionVoteEnt (\<lambda>r. vot_DecisionID r = vot_DecisionID v) (\<lambda>rs. rs)) w2 =
       (Inr vs, w3)"
    "run_state (update_tally E (vot_DecisionID v) (count_votes 0 0 0 vs)) w3 = (Inr u, w4)"
    "run_state (retire_superseded E (if quorum (fst (count_votes 0 0 0 vs)) (fst (snd (count_votes 0 0 0 vs)))
       then ''ratified'' else dec_Status p) (vot_VoterID v) u) w4 = (Inr (), w')"
  using assms unfolding vote_body_def Let_def
  apply (elim run_elims)
  apply (simp_all only: sum.distinct sum.inject)
  apply (rule that; (assumption | simp split: sum.splits if_splits)?)
  done

text \<open>
  The state a successful vote body leaves for the decision \<open>p\<close> it read: the vote is stored, the row
  of the decision is \<open>p\<close> with the recounted totals, and at quorum the superseded decision is retired.
\<close>

definition voted :: "ChannelDecisionVote \<Rightarrow> ChannelDecision \<Rightarrow> store \<Rightarrow> bool" where
  "voted v p d \<longleftrightarrow>
     (let i = vot_DecisionID v; a = of_nat (votes_for i ''approve'' d); r = of_nat (votes_for i ''reject'' d);
          c = (a, r, of_nat (votes_for i ''abstain'' d))
      in list_ex (\<lambda>q. vot_DecisionID q = i \<and> vot_VoterID q = vot_VoterID v \<and>
            vot_Decision q = vot_Decision v) (decisionVotes d) \<and>
         (\<forall>q \<in> set (decisions d). dec_ID q = i \<and> dec_SupersedesDecisionID p \<noteq> i \<longrightarrow>
            (\<exists>now. q = tally_upd now c p)) \<and>
         (\<forall>q \<in> set (decisions d). quorum a r \<and> dec_SupersedesDecisionID p \<noteq> [] \<and>
            dec_ID q = dec_SupersedesDecisionID p \<longrightarrow> dec_Status q = ''retired''))"

lemma vote_body_voted:
  assumes "store_wf (db w)" and "run_state (vote_body E v p) w = (Inr old, w')"
    and "filter (\<lambda>r. dec_ID r = vot_DecisionID v) (decisions (db w)) = [p]"
  shows "voted v p (db w')"
proof -
  obtain ex w1 q w2 vs w3 u w4 where
    ex: "run_state (ent_only E ChannelDecisionVoteEnt
       (\<lambda>r. vot_DecisionID r = vot_DecisionID v \<and> vot_VoterID r = vot_VoterID v)) w = (ex, w1)"
    and old: "\<And>x. old = Some x \<Longrightarrow> ex = Inr x"
    and wr: "run_state (write_vote E v old) w1 = (Inr q, w2)"
    and al: "run_state (ent_all E ChannelDecisionVoteEnt (\<lambda>r. vot_DecisionID r = vot_DecisionID v) (\<lambda>rs. rs)) w2 =
       (Inr vs, w3)"
    and ta: "run_state (update_tally E (vot_DecisionID v) (count_votes 0 0 0 vs)) w3 = (Inr u, w4)"
    and re: "run_state (retire_superseded E (if quorum (fst (count_votes 0 0 0 vs)) (fst (snd (count_votes 0 0 0 vs)))
       then ''ratified'' else dec_Status p) (vot_VoterID v) u) w4 = (Inr (), w')"
    by (rule vote_body_stages [OF assms(2)]; rule that; assumption)
  have d1: "db w1 = db w" using only_run [OF ex] by simp
  have known: "x \<in> set (decisionVotes (db w1)) \<and> vot_DecisionID x = vot_DecisionID v \<and>
      vot_VoterID x = vot_VoterID v" if "old = Some x" for x
    using only_run [OF ex] old [OF that] d1 by (auto dest: filter_singletonD)
  from write_vote_run [OF wr _ known] assms(1) d1
  have d2: "decisions (db w2) = decisions (db w)" and q: "q \<in> set (decisionVotes (db w2))"
      "vot_DecisionID q = vot_DecisionID v" "vot_VoterID q = vot_VoterID v" "vot_Decision q = vot_Decision v"
    by auto
  have d3: "db w3 = db w2" and vs: "vs = filter (\<lambda>r. vot_DecisionID r = vot_DecisionID v) (decisionVotes (db w2))"
    using all_run [OF al] by simp_all
  from update_tally_run [OF ta] obtain now where
    d4: "db w4 = (db w3)\<lparr>decisions := map_rows (\<lambda>r. dec_ID r = vot_DecisionID v)
        (tally_upd now (count_votes 0 0 0 vs)) (decisions (db w3))\<rparr>"
    and u: "\<exists>r \<in> set (decisions (db w3)). dec_ID r = vot_DecisionID v \<and> u = tally_upd now (count_votes 0 0 0 vs) r"
    by auto
  have only_p: "r = p" if "r \<in> set (decisions (db w))" "dec_ID r = vot_DecisionID v" for r
    using assms(3) that by (rule filter_singleton_only)
  then have sup: "dec_SupersedesDecisionID u = dec_SupersedesDecisionID p" using u d2 d3 by auto
  have votes: "decisionVotes (db w') = decisionVotes (db w2)"
    using retire_superseded_run [OF re] d4 d3 by simp
  then have c: "count_votes 0 0 0 vs = (of_nat (votes_for (vot_DecisionID v) ''approve'' (db w')),
      of_nat (votes_for (vot_DecisionID v) ''reject'' (db w')),
      of_nat (votes_for (vot_DecisionID v) ''abstain'' (db w')))"
    using count_votes_for [of "vot_DecisionID v" "db w'"] vs by simp
  have row: "r = tally_upd now (count_votes 0 0 0 vs) p"
    if "r \<in> set (decisions (db w'))" "dec_ID r = vot_DecisionID v"
      "dec_SupersedesDecisionID p \<noteq> vot_DecisionID v" for r
  proof -
    have "r \<in> set (decisions (db w4))"
      using retire_superseded_run [OF re] that sup by metis
    then show ?thesis using d4 d3 d2 only_p that(2) by (auto simp: map_rows_set split: if_splits)
  qed
  have "list_ex (\<lambda>q. vot_DecisionID q = vot_DecisionID v \<and> vot_VoterID q = vot_VoterID v \<and>
      vot_Decision q = vot_Decision v) (decisionVotes (db w'))"
    using q votes by (auto simp: list_ex_iff)
  moreover have "dec_Status r = ''retired''" if "r \<in> set (decisions (db w'))"
      "quorum (of_nat (votes_for (vot_DecisionID v) ''approve'' (db w')))
        (of_nat (votes_for (vot_DecisionID v) ''reject'' (db w')))"
      "dec_SupersedesDecisionID p \<noteq> []" "dec_ID r = dec_SupersedesDecisionID p" for r
    using retire_superseded_run [OF re] that unfolding sup c by simp
  ultimately show ?thesis using row unfolding voted_def Let_def c by blast
qed


lemma voted_voted_unix [simp]: "voted (v\<lparr>vot_VotedUnix := t\<rparr>) p d = voted v p d"
  by (simp add: voted_def)

text \<open>What a successful call of the operation did, in terms of its body.\<close>

lemma UpsertDecisionVote_stages:
  assumes "run_state (UpsertDecisionVote E vote) w = (Inr (d, v), w')"
  obtains p t w1 old w2 where
    "filter (\<lambda>r. dec_ID r = vot_DecisionID vote) (decisions (db w)) = [p]" "dec_Status p = ''proposed''"
    "db w1 = db w" "open_tx w1 = Suc (open_tx w)"
    "run_state (vote_body E (vote\<lparr>vot_VotedUnix := t\<rparr>) p) w1 = (Inr old, w2)"
    "db w' = db w2" "open_tx w' = open_tx w2 - 1"
    "filter (\<lambda>r. dec_ID r = vot_DecisionID vote) (decisions (db w2)) = [d]"
  using assms unfolding UpsertDecisionVote_def GetDecision_def Let_def
  apply (elim run_elims)
  apply (simp_all only: sum.distinct sum.inject split: sum.splits)
  apply (rule that; (assumption | auto simp: through_Inr_iff ChannelDecisionEnt_def
      dest!: run_dests split: sum.splits)?)+
  done

lemma UpsertDecisionVote_success:
  assumes "store_wf (db w)" and "run_state (UpsertDecisionVote E vote) w = (Inr (d, v), w')"
  shows "\<exists>p. filter (\<lambda>r. dec_ID r = vot_DecisionID vote) (decisions (db w)) = [p] \<and>
     dec_Status p = ''proposed'' \<and> voted vote p (db w') \<and> d \<in> set (decisions (db w')) \<and>
     dec_ID d = vot_DecisionID vote \<and> open_tx w' = open_tx w"
proof (rule UpsertDecisionVote_stages [OF assms(2)])
  fix p t w1 old w2
  assume p: "filter (\<lambda>r. dec_ID r = vot_DecisionID vote) (decisions (db w)) = [p]" "dec_Status p = ''proposed''"
    and w1: "db w1 = db w" "open_tx w1 = Suc (open_tx w)"
    and body: "run_state (vote_body E (vote\<lparr>vot_VotedUnix := t\<rparr>) p) w1 = (Inr old, w2)"
    and w2: "db w' = db w2" "open_tx w' = open_tx w2 - 1"
    and d: "filter (\<lambda>r. dec_ID r = vot_DecisionID vote) (decisions (db w2)) = [d]"
  have "voted vote p (db w')"
    using vote_body_voted [OF _ body] assms(1) w1 w2 p by simp
  moreover have "open_tx w2 = open_tx w1"
    using keepsD [OF vote_body_tx [of "open_tx w1"], of w1 E "vote\<lparr>vot_VotedUnix := t\<rparr>" p] body by simp
  ultimately show ?thesis using p w1 w2 filter_singletonD [OF d] by auto
qed

text \<open>
  C8: a vote that succeeds was cast on a proposed decision. It leaves the vote in the
  table, the returned decision carries totals that are the numbers of its stored votes, it is ratified
  exactly when two or more voters approve and none rejects, and a ratified decision has retired the one
  it supersedes. No transaction stays open. (No decision supersedes itself.)
\<close>

theorem vote_recounts:
  assumes "store_wf (db w)" and "\<forall>p \<in> set (decisions (db w)). dec_SupersedesDecisionID p \<noteq> dec_ID p"
    and "run_state (UpsertDecisionVote E vote) w = (Inr (d, v), w')"
  shows "(\<exists>p \<in> set (decisions (db w)). dec_ID p = vot_DecisionID vote \<and> dec_Status p = ''proposed'' \<and>
        dec_SupersedesDecisionID d = dec_SupersedesDecisionID p) \<and>
     dec_ID d = vot_DecisionID vote \<and> d \<in> set (decisions (db w')) \<and>
     list_ex (\<lambda>q. vot_DecisionID q = vot_DecisionID vote \<and> vot_VoterID q = vot_VoterID vote \<and>
        vot_Decision q = vot_Decision vote) (decisionVotes (db w')) \<and>
     tally_ok (db w') d \<and>
     dec_Status d = (if quorum (dec_ApproveCount d) (dec_RejectCount d) then ''ratified'' else ''proposed'') \<and>
     (\<forall>q. dec_Status d = ''ratified'' \<and> dec_SupersedesDecisionID d \<noteq> [] \<and> q \<in> set (decisions (db w')) \<and>
        dec_ID q = dec_SupersedesDecisionID d \<longrightarrow> dec_Status q = ''retired'') \<and>
     open_tx w' = open_tx w"
proof -
  obtain p where p: "filter (\<lambda>r. dec_ID r = vot_DecisionID vote) (decisions (db w)) = [p]"
      "dec_Status p = ''proposed''" and voted: "voted vote p (db w')"
    and d: "d \<in> set (decisions (db w'))" "dec_ID d = vot_DecisionID vote" "open_tx w' = open_tx w"
    using UpsertDecisionVote_success [OF assms(1,3)] by auto
  have mem: "p \<in> set (decisions (db w))" "dec_ID p = vot_DecisionID vote"
    using filter_singletonD [OF p(1)] by auto
  with assms(2) have "dec_SupersedesDecisionID p \<noteq> vot_DecisionID vote" by metis
  with voted d obtain now where "d = tally_upd now
      (of_nat (votes_for (vot_DecisionID vote) ''approve'' (db w')),
       of_nat (votes_for (vot_DecisionID vote) ''reject'' (db w')),
       of_nat (votes_for (vot_DecisionID vote) ''abstain'' (db w'))) p"
    unfolding voted_def Let_def by blast
  with p mem d voted show ?thesis
    unfolding voted_def Let_def tally_ok_def by (auto split: if_splits)
qed

definition demo_decision :: ChannelDecision where
  "demo_decision =
     \<lparr>dec_ID = ''d1'', dec_Target = ''#g'', dec_Title = ''t'', dec_Body = ''b'', dec_Status = ''proposed'',
      dec_ProposerID = ''u0'', dec_ProposerKind = ''user'', dec_CreatedUnix = 1, dec_RatifiedUnix = 0,
      dec_RetiredUnix = 0, dec_RetiredBy = [], dec_RetireReason = [],
      dec_SupersedesDecisionID = ''d0'', dec_ApproveCount = 1, dec_RejectCount = 0, dec_AbstainCount = 0\<rparr>"

definition demo_vote :: "string \<Rightarrow> string \<Rightarrow> ChannelDecisionVote" where
  "demo_vote i voter =
     \<lparr>vot_ID = i, vot_DecisionID = ''d1'', vot_VoterID = voter, vot_VoterKind = ''user'',
      vot_Decision = ''approve'', vot_VotedUnix = 5, vot_Reason = []\<rparr>"

definition demo_decision_store :: "string \<Rightarrow> store" where
  "demo_decision_store status = empty_store
     \<lparr>decisions := [demo_decision\<lparr>dec_Status := status\<rparr>,
        demo_decision\<lparr>dec_ID := ''d0'', dec_Status := ''ratified'', dec_SupersedesDecisionID := []\<rparr>],
      decisionVotes := [demo_vote ''v1'' ''u1'']\<rparr>"

definition demo_voting :: "(err + (ChannelDecision \<times> ChannelDecisionVote)) \<times> store world" where
  "demo_voting = run_state (UpsertDecisionVote demo_env (demo_vote [] ''u2''))
     (world_of (demo_decision_store ''proposed''))"

lemma demo_decision_store_wf: "store_wf (demo_decision_store ''proposed'')" by code_simp

theorem vote_recounts_witness:
  "\<exists>d v. fst demo_voting = Inr (d, v) \<and> dec_Status d = ''ratified'' \<and> dec_ApproveCount d = 2 \<and>
     tally_ok (db (snd demo_voting)) d"
proof -
  obtain d v where r: "fst demo_voting = Inr (d, v)" and s: "dec_Status d = ''ratified''"
      "dec_ApproveCount d = 2"
  proof -
    have "(case fst demo_voting of Inr (d, v) \<Rightarrow> dec_Status d = ''ratified'' \<and> dec_ApproveCount d = 2
        | Inl _ \<Rightarrow> False)" by code_simp
    then show ?thesis by (auto intro: that split: sum.splits)
  qed
  have run: "run_state (UpsertDecisionVote demo_env (demo_vote [] ''u2''))
      (world_of (demo_decision_store ''proposed'')) = (Inr (d, v), snd demo_voting)"
    using r by (metis demo_voting_def prod.collapse)
  have "\<forall>p \<in> set (decisions (demo_decision_store ''proposed'')). dec_SupersedesDecisionID p \<noteq> dec_ID p"
    by code_simp
  then show ?thesis
    using vote_recounts [OF _ _ run] demo_decision_store_wf r s by simp
qed

text \<open>
  C22: a vote on a decision that is no longer proposed is refused and
  changes no row, but the transaction that was begun for it is neither committed nor rolled back.
\<close>

theorem vote_on_closed_decision_leaks:
  assumes "no_faults E" and "vot_Decision vote \<in> validDecisionVotes"
    and "filter (\<lambda>r. dec_ID r = vot_DecisionID vote) (decisions (db w)) = [p]"
    and "dec_Status p \<noteq> ''proposed''"
    and "run_state (UpsertDecisionVote E vote) w = (out, w')"
  shows "out = Inl ErrInvalid \<and> db w' = db w \<and> open_tx w' = Suc (open_tx w)"
  using assms(5) assms(1-4)
  by (auto simp: UpsertDecisionVote_def Let_def run_BeginTx ent_get_def ent_only_def run_stmt
      ChannelDecisionEnt_def split: if_splits)

theorem vote_on_closed_decision_leaks_witness:
  "fst (run_state (UpsertDecisionVote demo_env (demo_vote [] ''u2''))
      (world_of (demo_decision_store ''ratified''))) = Inl ErrInvalid \<and>
   open_tx (snd (run_state (UpsertDecisionVote demo_env (demo_vote [] ''u2''))
      (world_of (demo_decision_store ''ratified'')))) = 1"
proof -
  have "filter (\<lambda>r. dec_ID r = vot_DecisionID (demo_vote [] ''u2''))
      (decisions (db (world_of (demo_decision_store ''ratified'')))) =
      [demo_decision\<lparr>dec_Status := ''ratified''\<rparr>]" by code_simp
  moreover have "vot_Decision (demo_vote [] ''u2'') \<in> validDecisionVotes" by code_simp
  ultimately show ?thesis
    using vote_on_closed_decision_leaks [OF no_faults_demo _ _ _ run_pair] by simp
qed

end
