(* ===== verification/Store_AgentRuns.thy ===== *)
theory Store_AgentRuns
  imports Store_Base
begin

text \<open>
  Agent runs and their lifecycle events: \<^verbatim>\<open>internal/storage/agentruns.go\<close>.
\<close>

section \<open>Operations\<close>

definition validAgentRunPhases :: "string set" where
  "validAgentRunPhases = {''start'', ''tool_call'', ''tool_result'', ''error'', ''output'', ''end''}"

text \<open>The run row of an event: read it, or create it when the event is the first START.\<close>

definition find_or_start_run ::
  "senv \<Rightarrow> AgentRunEvent \<Rightarrow> AgentRun \<Rightarrow> string \<Rightarrow> (store, err + AgentRun) action" where
  "find_or_start_run E event runInfo phase = do {
     run \<leftarrow> ent_get E AgentRunEnt (evt_RunID event);
     case run of
       Inr r \<Rightarrow> ret (Inr r)
     | Inl e \<Rightarrow>
         if e = EntNotFound then
           if phase \<noteq> ''start'' then ret (Inl ErrInvalid)
           else do {
             row \<leftarrow> ent_create E AgentRunEnt
               \<lparr>run_ID = evt_RunID event, run_AgentID = run_AgentID runInfo,
                run_ComputerID = run_ComputerID runInfo, run_StartedUnix = run_StartedUnix runInfo,
                run_EndedUnix = 0, run_ExitCode = 0, run_Summary = [], run_Error = [],
                run_EventCount = 0\<rparr>;
             ret (through plain (\<lambda>r. r) row)
           }
         else ret (Inl (ErrEnt e))
   }"

definition bump_run :: "AgentRunEvent \<Rightarrow> AgentRun \<Rightarrow> string \<Rightarrow> AgentRun \<Rightarrow> AgentRun" where
  "bump_run event runInfo phase r =
     (let counted = r\<lparr>run_EventCount := run_EventCount r + 1\<rparr>
      in if phase = ''end''
         then counted\<lparr>run_EndedUnix := run_EndedUnix runInfo, run_ExitCode := evt_ExitCode event,
                run_Error := evt_ErrorMessage event, run_Summary := evt_Summary event\<rparr>
         else counted)"

definition AppendAgentRunEvent ::
  "senv \<Rightarrow> AgentRunEvent \<Rightarrow> AgentRun \<Rightarrow> (AgentRun \<times> AgentRunEvent) op" where
  "AppendAgentRunEvent E event0 runInfo =
     (let phase = ToLower E (TrimSpace (evt_Phase event0)); event = event0\<lparr>evt_Phase := phase\<rparr>
      in if phase \<notin> validAgentRunPhases then ret (Inl ErrInvalid)
         else do {
           tx \<leftarrow> BeginTx E;
           case tx of
             Inl e \<Rightarrow> ret (Inl (ErrEnt e))
           | Inr snap \<Rightarrow> do {
               run \<leftarrow> find_or_start_run E event runInfo phase;
               case run of
                 Inl e \<Rightarrow> rollback_with snap (Inl e)
               | Inr _ \<Rightarrow> do {
                   i \<leftarrow> defaultID E ''evt'' (evt_ID event);
                   eventRow \<leftarrow> ent_create E AgentRunEventEnt (event\<lparr>evt_ID := i\<rparr>);
                   case eventRow of
                     Inl e \<Rightarrow> rollback_with snap (Inl (ErrEnt e))
                   | Inr ev \<Rightarrow> do {
                       updated \<leftarrow> ent_update_one E AgentRunEnt True (evt_RunID event)
                         (bump_run event runInfo phase);
                       case updated of
                         Inl e \<Rightarrow> rollback_with snap (Inl (ErrEnt e))
                       | Inr u \<Rightarrow> do {
                           done \<leftarrow> Commit E snap;
                           ret (through plain (\<lambda>_. (agentRunFromEnt u, agentRunEventFromEnt ev)) done)
                         }
                     }
                 }
             }
         })"

definition ListAgentRuns :: "senv \<Rightarrow> AgentRunListOptions \<Rightarrow> AgentRun list op" where
  "ListAgentRuns E opts = do {
     rows \<leftarrow> ent_all E AgentRunEnt
       (\<lambda>r. (runo_AgentID opts \<noteq> [] \<longrightarrow> run_AgentID r = runo_AgentID opts) \<and>
            (runo_ComputerID opts \<noteq> [] \<longrightarrow> run_ComputerID r = runo_ComputerID opts) \<and>
            (0 < runo_BeforeStarted opts \<longrightarrow> run_StartedUnix r < runo_BeforeStarted opts))
       (\<lambda>rs. limit_rows (runo_Limit opts) (order_desc run_StartedUnix rs));
     ret (through plain (map agentRunFromEnt) rows)
   }"

definition GetAgentRun :: "senv \<Rightarrow> string \<Rightarrow> bool \<Rightarrow> (AgentRun \<times> AgentRunEvent list) op" where
  "GetAgentRun E runID includeEvents = do {
     row \<leftarrow> ent_get E AgentRunEnt runID;
     case row of
       Inl e \<Rightarrow> ret (Inl (notFound e))
     | Inr r \<Rightarrow>
         if \<not> includeEvents then ret (Inr (agentRunFromEnt r, []))
         else do {
           events \<leftarrow> ent_all E AgentRunEventEnt (\<lambda>e. evt_RunID e = runID) (order_asc evt_AtUnixNano);
           ret (through plain (\<lambda>es. (agentRunFromEnt r, map agentRunEventFromEnt es)) events)
         }
   }"

text \<open>The loop that joins each matching event to its run and drops the runs filtered out.\<close>

fun search_hits ::
  "senv \<Rightarrow> AgentRunSearchOptions \<Rightarrow> AgentRunEvent list \<Rightarrow> (store, AgentRunSearchHit list) action" where
  "search_hits E opts [] = ret []"
| "search_hits E opts (event # es) = do {
     runRow \<leftarrow> ent_get E AgentRunEnt (evt_RunID event);
     case runRow of
       Inl _ \<Rightarrow> search_hits E opts es
     | Inr r \<Rightarrow>
         if runs_AgentID opts \<noteq> [] \<and> run_AgentID r \<noteq> runs_AgentID opts then search_hits E opts es
         else if runs_ComputerID opts \<noteq> [] \<and> run_ComputerID r \<noteq> runs_ComputerID opts
         then search_hits E opts es
         else do {
           hits \<leftarrow> search_hits E opts es;
           ret (\<lparr>hit_Run = agentRunFromEnt r, hit_Event = agentRunEventFromEnt event,
                 hit_Highlight = evt_Summary event\<rparr> # hits)
         }
   }"

definition SearchAgentRuns :: "senv \<Rightarrow> AgentRunSearchOptions \<Rightarrow> AgentRunSearchHit list op" where
  "SearchAgentRuns E opts = do {
     rows \<leftarrow> ent_all E AgentRunEventEnt
       (\<lambda>r. runs_Query opts \<noteq> [] \<longrightarrow>
            contains_fold E (evt_Summary r) (runs_Query opts) \<or>
            contains_fold E (evt_PayloadJSON r) (runs_Query opts))
       (\<lambda>rs. limit_rows (runs_Limit opts) (order_desc evt_AtUnixNano rs));
     case rows of
       Inl e \<Rightarrow> ret (Inl (ErrEnt e))
     | Inr es \<Rightarrow> do {
         hits \<leftarrow> search_hits E opts es;
         ret (Inr hits)
       }
   }"

section \<open>Well-formedness\<close>

lemmas run_wf_defs = AgentRunEnt_def AgentRunEventEnt_def bump_run_def

lemma find_or_start_run_wf: "keeps (on_db store_wf) (find_or_start_run E ev ri ph)"
  unfolding find_or_start_run_def by (intro keeps_rules store_keeps_wf)

lemma AppendAgentRunEvent_wf: "keeps (on_db store_wf) (AppendAgentRunEvent E ev ri)"
  unfolding AppendAgentRunEvent_def Let_def
  by (intro keeps_tx keeps_rules find_or_start_run_wf store_keeps_wf;
      (assumption | simp add: keeps_return run_wf_defs Let_def)?)

lemma keeps_search_hits [keeps_rules]: "keeps (on_db J) (search_hits E opts es)"
  by (induction es) (auto intro!: keeps_rules)

section \<open>Counting events\<close>

definition run_events :: "string \<Rightarrow> store \<Rightarrow> AgentRunEvent list" where
  "run_events i d = filter (\<lambda>e. evt_RunID e = i) (agentRunEvents d)"

text \<open>
  Every event belongs to a run, every run has its start event, and the counter of a run is the number
  of its events (modulo the width of the column).
\<close>

definition run_ok :: "store \<Rightarrow> AgentRun \<Rightarrow> bool" where
  "run_ok d r \<longleftrightarrow>
     list_ex (\<lambda>e. evt_Phase e = ''start'') (run_events (run_ID r) d) \<and>
     run_EventCount r = of_nat (length (run_events (run_ID r) d))"

definition runs_ok :: "store \<Rightarrow> bool" where
  "runs_ok d \<longleftrightarrow>
     list_all (\<lambda>e. list_ex (\<lambda>r. run_ID r = evt_RunID e) (agentRuns d)) (agentRunEvents d) \<and>
     list_all (run_ok d) (agentRuns d)"

lemma bump_run_simps [simp]:
  "run_ID (bump_run ev ri ph r) = run_ID r"
  "run_EventCount (bump_run ev ri ph r) = run_EventCount r + 1"
  by (simp_all add: bump_run_def Let_def)

lemma find_or_start_run_run:
  assumes "run_state (find_or_start_run E ev ri ph) w = (Inr r, w')"
  shows "open_tx w' = open_tx w \<and> run_ID r = evt_RunID ev \<and>
     (if filter (\<lambda>q. run_ID q = evt_RunID ev) (agentRuns (db w)) = []
      then ph = ''start'' \<and> run_EventCount r = 0 \<and> db w' = (db w)\<lparr>agentRuns := agentRuns (db w) @ [r]\<rparr>
      else db w' = db w)"
  using assms unfolding find_or_start_run_def
  by (elim run_elims) (auto simp: through_Inr_iff dest!: run_dests dest: filter_singletonD split: sum.splits)

lemma find_or_start_run_tx: "keeps (tx_is n) (find_or_start_run E ev ri ph)"
  unfolding find_or_start_run_def by (intro keeps_rules tx_statements)

lemma find_or_start_run_txD:
  "run_state (find_or_start_run E ev ri ph) w = (out, w') \<Longrightarrow> open_tx w' = open_tx w"
  using keepsD [OF find_or_start_run_tx [of "open_tx w"], of w E ev ri ph] by simp

lemma AppendAgentRunEvent_atomic:
  assumes "run_state (AppendAgentRunEvent E ev ri) w = (out, w')"
  shows "open_tx w' = open_tx w \<and> (isl out \<longrightarrow> db w' = db w)"
  using assms unfolding AppendAgentRunEvent_def Let_def
  by (elim run_elims) (auto simp: through_def dest!: run_dests find_or_start_run_txD split: sum.splits)

text \<open>The worlds a successful call passes through.\<close>

lemma AppendAgentRunEvent_stages:
  assumes "run_state (AppendAgentRunEvent E ev ri) w = (Inr (u, e), w')"
  obtains r w0 w1 where
    "db w0 = db w"
    "run_state (find_or_start_run E (ev\<lparr>evt_Phase := ToLower E (TrimSpace (evt_Phase ev))\<rparr>) ri
       (ToLower E (TrimSpace (evt_Phase ev)))) w0 = (Inr r, w1)"
    "evt_Phase e = ToLower E (TrimSpace (evt_Phase ev))" "evt_Phase e \<in> validAgentRunPhases"
    "evt_RunID e = evt_RunID ev"
    "db w' = (db w1)\<lparr>agentRunEvents := agentRunEvents (db w1) @ [e],
       agentRuns := map_rows (\<lambda>q. run_ID q = evt_RunID ev)
         (bump_run (ev\<lparr>evt_Phase := ToLower E (TrimSpace (evt_Phase ev))\<rparr>) ri
            (ToLower E (TrimSpace (evt_Phase ev)))) (agentRuns (db w1))\<rparr>"
    "u \<in> set (agentRuns (db w'))" "run_ID u = evt_RunID ev"
  using assms unfolding AppendAgentRunEvent_def Let_def
  apply (elim run_elims)
  apply (simp_all only: sum.distinct sum.inject through_Inr_iff not_not)
  apply (rule that; (assumption | auto simp: map_rows_set dest!: run_dests find_SomeD split: sum.splits)?)
  done

text \<open>Counting one more event of run \<open>i\<close>.\<close>

lemma run_events_append [simp]:
  "run_events i (d\<lparr>agentRunEvents := agentRunEvents d @ [e]\<rparr>) =
     run_events i d @ (if evt_RunID e = i then [e] else [])"
  by (simp add: run_events_def)

lemma run_events_runs [simp]: "run_events i (d\<lparr>agentRuns := rs\<rparr>) = run_events i d"
  by (simp add: run_events_def)

lemma run_ok_append:
  "run_ok d r \<Longrightarrow> run_ok (d\<lparr>agentRunEvents := agentRunEvents d @ [e], agentRuns := rs\<rparr>)
     (if run_ID r = evt_RunID e then bump_run ev ri ph r else r)"
  by (auto simp: run_ok_def)

lemma list_ex_run_bumped [simp]:
  "list_ex (\<lambda>r. run_ID r = j) (map_rows p (bump_run ev ri ph) rs) = list_ex (\<lambda>r. run_ID r = j) rs"
  by (induction rs) (auto simp: map_rows_def)

lemma runs_ok_bump:
  assumes "runs_ok d" and "evt_RunID e = i" and "list_ex (\<lambda>r. run_ID r = i) (agentRuns d)"
  shows "runs_ok (d\<lparr>agentRunEvents := agentRunEvents d @ [e],
     agentRuns := map_rows (\<lambda>q. run_ID q = i) (bump_run ev ri ph) (agentRuns d)\<rparr>)"
proof -
  have rows: "\<forall>r \<in> set (agentRuns d). run_ok d r" using assms(1) by (simp add: runs_ok_def list_all_iff)
  have "list_all (run_ok (d\<lparr>agentRunEvents := agentRunEvents d @ [e], agentRuns := rs\<rparr>))
      (map_rows (\<lambda>q. run_ID q = i) (bump_run ev ri ph) (agentRuns d))" for rs
    unfolding list_all_iff map_rows_set assms(2) [symmetric]
    using rows run_ok_append [of d _ rs e ev ri ph] by blast
  with assms show ?thesis by (simp add: runs_ok_def)
qed

text \<open>A run that is created with its start event.\<close>

lemma runs_ok_start:
  assumes "runs_ok d" and "evt_RunID e = i" and "evt_Phase e = ''start''" and "run_ID r = i"
    and "run_EventCount r = 0" and "filter (\<lambda>q. run_ID q = i) (agentRuns d) = []"
  shows "runs_ok (d\<lparr>agentRunEvents := agentRunEvents d @ [e],
     agentRuns := map_rows (\<lambda>q. run_ID q = i) (bump_run ev ri ph) (agentRuns d @ [r])\<rparr>)"
proof -
  have none: "run_events i d = []"
    using assms(1,6) by (auto simp: runs_ok_def run_events_def list_all_iff list_ex_iff filter_empty_conv)
  have rows: "map_rows (\<lambda>q. run_ID q = i) (bump_run ev ri ph) (agentRuns d @ [r]) =
      agentRuns d @ [bump_run ev ri ph r]"
    using assms(4,6) by (auto simp: map_rows_def filter_empty_conv intro!: map_idI)
  have "run_ok (d\<lparr>agentRunEvents := agentRunEvents d @ [e], agentRuns := rs\<rparr>) (bump_run ev ri ph r)" for rs
    using none assms by (simp add: run_ok_def)
  moreover have "run_ok (d\<lparr>agentRunEvents := agentRunEvents d @ [e], agentRuns := rs\<rparr>) q"
    if "q \<in> set (agentRuns d)" for q rs
    using run_ok_append [of d q rs e] that assms by (auto simp: runs_ok_def list_all_iff filter_empty_conv)
  ultimately show ?thesis
    using assms(1,2,4) unfolding rows runs_ok_def by (auto simp: list_all_iff)
qed

lemma AppendAgentRunEvent_ok:
  assumes "runs_ok (db w)" and "run_state (AppendAgentRunEvent E ev ri) w = (Inr (u, e), w')"
  shows "runs_ok (db w') \<and> u \<in> set (agentRuns (db w')) \<and> run_ID u = evt_RunID ev \<and>
     evt_RunID e = evt_RunID ev \<and> agentRunEvents (db w') = agentRunEvents (db w) @ [e]"
proof (rule AppendAgentRunEvent_stages [OF assms(2)])
  fix r w0 w1
  let ?ph = "ToLower E (TrimSpace (evt_Phase ev))"
  assume w0: "db w0 = db w"
    and f: "run_state (find_or_start_run E (ev\<lparr>evt_Phase := ?ph\<rparr>) ri ?ph) w0 = (Inr r, w1)"
    and e: "evt_Phase e = ?ph" "evt_Phase e \<in> validAgentRunPhases" "evt_RunID e = evt_RunID ev"
    and w': "db w' = (db w1)\<lparr>agentRunEvents := agentRunEvents (db w1) @ [e],
       agentRuns := map_rows (\<lambda>q. run_ID q = evt_RunID ev) (bump_run (ev\<lparr>evt_Phase := ?ph\<rparr>) ri ?ph)
         (agentRuns (db w1))\<rparr>"
    and u: "u \<in> set (agentRuns (db w'))" "run_ID u = evt_RunID ev"
  note found = find_or_start_run_run [OF f]
  show ?thesis
  proof (cases "filter (\<lambda>q. run_ID q = evt_RunID ev) (agentRuns (db w)) = []")
    case True
    with found w0 have "db w1 = (db w)\<lparr>agentRuns := agentRuns (db w) @ [r]\<rparr>" "?ph = ''start''"
      "run_EventCount r = 0" "run_ID r = evt_RunID ev" by auto
    with runs_ok_start [OF assms(1) e(3) _ _ _ True] e w' u show ?thesis by simp
  next
    case False
    then have "list_ex (\<lambda>q. run_ID q = evt_RunID ev) (agentRuns (db w))"
      by (auto simp: list_ex_iff filter_empty_conv)
    moreover have "db w1 = db w" using found w0 False by auto
    ultimately show ?thesis using runs_ok_bump [OF assms(1) e(3)] w' u e by simp
  qed
qed

text \<open>
  C9: recording an event keeps, under every fault schedule, that each event belongs
  to a run, each run has its start event and each run counts its events; a call that fails changes no
  row and a call that succeeds appends exactly the returned event and returns the run with its new
  count. No transaction stays open.
\<close>

theorem agent_run_counts:
  assumes "runs_ok (db w)" and "run_state (AppendAgentRunEvent E ev ri) w = (out, w')"
  shows "runs_ok (db w') \<and> open_tx w' = open_tx w \<and>
     (case out of
        Inl _ \<Rightarrow> db w' = db w
      | Inr (u, e) \<Rightarrow> agentRunEvents (db w') = agentRunEvents (db w) @ [e] \<and>
          evt_RunID e = evt_RunID ev \<and> u \<in> set (agentRuns (db w')) \<and> run_ID u = evt_RunID ev \<and>
          run_EventCount u = of_nat (length (run_events (run_ID u) (db w))) + 1)"
proof (cases out)
  case (Inl e)
  with AppendAgentRunEvent_atomic [OF assms(2)] assms(1) show ?thesis by simp
next
  case (Inr ue)
  obtain u e where ue: "ue = (u, e)" by (cases ue)
  note ok = AppendAgentRunEvent_ok [OF assms(1) assms(2) [unfolded Inr ue]]
  have "run_events (run_ID u) (db w') = run_events (run_ID u) (db w) @ [e]"
    using ok by (simp add: run_events_def)
  with ok have "run_EventCount u = of_nat (length (run_events (run_ID u) (db w))) + 1"
    by (auto simp: runs_ok_def run_ok_def list_all_iff)
  with ok AppendAgentRunEvent_atomic [OF assms(2)] Inr ue show ?thesis by simp
qed

definition demo_run_event :: "string \<Rightarrow> AgentRunEvent" where
  "demo_run_event phase =
     \<lparr>evt_ID = [], evt_RunID = ''r1'', evt_AtUnixNano = 1, evt_Phase = phase, evt_Summary = [],
      evt_PayloadJSON = [], evt_ExitCode = 0, evt_ErrorMessage = []\<rparr>"

definition demo_run :: AgentRun where
  "demo_run =
     \<lparr>run_ID = ''r1'', run_AgentID = ''a'', run_ComputerID = ''c'', run_StartedUnix = 1,
      run_EndedUnix = 0, run_ExitCode = 0, run_Summary = [], run_Error = [], run_EventCount = 0\<rparr>"

definition demo_started :: "(err + (AgentRun \<times> AgentRunEvent)) \<times> store world" where
  "demo_started = run_state (AppendAgentRunEvent demo_env (demo_run_event ''START'') demo_run) (world_of empty_store)"

theorem agent_run_counts_witness:
  "\<not> isl (fst demo_started) \<and> runs_ok (db (snd demo_started)) \<and>
   fst (run_state (AppendAgentRunEvent demo_env (demo_run_event ''output'') demo_run) (world_of empty_store)) =
     Inl ErrInvalid"
proof -
  have "runs_ok (db (world_of empty_store))" by (simp add: runs_ok_def empty_store_def)
  from agent_run_counts [OF this, of demo_env "demo_run_event ''START''" demo_run "fst demo_started" "snd demo_started"]
  have "runs_ok (db (snd demo_started))" by (simp add: demo_started_def)
  moreover have "\<not> isl (fst demo_started)" by code_simp
  moreover have "fst (run_state (AppendAgentRunEvent demo_env (demo_run_event ''output'') demo_run)
      (world_of empty_store)) = Inl ErrInvalid" by code_simp
  ultimately show ?thesis by blast
qed

end
