(* ===== verification/Store_Tunnels.thy ===== *)
theory Store_Tunnels
  imports Store_Base Encoding
begin

text \<open>
  Preview tunnels: \<^verbatim>\<open>internal/storage/tunnels.go\<close>. A tunnel starts pending or active and moves
  along \<^verbatim>\<open>validTunnelTransition\<close>; its token is the URL-safe base64 text of 32 random bytes.
\<close>

section \<open>Tokens\<close>

text \<open>
  \<open>rand_read n k\<close> is what \<^verbatim>\<open>rand.Read\<close> puts into a buffer of \<open>k\<close> bytes at interaction
  \<open>n\<close>, or its error.
\<close>

type_synonym rand_source = "nat \<Rightarrow> nat \<Rightarrow> err + nat list"

definition NewTunnelToken :: "rand_source \<Rightarrow> ('d, err + string) action" where
  "NewTunnelToken rand_read = do {
     buf \<leftarrow> drawn (\<lambda>n. rand_read n 32);
     ret (case buf of Inl e \<Rightarrow> Inl e | Inr bs \<Rightarrow> Inr (RawURLEncode bs))
   }"

section \<open>Operations\<close>

definition validTunnelStates :: "string set" where
  "validTunnelStates = {''pending_approval'', ''active'', ''rejected'', ''closed''}"

definition validTunnelAccessPolicies :: "string set" where
  "validTunnelAccessPolicies = {''private'', ''members'', ''public''}"

definition open_states :: "string set" where
  "open_states = {''pending_approval'', ''active''}"

definition CreateTunnel :: "senv \<Rightarrow> rand_source \<Rightarrow> TunnelRecord \<Rightarrow> TunnelRecord op" where
  "CreateTunnel E rand_read record0 =
     (let state = TrimSpace (tun_State record0); policy = TrimSpace (tun_AccessPolicy record0)
      in if state \<notin> validTunnelStates then ret (Inl ErrInvalid)
         else if policy \<notin> validTunnelAccessPolicies then ret (Inl ErrInvalid)
         else do {
           created \<leftarrow> (if tun_CreatedUnix record0 = 0 then unixNow E
                      else ret (tun_CreatedUnix record0));
           tok \<leftarrow> (if tun_Token record0 = [] then NewTunnelToken rand_read
                  else ret (Inr (tun_Token record0)));
           case tok of
             Inl e \<Rightarrow> ret (Inl e)
           | Inr token \<Rightarrow> do {
               i \<leftarrow> defaultID E ''tun'' (tun_ID record0);
               row \<leftarrow> ent_create E TunnelEnt
                 (record0\<lparr>tun_ID := i, tun_Token := token, tun_State := state,
                    tun_AccessPolicy := policy, tun_CreatedUnix := created, tun_PublicURL := []\<rparr>);
               ret (through conflict tunnelFromEnt row)
             }
         })"

definition GetTunnel :: "senv \<Rightarrow> string \<Rightarrow> TunnelRecord op" where
  "GetTunnel E i = do {
     row \<leftarrow> ent_get E TunnelEnt i;
     ret (through notFound tunnelFromEnt row)
   }"

definition GetTunnelByToken :: "senv \<Rightarrow> string \<Rightarrow> TunnelRecord op" where
  "GetTunnelByToken E token = do {
     row \<leftarrow> ent_only E TunnelEnt (\<lambda>r. tun_Token r = token);
     ret (through notFound tunnelFromEnt row)
   }"

definition ListTunnels :: "senv \<Rightarrow> TunnelListOptions \<Rightarrow> TunnelRecord list op" where
  "ListTunnels E opts = do {
     rows \<leftarrow> ent_all E TunnelEnt
       (\<lambda>r. (tuno_ComputerID opts \<noteq> [] \<longrightarrow> tun_ComputerID r = tuno_ComputerID opts) \<and>
            (tuno_StateFilter opts \<noteq> [] \<longrightarrow> tun_State r = tuno_StateFilter opts))
       (\<lambda>rs. limit_rows (tuno_Limit opts) (order_desc tun_CreatedUnix rs));
     ret (through plain (map tunnelFromEnt) rows)
   }"

definition validTunnelTransition :: "string \<Rightarrow> string \<Rightarrow> bool" where
  "validTunnelTransition fro dest \<longleftrightarrow>
     (if fro = ''pending_approval'' then dest = ''active'' \<or> dest = ''rejected'' \<or> dest = ''closed''
      else if fro = ''active'' then dest = ''closed''
      else False)"

definition tunnel_state_upd ::
  "string \<Rightarrow> string \<Rightarrow> string \<Rightarrow> int \<Rightarrow> TunnelRecord \<Rightarrow> TunnelRecord" where
  "tunnel_state_upd toState actor reason now r =
     (let moved = r\<lparr>tun_State := toState\<rparr>
      in if toState = ''active'' then moved\<lparr>tun_ApprovedUnix := now, tun_ApprovedBy := actor\<rparr>
         else if toState = ''rejected'' \<or> toState = ''closed''
         then moved\<lparr>tun_ClosedUnix := now, tun_CloseReason := reason\<rparr>
         else moved)"

definition UpdateTunnelState ::
  "senv \<Rightarrow> string \<Rightarrow> string \<Rightarrow> string \<Rightarrow> string \<Rightarrow> TunnelRecord op" where
  "UpdateTunnelState E i toState actor reason =
     (if toState \<notin> validTunnelStates then ret (Inl ErrInvalid)
      else do {
        tx \<leftarrow> BeginTx E;
        case tx of
          Inl e \<Rightarrow> ret (Inl (ErrEnt e))
        | Inr snap \<Rightarrow> do {
            row \<leftarrow> ent_get E TunnelEnt i;
            case row of
              Inl e \<Rightarrow> rollback_with snap (Inl (notFound e))
            | Inr r \<Rightarrow>
                if \<not> validTunnelTransition (tun_State r) toState
                then rollback_with snap (Inl ErrInvalid)
                else do {
                  now \<leftarrow> unixNow E;
                  updated \<leftarrow> ent_update_one E TunnelEnt (toState \<noteq> []) i
                    (tunnel_state_upd toState actor reason now);
                  case updated of
                    Inl e \<Rightarrow> rollback_with snap (Inl (ErrEnt e))
                  | Inr u \<Rightarrow> do {
                      done \<leftarrow> Commit E snap;
                      ret (through plain (\<lambda>_. tunnelFromEnt u) done)
                    }
                }
          }
      })"

definition closed_by :: "string \<Rightarrow> int \<Rightarrow> TunnelRecord \<Rightarrow> TunnelRecord" where
  "closed_by reason now r =
     r\<lparr>tun_State := ''closed'', tun_ClosedUnix := now, tun_CloseReason := reason\<rparr>"

text \<open>The loop of \<^verbatim>\<open>CloseExpiredTunnels\<close>: one UPDATE per row, rows deleted meanwhile are skipped.\<close>

fun close_rows :: "senv \<Rightarrow> int \<Rightarrow> TunnelRecord list \<Rightarrow> (store, ent_err option) action" where
  "close_rows E now [] = ret None"
| "close_rows E now (row # rows) = do {
     u \<leftarrow> ent_update_one E TunnelEnt True (tun_ID row) (closed_by ''ttl_expired'' now);
     case u of
       Inl e \<Rightarrow> if e \<noteq> EntNotFound then ret (Some e) else close_rows E now rows
     | Inr _ \<Rightarrow> close_rows E now rows
   }"

definition expired_tunnel :: "int \<Rightarrow> TunnelRecord \<Rightarrow> bool" where
  "expired_tunnel now r \<longleftrightarrow>
     tun_State r \<in> open_states \<and> 0 < tun_ExpiresUnix r \<and> tun_ExpiresUnix r \<le> now"

definition CloseExpiredTunnels :: "senv \<Rightarrow> int \<Rightarrow> nat op" where
  "CloseExpiredTunnels E now0 = do {
     now \<leftarrow> (if now0 \<le> 0 then unixNow E else ret now0);
     rows \<leftarrow> ent_all E TunnelEnt (expired_tunnel now) (\<lambda>rs. rs);
     case rows of
       Inl e \<Rightarrow> ret (Inl (ErrEnt e))
     | Inr rs \<Rightarrow> do {
         failed \<leftarrow> close_rows E now rs;
         ret (case failed of Some e \<Rightarrow> Inl (ErrEnt e) | None \<Rightarrow> Inr (length rs))
       }
   }"

definition CloseTunnelsForComputer :: "senv \<Rightarrow> string \<Rightarrow> string \<Rightarrow> unit op" where
  "CloseTunnelsForComputer E computerID reason =
     (if computerID = [] then ret (Inl (ErrText ''computer id is required''))
      else do {
        now \<leftarrow> unixNow E;
        n \<leftarrow> ent_update_where E TunnelEnt True
          (\<lambda>r. tun_ComputerID r = computerID \<and> tun_State r \<in> open_states) (closed_by reason now);
        ret (through plain (\<lambda>_. ()) n)
      })"

section \<open>Well-formedness\<close>

lemmas tunnel_wf_defs = TunnelEnt_def tunnel_state_upd_def closed_by_def

lemma keeps_NewTunnelToken [keeps_rules]: "keeps (on_db J) (NewTunnelToken r)"
  unfolding NewTunnelToken_def by (intro keeps_rules)

lemma CreateTunnel_wf: "keeps (on_db store_wf) (CreateTunnel E rs t)"
  unfolding CreateTunnel_def Let_def by (intro keeps_rules store_keeps_wf)

lemma UpdateTunnelState_wf: "keeps (on_db store_wf) (UpdateTunnelState E i s a r)"
  unfolding UpdateTunnelState_def
  by (intro keeps_tx keeps_rules store_keeps_wf;
      (assumption | simp add: keeps_return tunnel_wf_defs Let_def)?)

lemma close_rows_wf: "keeps (on_db store_wf) (close_rows E now rows)"
proof (induction rows)
  case (Cons row rows)
  have "keeps (on_db store_wf)
      (ent_update_one E TunnelEnt True (tun_ID row) (closed_by ''ttl_expired'' now))"
    by (rule store_keeps_wf) (simp add: tunnel_wf_defs)
  with Cons show ?case by (auto intro!: keeps_rules)
qed (simp add: keeps_return)

lemma CloseExpiredTunnels_wf: "keeps (on_db store_wf) (CloseExpiredTunnels E now)"
  unfolding CloseExpiredTunnels_def by (intro keeps_rules close_rows_wf)

lemma CloseTunnelsForComputer_wf: "keeps (on_db store_wf) (CloseTunnelsForComputer E c r)"
  unfolding CloseTunnelsForComputer_def
  by (intro keeps_rules store_keeps_wf) (auto simp: tunnel_wf_defs)

section \<open>Lifecycle\<close>

text \<open>
  How one row may change over time: its identity, token and computer stay, its state moves along the
  transitions the code names (two transitions in a row are again one).
\<close>

definition tunnel_moves :: "TunnelRecord \<Rightarrow> TunnelRecord \<Rightarrow> bool" where
  "tunnel_moves t t' \<longleftrightarrow>
     tun_ID t' = tun_ID t \<and> tun_Token t' = tun_Token t \<and> tun_ComputerID t' = tun_ComputerID t \<and>
     (tun_State t' = tun_State t \<or> validTunnelTransition (tun_State t) (tun_State t'))"

definition tunnels_advance :: "store \<Rightarrow> store \<Rightarrow> bool" where
  "tunnels_advance d d' \<longleftrightarrow> (\<forall>t \<in> set (tunnels d). \<exists>t' \<in> set (tunnels d'). tunnel_moves t t')"

lemma tunnel_moves_refl [simp]: "tunnel_moves t t"
  by (simp add: tunnel_moves_def)

lemma tunnel_moves_trans: "tunnel_moves a b \<Longrightarrow> tunnel_moves b c \<Longrightarrow> tunnel_moves a c"
  by (auto simp: tunnel_moves_def validTunnelTransition_def split: if_splits)

lemma tunnels_advance_trans: "tunnels_advance a b \<Longrightarrow> tunnels_advance b c \<Longrightarrow> tunnels_advance a c"
  unfolding tunnels_advance_def by (meson tunnel_moves_trans)

lemma tunnels_advance_mono:
  "set (tunnels d) \<subseteq> set (tunnels d') \<Longrightarrow> tunnels_advance d d'"
  unfolding tunnels_advance_def using tunnel_moves_refl by blast

lemma tunnels_advance_rows:
  assumes "\<And>t. t \<in> set (tunnels d) \<Longrightarrow> p t \<Longrightarrow> tunnel_moves t (f t)"
    and "tunnels d' = map_rows p f (tunnels d)"
  shows "tunnels_advance d d'"
  unfolding tunnels_advance_def
proof
  fix t
  assume t: "t \<in> set (tunnels d)"
  then have "(if p t then f t else t) \<in> set (tunnels d')" by (simp add: assms(2) map_rows_def)
  with assms(1) [OF t] show "\<exists>t' \<in> set (tunnels d'). tunnel_moves t t'"
    by (metis tunnel_moves_refl)
qed

lemma closed_by_moves: "tun_State t \<in> open_states \<Longrightarrow> tunnel_moves t (closed_by r n t)"
  by (auto simp: tunnel_moves_def closed_by_def open_states_def validTunnelTransition_def)

lemma state_upd_moves:
  "validTunnelTransition (tun_State t) s \<Longrightarrow> tunnel_moves t (tunnel_state_upd s a r n t)"
  by (auto simp: tunnel_moves_def tunnel_state_upd_def Let_def)

lemma UpdateTunnelState_run:
  assumes "run_state (UpdateTunnelState E i s a r) w = (out, w')"
  shows "open_tx w' = open_tx w \<and>
     (case out of
        Inl _ \<Rightarrow> db w' = db w
      | Inr u \<Rightarrow> \<exists>t n. filter (\<lambda>q. tun_ID q = i) (tunnels (db w)) = [t] \<and>
          validTunnelTransition (tun_State t) s \<and> u = tunnelFromEnt (tunnel_state_upd s a r n t) \<and>
          db w' = (db w)\<lparr>tunnels := map_rows (\<lambda>q. tun_ID q = i) (tunnel_state_upd s a r n) (tunnels (db w))\<rparr>)"
  using assms unfolding UpdateTunnelState_def Let_def
  by (elim run_elims)
    (auto 4 4 simp: through_def TunnelEnt_def dest!: run_dests find_SomeD dest: filter_singleton_only
      split: sum.splits)


text \<open>
  Whatever fails, the closing loop has closed some of the rows it was given, and all of them when it
  reports no error.
\<close>

lemma map_rows_twice:
  assumes "\<And>r. P r \<Longrightarrow> \<not> Q r \<Longrightarrow> P (f r)" and "\<And>r. f (f r) = f r" and "\<And>r. Q (f r) = Q r"
  shows "map_rows Q f (map_rows P f rows) = map_rows (\<lambda>r. P r \<or> Q r) f rows"
  using assms by (auto simp: map_rows_def)

lemma closed_by_simps [simp]:
  "tun_ID (closed_by r n t) = tun_ID t" "closed_by r n (closed_by r n t) = closed_by r n t"
  by (simp_all add: closed_by_def)

lemma close_rows_run:
  assumes "run_state (close_rows E now rs) w = (out, w')"
  shows "\<exists>S \<subseteq> tun_ID ` set rs. (out = None \<longrightarrow> S = tun_ID ` set rs) \<and> open_tx w' = open_tx w \<and>
     db w' = (db w)\<lparr>tunnels := map_rows (\<lambda>r. tun_ID r \<in> S) (closed_by ''ttl_expired'' now) (tunnels (db w))\<rparr>"
  using assms
proof (induction rs arbitrary: w)
  case Nil
  then show ?case by (auto simp: map_rows_def)
next
  case (Cons row rs)
  obtain u w1 where u: "run_state (ent_update_one E TunnelEnt True (tun_ID row)
        (closed_by ''ttl_expired'' now)) w = (u, w1)"
    and rest: "run_state (case u of Inl e \<Rightarrow> if e \<noteq> EntNotFound then ret (Some e) else close_rows E now rs
        | Inr _ \<Rightarrow> close_rows E now rs) w1 = (out, w')"
    by (rule run_bindE [OF Cons.prems [unfolded close_rows.simps]]; rule that; assumption)
  let ?m = "\<lambda>S. map_rows (\<lambda>r. tun_ID r \<in> S) (closed_by ''ttl_expired'' now)"
  consider (stop) "out \<noteq> None" "db w' = db w" "open_tx w' = open_tx w"
    | (go) "run_state (close_rows E now rs) w1 = (out, w')" "open_tx w1 = open_tx w"
        "db w1 = (db w)\<lparr>tunnels := ?m {tun_ID row} (tunnels (db w))\<rparr>"
  proof -
    have none: "?m {tun_ID row} (tunnels (db w)) = tunnels (db w)"
      if "\<forall>r \<in> set (tunnels (db w)). tun_ID r \<noteq> tun_ID row"
      using that by (intro map_rows_none) auto
    show ?thesis
    proof (cases u)
      case (Inl e)
      then have same: "db w1 = db w" "open_tx w1 = open_tx w"
        and gone: "e = EntNotFound \<Longrightarrow> \<forall>r \<in> set (tunnels (db w)). tun_ID r \<noteq> tun_ID row"
        using update_one_run [OF u] by auto
      show ?thesis
      proof (cases "e = EntNotFound")
        case True
        with rest Inl same none [OF gone] show ?thesis by (intro go) simp_all
      next
        case False
        with rest Inl same show ?thesis by (intro stop) auto
      qed
    next
      case (Inr q)
      with rest update_one_run [OF u] show ?thesis by (intro go) simp_all
    qed
  qed
  then show ?case
  proof cases
    case stop
    then show ?thesis by (intro exI [of _ "{}"]) (auto simp: map_rows_def)
  next
    case go
    from Cons.IH [OF go(1)] obtain S where S: "S \<subseteq> tun_ID ` set rs"
      "out = None \<longrightarrow> S = tun_ID ` set rs" "open_tx w' = open_tx w1"
      "db w' = (db w1)\<lparr>tunnels := ?m S (tunnels (db w1))\<rparr>" by blast
    have "?m S (?m {tun_ID row} (tunnels (db w))) = ?m (insert (tun_ID row) S) (tunnels (db w))"
      by (subst map_rows_twice) (auto simp: map_rows_def)
    with S go show ?thesis by (intro exI [of _ "insert (tun_ID row) S"]) auto
  qed
qed

lemma CloseExpiredTunnels_run:
  assumes "run_state (CloseExpiredTunnels E now0) w = (out, w')" and "store_wf (db w)"
  defines "now \<equiv> if now0 \<le> 0 then clock E (tick w) else now0"
  shows "open_tx w' = open_tx w \<and>
     (\<exists>P. (\<forall>t \<in> set (tunnels (db w)). P t \<longrightarrow> expired_tunnel now t) \<and>
       db w' = (db w)\<lparr>tunnels := map_rows P (closed_by ''ttl_expired'' now) (tunnels (db w))\<rparr> \<and>
       (case out of Inl _ \<Rightarrow> True
        | Inr n \<Rightarrow> n = length (filter (expired_tunnel now) (tunnels (db w))) \<and>
           (\<forall>t \<in> set (tunnels (db w)). expired_tunnel now t \<longrightarrow> P t)))"
proof -
  have uniq: "expired_tunnel now t" if "t \<in> set (tunnels (db w))"
    "tun_ID t \<in> tun_ID ` set (filter (expired_tunnel now) (tunnels (db w)))" for t
  proof -
    from that obtain q where q: "q \<in> set (tunnels (db w))" "expired_tunnel now q" "tun_ID q = tun_ID t"
      by auto
    have "distinct (map tun_ID (tunnels (db w)))"
      using TunnelTbl.wf_free [OF assms(2)] rows_free_distinct_ids by (metis TunnelEnt_simps(1,3))
    with q that(1) show ?thesis by (metis distinct_map inj_onD)
  qed
  obtain x w1 where
    x: "run_state (if now0 \<le> 0 then unixNow E else ret now0) w = (x, w1)" and
    rest: "run_state (do {
       rows \<leftarrow> ent_all E TunnelEnt (expired_tunnel x) (\<lambda>rs. rs);
       case rows of
         Inl e \<Rightarrow> ret (Inl (ErrEnt e))
       | Inr rs \<Rightarrow> do {
           failed \<leftarrow> close_rows E x rs;
           ret (case failed of Some e \<Rightarrow> Inl (ErrEnt e) | None \<Rightarrow> Inr (length rs))
         }
     }) w1 = (out, w')"
    by (rule run_bindE [OF assms(1) [unfolded CloseExpiredTunnels_def]]; rule that; assumption)
  from x have now: "db w1 = db w" "open_tx w1 = open_tx w" and "x = now"
    unfolding now_def by (auto split: if_splits)
  from rest [unfolded this(3)] show ?thesis
  proof (elim run_elims)
    fix x e w2
    assume "run_state (ent_all E TunnelEnt (expired_tunnel now) (\<lambda>rs. rs)) w1 = (x, w2)" "x = Inl e"
      "Inl (ErrEnt e) = out" "w' = w2"
    then show ?thesis using now
      by (auto dest!: all_run intro!: exI [of _ "\<lambda>_. False"] simp: map_rows_def)
  next
    fix x rs w2 failed w3
    assume a: "run_state (ent_all E TunnelEnt (expired_tunnel now) (\<lambda>rs. rs)) w1 = (x, w2)" "x = Inr rs"
      and c: "run_state (close_rows E now rs) w2 = (failed, w3)" and
      r: "(case failed of None \<Rightarrow> Inr (length rs) | Some e \<Rightarrow> Inl (ErrEnt e)) = out" "w' = w3"
    from all_run [OF a(1)] a(2) now have rs: "rs = filter (expired_tunnel now) (tunnels (db w))"
      "db w2 = db w" "open_tx w2 = open_tx w" by auto
    from close_rows_run [OF c] obtain S where S: "S \<subseteq> tun_ID ` set rs" "failed = None \<longrightarrow> S = tun_ID ` set rs"
      "open_tx w3 = open_tx w2" "db w3 = (db w2)\<lparr>tunnels :=
         map_rows (\<lambda>r. tun_ID r \<in> S) (closed_by ''ttl_expired'' now) (tunnels (db w2))\<rparr>" by blast
    have "\<forall>t \<in> set (tunnels (db w)). tun_ID t \<in> S \<longrightarrow> expired_tunnel now t"
      using S(1) uniq unfolding rs(1) by blast
    moreover have "case out of Inl _ \<Rightarrow> True
        | Inr n \<Rightarrow> n = length (filter (expired_tunnel now) (tunnels (db w))) \<and>
           (\<forall>t \<in> set (tunnels (db w)). expired_tunnel now t \<longrightarrow> tun_ID t \<in> S)"
    proof (cases failed)
      case None
      with S(2) have "S = tun_ID ` set rs" by simp
      with None r(1) rs(1) show ?thesis by auto
    qed (use r(1) in auto)
    moreover have "open_tx w' = open_tx w" using S(3) r(2) rs(3) by simp
    ultimately show ?thesis using S(4) r(2) rs(2) by auto
  qed
qed


lemma UpdateTunnelState_advances:
  "tunnels_advance (db w) (db (after (UpdateTunnelState E i s a r) w))"
proof -
  obtain out w' where run: "run_state (UpdateTunnelState E i s a r) w = (out, w')" by fastforce
  have "tunnels_advance (db w) (db w')"
  proof (cases out)
    case (Inl e)
    then show ?thesis using UpdateTunnelState_run [OF run] by (auto intro: tunnels_advance_mono)
  next
    case (Inr u)
    then obtain t n where t: "filter (\<lambda>q. tun_ID q = i) (tunnels (db w)) = [t]"
      "validTunnelTransition (tun_State t) s"
      "tunnels (db w') = map_rows (\<lambda>q. tun_ID q = i) (tunnel_state_upd s a r n) (tunnels (db w))"
      using UpdateTunnelState_run [OF run] by auto
    show ?thesis
      using filter_singleton_only [OF t(1)] t(2) state_upd_moves by (intro tunnels_advance_rows [OF _ t(3)]) blast
  qed
  with run show ?thesis by simp
qed

lemma CloseExpiredTunnels_advances:
  assumes "store_wf (db w)"
  shows "tunnels_advance (db w) (db (after (CloseExpiredTunnels E now) w))"
proof -
  obtain out w' where run: "run_state (CloseExpiredTunnels E now) w = (out, w')" by fastforce
  from CloseExpiredTunnels_run [OF run assms] obtain P n where
    P: "\<forall>t \<in> set (tunnels (db w)). P t \<longrightarrow> expired_tunnel n t"
      "tunnels (db w') = map_rows P (closed_by ''ttl_expired'' n) (tunnels (db w))"
    by auto
  have "tunnels_advance (db w) (db w')"
    using P(1) by (intro tunnels_advance_rows [OF _ P(2)] closed_by_moves) (auto simp: expired_tunnel_def)
  with run show ?thesis by simp
qed

lemma CreateTunnel_advances: "tunnels_advance (db w) (db (after (CreateTunnel E rs t) w))"
proof -
  have "keeps (on_db (tunnels_advance d)) (CreateTunnel E rs t)" for d
    unfolding CreateTunnel_def Let_def
    by (intro keeps_rules keeps_ent_create) (auto simp: tunnels_advance_def)
  from keepsD [OF this [of "db w"], of w] show ?thesis by (auto intro: tunnels_advance_mono)
qed

lemma CloseTunnelsForComputer_advances:
  "tunnels_advance (db w) (db (after (CloseTunnelsForComputer E c r) w))"
proof -
  have "keeps (on_db (tunnels_advance d)) (CloseTunnelsForComputer E c r)" for d
    unfolding CloseTunnelsForComputer_def
    by (intro keeps_rules keeps_ent_update_where;
        erule tunnels_advance_trans; rule tunnels_advance_rows [where f = "closed_by r x" for x];
        simp add: closed_by_moves)
  from keepsD [OF this [of "db w"], of w] show ?thesis by (auto intro: tunnels_advance_mono)
qed

text \<open>Any number of calls of the operations that write the tunnel table.\<close>

inductive tunnel_steps :: "senv \<Rightarrow> rand_source \<Rightarrow> store world \<Rightarrow> store world \<Rightarrow> bool" for E rs where
  idle: "tunnel_steps E rs w w"
| created: "tunnel_steps E rs w w1 \<Longrightarrow> tunnel_steps E rs w (after (CreateTunnel E rs t) w1)"
| moved: "tunnel_steps E rs w w1 \<Longrightarrow> tunnel_steps E rs w (after (UpdateTunnelState E i s a r) w1)"
| expired: "tunnel_steps E rs w w1 \<Longrightarrow> tunnel_steps E rs w (after (CloseExpiredTunnels E now) w1)"
| dropped: "tunnel_steps E rs w w1 \<Longrightarrow> tunnel_steps E rs w (after (CloseTunnelsForComputer E c r) w1)"

lemma tunnel_steps_advance:
  assumes "tunnel_steps E rs w w'" and "store_wf (db w)"
  shows "store_wf (db w') \<and> tunnels_advance (db w) (db w')"
  using assms
proof (induction rule: tunnel_steps.induct)
  case (idle w)
  then show ?case by (auto intro: tunnels_advance_mono)
next
  case (created w w1 t)
  then show ?case
    using keepsD [OF CreateTunnel_wf, of w1] CreateTunnel_advances tunnels_advance_trans by blast
next
  case (moved w w1 i s a r)
  then show ?case
    using keepsD [OF UpdateTunnelState_wf, of w1] UpdateTunnelState_advances tunnels_advance_trans by blast
next
  case (expired w w1 now)
  then show ?case
    using keepsD [OF CloseExpiredTunnels_wf, of w1] CloseExpiredTunnels_advances tunnels_advance_trans by blast
next
  case (dropped w w1 c r)
  then show ?case
    using keepsD [OF CloseTunnelsForComputer_wf, of w1] CloseTunnelsForComputer_advances tunnels_advance_trans
    by blast
qed

text \<open>
  C7: after any sequence of calls of the operations that write the tunnel table, under
  any fault schedule, every tunnel that was there is there under the same identifier, token and
  computer, and its state is the old one or one that \<^verbatim>\<open>validTunnelTransition\<close> allows from it: a
  closed or rejected tunnel is never reopened.
\<close>

theorem tunnel_lifecycle:
  assumes "tunnel_steps E rs w w'" and "store_wf (db w)" and "t \<in> set (tunnels (db w))"
  shows "\<exists>t' \<in> set (tunnels (db w')). tun_ID t' = tun_ID t \<and> tun_Token t' = tun_Token t \<and>
     tun_ComputerID t' = tun_ComputerID t \<and>
     (if tun_State t \<in> {''closed'', ''rejected''} then tun_State t' = tun_State t
      else tun_State t' = tun_State t \<or> validTunnelTransition (tun_State t) (tun_State t'))"
  using tunnel_steps_advance [OF assms(1,2)] assms(3)
  by (fastforce simp: tunnels_advance_def tunnel_moves_def validTunnelTransition_def split: if_splits)

definition demo_tunnel :: "string \<Rightarrow> string \<Rightarrow> TunnelRecord" where
  "demo_tunnel i state =
     \<lparr>tun_ID = i, tun_Token = i, tun_ComputerID = ''c'', tun_DaemonID = ''d'', tun_LocalPort = 80,
      tun_Label = [], tun_State = state, tun_AccessPolicy = ''private'', tun_CreatorID = ''u'',
      tun_CreatorKind = ''user'', tun_CreatedUnix = 1, tun_ExpiresUnix = 9, tun_ApprovedUnix = 0,
      tun_ApprovedBy = [], tun_ClosedUnix = 0, tun_CloseReason = [], tun_PublicURL = []\<rparr>"

definition demo_tunnel_store :: store where
  "demo_tunnel_store = empty_store\<lparr>tunnels := [demo_tunnel ''t1'' ''closed'', demo_tunnel ''t2'' ''active'']\<rparr>"

lemma demo_tunnel_store_wf: "store_wf demo_tunnel_store" by code_simp

theorem tunnel_lifecycle_witness:
  "\<exists>t' \<in> set (tunnels (db (after (UpdateTunnelState demo_env ''t1'' ''active'' ''u'' []) (world_of demo_tunnel_store)))).
     tun_ID t' = ''t1'' \<and> tun_State t' = ''closed''"
proof -
  have "tunnel_steps demo_env (\<lambda>_ _. Inl ErrInvalid) (world_of demo_tunnel_store)
      (after (UpdateTunnelState demo_env ''t1'' ''active'' ''u'' []) (world_of demo_tunnel_store))"
    by (intro tunnel_steps.intros)
  moreover have "demo_tunnel ''t1'' ''closed'' \<in> set (tunnels (db (world_of demo_tunnel_store)))"
    by (simp add: demo_tunnel_store_def)
  ultimately obtain t' where "t' \<in> set (tunnels (db (after (UpdateTunnelState demo_env ''t1'' ''active'' ''u'' [])
      (world_of demo_tunnel_store))))" "tun_ID t' = ''t1''" "tun_State t' = ''closed''"
    using tunnel_lifecycle [of demo_env _ "world_of demo_tunnel_store" _ "demo_tunnel ''t1'' ''closed''"]
      demo_tunnel_store_wf by (fastforce simp: demo_tunnel_def)
  then show ?thesis by blast
qed

text \<open>
  When the sweep reports success, the tunnels it closed are exactly the
  pending and active ones whose expiry time had passed, each with its other columns unchanged, it
  reports their number, and no tunnel that is due is left.
\<close>

theorem tunnels_expire_exactly:
  assumes "run_state (CloseExpiredTunnels E now) w = (Inr n, w')" and "store_wf (db w)" and "0 < now"
  shows "tunnels (db w') = map (\<lambda>t. if expired_tunnel now t then closed_by ''ttl_expired'' now t else t)
       (tunnels (db w)) \<and>
     n = length (filter (expired_tunnel now) (tunnels (db w))) \<and>
     filter (expired_tunnel now) (tunnels (db w')) = []"
proof -
  from assms(3) have now: "(if now \<le> 0 then clock E (tick w) else now) = now" by simp
  from CloseExpiredTunnels_run [OF assms(1,2), unfolded now sum.case] obtain P where
    P: "\<forall>t \<in> set (tunnels (db w)). P t \<longrightarrow> expired_tunnel now t"
      "db w' = (db w)\<lparr>tunnels := map_rows P (closed_by ''ttl_expired'' now) (tunnels (db w))\<rparr>"
      "\<forall>t \<in> set (tunnels (db w)). expired_tunnel now t \<longrightarrow> P t"
    and n: "n = length (filter (expired_tunnel now) (tunnels (db w)))" by (elim conjE exE)
  from P(1,3) have "map_rows P f (tunnels (db w)) = map_rows (expired_tunnel now) f (tunnels (db w))" for f
    unfolding map_rows_def by (intro map_cong) auto
  with P(2) have "tunnels (db w') = map (\<lambda>t. if expired_tunnel now t then closed_by ''ttl_expired'' now t else t)
       (tunnels (db w))" by (simp add: map_rows_def)
  moreover have "\<not> expired_tunnel now (if expired_tunnel now t then closed_by ''ttl_expired'' now t else t)" for t
    by (simp add: expired_tunnel_def closed_by_def open_states_def)
  ultimately show ?thesis using n by (simp add: filter_map comp_def)
qed

definition demo_sweep :: "(err + nat) \<times> store world" where
  "demo_sweep = run_state (CloseExpiredTunnels demo_env 20) (world_of demo_tunnel_store)"

theorem tunnels_expire_exactly_witness:
  "fst demo_sweep = Inr 1 \<and> filter (expired_tunnel 20) (tunnels (db (snd demo_sweep))) = []"
proof -
  have r: "fst demo_sweep = Inr 1" by code_simp
  then have "run_state (CloseExpiredTunnels demo_env 20) (world_of demo_tunnel_store) =
      (Inr 1, snd demo_sweep)" by (metis demo_sweep_def prod.collapse)
  from tunnels_expire_exactly [OF this] r demo_tunnel_store_wf show ?thesis by (metis world_of_simps(1) zero_less_numeral)
qed

section \<open>Tokens\<close>

lemma RawURLEncode_inj: "bytes bs \<Longrightarrow> bytes cs \<Longrightarrow> RawURLEncode bs = RawURLEncode cs \<Longrightarrow> bs = cs"
  by (metis RawURLDecode_encode option.inject)

text \<open>What a successful insert did: it stored the row it returns, under a token that was free.\<close>

lemma CreateTunnel_run:
  assumes "run_state (CreateTunnel E rs t) w = (Inr u, w')"
  shows "db w' = (db w)\<lparr>tunnels := tunnels (db w) @ [u]\<rparr> \<and> \<not> list_ex (clash TunnelEnt u) (tunnels (db w)) \<and>
     tunnelFromEnt u = u \<and>
     (if tun_Token t = [] then \<exists>n bs. rs n 32 = Inr bs \<and> tun_Token u = RawURLEncode bs
      else tun_Token u = tun_Token t)"
proof -
  have same: "tunnelFromEnt r = r" if "tun_PublicURL r = []" for r
    using that by (simp add: tunnelFromEnt_def)
  from assms show ?thesis unfolding CreateTunnel_def NewTunnelToken_def Let_def
    apply (elim run_elims) 
    apply (simp_all only: sum.distinct sum.inject through_Inr_iff split: sum.splits)
    apply (auto simp: same dest!: now_run drawn_run defaultID_run create_run)
    apply metis+
    done
qed

text \<open>
  A tunnel created without a token gets a token of 43 characters from the
  URL-safe alphabet that encodes the 32 random bytes without loss, and looking that token up finds
  exactly this tunnel. (The random source fills the buffer it is given with bytes.)
\<close>

theorem tunnel_token_resolves:
  assumes "\<And>n k bs. rs n k = Inr bs \<Longrightarrow> bytes bs \<and> length bs = k" and "no_faults E"
    and "tun_Token t = []" and "run_state (CreateTunnel E rs t) w = (Inr u, w')"
  shows "length (tun_Token u) = 43 \<and> list_all (\<lambda>c. b64_index c \<noteq> None) (tun_Token u) \<and>
     (\<exists>n bs. rs n 32 = Inr bs \<and> RawURLDecode (tun_Token u) = Some bs) \<and>
     result_of (GetTunnelByToken E (tun_Token u)) w' = Inr u"
proof -
  from CreateTunnel_run [OF assms(4)] assms(3) obtain n bs where
    d: "tunnels (db w') = tunnels (db w) @ [u]" "\<not> list_ex (clash TunnelEnt u) (tunnels (db w))"
    and tok: "rs n 32 = Inr bs" "tun_Token u = RawURLEncode bs" and "tunnelFromEnt u = u" by auto
  moreover have "filter (\<lambda>r. tun_Token r = tun_Token u) (tunnels (db w')) = [u]"
    using d by (auto simp: filter_empty_conv list_ex_iff clash_def TunnelEnt_def)
  ultimately have "result_of (GetTunnelByToken E (tun_Token u)) w' = Inr u"
    using assms(2) by (simp add: GetTunnelByToken_def ent_only_def run_stmt)
  moreover have "bytes bs" "length bs = 32" using assms(1) [OF tok(1)] by auto
  ultimately show ?thesis
    using tok RawURLEncode_length [of bs] RawURLEncode_alphabet [of bs] RawURLDecode_encode [of bs] by auto
qed

definition demo_rand :: rand_source where
  "demo_rand n k = Inr (replicate k 7)"

theorem tunnel_token_resolves_witness:
  "\<exists>u. fst (run_state (CreateTunnel demo_env demo_rand ((demo_tunnel [] ''active'')\<lparr>tun_Token := []\<rparr>)) (world_of empty_store)) = Inr u \<and>
     length (tun_Token u) = 43"
proof -
  let ?m = "CreateTunnel demo_env demo_rand ((demo_tunnel [] ''active'')\<lparr>tun_Token := []\<rparr>)"
  have "\<not> isl (fst (run_state ?m (world_of empty_store)))" by code_simp
  then obtain u where u: "fst (run_state ?m (world_of empty_store)) = Inr u" by (cases "fst (run_state ?m (world_of empty_store))") auto
  then have "run_state ?m (world_of empty_store) = (Inr u, snd (run_state ?m (world_of empty_store)))"
    by (metis prod.collapse)
  from tunnel_token_resolves [OF _ _ _ this] u show ?thesis
    by (auto simp: demo_rand_def demo_tunnel_def list_all_iff)
qed

end
