(* ===== verification/Rate_Limit.thy ===== *)
theory Rate_Limit
  imports Complex_Main Prelude "HOL-Library.AList" "HOL-Library.Signed_Division"
begin

text \<open>
  The token buckets of the program: the limiter of preview requests per tunnel
  (\<^verbatim>\<open>internal/server/tunnel_ratelimit.go\<close>) and the limiter of outgoing chat messages per provider
  (\<^verbatim>\<open>internal/imadapter/outgoing_ratelimit.go\<close>). Times are nanoseconds of the monotonic clock. A
  \<^verbatim>\<open>float64\<close> is the rational it denotes, and every floating-point operation is the exact operation
  followed by \<open>rnd\<close>, the rounding of the hardware.
\<close>

section \<open>Floating point\<close>

text \<open>What the code relies on: rounding is monotone and leaves integers up to $2^{53}$ alone.\<close>

definition float64_rounding :: "(rat \<Rightarrow> rat) \<Rightarrow> bool" where
  "float64_rounding rnd \<longleftrightarrow>
     mono rnd \<and> (\<forall>n :: int. \<bar>n\<bar> \<le> 2 ^ 53 \<longrightarrow> rnd (of_int n) = of_int n)"

lemma float64_mono: "float64_rounding rnd \<Longrightarrow> x \<le> y \<Longrightarrow> rnd x \<le> rnd y"
  by (simp add: float64_rounding_def monoD)

lemma float64_int: "float64_rounding rnd \<Longrightarrow> \<bar>n\<bar> \<le> 2 ^ 53 \<Longrightarrow> rnd (of_int n) = of_int n"
  by (simp add: float64_rounding_def)

lemma float64_exact: "float64_rounding (\<lambda>x. x)"
  by (simp add: float64_rounding_def mono_def)

text \<open>A rounded value lies between two representable integers when the exact one does.\<close>

lemma float64_le: "float64_rounding rnd \<Longrightarrow> x \<le> of_int n \<Longrightarrow> \<bar>n\<bar> \<le> 2 ^ 53 \<Longrightarrow> rnd x \<le> of_int n"
  using float64_mono float64_int by metis

lemma float64_ge: "float64_rounding rnd \<Longrightarrow> of_int n \<le> x \<Longrightarrow> \<bar>n\<bar> \<le> 2 ^ 53 \<Longrightarrow> of_int n \<le> rnd x"
  using float64_mono float64_int by metis

text \<open>\<^verbatim>\<open>Duration.Seconds\<close>: whole seconds plus the rest, each converted and added in floating point.\<close>

definition Seconds :: "(rat \<Rightarrow> rat) \<Rightarrow> int \<Rightarrow> rat" where
  "Seconds rnd d =
     rnd (rnd (of_int (d sdiv 1000000000)) + rnd (rnd (of_int (d smod 1000000000)) / 1000000000))"

lemma sdiv_smod_pos: "0 \<le> d \<Longrightarrow> d sdiv 1000000000 = d div 1000000000 \<and> d smod 1000000000 = d mod 1000000000"
  for d :: int
  by (simp add: signed_divide_int_def signed_modulo_int_def sgn_if minus_div_mult_eq_mod)

lemma Seconds_exact: "0 \<le> d \<Longrightarrow> Seconds (\<lambda>x. x) d = of_int d / 1000000000"
proof -
  assume "0 \<le> d"
  then have "Seconds (\<lambda>x. x) d = of_int (d div 1000000000) + of_int (d mod 1000000000) / 1000000000"
    using sdiv_smod_pos by (simp add: Seconds_def)
  moreover have "(of_int d :: rat) = of_int (d div 1000000000) * 1000000000 + of_int (d mod 1000000000)"
    by (metis div_mult_mod_eq of_int_add of_int_mult of_int_numeral)
  ultimately show ?thesis by (simp add: add_divide_distrib)
qed

text \<open>A duration of at least \<open>n\<close> seconds has at least \<open>n\<close> floating-point seconds.\<close>

lemma Seconds_ge:
  assumes "float64_rounding rnd" and "n * 1000000000 \<le> d" and "0 \<le> n" and "n \<le> 2 ^ 53"
  shows "of_int n \<le> Seconds rnd d"
proof -
  have d: "0 \<le> d" using assms(2,3) by linarith
  then have "n \<le> d div 1000000000" using assms(2) by linarith
  then have "of_int n \<le> rnd (of_int (d sdiv 1000000000))"
    using float64_ge [OF assms(1), of n] assms(3,4) sdiv_smod_pos [OF d] by simp
  moreover have "0 \<le> rnd (of_int (d smod 1000000000))"
    using float64_ge [OF assms(1), of 0] sdiv_smod_pos [OF d] by auto
  then have "0 \<le> rnd (rnd (of_int (d smod 1000000000)) / 1000000000)"
    using float64_ge [OF assms(1), of 0] by auto
  ultimately show ?thesis
    unfolding Seconds_def using float64_ge [OF assms(1), of n] assms(3,4) by simp
qed

lemma Seconds_nonneg: "float64_rounding rnd \<Longrightarrow> 0 \<le> d \<Longrightarrow> 0 \<le> Seconds rnd d"
  using Seconds_ge [of rnd 0 d] by simp

lemma Seconds_0: "float64_rounding rnd \<Longrightarrow> Seconds rnd 0 = 0"
  using float64_int [of rnd 0] by (simp add: Seconds_def sdiv_smod_pos)

section \<open>The tunnel limiter\<close>

record tunnelBucket =
  tokens :: rat
  lastSeen :: int

record tunnelRateLimiter =
  capacity :: rat
  refillPerSec :: rat
  idleCutoff :: int
  buckets :: "(string \<times> tunnelBucket) list"

definition newTunnelRateLimiter :: tunnelRateLimiter where
  "newTunnelRateLimiter =
     \<lparr>capacity = 40, refillPerSec = 20, idleCutoff = 5 * 60 * 1000000000, buckets = []\<rparr>"

definition refilled :: "(rat \<Rightarrow> rat) \<Rightarrow> tunnelRateLimiter \<Rightarrow> int \<Rightarrow> tunnelBucket \<Rightarrow> tunnelBucket" where
  "refilled rnd l now b =
     (let elapsed = Seconds rnd (now - lastSeen b)
      in \<lparr>tokens =
            (if 0 < elapsed
             then let t = rnd (tokens b + rnd (elapsed * refillPerSec l))
                  in if capacity l < t then capacity l else t
             else tokens b),
          lastSeen = now\<rparr>)"

text \<open>The sweep of idle entries; deleting while iterating is what the source does.\<close>

definition sweep :: "tunnelRateLimiter \<Rightarrow> int \<Rightarrow> string \<Rightarrow> (string \<times> tunnelBucket) list \<Rightarrow>
    (string \<times> tunnelBucket) list" where
  "sweep l now tunnelID bs =
     (if 16 < length bs
      then filter (\<lambda>(i, b). \<not> (i \<noteq> tunnelID \<and> lastSeen b < now - idleCutoff l)) bs
      else bs)"

definition Allow :: "(rat \<Rightarrow> rat) \<Rightarrow> int \<Rightarrow> string \<Rightarrow> tunnelRateLimiter \<Rightarrow> bool \<times> tunnelRateLimiter" where
  "Allow rnd now tunnelID l =
     (let bucket = (case map_of (buckets l) tunnelID of
            Some b \<Rightarrow> b
          | None \<Rightarrow> \<lparr>tokens = capacity l, lastSeen = now\<rparr>);
          b = refilled rnd l now bucket;
          swept = sweep l now tunnelID (AList.update tunnelID b (buckets l))
      in if tokens b < 1 then (False, l\<lparr>buckets := swept\<rparr>)
         else (True, l\<lparr>buckets := AList.update tunnelID (b\<lparr>tokens := rnd (tokens b - 1)\<rparr>) swept\<rparr>))"

text \<open>A sequence of requests, each with the time of the call.\<close>

fun AllowAll :: "(rat \<Rightarrow> rat) \<Rightarrow> tunnelRateLimiter \<Rightarrow> (int \<times> string) list \<Rightarrow> bool list" where
  "AllowAll rnd l [] = []"
| "AllowAll rnd l ((now, i) # rs) =
     (let (ok, l') = Allow rnd now i l in ok # AllowAll rnd l' rs)"

section \<open>The sweep is not observable\<close>

text \<open>
  The specification of the limiter: one bucket per tunnel, kept for ever. The limits are those of
  \<^verbatim>\<open>newTunnelRateLimiter\<close>.
\<close>

definition fresh_bucket :: "int \<Rightarrow> tunnelBucket" where
  "fresh_bucket now = \<lparr>tokens = 40, lastSeen = now\<rparr>"

definition bucket_at :: "(rat \<Rightarrow> rat) \<Rightarrow> int \<Rightarrow> tunnelBucket option \<Rightarrow> tunnelBucket" where
  "bucket_at rnd now b = refilled rnd newTunnelRateLimiter now (the_or (fresh_bucket now) b)"

definition spend :: "(rat \<Rightarrow> rat) \<Rightarrow> tunnelBucket \<Rightarrow> bool \<times> tunnelBucket" where
  "spend rnd b = (if tokens b < 1 then (False, b) else (True, b\<lparr>tokens := rnd (tokens b - 1)\<rparr>))"

fun SpecAll :: "(rat \<Rightarrow> rat) \<Rightarrow> (string \<rightharpoonup> tunnelBucket) \<Rightarrow> (int \<times> string) list \<Rightarrow> bool list" where
  "SpecAll rnd s [] = []"
| "SpecAll rnd s ((now, i) # rs) =
     (let (ok, b) = spend rnd (bucket_at rnd now (s i)) in ok # SpecAll rnd (s(i \<mapsto> b)) rs)"

definition bucket_ok :: "int \<Rightarrow> tunnelBucket \<Rightarrow> bool" where
  "bucket_ok now b \<longleftrightarrow> 0 \<le> tokens b \<and> tokens b \<le> 40 \<and> lastSeen b \<le> now"

lemma refilled_tokens_le: "tokens b \<le> 40 \<Longrightarrow> tokens (refilled rnd newTunnelRateLimiter now b) \<le> 40"
  by (simp add: refilled_def newTunnelRateLimiter_def Let_def)

lemma refilled_ok:
  assumes "float64_rounding rnd" and "bucket_ok t b"
  shows "bucket_ok now (refilled rnd newTunnelRateLimiter now b)"
proof -
  have "0 \<le> rnd (tokens b + rnd (Seconds rnd (now - lastSeen b) * 20))" if "0 < Seconds rnd (now - lastSeen b)"
  proof -
    have "0 \<le> rnd (Seconds rnd (now - lastSeen b) * 20)"
      using float64_ge [OF assms(1), of 0] that by simp
    then show ?thesis using float64_ge [OF assms(1), of 0] assms(2) by (simp add: bucket_ok_def)
  qed
  with assms(2) show ?thesis
    by (auto simp: bucket_ok_def refilled_def newTunnelRateLimiter_def Let_def)
qed

lemma fresh_ok [simp]: "bucket_ok now (fresh_bucket now)"
  by (simp add: bucket_ok_def fresh_bucket_def)

lemma bucket_at_ok:
  "float64_rounding rnd \<Longrightarrow> (\<And>x. b = Some x \<Longrightarrow> bucket_ok t x) \<Longrightarrow> bucket_ok now (bucket_at rnd now b)"
  by (cases b) (auto simp: bucket_at_def intro: refilled_ok refilled_ok [OF _ fresh_ok])

lemma spend_ok:
  assumes "float64_rounding rnd" and "bucket_ok now b"
  shows "bucket_ok now (snd (spend rnd b))"
proof -
  have "rnd (tokens b - 1) \<le> 40" "1 \<le> tokens b \<Longrightarrow> 0 \<le> rnd (tokens b - 1)"
    using float64_le [OF assms(1), of "tokens b - 1" 40] float64_ge [OF assms(1), of 0 "tokens b - 1"] assms(2)
    by (simp_all add: bucket_ok_def)
  with assms(2) show ?thesis by (auto simp: bucket_ok_def spend_def)
qed

text \<open>After five minutes without a request a bucket is full again, like a new one.\<close>

lemma idle_bucket_full:
  assumes "float64_rounding rnd" and "bucket_ok t b" and "lastSeen b < now - 300000000000"
  shows "bucket_at rnd now (Some b) = bucket_at rnd now None"
proof -
  have "300 \<le> Seconds rnd (now - lastSeen b)"
    using Seconds_ge [OF assms(1), of 300 "now - lastSeen b"] assms(3) by simp
  then have e: "0 < Seconds rnd (now - lastSeen b)" "6000 \<le> rnd (Seconds rnd (now - lastSeen b) * 20)"
    using float64_ge [OF assms(1), of 6000] by auto
  then have "6000 \<le> rnd (tokens b + rnd (Seconds rnd (now - lastSeen b) * 20))"
    using float64_ge [OF assms(1), of 6000] assms(2) by (simp add: bucket_ok_def)
  with e show ?thesis
    by (simp add: bucket_at_def refilled_def newTunnelRateLimiter_def fresh_bucket_def Let_def
        Seconds_0 [OF assms(1)])
qed

lemma map_of_filter_keys:
  assumes "distinct (map fst al)"
  shows "map_of (filter (\<lambda>(i, b). P i b) al) i =
     (case map_of al i of None \<Rightarrow> None | Some b \<Rightarrow> if P i b then Some b else None)"
  using assms
proof (induction al)
  case (Cons kv al)
  obtain k v where kv: "kv = (k, v)" by (cases kv)
  with Cons have "map_of al k = None" by (auto simp: map_of_eq_None_iff)
  with Cons kv show ?case by (auto split: option.splits)
qed simp

text \<open>
  The simulation: the limiter agrees with the specification wherever it has a bucket, and where it
  has none the one of the specification has been idle long enough.
\<close>

definition limiter_sim :: "int \<Rightarrow> tunnelRateLimiter \<Rightarrow> (string \<rightharpoonup> tunnelBucket) \<Rightarrow> bool" where
  "limiter_sim now l s \<longleftrightarrow>
     l\<lparr>buckets := []\<rparr> = newTunnelRateLimiter \<and> distinct (map fst (buckets l)) \<and>
     (\<forall>i b. map_of (buckets l) i = Some b \<longrightarrow> s i = Some b) \<and>
     (\<forall>i b. s i = Some b \<longrightarrow> bucket_ok now b \<and>
        (map_of (buckets l) i = None \<longrightarrow> lastSeen b < now - 300000000000))"

lemma limiter_simD:
  assumes "limiter_sim t l s" and "s i = Some b"
  shows "bucket_ok t b" and "map_of (buckets l) i = None \<Longrightarrow> lastSeen b < t - 300000000000"
  using assms unfolding limiter_sim_def by blast+

lemma limiter_limits:
  assumes "l\<lparr>buckets := []\<rparr> = newTunnelRateLimiter"
  shows "capacity l = 40" "idleCutoff l = 300000000000" "refilled rnd l = refilled rnd newTunnelRateLimiter"
proof -
  from assms have "capacity (l\<lparr>buckets := []\<rparr>) = 40" "refillPerSec (l\<lparr>buckets := []\<rparr>) = 20"
    "idleCutoff (l\<lparr>buckets := []\<rparr>) = 300000000000"
    by (simp_all add: newTunnelRateLimiter_def)
  then show "capacity l = 40" "idleCutoff l = 300000000000"
    and "refilled rnd l = refilled rnd newTunnelRateLimiter"
    by (simp_all add: refilled_def newTunnelRateLimiter_def fun_eq_iff Let_def)
qed

lemma sweep_keys: "distinct (map fst bs) \<Longrightarrow> distinct (map fst (sweep l now i bs))"
  by (simp add: sweep_def distinct_map_filter)

lemma sweep_lookup:
  assumes "distinct (map fst bs)" and "idleCutoff l = 300000000000"
  shows "map_of (sweep l now i bs) i = map_of bs i"
    and "map_of (sweep l now i bs) j = Some b \<Longrightarrow> map_of bs j = Some b"
    and "map_of (sweep l now i bs) j = None \<Longrightarrow> map_of bs j = Some b \<Longrightarrow> lastSeen b < now - 300000000000"
  using assms map_of_filter_keys [OF assms(1), of "\<lambda>j b. \<not> (j \<noteq> i \<and> lastSeen b < now - 300000000000)"]
  by (auto simp: sweep_def split: option.splits if_splits)

lemma limiter_bucket:
  assumes "float64_rounding rnd" and "limiter_sim t l s" and "t \<le> now"
  shows "refilled rnd l now (case map_of (buckets l) i of Some b \<Rightarrow> b
       | None \<Rightarrow> \<lparr>tokens = capacity l, lastSeen = now\<rparr>) = bucket_at rnd now (s i)"
proof -
  note limits = limiter_limits [of l]
  have l: "l\<lparr>buckets := []\<rparr> = newTunnelRateLimiter" using assms(2) by (simp add: limiter_sim_def)
  show ?thesis
  proof (cases "map_of (buckets l) i")
    case (Some b)
    then have "s i = Some b" using assms(2) by (simp add: limiter_sim_def)
    with Some limits [OF l] show ?thesis by (simp add: bucket_at_def)
  next
    case None
    have "bucket_at rnd now None = bucket_at rnd now (s i)"
    proof (cases "s i")
      case (Some b)
      then have "bucket_ok t b" "lastSeen b < now - 300000000000"
        using limiter_simD [OF assms(2)] None assms(3) by fastforce+
      with Some idle_bucket_full [OF assms(1), of t b now] show ?thesis by simp
    qed simp
    with None limits [OF l] show ?thesis by (simp add: bucket_at_def fresh_bucket_def)
  qed
qed

lemma limiter_sim_update:
  assumes "limiter_sim t l s" and "t \<le> now" and "bucket_ok now b"
  shows "limiter_sim now (l\<lparr>buckets := AList.update i b (sweep l now i (AList.update i b0 (buckets l)))\<rparr>) (s(i \<mapsto> b))"
proof -
  let ?bs = "sweep l now i (AList.update i b0 (buckets l))"
  have l: "l\<lparr>buckets := []\<rparr> = newTunnelRateLimiter" and d: "distinct (map fst (AList.update i b0 (buckets l)))"
    using assms(1) by (auto simp: limiter_sim_def distinct_update)
  note lookup = sweep_lookup [OF d limiter_limits(2) [OF l], of now i]
  have "map_of ?bs j = Some c \<Longrightarrow> j \<noteq> i \<Longrightarrow> s j = Some c" for j c
    using lookup(2) [of j c] assms(1) unfolding limiter_sim_def update_conv' by simp
  moreover have "bucket_ok now c \<and> (map_of ?bs j = None \<longrightarrow> lastSeen c < now - 300000000000)"
    if "s j = Some c" "j \<noteq> i" for j c
  proof (cases "map_of (buckets l) j")
    case None
    then show ?thesis
      using limiter_simD [OF assms(1) that(1)] assms(2) by (simp add: bucket_ok_def)
  next
    case (Some c')
    then have "c' = c" using assms(1) that by (auto simp: limiter_sim_def)
    then show ?thesis
      using lookup(3) [of j c] Some limiter_simD [OF assms(1) that(1)] assms(2) that
      by (simp add: bucket_ok_def update_conv')
  qed
  ultimately show ?thesis
    using l d assms(3) sweep_keys [OF d] by (auto simp: limiter_sim_def update_conv' distinct_update)
qed

lemma Allow_sim:
  assumes "float64_rounding rnd" and "limiter_sim t l s" and "t \<le> now"
  shows "fst (Allow rnd now i l) = fst (spend rnd (bucket_at rnd now (s i))) \<and>
     limiter_sim now (snd (Allow rnd now i l)) (s(i \<mapsto> snd (spend rnd (bucket_at rnd now (s i)))))"
proof -
  let ?b = "bucket_at rnd now (s i)" and ?bs = "\<lambda>b. sweep l now i (AList.update i b (buckets l))"
  have ok: "bucket_ok now ?b"
    using assms(2) by (intro bucket_at_ok [OF assms(1)]) (auto simp: limiter_sim_def)
  have same: "AList.update i ?b (?bs ?b) = ?bs ?b"
  proof -
    have "distinct (map fst (AList.update i ?b (buckets l)))" "idleCutoff l = 300000000000"
      using assms(2) limiter_limits(2) [of l] by (auto simp: limiter_sim_def distinct_update)
    then have "map_of (?bs ?b) i = Some ?b" by (simp add: sweep_lookup(1) update_conv')
    then show ?thesis by (rule update_triv)
  qed
  note allow = Allow_def limiter_bucket [OF assms] spend_def Let_def
  show ?thesis
  proof (cases "tokens ?b < 1")
    case True
    with limiter_sim_update [OF assms(2,3) ok, of i ?b] same show ?thesis by (simp add: allow)
  next
    case False
    with limiter_sim_update [OF assms(2,3) spend_ok [OF assms(1) ok], of i ?b] show ?thesis
      by (simp add: allow)
  qed
qed

lemma AllowAll_sim:
  assumes "float64_rounding rnd" and "limiter_sim t l s" and "sorted (t # map fst rs)"
  shows "AllowAll rnd l rs = SpecAll rnd s rs"
  using assms(2,3)
proof (induction rs arbitrary: t l s)
  case (Cons r rs)
  obtain now i where r: "r = (now, i)" by (cases r)
  with Cons.prems Allow_sim [OF assms(1) Cons.prems(1), of now i] show ?case
    by (auto simp: split_beta Let_def intro!: Cons.IH [of now])
qed simp

lemma tunnel_limiter_spec:
  assumes "float64_rounding rnd" and "sorted (map fst rs)"
  shows "AllowAll rnd newTunnelRateLimiter rs = SpecAll rnd (\<lambda>_. None) rs"
proof (cases rs)
  case (Cons r rs')
  have "limiter_sim (fst r) newTunnelRateLimiter (\<lambda>_. None)"
    by (simp add: limiter_sim_def newTunnelRateLimiter_def)
  then show ?thesis
    using AllowAll_sim [OF assms(1)] assms(2) Cons by auto
qed simp

text \<open>
  C23: forgetting idle tunnels is not observable. For any sequence of requests
  at times that do not decrease, the limiter answers exactly as the specification that keeps one
  bucket per tunnel for ever, whatever the rounding of floating point; in particular what one tunnel
  is allowed does not depend on the requests for other tunnels.
\<close>

theorem tunnel_sweep_unobservable:
  assumes "float64_rounding rnd" and "sorted (map fst rs)"
  shows "AllowAll rnd newTunnelRateLimiter rs = SpecAll rnd (\<lambda>_. None) rs"
  using assms by (rule tunnel_limiter_spec)

text \<open>Seventeen tunnels, then one of them again six minutes later, when its bucket has been swept.\<close>

definition demo_requests :: "(int \<times> string) list" where
  "demo_requests = map (\<lambda>n. (0, replicate n CHR ''t'')) [0..<17] @ [(360000000000, ''x''), (360000000000, ''t'')]"

theorem tunnel_sweep_unobservable_witness:
  "length (buckets (snd (Allow (\<lambda>x. x) 360000000000 ''x'' newTunnelRateLimiter))) = 1 \<and>
   AllowAll (\<lambda>x. x) newTunnelRateLimiter demo_requests = SpecAll (\<lambda>x. x) (\<lambda>_. None) demo_requests"
proof -
  have "sorted (map fst demo_requests)" by code_simp
  from tunnel_sweep_unobservable [OF float64_exact this] show ?thesis
    by (simp add: Allow_def newTunnelRateLimiter_def sweep_def refilled_def Let_def Seconds_def)
qed

section \<open>How much gets through\<close>

text \<open>The number of requests for tunnel \<open>i\<close> that were answered with yes.\<close>

definition passed :: "string \<Rightarrow> (int \<times> string) list \<Rightarrow> bool list \<Rightarrow> nat" where
  "passed i rs oks = length (filter (\<lambda>((now, j), ok). j = i \<and> ok) (zip rs oks))"

lemma passed_Nil [simp]: "passed i [] oks = 0"
  by (simp add: passed_def)

lemma passed_Cons [simp]:
  "passed i ((now, j) # rs) (ok # oks) = (if j = i \<and> ok then 1 else 0) + passed i rs oks"
  by (simp add: passed_def)

lemma lastSeen_simps [simp]:
  "lastSeen (bucket_at rnd now ob) = now" "lastSeen (snd (spend rnd b)) = lastSeen b"
  by (simp_all add: bucket_at_def refilled_def spend_def Let_def)

lemma bucket_at_exact:
  assumes "lastSeen b \<le> now"
  shows "tokens (bucket_at (\<lambda>x. x) now (Some b)) \<le> tokens b + of_int (now - lastSeen b) / 50000000"
proof -
  have "tokens (bucket_at (\<lambda>x. x) now (Some b)) \<le> tokens b + Seconds (\<lambda>x. x) (now - lastSeen b) * 20"
    using assms Seconds_nonneg [OF float64_exact, of "now - lastSeen b"]
    by (simp add: bucket_at_def refilled_def newTunnelRateLimiter_def Let_def)
  moreover have "Seconds (\<lambda>x. x) (now - lastSeen b) * 20 = of_int (now - lastSeen b) / 50000000"
    using assms by (subst Seconds_exact) (simp_all del: of_int_diff)
  ultimately show ?thesis by simp
qed

lemma bucket_at_fresh: "float64_rounding rnd \<Longrightarrow> bucket_at rnd now None = fresh_bucket now"
  by (simp add: bucket_at_def refilled_def fresh_bucket_def Seconds_0)

text \<open>What passes until time \<open>e\<close> is paid for by the tokens in the bucket and those still to come.\<close>

lemma passed_rate:
  assumes "s i = Some b" and "bucket_ok (lastSeen b) b" and "lastSeen b \<le> e"
    and "sorted (lastSeen b # map fst rs)" and "\<forall>r \<in> set rs. fst r \<le> e"
  shows "of_nat (passed i rs (SpecAll (\<lambda>x. x) s rs)) \<le> tokens b + of_int (e - lastSeen b) / 50000000"
  using assms
proof (induction rs arbitrary: s b)
  case Nil
  then show ?case by (simp add: bucket_ok_def)
next
  case (Cons r rs)
  obtain now j where r: "r = (now, j)" by (cases r)
  show ?case
  proof (cases "j = i")
    case False
    with Cons.prems r show ?thesis
      by (simp del: of_int_diff add: split_beta Let_def) (rule Cons.IH; simp)
  next
    case True
    let ?b = "bucket_at (\<lambda>x. x) now (Some b)"
    let ?c = "snd (spend (\<lambda>x. x) ?b)"
    have ok: "bucket_ok now ?b"
      using Cons.prems(2) by (intro bucket_at_ok [OF float64_exact]) auto
    have "of_nat (passed i rs (SpecAll (\<lambda>x. x) (s(i \<mapsto> ?c)) rs)) \<le> tokens ?c + of_int (e - lastSeen ?c) / 50000000"
      using Cons.prems spend_ok [OF float64_exact ok] r by (intro Cons.IH) auto
    moreover have "(if fst (spend (\<lambda>x. x) ?b) then 1 else 0) + tokens ?c \<le> tokens ?b"
      by (simp add: spend_def)
    moreover have "tokens ?b \<le> tokens b + of_int (now - lastSeen b) / 50000000"
      using Cons.prems(4) r by (intro bucket_at_exact) simp
    moreover have "of_nat (passed i (r # rs) (SpecAll (\<lambda>x. x) s (r # rs))) =
        (if fst (spend (\<lambda>x. x) ?b) then 1 else 0) + (of_nat (passed i rs (SpecAll (\<lambda>x. x) (s(i \<mapsto> ?c)) rs)) :: rat)"
      using Cons.prems(1) r True by (simp add: split_beta Let_def)
    ultimately show ?thesis by (simp add: diff_divide_distrib)
  qed
qed

text \<open>At one instant, and whatever the rounding, only the whole tokens in the bucket can be spent.\<close>

lemma passed_burst:
  assumes "float64_rounding rnd" and "s i = Some b" and "lastSeen b = now" and "tokens b \<le> of_nat k" and "k \<le> 40"
    and "\<forall>r \<in> set rs. fst r = now"
  shows "passed i rs (SpecAll rnd s rs) \<le> k"
  using assms(2-)
proof (induction rs arbitrary: s b k)
  case (Cons r rs)
  obtain j where r: "r = (now, j)" using Cons.prems(5) by (cases r) auto
  show ?case
  proof (cases "j = i")
    case False
    with Cons.prems r show ?thesis
      by (simp add: split_beta Let_def) (rule Cons.IH; simp)
  next
    case True
    have b: "bucket_at rnd now (Some b) = b"
      using Cons.prems(2) Seconds_0 [OF assms(1)] by (simp add: bucket_at_def refilled_def)
    show ?thesis
    proof (cases "tokens b < 1")
      case low: True
      with Cons.prems Cons.IH [of s b k] r True b show ?thesis
        by (simp add: spend_def fun_upd_idem)
    next
      case high: False
      with Cons.prems(3) obtain m where k: "k = Suc m" by (cases k) auto
      have "rnd (tokens b - 1) \<le> of_nat m"
        using float64_le [OF assms(1), of "tokens b - 1" "int m"] Cons.prems(3,4) k by simp
      then have "passed i rs (SpecAll rnd (s(i \<mapsto> b\<lparr>tokens := rnd (tokens b - 1)\<rparr>)) rs) \<le> m"
        using Cons.prems k by (intro Cons.IH [of _ "b\<lparr>tokens := rnd (tokens b - 1)\<rparr>"]) auto
      with Cons.prems(1) r True b high k show ?thesis by (simp add: spend_def)
    qed
  qed
qed simp

text \<open>
  From any state whose buckets are in order, the first request for a tunnel settles its bucket: it holds at most
  forty tokens, and going on from that bucket changes nothing.
\<close>

definition state_ok :: "int \<Rightarrow> (string \<rightharpoonup> tunnelBucket) \<Rightarrow> bool" where
  "state_ok t s \<longleftrightarrow> (\<forall>i b. s i = Some b \<longrightarrow> bucket_ok t b)"

lemma bucket_at_again:
  "float64_rounding rnd \<Longrightarrow> bucket_at rnd now (Some (bucket_at rnd now ob)) = bucket_at rnd now ob"
  using Seconds_0 [of rnd] by (simp add: bucket_at_def [of _ _ "Some _"]) (simp add: refilled_def [of _ _ now "bucket_at rnd now ob"] Let_def)

lemma SpecAll_settle:
  assumes "float64_rounding rnd"
  shows "SpecAll rnd s ((now, i) # rs) = SpecAll rnd (s(i \<mapsto> bucket_at rnd now (s i))) ((now, i) # rs)"
  by (simp add: bucket_at_again [OF assms])

lemma SpecAll_skip:
  assumes "j \<noteq> i"
  shows "passed i ((now, j) # rs) (SpecAll rnd s ((now, j) # rs)) =
     passed i rs (SpecAll rnd (s(j \<mapsto> snd (spend rnd (bucket_at rnd now (s j))))) rs)"
  using assms by (simp add: split_beta Let_def)

lemma state_ok_later: "state_ok t s \<Longrightarrow> t \<le> now \<Longrightarrow> state_ok now s"
  by (force simp: state_ok_def bucket_ok_def)

lemma state_bucket_ok: "float64_rounding rnd \<Longrightarrow> state_ok t s \<Longrightarrow> bucket_ok now (bucket_at rnd now (s i))"
  by (rule bucket_at_ok [where t = t]) (simp_all add: state_ok_def)

lemma state_ok_spend:
  assumes "float64_rounding rnd" and "state_ok t s" and "t \<le> now"
  shows "state_ok now (s(i \<mapsto> snd (spend rnd (bucket_at rnd now (s i)))))"
  using state_ok_later [OF assms(2,3)] spend_ok [OF assms(1) state_bucket_ok [OF assms(1,2)]]
  by (simp add: state_ok_def)

text \<open>The requests \<open>rs\<close> of a window, from such a state.\<close>

lemma passed_window:
  assumes "state_ok t s" and "sorted (t # map fst rs)" and "t \<le> e" and "\<forall>r \<in> set rs. fst r \<le> e"
  shows "of_nat (passed i rs (SpecAll (\<lambda>x. x) s rs)) \<le> 40 + (of_int (e - t) / 50000000 :: rat)"
  using assms
proof (induction rs arbitrary: s t)
  case Nil
  then show ?case by simp
next
  case (Cons r rs)
  obtain now j where r: "r = (now, j)" by (cases r)
  let ?b = "bucket_at (\<lambda>x. x) now (s j)"
  have now: "t \<le> now" "now \<le> e" using Cons.prems(2,4) r by simp_all
  then have shorter: "of_int (e - now) / 50000000 \<le> (of_int (e - t) / 50000000 :: rat)"
    by (intro divide_right_mono) simp_all
  show ?case
  proof (cases "j = i")
    case False
    have "of_nat (passed i rs (SpecAll (\<lambda>x. x) (s(j \<mapsto> snd (spend (\<lambda>x. x) ?b))) rs)) \<le>
        40 + (of_int (e - now) / 50000000 :: rat)"
      using Cons.prems(2,4) r now state_ok_spend [OF float64_exact Cons.prems(1)]
      by (intro Cons.IH) (simp_all del: fun_upd_apply)
    with shorter show ?thesis unfolding r SpecAll_skip [OF False] by linarith
  next
    case True
    have ok: "bucket_ok now ?b" using state_bucket_ok [OF float64_exact Cons.prems(1)] .
    have "of_nat (passed i (r # rs) (SpecAll (\<lambda>x. x) (s(i \<mapsto> ?b)) (r # rs))) \<le> tokens ?b + of_int (e - lastSeen ?b) / 50000000"
      using ok Cons.prems r by (intro passed_rate) auto
    moreover have "tokens ?b \<le> 40" using ok by (simp add: bucket_ok_def)
    moreover have "lastSeen ?b = now" by simp
    moreover have "SpecAll (\<lambda>x. x) s (r # rs) = SpecAll (\<lambda>x. x) (s(i \<mapsto> ?b)) (r # rs)"
      using SpecAll_settle [OF float64_exact, of s now i rs] r True by (simp only:)
    ultimately show ?thesis using shorter by (simp only:)
  qed
qed

lemma passed_instant:
  assumes "float64_rounding rnd" and "state_ok t s" and "\<forall>r \<in> set rs. fst r = t"
  shows "passed i rs (SpecAll rnd s rs) \<le> 40"
  using assms(2,3)
proof (induction rs arbitrary: s)
  case (Cons r rs)
  obtain j where r: "r = (t, j)" using Cons.prems(2) by (cases r) auto
  let ?b = "bucket_at rnd t (s j)"
  show ?case
  proof (cases "j = i")
    case False
    have "passed i rs (SpecAll rnd (s(j \<mapsto> snd (spend rnd ?b))) rs) \<le> 40"
      using Cons.prems(2) state_ok_spend [OF assms(1) Cons.prems(1) order_refl] by (intro Cons.IH) (simp_all del: fun_upd_apply)
    then show ?thesis unfolding r SpecAll_skip [OF False] .
  next
    case True
    have "tokens ?b \<le> 40" using state_bucket_ok [OF assms(1) Cons.prems(1)] by (simp add: bucket_ok_def)
    then have "passed i (r # rs) (SpecAll rnd (s(i \<mapsto> ?b)) (r # rs)) \<le> 40"
      using Cons.prems(2) by (intro passed_burst [OF assms(1), where b = ?b and now = t]) auto
    then show ?thesis using SpecAll_settle [OF assms(1), of s t i rs] r True by (simp del: SpecAll.simps)
  qed
qed simp

text \<open>The state after a history.\<close>

fun spec_after :: "(rat \<Rightarrow> rat) \<Rightarrow> (string \<rightharpoonup> tunnelBucket) \<Rightarrow> (int \<times> string) list \<Rightarrow> (string \<rightharpoonup> tunnelBucket)" where
  "spec_after rnd s [] = s"
| "spec_after rnd s ((now, i) # rs) = spec_after rnd (s(i \<mapsto> snd (spend rnd (bucket_at rnd now (s i))))) rs"

lemma SpecAll_length [simp]: "length (SpecAll rnd s rs) = length rs"
  by (induction rs arbitrary: s) (auto simp: split_beta Let_def)

lemma SpecAll_append: "SpecAll rnd s (hs @ rs) = SpecAll rnd s hs @ SpecAll rnd (spec_after rnd s hs) rs"
  by (induction hs arbitrary: s) (auto simp: split_beta Let_def simp del: fun_upd_apply)

lemma spec_after_ok:
  assumes "float64_rounding rnd" and "state_ok t0 s" and "sorted (t0 # map fst hs)" and "\<forall>r \<in> set hs. fst r \<le> t"
    and "t0 \<le> t"
  shows "state_ok t (spec_after rnd s hs)"
  using assms(2-)
proof (induction hs arbitrary: s t0)
  case Nil
  then show ?case by (simp add: state_ok_later)
next
  case (Cons r rs)
  then show ?case
    using state_ok_spend [OF assms(1) Cons.prems(1)] by (cases r) (auto intro!: Cons.IH)
qed

text \<open>
  C24: in any window of any history of requests at times that do not decrease, however they
  are spread over tunnels and whatever came before the window, at most forty requests for one tunnel pass at
  one instant, for any rounding of floating point; and in exact arithmetic at most forty plus twenty per
  second pass between the times \<open>t\<close> and \<open>e\<close>.
\<close>

theorem tunnel_rate_bound:
  assumes "float64_rounding rnd" and "sorted (map fst (hs @ rs))" and "\<forall>r \<in> set rs. t \<le> fst r \<and> fst r \<le> e"
    and "t \<le> e"
  shows "(t = e \<longrightarrow> passed i rs (drop (length hs) (AllowAll rnd newTunnelRateLimiter (hs @ rs))) \<le> 40) \<and>
     of_nat (passed i rs (drop (length hs) (AllowAll (\<lambda>x. x) newTunnelRateLimiter (hs @ rs)))) \<le>
       40 + 20 * of_int (e - t) / (1000000000 :: rat)"
proof (cases rs)
  case Nil
  then show ?thesis using assms(4) by simp
next
  case (Cons r rs')
  have win: "drop (length hs) (AllowAll rd newTunnelRateLimiter (hs @ rs)) = SpecAll rd (spec_after rd (\<lambda>_. None) hs) rs"
    and ok: "state_ok (fst r) (spec_after rd (\<lambda>_. None) hs)" if "float64_rounding rd" for rd
  proof -
    show "drop (length hs) (AllowAll rd newTunnelRateLimiter (hs @ rs)) = SpecAll rd (spec_after rd (\<lambda>_. None) hs) rs"
      by (simp add: tunnel_limiter_spec [OF that assms(2)] SpecAll_append)
    show "state_ok (fst r) (spec_after rd (\<lambda>_. None) hs)"
    proof (cases hs)
      case Nil
      then show ?thesis by (simp add: state_ok_def)
    next
      case h: (Cons h hs')
      show ?thesis
      proof (rule spec_after_ok [of rd "fst h" "\<lambda>_. None" hs "fst r"])
        show "float64_rounding rd" by (rule that)
      qed (use assms(2) in \<open>auto simp: state_ok_def sorted_append Cons h\<close>)
    qed
  qed
  have "passed i rs (SpecAll rnd (spec_after rnd (\<lambda>_. None) hs) rs) \<le> 40" if "t = e"
    using assms(3) that Cons ok [OF assms(1)] by (intro passed_instant [OF assms(1), where t = "fst r"]) auto
  moreover have "of_nat (passed i rs (SpecAll (\<lambda>x. x) (spec_after (\<lambda>x. x) (\<lambda>_. None) hs) rs)) \<le>
      40 + (of_int (e - fst r) / 50000000 :: rat)"
    using assms(2,3) Cons ok [OF float64_exact] by (intro passed_window) (auto simp: sorted_append)
  moreover have "of_int (e - fst r) / 50000000 \<le> (20 * of_int (e - t) / 1000000000 :: rat)"
    using assms(3) Cons by simp
  ultimately show ?thesis unfolding win [OF assms(1)] win [OF float64_exact] by linarith
qed

text \<open>Witness: sixty requests at one instant, after sixty at the start and an hour without any.\<close>

theorem tunnel_rate_bound_witness:
  "passed ''a'' (replicate 60 (3600000000000, ''a'')) (drop 60 (AllowAll (\<lambda>x. x) newTunnelRateLimiter
     (replicate 60 (0, ''a'') @ replicate 60 (3600000000000, ''a'')))) \<le> 40"
  using tunnel_rate_bound [OF float64_exact, of "replicate 60 (0, ''a'')" "replicate 60 (3600000000000, ''a'')"
      3600000000000 3600000000000 "''a''"]
  by (simp add: sorted_append sorted_replicate)

end
