(* ===== verification/Outgoing_Limit.thy ===== *)
theory Outgoing_Limit
  imports Rate_Limit Store_Base
begin

text \<open>
  The limiter of outgoing chat messages (\<^verbatim>\<open>internal/imadapter/outgoing_ratelimit.go\<close>) and the canonical
  provider names (\<^verbatim>\<open>internal/imadapter/registry.go\<close>). \<^verbatim>\<open>Wait\<close> is the loop of one caller: it sleeps
  until the token it lacks should be there and looks again.
\<close>

section \<open>Providers and limits\<close>

definition CanonicalProvider :: "'z env_scheme \<Rightarrow> string \<Rightarrow> string" where
  "CanonicalProvider E provider0 =
     (let provider = ToLower E (TrimSpace provider0)
      in if provider = ''wechat'' then ''weixin'' else provider)"

record OutgoingRateLimit =
  MaxPerSecond :: rat
  Burst :: int

record outgoingBucket =
  otokens :: rat
  maxTokens :: rat
  refillRate :: rat
  lastRefill :: int

record OutgoingRateLimiter =
  obuckets :: "string \<rightharpoonup> outgoingBucket"
  defaults :: OutgoingRateLimit
  overrides :: "string \<rightharpoonup> OutgoingRateLimit"

definition NewOutgoingRateLimiter ::
  "OutgoingRateLimit \<Rightarrow> (string \<rightharpoonup> OutgoingRateLimit) option \<Rightarrow> OutgoingRateLimiter" where
  "NewOutgoingRateLimiter dflt overrides0 =
     \<lparr>obuckets = Map.empty, defaults = dflt,
      overrides = (case overrides0 of None \<Rightarrow> Map.empty | Some m \<Rightarrow> m)\<rparr>"

definition DefaultOutgoingRateLimiter :: OutgoingRateLimiter where
  "DefaultOutgoingRateLimiter = NewOutgoingRateLimiter \<lparr>MaxPerSecond = 10, Burst = 10\<rparr>
     (Some [''telegram'' \<mapsto> \<lparr>MaxPerSecond = 20, Burst = 10\<rparr>, ''feishu'' \<mapsto> \<lparr>MaxPerSecond = 8, Burst = 4\<rparr>,
            ''qq'' \<mapsto> \<lparr>MaxPerSecond = 5, Burst = 3\<rparr>, ''weixin'' \<mapsto> \<lparr>MaxPerSecond = 5, Burst = 3\<rparr>,
            ''wecom'' \<mapsto> \<lparr>MaxPerSecond = 3, Burst = 2\<rparr>, ''serverchan'' \<mapsto> \<lparr>MaxPerSecond = 3, Burst = 2\<rparr>])"

definition limiter_config :: "OutgoingRateLimiter \<Rightarrow> string \<Rightarrow> OutgoingRateLimit" where
  "limiter_config l provider = (case overrides l provider of Some cfg \<Rightarrow> cfg | None \<Rightarrow> defaults l)"

definition new_bucket :: "OutgoingRateLimit \<Rightarrow> int \<Rightarrow> outgoingBucket" where
  "new_bucket cfg now =
     (let b1 = (if Burst cfg \<le> 0 then \<lceil>MaxPerSecond cfg\<rceil> else Burst cfg);
          burst = (if b1 \<le> 0 then 1 else b1)
      in \<lparr>otokens = of_int burst, maxTokens = of_int burst, refillRate = MaxPerSecond cfg,
          lastRefill = now\<rparr>)"

definition limiter_bucket_of :: "OutgoingRateLimiter \<Rightarrow> string \<Rightarrow> OutgoingRateLimit \<Rightarrow> int \<Rightarrow> outgoingBucket" where
  "limiter_bucket_of l provider cfg now =
     (case obuckets l provider of Some b \<Rightarrow> b | None \<Rightarrow> new_bucket cfg now)"

definition refill :: "(rat \<Rightarrow> rat) \<Rightarrow> int \<Rightarrow> outgoingBucket \<Rightarrow> outgoingBucket" where
  "refill rnd now b =
     (let elapsed = Seconds rnd (now - lastRefill b)
      in if elapsed \<le> 0 then b
         else let t = rnd (otokens b + rnd (elapsed * refillRate b))
              in b\<lparr>otokens := (if maxTokens b < t then maxTokens b else t), lastRefill := now\<rparr>)"

section \<open>Waiting for a token\<close>

text \<open>
  One turn of the loop under the lock: \<open>created\<close> and \<open>now\<close> are the two readings of the clock. The
  result is the time to sleep, or \<^const>\<open>None\<close> when a token was taken. A \<^verbatim>\<open>time.Duration\<close> has 64 bits; what the
  conversion of a larger floating-point number gives depends on the processor, so it is an argument, \<open>oor\<close>.
\<close>

definition to_duration :: "(rat \<Rightarrow> int) \<Rightarrow> rat \<Rightarrow> int" where
  "to_duration oor x =
     (let n = (if 0 \<le> x then \<lfloor>x\<rfloor> else \<lceil>x\<rceil>)
      in if - (2 ^ 63) \<le> n \<and> n < 2 ^ 63 then n else oor x)"

definition sleep_time :: "(rat \<Rightarrow> int) \<Rightarrow> (rat \<Rightarrow> rat) \<Rightarrow> outgoingBucket \<Rightarrow> int" where
  "sleep_time oor rnd b =
     (let wait = to_duration oor (rnd (rnd (rnd (1 - otokens b) / refillRate b) * 1000000000))
      in if wait \<le> 0 then 1000000 else wait)"

definition wait_turn ::
  "(rat \<Rightarrow> int) \<Rightarrow> (rat \<Rightarrow> rat) \<Rightarrow> string \<Rightarrow> OutgoingRateLimit \<Rightarrow> int \<Rightarrow> int \<Rightarrow> OutgoingRateLimiter \<Rightarrow>
     int option \<times> OutgoingRateLimiter" where
  "wait_turn oor rnd provider cfg created now l =
     (let b = refill rnd now (limiter_bucket_of l provider cfg created)
      in if 1 \<le> otokens b
         then (None, l\<lparr>obuckets := (obuckets l)(provider \<mapsto> b\<lparr>otokens := rnd (otokens b - 1)\<rparr>)\<rparr>)
         else (Some (sleep_time oor rnd b), l\<lparr>obuckets := (obuckets l)(provider \<mapsto> b)\<rparr>))"

text \<open>
  The loop. \<open>lag k\<close> is how much later than it should the \<open>k\<close>-th turn starts and \<open>gap k\<close> the time
  between its two readings of the clock; \<open>cancelled k\<close> says that the context ends while the turn
  sleeps. \<open>fuel\<close> bounds the turns; \<^const>\<open>None\<close> means that they were not enough, \<open>Some False\<close> is the
  error of the context, \<open>Some True\<close> is success.
\<close>

fun wait_loop ::
  "nat \<Rightarrow> nat \<Rightarrow> (nat \<Rightarrow> int) \<Rightarrow> (nat \<Rightarrow> int) \<Rightarrow> (nat \<Rightarrow> bool) \<Rightarrow> (rat \<Rightarrow> int) \<Rightarrow> (rat \<Rightarrow> rat) \<Rightarrow> string \<Rightarrow> OutgoingRateLimit \<Rightarrow>
     int \<Rightarrow> OutgoingRateLimiter \<Rightarrow> bool option \<times> OutgoingRateLimiter" where
  "wait_loop 0 k lag gap cancelled oor rnd provider cfg time l = (None, l)"
| "wait_loop (Suc fuel) k lag gap cancelled oor rnd provider cfg time l =
     (let created = time + lag k; now = created + gap k
      in case wait_turn oor rnd provider cfg created now l of
           (None, l') \<Rightarrow> (Some True, l')
         | (Some wait, l') \<Rightarrow>
             if cancelled k then (Some False, l')
             else wait_loop fuel (Suc k) lag gap cancelled oor rnd provider cfg (now + wait) l')"

definition Wait ::
  "nat \<Rightarrow> 'z env_scheme \<Rightarrow> (nat \<Rightarrow> int) \<Rightarrow> (nat \<Rightarrow> int) \<Rightarrow> (nat \<Rightarrow> bool) \<Rightarrow> (rat \<Rightarrow> int) \<Rightarrow> (rat \<Rightarrow> rat) \<Rightarrow> string \<Rightarrow> int \<Rightarrow>
     OutgoingRateLimiter \<Rightarrow> bool option \<times> OutgoingRateLimiter" where
  "Wait fuel E lag gap cancelled oor rnd provider0 time l =
     (let provider = CanonicalProvider E provider0; cfg = limiter_config l provider
      in if MaxPerSecond cfg \<le> 0 then (Some True, l)
         else wait_loop fuel 0 lag gap cancelled oor rnd provider cfg time l)"

section \<open>Waiting ends\<close>

text \<open>The buckets of a limiter belong to its configuration and hold at most their burst.\<close>

definition obucket_ok :: "OutgoingRateLimit \<Rightarrow> outgoingBucket \<Rightarrow> bool" where
  "obucket_ok cfg b \<longleftrightarrow> refillRate b = MaxPerSecond cfg \<and> 0 \<le> otokens b \<and> otokens b \<le> maxTokens b \<and>
     1 \<le> maxTokens b"

definition outgoing_ok :: "OutgoingRateLimiter \<Rightarrow> bool" where
  "outgoing_ok l \<longleftrightarrow> (\<forall>p b. obuckets l p = Some b \<longrightarrow> obucket_ok (limiter_config l p) b)"

lemma new_bucket_ok: "obucket_ok cfg (new_bucket cfg now)"
  by (simp add: obucket_ok_def new_bucket_def Let_def)

lemma refill_ok:
  "obucket_ok cfg b \<Longrightarrow> 0 < MaxPerSecond cfg \<Longrightarrow> obucket_ok cfg (refill (\<lambda>x. x) now b)"
  by (auto simp: obucket_ok_def refill_def Let_def intro: add_nonneg_nonneg mult_nonneg_nonneg)

text \<open>Exact refilling over a non-negative time, until the bucket is full.\<close>

lemma refill_exact:
  assumes "obucket_ok cfg b" and "0 < MaxPerSecond cfg" and "lastRefill b \<le> now"
  shows "otokens (refill (\<lambda>x. x) now b) =
       min (maxTokens b) (otokens b + of_int (now - lastRefill b) * MaxPerSecond cfg / 1000000000)"
    and "lastRefill (refill (\<lambda>x. x) now b) = now"
    and "refillRate (refill (\<lambda>x. x) now b) = MaxPerSecond cfg"
    and "maxTokens (refill (\<lambda>x. x) now b) = maxTokens b"
proof -
  have s: "Seconds (\<lambda>x. x) (now - lastRefill b) = of_int (now - lastRefill b) / 1000000000"
    using assms(3) by (intro Seconds_exact) simp
  show "otokens (refill (\<lambda>x. x) now b) =
       min (maxTokens b) (otokens b + of_int (now - lastRefill b) * MaxPerSecond cfg / 1000000000)"
    and "lastRefill (refill (\<lambda>x. x) now b) = now"
    using assms by (auto simp: refill_def Let_def s obucket_ok_def min_def)
  show "refillRate (refill (\<lambda>x. x) now b) = MaxPerSecond cfg"
    "maxTokens (refill (\<lambda>x. x) now b) = maxTokens b"
    using assms(1) by (simp_all add: refill_def Let_def obucket_ok_def)
qed

text \<open>
  Sleeping for the computed time brings the bucket to within a nanosecond's worth of a token, because
  the time is cut to whole nanoseconds, and from there to a whole token.
\<close>

lemma sleep_time_gain:
  assumes "1 \<le> 9000000000 * r" and "t < 1" and "refillRate b = r" and "otokens b = t" and "0 \<le> t"
  shows "1 - r / 1000000000 \<le> t + of_int (sleep_time oor (\<lambda>x. x) b) * r / 1000000000"
    and "1 - r / 1000000000 \<le> t \<Longrightarrow> 1 \<le> t + of_int (sleep_time oor (\<lambda>x. x) b) * r / 1000000000"
    and "0 < sleep_time oor (\<lambda>x. x) b"
proof -
  let ?x = "(1 - t) / r * 1000000000"
  have r: "0 < r" using assms(1) by simp
  have x: "0 < ?x" using r assms(2) by simp
  have "?x \<le> 1 / r * 1000000000" using r assms(5) by (intro mult_right_mono divide_right_mono) simp_all
  also have "1 / r \<le> 9000000000" using r assms(1) by (simp add: field_simps)
  finally have "?x \<le> 9000000000000000000" by simp
  then have "\<lfloor>?x\<rfloor> < 2 ^ 63" by (simp add: floor_less_iff)
  then have fits: "to_duration oor ?x = \<lfloor>?x\<rfloor>" using x by (simp add: to_duration_def Let_def)
  have st: "sleep_time oor (\<lambda>x. x) b = (if \<lfloor>?x\<rfloor> \<le> 0 then 1000000 else \<lfloor>?x\<rfloor>)"
    using fits assms(3,4) by (simp add: sleep_time_def Let_def)
  show "0 < sleep_time oor (\<lambda>x. x) b" by (simp add: st)
  have need: "1 - t = ?x * r / 1000000000" using r by simp
  have enough: "1 - t \<le> of_int n * r / 1000000000" if "?x \<le> of_int n" for n
    using mult_right_mono [OF that, of "r / 1000000000"] r need by simp
  have nearly: "1 - t - r / 1000000000 \<le> of_int n * r / 1000000000" if "?x - 1 \<le> of_int n" for n
    using enough [of "n + 1"] that by (simp add: distrib_right add_divide_distrib)
  show "1 - r / 1000000000 \<le> t + of_int (sleep_time oor (\<lambda>x. x) b) * r / 1000000000"
  proof (cases "\<lfloor>?x\<rfloor> \<le> 0")
    case True
    then have "?x - 1 \<le> of_int 1000000" by (simp add: floor_le_iff)
    from nearly [OF this] True show ?thesis by (simp add: st)
  next
    case False
    have "?x - 1 \<le> of_int \<lfloor>?x\<rfloor>" using floor_correct [of ?x] by linarith
    from nearly [OF this] False show ?thesis by (simp add: st)
  qed
  assume "1 - r / 1000000000 \<le> t"
  then have "1 - t \<le> r / 1000000000" by simp
  then have x1: "?x \<le> 1" using r by (simp add: field_simps)
  show "1 \<le> t + of_int (sleep_time oor (\<lambda>x. x) b) * r / 1000000000"
  proof (cases "\<lfloor>?x\<rfloor> \<le> 0")
    case True
    then show ?thesis using enough [of 1000000] x1 by (simp add: st)
  next
    case False
    then have "\<lfloor>?x\<rfloor> = 1" using x1 by linarith
    with enough [of 1] x1 show ?thesis by (simp add: st)
  qed
qed

lemma refill_after_sleep:
  assumes "obucket_ok cfg b" and "1 \<le> 9000000000 * MaxPerSecond cfg" and "otokens b < 1"
    and "lastRefill b + sleep_time oor (\<lambda>x. x) b \<le> now"
  shows "1 - MaxPerSecond cfg / 1000000000 \<le> otokens (refill (\<lambda>x. x) now b)"
    and "1 - MaxPerSecond cfg / 1000000000 \<le> otokens b \<Longrightarrow> 1 \<le> otokens (refill (\<lambda>x. x) now b)"
proof -
  have r: "refillRate b = MaxPerSecond cfg" and m: "1 \<le> maxTokens b" and t: "0 \<le> otokens b"
    and rate: "0 < MaxPerSecond cfg"
    using assms(1,2) by (simp_all add: obucket_ok_def)
  note gain = sleep_time_gain [OF assms(2,3) r refl t, where oor = oor]
  define g where "g = of_int (now - lastRefill b) * MaxPerSecond cfg / 1000000000"
  define q where "q = MaxPerSecond cfg / 1000000000"
  have mono: "of_int (sleep_time oor (\<lambda>x. x) b) * MaxPerSecond cfg / 1000000000 \<le> g"
    unfolding g_def
    using rate assms(4) by (intro divide_right_mono mult_right_mono) (simp_all del: of_int_diff)
  have "lastRefill b \<le> now" using gain(3) assms(4) by simp
  note r = refill_exact(1) [OF assms(1) rate this, folded g_def]
  have q: "0 < q" using rate by (simp add: q_def)
  show "1 - MaxPerSecond cfg / 1000000000 \<le> otokens (refill (\<lambda>x. x) now b)"
    using gain(1) [folded q_def] mono m q unfolding r min_le_iff_disj q_def [symmetric] by linarith
  show "1 \<le> otokens (refill (\<lambda>x. x) now b)" if "1 - MaxPerSecond cfg / 1000000000 \<le> otokens b"
    using gain(2) [OF that] mono m unfolding r by linarith
qed

text \<open>A turn that goes to sleep leaves the refilled bucket behind.\<close>

lemma wait_turn_sleeps:
  assumes "wait_turn oor rnd p cfg created now l = (Some w, l')"
  shows "\<exists>b. b = refill rnd now (limiter_bucket_of l p cfg created) \<and> otokens b < 1 \<and>
     w = sleep_time oor rnd b \<and> limiter_bucket_of l' p cfg c = b"
  using assms by (auto simp: wait_turn_def Let_def limiter_bucket_of_def split: if_splits)

lemma wait_turn_takes:
  "1 \<le> otokens (refill rnd now (limiter_bucket_of l p cfg created)) \<Longrightarrow>
     fst (wait_turn oor rnd p cfg created now l) = None"
  by (simp add: wait_turn_def Let_def)

lemma wait_loop_takes:
  "1 \<le> otokens (refill rnd (time + lag k + gap k) (limiter_bucket_of l p cfg (time + lag k))) \<Longrightarrow>
     fst (wait_loop (Suc fuel) k lag gap cancelled oor rnd p cfg time l) = Some True"
  using wait_turn_takes [of rnd "time + lag k + gap k" l p cfg "time + lag k" oor]
  by (auto simp: Let_def split: prod.splits)

lemma wait_loop_sleeps:
  assumes "otokens b < 1" and "b = refill rnd (time + lag k + gap k) (limiter_bucket_of l p cfg (time + lag k))"
    and "\<not> cancelled k"
  obtains l' where "\<And>c. limiter_bucket_of l' p cfg c = b"
    and "wait_loop (Suc fuel) k lag gap cancelled oor rnd p cfg time l =
       wait_loop fuel (Suc k) lag gap cancelled oor rnd p cfg (time + lag k + gap k + sleep_time oor rnd b) l'"
proof
  show "limiter_bucket_of (l\<lparr>obuckets := (obuckets l)(p \<mapsto> b)\<rparr>) p cfg c = b" for c
    by (simp add: limiter_bucket_of_def)
  show "wait_loop (Suc fuel) k lag gap cancelled oor rnd p cfg time l =
     wait_loop fuel (Suc k) lag gap cancelled oor rnd p cfg (time + lag k + gap k + sleep_time oor rnd b)
       (l\<lparr>obuckets := (obuckets l)(p \<mapsto> b)\<rparr>)"
    using assms by (simp add: wait_turn_def Let_def)
qed

text \<open>A caller whose bucket is nearly there needs one more turn at most.\<close>

lemma wait_loop_nearly:
  assumes b: "obucket_ok cfg b" "1 \<le> 9000000000 * MaxPerSecond cfg"
    and l: "\<And>c. limiter_bucket_of l p cfg c = b" and c: "\<And>k. \<not> cancelled k"
    and now: "lastRefill b \<le> time" and clock: "\<And>k. 0 \<le> lag k" "\<And>k. 0 \<le> gap k"
    and near: "1 - MaxPerSecond cfg / 1000000000 \<le> otokens (refill (\<lambda>x. x) (time + lag k + gap k) b)"
  shows "fst (wait_loop (Suc (Suc fuel)) k lag gap cancelled oor (\<lambda>x. x) p cfg time l) = Some True"
proof (cases "1 \<le> otokens (refill (\<lambda>x. x) (time + lag k + gap k) b)")
  case True
  then show ?thesis using wait_loop_takes [where l = l and time = time and k = k] l by metis
next
  case False
  let ?now = "time + lag k + gap k"
  let ?b = "refill (\<lambda>x. x) ?now b"
  have rate: "0 < MaxPerSecond cfg" using b(2) by simp
  have short: "otokens ?b < 1" using False by (simp only: not_le)
  have last: "lastRefill ?b = ?now"
    using now clock(1) [of k] clock(2) [of k] by (intro refill_exact(2) [OF b(1) rate]) linarith
  obtain l' where l': "\<And>c. limiter_bucket_of l' p cfg c = ?b"
    and loop: "wait_loop (Suc (Suc fuel)) k lag gap cancelled oor (\<lambda>x. x) p cfg time l =
      wait_loop (Suc fuel) (Suc k) lag gap cancelled oor (\<lambda>x. x) p cfg (?now + sleep_time oor (\<lambda>x. x) ?b) l'"
    by (rule wait_loop_sleeps [OF short _ c, where fuel = "Suc fuel"]; (rule that; assumption)?)
      (simp only: l)
  have later: "lastRefill ?b + sleep_time oor (\<lambda>x. x) ?b \<le>
      ?now + sleep_time oor (\<lambda>x. x) ?b + lag (Suc k) + gap (Suc k)"
    using clock(1) [of "Suc k"] clock(2) [of "Suc k"] last by linarith
  have "1 \<le> otokens (refill (\<lambda>x. x) (?now + sleep_time oor (\<lambda>x. x) ?b + lag (Suc k) + gap (Suc k)) ?b)"
    by (rule refill_after_sleep(2) [OF refill_ok [OF b(1) rate] b(2) _ later near]) (use False in linarith)
  then show ?thesis unfolding loop by (intro wait_loop_takes) (simp only: l')
qed

lemma Wait_ends:
  assumes "outgoing_ok l"
    and slow: "MaxPerSecond (limiter_config l (CanonicalProvider E provider)) \<le> 0 \<or>
      1 \<le> 9000000000 * MaxPerSecond (limiter_config l (CanonicalProvider E provider))"
    and c: "\<And>k. \<not> cancelled k" and clock: "\<And>k. 0 \<le> lag k" "\<And>k. 0 \<le> gap k"
    and past: "\<And>b. obuckets l (CanonicalProvider E provider) = Some b \<Longrightarrow> lastRefill b \<le> time"
  shows "fst (Wait 3 E lag gap cancelled oor (\<lambda>x. x) provider time l) = Some True"
proof (cases "MaxPerSecond (limiter_config l (CanonicalProvider E provider)) \<le> 0")
  case True
  then show ?thesis by (simp add: Wait_def Let_def)
next
  case False
  let ?p = "CanonicalProvider E provider"
  let ?cfg = "limiter_config l ?p"
  let ?now = "time + lag 0 + gap 0"
  define b where "b = limiter_bucket_of l ?p ?cfg (time + lag 0)"
  define b' where "b' = refill (\<lambda>x. x) ?now b"
  have rate: "0 < MaxPerSecond ?cfg" and rate9: "1 \<le> 9000000000 * MaxPerSecond ?cfg" using False slow by simp_all
  have ok: "obucket_ok ?cfg b"
    using assms(1) new_bucket_ok by (auto simp: b_def limiter_bucket_of_def outgoing_ok_def split: option.split)
  have "lastRefill b \<le> ?now"
    using past clock
    by (auto simp: b_def limiter_bucket_of_def new_bucket_def Let_def add_increasing2 split: option.split)
  then have last: "lastRefill b' = ?now" using refill_exact(2) [OF ok rate] by (simp add: b'_def)
  have three: "Wait 3 E lag gap cancelled oor (\<lambda>x. x) provider time l =
      wait_loop (Suc (Suc (Suc 0))) 0 lag gap cancelled oor (\<lambda>x. x) ?p ?cfg time l"
    using False by (simp add: Wait_def Let_def numeral_3_eq_3)
  show ?thesis
  proof (cases "1 \<le> otokens b'")
    case True
    then show ?thesis unfolding three by (intro wait_loop_takes) (simp add: b_def b'_def)
  next
    case False
    have short: "otokens b' < 1" using False by (simp only: not_le)
    obtain l' where l': "\<And>c. limiter_bucket_of l' ?p ?cfg c = b'"
      and loop: "wait_loop (Suc (Suc (Suc 0))) 0 lag gap cancelled oor (\<lambda>x. x) ?p ?cfg time l =
        wait_loop (Suc (Suc 0)) (Suc 0) lag gap cancelled oor (\<lambda>x. x) ?p ?cfg (?now + sleep_time oor (\<lambda>x. x) b') l'"
      by (rule wait_loop_sleeps [OF short _ c, where fuel = "Suc (Suc 0)"]; (rule that; assumption)?)
        (simp only: b_def b'_def)
    have ok': "obucket_ok ?cfg b'" using refill_ok [OF ok rate] by (simp add: b'_def)
    have wait: "0 < sleep_time oor (\<lambda>x. x) b'"
      using sleep_time_gain(3) [OF rate9 _ _ refl] ok' False by (simp add: obucket_ok_def)
    have later: "lastRefill b' + sleep_time oor (\<lambda>x. x) b' \<le>
        ?now + sleep_time oor (\<lambda>x. x) b' + lag (Suc 0) + gap (Suc 0)"
      using clock(1) [of "Suc 0"] clock(2) [of "Suc 0"] last by linarith
    have near: "1 - MaxPerSecond ?cfg / 1000000000 \<le>
        otokens (refill (\<lambda>x. x) (?now + sleep_time oor (\<lambda>x. x) b' + lag (Suc 0) + gap (Suc 0)) b')"
      by (rule refill_after_sleep(1) [OF ok' rate9 _ later]) (use False in linarith)
    show ?thesis unfolding three loop
      by (rule wait_loop_nearly [OF ok' rate9 l' c]) (use last wait near clock in \<open>simp_all only:\<close>)
  qed
qed

text \<open>The limiter's own operations build such buckets.\<close>

lemma wait_turn_ok:
  assumes "outgoing_ok l" and "cfg = limiter_config l p" and "0 < MaxPerSecond cfg"
  shows "outgoing_ok (snd (wait_turn oor (\<lambda>x. x) p cfg created now l)) \<and>
     limiter_config (snd (wait_turn oor (\<lambda>x. x) p cfg created now l)) = limiter_config l"
proof -
  have "obucket_ok cfg (limiter_bucket_of l p cfg created)"
    using assms new_bucket_ok by (auto simp: limiter_bucket_of_def outgoing_ok_def split: option.split)
  from refill_ok [OF this assms(3)]
  have b: "obucket_ok cfg (refill (\<lambda>x. x) now (limiter_bucket_of l p cfg created))" .
  have upd: "limiter_config (l\<lparr>obuckets := f\<rparr>) = limiter_config l" for f
    by (simp add: limiter_config_def fun_eq_iff split: option.splits)
  have "outgoing_ok (l\<lparr>obuckets := (obuckets l)(p \<mapsto> c)\<rparr>)" if "obucket_ok cfg c" for c
    using assms(1,2) that by (auto simp: outgoing_ok_def upd)
  with b show ?thesis by (auto simp: wait_turn_def Let_def obucket_ok_def upd)
qed

lemma wait_loop_ok:
  "outgoing_ok l \<Longrightarrow> cfg = limiter_config l p \<Longrightarrow> 0 < MaxPerSecond cfg \<Longrightarrow>
     outgoing_ok (snd (wait_loop fuel k lag gap cancelled oor (\<lambda>x. x) p cfg time l))"
proof (induction fuel arbitrary: k time l)
  case (Suc fuel)
  obtain x l' where t: "wait_turn oor (\<lambda>x. x) p cfg (time + lag k) (time + lag k + gap k) l = (x, l')" by fastforce
  have l': "outgoing_ok l'" "cfg = limiter_config l' p"
    using wait_turn_ok [OF Suc.prems, of oor "time + lag k" "time + lag k + gap k"] t Suc.prems(2) by simp_all
  show ?case using Suc.IH [OF l' Suc.prems(3)] l'(1) t by (auto simp: Let_def split: option.splits)
qed simp

lemma Wait_ok: "outgoing_ok l \<Longrightarrow> outgoing_ok (snd (Wait fuel E lag gap cancelled oor (\<lambda>x. x) provider time l))"
  by (simp add: Wait_def Let_def wait_loop_ok)

text \<open>
  C25: a caller of the outgoing limiter is not kept waiting for ever. Whatever the scheduling delays, a
  caller that is alone on its provider and whose context is not cancelled goes to sleep at most twice:
  the first sleep is cut to whole nanoseconds and may end a fraction of a token short, the second one
  never does. Rates are computed exactly, the clock does not run backwards, the limiter's buckets are those its own
  operations build, and the rate is not so small (below one message in 285 years) that the sleep exceeds a
  \<^verbatim>\<open>time.Duration\<close>.
\<close>

theorem Wait_returns:
  assumes "outgoing_ok l" and "\<And>k. \<not> cancelled k" and "\<And>k. 0 \<le> lag k" "\<And>k. 0 \<le> gap k"
    and "\<And>b. obuckets l (CanonicalProvider E provider) = Some b \<Longrightarrow> lastRefill b \<le> time"
    and "MaxPerSecond (limiter_config l (CanonicalProvider E provider)) \<le> 0 \<or>
      1 \<le> 9000000000 * MaxPerSecond (limiter_config l (CanonicalProvider E provider))"
  shows "fst (Wait 3 E lag gap cancelled oor (\<lambda>x. x) provider time l) = Some True"
  using assms(1,6,2-5) by (rule Wait_ends)

text \<open>
  Witness: the third message in a row to a provider with a burst of two and three messages per second. It sleeps twice:
  the first sleep of 333333333 nanoseconds is a billionth of a token short.
\<close>

definition burst_limiter :: OutgoingRateLimiter where
  "burst_limiter = NewOutgoingRateLimiter \<lparr>MaxPerSecond = 3, Burst = 2\<rparr> None"

definition third_wait :: "nat \<Rightarrow> bool option \<times> OutgoingRateLimiter" where
  "third_wait fuel = Wait fuel demo_env (\<lambda>_. 0) (\<lambda>_. 0) (\<lambda>_. False) (\<lambda>_. 0) (\<lambda>x. x) ''wecom'' 0
     (burst_limiter\<lparr>obuckets := [''wecom'' \<mapsto> \<lparr>otokens = 0, maxTokens = 2, refillRate = 3, lastRefill = 0\<rparr>]\<rparr>)"

lemma wecom_name: "CanonicalProvider demo_env ''wecom'' = ''wecom''"
  by code_simp

theorem Wait_returns_witness: "fst (third_wait 2) = None \<and> fst (third_wait 3) = Some True"
proof
  show "fst (third_wait 2) = None" by code_simp
  show "fst (third_wait 3) = Some True"
    unfolding third_wait_def
    by (rule Wait_returns)
      (auto simp: wecom_name outgoing_ok_def obucket_ok_def limiter_config_def burst_limiter_def NewOutgoingRateLimiter_def
        split: if_splits)
qed

end
