(* ===== verification/Utf8.thy ===== *)
theory Utf8
  imports Prelude
begin

text \<open>
  UTF-8 texts and white space in byte strings: where a text may be cut, and what \<^const>\<open>TrimSpace\<close> takes
  away. Shared by the components that cut, join or validate texts.
\<close>

section \<open>Runes\<close>

definition RuneStart :: "char \<Rightarrow> bool" where
  "RuneStart c \<longleftrightarrow> \<not> (0x80 \<le> byte c \<and> byte c \<le> 0xBF)"

definition rune :: "string \<Rightarrow> bool" where
  "rune r \<longleftrightarrow> r \<noteq> [] \<and> rune_width r = length r"

definition utf8 :: "string \<Rightarrow> bool" where
  "utf8 s \<longleftrightarrow> (\<exists>rs. (\<forall>r \<in> set rs. rune r) \<and> s = concat rs)"

lemma utf8_Nil [simp]: "utf8 []"
  unfolding utf8_def by (intro exI [of _ "[]"]) simp

lemma utf8_append: "utf8 s \<Longrightarrow> utf8 t \<Longrightarrow> utf8 (s @ t)"
  unfolding utf8_def by (elim exE conjE, rule_tac x = "rs @ rsa" in exI) auto

lemma rune_width_le: "rune_width s \<le> 4"
  by (simp add: rune_width_def Let_def)

lemma rune_cases:
  assumes "rune r"
  obtains a where "r = [a]" | a b where "r = [a, b]" | a b c where "r = [a, b, c]"
    | a b c d where "r = [a, b, c, d]"
proof (cases r)
  case Nil
  then show ?thesis using assms by (simp add: rune_def)
next
  case (Cons a r1)
  have len: "length r \<le> 4" using assms rune_width_le [of r] by (auto simp: rune_def)
  show ?thesis
  proof (cases r1)
    case Nil
    then show ?thesis using that(1) Cons by simp
  next
    case c2: (Cons b r2)
    show ?thesis
    proof (cases r2)
      case Nil
      then show ?thesis using that(2) Cons c2 by simp
    next
      case c3: (Cons c r3)
      show ?thesis
      proof (cases r3)
        case Nil
        show ?thesis by (rule that(3) [of a b c]) (simp only: Cons c2 c3 Nil)
      next
        case c4: (Cons d r4)
        have "r4 = []" using len by (simp add: Cons c2 c3 c4)
        then show ?thesis by (intro that(4) [of a b c d]) (simp only: Cons c2 c3 c4)
      qed
    qed
  qed
qed

lemmas width_defs = rune_width_def cont_def second_in_def Let_def

lemma rune_shape:
  assumes "rune r"
  shows "RuneStart (hd r)" and "b \<in> set (tl r) \<Longrightarrow> \<not> RuneStart b"
  using assms
  by (cases rule: rune_cases; auto simp: rune_def width_defs RuneStart_def split: if_splits)+

lemma if_grows:
  "(c \<Longrightarrow> x \<noteq> (0 :: nat) \<Longrightarrow> x' = x) \<Longrightarrow> (\<not> c \<Longrightarrow> y \<noteq> 0 \<Longrightarrow> y' = y) \<Longrightarrow>
     (if c then x else y) \<noteq> 0 \<Longrightarrow> (if c then x' else y') = (if c then x else y)"
  by (cases c) simp_all

lemma test_grows:
  "(P \<Longrightarrow> P') \<Longrightarrow> (if P then k else 0) \<noteq> (0 :: nat) \<Longrightarrow> (if P' then k else 0) = (if P then k else 0)"
  by (cases P) simp_all

lemma cont_append: "cont s i \<Longrightarrow> cont (s @ t) i"
  by (simp add: cont_def nth_append)

lemma second_in_append: "second_in s lo hi \<Longrightarrow> second_in (s @ t) lo hi"
  by (simp add: second_in_def nth_append)

lemma rune_width_append:
  assumes "rune r"
  shows "rune_width (r @ t) = length r"
proof -
  have "rune_width (r @ t) = rune_width r" if "rune_width r \<noteq> 0" "r \<noteq> []"
  proof -
    have hd: "hd (r @ t) = hd r" and ne: "r @ t \<noteq> []" using that(2) by simp_all
    show ?thesis using that(1)
      unfolding rune_width_def Let_def hd if_not_P [OF that(2)] if_not_P [OF ne]
      by (elim if_grows [rotated 2] test_grows [rotated]) (simp_all only: cont_append second_in_append)
  qed
  then show ?thesis using assms by (simp add: rune_def)
qed

text \<open>A text can be cut in front of every byte that starts a rune, and there is one among any four bytes.\<close>

lemma utf8_cut:
  assumes "utf8 s" and "k < length s" and "RuneStart (s ! k)"
  shows "utf8 (take k s)" and "utf8 (drop k s)"
proof -
  obtain rs where "\<forall>r \<in> set rs. rune r" and "s = concat rs" using assms(1) by (auto simp: utf8_def)
  then have "utf8 (take k s) \<and> utf8 (drop k s)" using assms(2,3)
  proof (induction rs arbitrary: s k)
    case (Cons r rs)
    have r: "rune r" and rest: "utf8 (concat rs)" using Cons.prems(1) by (auto simp: utf8_def)
    have whole: "utf8 r" using r unfolding utf8_def by (intro exI [of _ "[r]"]) simp
    show ?case
    proof (cases "k < length r")
      case True
      then have "k = 0"
        using Cons.prems rune_shape(2) [OF r, of "s ! k"] r
        by (cases k) (auto simp: nth_append nth_tl [symmetric] rune_def)
      then show ?thesis using Cons.prems(2) utf8_append [OF whole rest] by simp
    next
      case False
      with Cons.prems have "utf8 (take (k - length r) (concat rs)) \<and> utf8 (drop (k - length r) (concat rs))"
        by (intro Cons.IH) (auto simp: nth_append)
      then show ?thesis using False Cons.prems(2) utf8_append [OF whole] by simp
    qed
  qed simp
  then show "utf8 (take k s)" and "utf8 (drop k s)" by simp_all
qed

lemma utf8_start_near:
  assumes "utf8 s" and "n < length s"
  shows "\<exists>j \<le> n. n \<le> j + 3 \<and> RuneStart (s ! j)"
proof -
  obtain rs where "\<forall>r \<in> set rs. rune r" and "s = concat rs" using assms(1) by (auto simp: utf8_def)
  then show ?thesis using assms(2)
  proof (induction rs arbitrary: s n)
    case (Cons r rs)
    have r: "rune r" using Cons.prems(1) by simp
    show ?case
    proof (cases "n < length r")
      case True
      have "RuneStart (s ! 0)"
        using rune_shape(1) [OF r] r Cons.prems(2) by (simp add: nth_append rune_def hd_conv_nth)
      then show ?thesis using True rune_width_le [of r] r by (intro exI [of _ 0]) (simp add: rune_def)
    next
      case False
      with Cons obtain j where "j \<le> n - length r" "n - length r \<le> j + 3" "RuneStart (concat rs ! j)"
        by (metis (no_types, lifting) UnCI concat.simps(2) length_append less_diff_conv2 linorder_not_less set_ConsD
            list.set_intros(2) add.commute)
      then show ?thesis using False Cons.prems(2)
        by (intro exI [of _ "j + length r"]) (auto simp: nth_append)
    qed
  qed simp
qed

section \<open>White space\<close>

text \<open>What trimming takes away, step by step.\<close>

lemma strip_first_Some: "strip_first es s = Some t \<Longrightarrow> \<exists>e \<in> set es. e \<noteq> [] \<and> s = e @ t"
  by (induction es) (auto split: if_splits simp: HasPrefix_iff)

lemma trim_left_invariant:
  assumes "P s" and "\<And>e t. e \<in> set es \<Longrightarrow> e \<noteq> [] \<Longrightarrow> P (e @ t) \<Longrightarrow> P t"
  shows "P (trim_left es s)"
  using assms
proof (induction es s rule: trim_left.induct)
  case (1 es s)
  show ?case
  proof (cases "strip_first es s")
    case None
    then show ?thesis using 1(2) by (simp add: trim_left_fixed)
  next
    case (Some t)
    then obtain e where e: "e \<in> set es" "e \<noteq> []" "s = e @ t" using strip_first_Some by blast
    then have "P t" using 1(2,3) by simp
    from 1(1) [OF Some this 1(3)] Some show ?thesis by (simp add: trim_left.simps [of es s])
  qed
qed

definition blank :: "string \<Rightarrow> bool" where
  "blank s \<longleftrightarrow> (\<exists>es. set es \<subseteq> set space_encodings \<and> s = concat es)"

lemma blank_Nil [simp]: "blank []"
  unfolding blank_def by (intro exI [of _ "[]"]) simp

lemma blank_append: "blank s \<Longrightarrow> blank t \<Longrightarrow> blank (s @ t)"
  unfolding blank_def by (elim exE conjE, rule_tac x = "es @ esa" in exI) simp

lemma blank_space: "e \<in> set space_encodings \<Longrightarrow> blank e"
  unfolding blank_def by (intro exI [of _ "[e]"]) simp

lemma TrimSpace_blank: "\<exists>u v. blank u \<and> blank v \<and> s = u @ TrimSpace s @ v"
proof -
  let ?l = "trim_left space_encodings s"
  have "\<exists>u. blank u \<and> s = u @ ?l"
    by (rule trim_left_invariant [where P = "\<lambda>t. \<exists>u. blank u \<and> s = u @ t"])
      (use blank_append blank_space in force)+
  moreover have "\<exists>v. blank v \<and> ?l = rev (trim_left (map rev space_encodings) (rev ?l)) @ v"
  proof (rule trim_left_invariant [where P = "\<lambda>t. \<exists>v. blank v \<and> ?l = rev t @ v"])
    show "\<exists>v. blank v \<and> ?l = rev (rev ?l) @ v" by (intro exI [of _ "[]"]) simp
    fix e t
    assume "e \<in> set (map rev space_encodings)" and "\<exists>v. blank v \<and> ?l = rev (e @ t) @ v"
    then obtain d v where "d \<in> set space_encodings" "e = rev d" "blank v" "?l = rev (e @ t) @ v" by auto
    then show "\<exists>v. blank v \<and> ?l = rev t @ v"
      using blank_append [OF blank_space] by (intro exI [of _ "d @ v"]) simp
  qed
  ultimately show ?thesis unfolding TrimSpace_def by metis
qed

lemma space_encodings_runes: "e \<in> set space_encodings \<Longrightarrow> rune e"
  unfolding space_encodings_def
  by (simp only: list.set insert_iff empty_iff, elim disjE)
    (simp_all add: rune_def width_defs byte_def)

lemma utf8_drop_rune:
  assumes "rune e" and "utf8 (e @ t)"
  shows "utf8 t"
proof -
  obtain rs where rs: "\<forall>r \<in> set rs. rune r" "e @ t = concat rs" using assms(2) by (auto simp: utf8_def)
  then obtain r rs' where r: "rs = r # rs'" using assms(1) by (cases rs) (auto simp: rune_def)
  then have "length r = length e"
    using rune_width_append [OF assms(1), of t] rune_width_append [of r "concat rs'"] rs by simp
  then have "t = concat rs'" using rs(2) r by (metis append_eq_append_conv concat.simps(2))
  then show ?thesis using rs(1) r by (auto simp: utf8_def)
qed

lemma utf8_TrimSpace:
  assumes "utf8 s"
  shows "utf8 (TrimSpace s)"
proof -
  have left: "utf8 (trim_left space_encodings s)"
    by (rule trim_left_invariant [where P = utf8, OF assms]) (metis utf8_drop_rune space_encodings_runes)
  show ?thesis unfolding TrimSpace_def
  proof (rule trim_left_invariant [where P = "\<lambda>t. utf8 (rev t)"])
    show "utf8 (rev (rev (trim_left space_encodings s)))" using left by simp
    fix e t
    assume e: "e \<in> set (map rev space_encodings)" "e \<noteq> []" and u: "utf8 (rev (e @ t))"
    then have "RuneStart (hd (rev e))" using rune_shape(1) [OF space_encodings_runes] by auto
    then have "RuneStart (rev (e @ t) ! length (rev t))"
      using e(2) by (simp add: nth_append hd_conv_nth)
    from utf8_cut(1) [OF u _ this] e(2) show "utf8 (rev t)" by simp
  qed
qed

lemma length_TrimSpace: "length (TrimSpace s) \<le> length s"
proof -
  obtain u v where "s = u @ TrimSpace s @ v" using TrimSpace_sublist by blast
  then have "length s = length u + length (TrimSpace s) + length v" by (metis add.assoc length_append)
  then show ?thesis by linarith
qed

text \<open>A string that does not start with white space is not blank.\<close>

lemma TrimSpace_nonempty:
  assumes "strip_first space_encodings s = None" and "s \<noteq> []"
  shows "TrimSpace s \<noteq> []"
proof
  assume "TrimSpace s = []"
  then obtain u v where "blank u" "blank v" "s = u @ v" using TrimSpace_blank [of s] by auto
  then have "blank s" using blank_append by simp
  then obtain es where es: "set es \<subseteq> set space_encodings" "s = concat es" unfolding blank_def by blast
  then obtain e es' where e: "es = e # es'" using assms(2) by (cases es) auto
  then have "HasPrefix s e" using es(2) by (auto simp: HasPrefix_iff)
  moreover have "e \<in> set space_encodings" using es(1) e by simp
  ultimately show False
    using assms(1) space_encodings_runes [of e] unfolding strip_first_None rune_def by blast
qed

lemma trimmed_prefix:
  assumes "trimmed s" and "s \<noteq> []" and "0 < k"
  shows "TrimSpace (take k s) \<noteq> []"
proof (rule TrimSpace_nonempty)
  have "strip_first space_encodings s = None"
    using TrimSpace_left_clean [of s] assms(1) by (simp add: trimmed_def)
  moreover have "HasPrefix s e" if "HasPrefix (take k s) e" for e
    using that append_take_drop_id [of k s] unfolding HasPrefix_iff by (metis append.assoc)
  ultimately show "strip_first space_encodings (take k s) = None" unfolding strip_first_None by blast
qed (use assms(2,3) in simp)

lemma strip_first_append:
  assumes "strip_first space_encodings p = None" and "p \<noteq> []"
  shows "strip_first space_encodings (p @ CHR 0x0A # q) = None"
proof -
  have inner: "CHR 0x0A \<notin> set (tl e)" if "e \<in> set space_encodings" for e
    using that by (auto simp: space_encodings_def)
  have "\<not> HasPrefix (p @ CHR 0x0A # q) e" if e: "e \<in> set space_encodings" for e
  proof
    assume "HasPrefix (p @ CHR 0x0A # q) e"
    then obtain t where t: "p @ CHR 0x0A # q = e @ t" by (auto simp: HasPrefix_iff)
    show False
    proof (cases "length e \<le> length p")
      case True
      then have "HasPrefix p e" using t by (metis HasPrefix_def append_eq_conv_conj take_append take_all_iff
            append_Nil2 diff_is_0_eq take0)
      then show False using assms(1) e space_encodings_runes [OF e] unfolding strip_first_None rune_def by blast
    next
      case False
      then have "e ! length p = CHR 0x0A" using t by (metis nth_append nth_append_length not_le)
      moreover have "e ! length p = tl e ! (length p - 1)" "length p - 1 < length (tl e)"
        using False assms(2) by (cases p; cases e; simp)+
      ultimately show False using inner [OF e] nth_mem by metis
    qed
  qed
  then show ?thesis unfolding strip_first_None by blast
qed

end
