(* ===== verification/Render.thy ===== *)
theory Render
  imports Outgoing_Limit Encoding Utf8 "HOL-Library.Word"
begin

text \<open>
  Rendering of outgoing chat messages: the running text of a stream
  (\<^verbatim>\<open>internal/imadapter/render.go\<close>) and the frames of the providers with their cutting of long texts
  (\<^verbatim>\<open>internal/imadapter/provider_runtime.go\<close>). Strings are byte strings, so that the cuts are the
  ones of the code; that they do not break a UTF-8 sequence is a theorem.
\<close>

section \<open>Cutting byte strings\<close>

text \<open>The loop that walks back to the start of a rune.\<close>

fun back_to_rune :: "string \<Rightarrow> nat \<Rightarrow> nat" where
  "back_to_rune s 0 = 0"
| "back_to_rune s (Suc n) = (if RuneStart (s ! Suc n) then Suc n else back_to_rune s n)"

fun LastIndexByte :: "char \<Rightarrow> string \<Rightarrow> nat option" where
  "LastIndexByte c [] = None"
| "LastIndexByte c (x # s) =
     (case LastIndexByte c s of Some i \<Rightarrow> Some (Suc i) | None \<Rightarrow> if x = c then Some 0 else None)"

abbreviation newline_char :: char where
  "newline_char \<equiv> CHR 0x0A"

definition TrimRight :: "char \<Rightarrow> string \<Rightarrow> string" where
  "TrimRight c s = rev (dropWhile (\<lambda>x. x = c) (rev s))"

definition truncateUTF8 :: "string \<Rightarrow> int \<Rightarrow> string" where
  "truncateUTF8 val maxLen =
     (if int (length val) \<le> maxLen then val
      else if maxLen \<le> 3 then take (nat maxLen) val
      else take (back_to_rune val (nat (maxLen - 3))) val @ ''...'')"

section \<open>Streams\<close>

text \<open>
  \<^verbatim>\<open>%.1f\<close> of a non-negative or negative number: the exact value rounded to tenths, ties to the even
  digit, and the decimal digits of the result.
\<close>

definition round_half_even :: "rat \<Rightarrow> int" where
  "round_half_even x =
     (let f = \<lfloor>x\<rfloor>; d = x - of_int f
      in if d < 1 / 2 then f else if 1 / 2 < d then f + 1 else if even f then f else f + 1)"

definition format_1f :: "rat \<Rightarrow> string" where
  "format_1f x =
     (let n = nat (round_half_even (abs x * 10))
      in (if x < 0 then ''-'' else '''') @ digits_of (n div 10) @ ''.'' @ digits_of (n mod 10))"

record StreamState =
  st_Text :: string
  ActiveTool :: string
  StartedUnix :: int
  UpdatedUnix :: int
  st_Done :: bool

definition typingCursor :: string where
  "typingCursor = [CHR 0x20, CHR 0xE2, CHR 0x96, CHR 0x8D]"

text \<open>\<open>rnd\<close> rounds to the nearest \<^verbatim>\<open>float64\<close>; a duration is a 64-bit number of nanoseconds.\<close>

definition RenderStream :: "(rat \<Rightarrow> rat) \<Rightarrow> StreamState \<Rightarrow> int \<Rightarrow> string" where
  "RenderStream rnd state0 maxLen =
     (let text1 = (if TrimSpace (st_Text state0) = [] \<and> ActiveTool state0 = [] then ''Thinking...''
                   else st_Text state0);
          text2 = (if ActiveTool state0 \<noteq> [] \<and> \<not> st_Done state0
                   then TrimRight newline_char text1 @ [newline_char, newline_char] @ ActiveTool state0
                   else text1);
          text3 = (if st_Done state0 \<and> 0 < StartedUnix state0 \<and> StartedUnix state0 \<le> UpdatedUnix state0
                   then TrimRight newline_char text2 @ [newline_char, newline_char] @ ''Response time: '' @
                     format_1f (Seconds rnd
                       (sint (word_of_int ((UpdatedUnix state0 - StartedUnix state0) * 1000000000) :: 64 word))) @
                     ''s''
                   else text2);
          text4 = (if \<not> st_Done state0 then text3 @ typingCursor else text3)
      in if maxLen \<le> 0 then text4 else truncateUTF8 text4 maxLen)"

section \<open>Splitting a long message\<close>

text \<open>
  One cut: at the last newline of the window, or at its end, moved back to the start of a rune. The
  index read by \<^const>\<open>back_to_rune\<close> is inside the string because the text is longer than the window.
\<close>

definition cut_at :: "nat \<Rightarrow> string \<Rightarrow> nat" where
  "cut_at maxLen rest =
     (let c1 = (case LastIndexByte newline_char (take maxLen rest) of
                  Some newline \<Rightarrow> if 0 < newline then newline + 1 else maxLen
                | None \<Rightarrow> maxLen);
          c2 = back_to_rune rest c1
      in if c2 = 0 then maxLen else c2)"

lemma LastIndexByte_Some: "LastIndexByte c s = Some i \<Longrightarrow> i < length s \<and> s ! i = c"
  by (induction s arbitrary: i) (auto split: option.splits if_splits)

lemma back_to_rune_le: "back_to_rune s n \<le> n"
  by (induction n) (auto simp: le_SucI)

lemma cut_at_bounds:
  assumes "0 < maxLen"
  shows "0 < cut_at maxLen rest \<and> cut_at maxLen rest \<le> maxLen"
proof -
  have "back_to_rune rest (newline + 1) \<le> maxLen"
    if "LastIndexByte newline_char (take maxLen rest) = Some newline" for newline
    using LastIndexByte_Some [OF that] back_to_rune_le [of rest "newline + 1"] by simp
  then show ?thesis
    using assms back_to_rune_le [of rest maxLen]
    by (simp add: cut_at_def Let_def del: back_to_rune.simps split: option.split)
qed

text \<open>The loop; the caller has checked that the window is not empty.\<close>

function split_loop :: "nat \<Rightarrow> string \<Rightarrow> string list" where
  "split_loop maxLen rest =
     (if 0 < maxLen \<and> maxLen < length rest
      then let cutAt = cut_at maxLen rest
           in TrimSpace (take cutAt rest) # split_loop maxLen (TrimSpace (drop cutAt rest))
      else if rest \<noteq> [] then [rest] else [])"
  by pat_completeness auto
termination
proof (relation "measure (\<lambda>(maxLen, rest). length rest)", simp, clarsimp)
  fix maxLen :: nat and rest :: string
  assume "0 < maxLen" and "maxLen < length rest"
  then show "length (TrimSpace (drop (cut_at maxLen rest) rest)) < length rest"
    using length_TrimSpace [of "drop (cut_at maxLen rest) rest"] cut_at_bounds [of maxLen rest] by fastforce
qed

declare split_loop.simps [simp del]

definition empty_response :: string where
  "empty_response = ''(empty response)''"

definition splitProviderMessage :: "string \<Rightarrow> int \<Rightarrow> string list" where
  "splitProviderMessage text maxLen =
     (if TrimSpace text = [] then [empty_response]
      else if maxLen \<le> 0 \<or> int (length text) \<le> maxLen then [text]
      else split_loop (nat maxLen) text)"

section \<open>Rendering\<close>

record OutboundRenderInput =
  in_Provider :: string
  in_ConversationID :: string
  in_ReplyToExternalMessageID :: string
  in_Text :: string
  in_Silent :: bool
  in_Stream :: "StreamState option"
  in_StreamID :: string
  SequenceStart :: "32 word"

record OutboundFrame =
  fr_Provider :: string
  TargetID :: string
  TargetKind :: string
  fr_ReplyToExternalMessageID :: string
  fr_Text :: string
  fr_Sequence :: "32 word"
  fr_Done :: bool
  fr_Silent :: bool
  ParseMode :: string
  fr_StreamID :: string
  fr_StreamState :: int

definition TelegramMaxMessageLen :: int where
  "TelegramMaxMessageLen = 4000"

definition QQMaxMessageLen :: int where
  "QQMaxMessageLen = 3500"

definition ServerChanMaxMessageLen :: int where
  "ServerChanMaxMessageLen = 4000"

definition outboundText :: "(rat \<Rightarrow> rat) \<Rightarrow> OutboundRenderInput \<Rightarrow> int \<Rightarrow> string" where
  "outboundText rnd input maxLen =
     (case in_Stream input of
        Some stream \<Rightarrow> RenderStream rnd stream maxLen
      | None \<Rightarrow> (let text = TrimSpace (in_Text input) in if text = [] then empty_response else text))"

definition qqTarget :: "string \<Rightarrow> string \<times> string" where
  "qqTarget conversationID =
     (if HasPrefix conversationID ''qq:group:'' then (''group'', TrimPrefix conversationID ''qq:group:'')
      else if HasPrefix conversationID ''qq:c2c:'' then (''c2c'', TrimPrefix conversationID ''qq:c2c:'')
      else if HasPrefix conversationID ''group:'' then (''group'', TrimPrefix conversationID ''group:'')
      else (''c2c'', conversationID))"

definition stream_done :: "OutboundRenderInput \<Rightarrow> bool" where
  "stream_done input = (case in_Stream input of None \<Rightarrow> True | Some stream \<Rightarrow> st_Done stream)"

definition RenderTelegramOutbound :: "(rat \<Rightarrow> rat) \<Rightarrow> OutboundRenderInput \<Rightarrow> OutboundFrame list" where
  "RenderTelegramOutbound rnd input =
     map (\<lambda>(i, chunk).
        \<lparr>fr_Provider = ''telegram'', TargetID = TrimSpace (in_ConversationID input), TargetKind = ''chat'',
         fr_ReplyToExternalMessageID = TrimSpace (in_ReplyToExternalMessageID input), fr_Text = chunk,
         fr_Sequence = of_nat (i + 1), fr_Done = stream_done input, fr_Silent = in_Silent input,
         ParseMode = ''MarkdownV2'', fr_StreamID = [], fr_StreamState = 0\<rparr>)
       (List.enumerate 0
         (splitProviderMessage (outboundText rnd input TelegramMaxMessageLen) TelegramMaxMessageLen))"

definition RenderQQOutbound :: "(rat \<Rightarrow> rat) \<Rightarrow> OutboundRenderInput \<Rightarrow> OutboundFrame list" where
  "RenderQQOutbound rnd input =
     (let (targetKind, targetID) = qqTarget (TrimSpace (in_ConversationID input));
          sequenceStart = (if SequenceStart input = 0 then 100 else SequenceStart input);
          streamState = (case in_Stream input of None \<Rightarrow> 0 | Some stream \<Rightarrow> if st_Done stream then 10 else 1)
      in map (\<lambda>(i, chunk).
           \<lparr>fr_Provider = ''qq'', TargetID = targetID, TargetKind = targetKind,
            fr_ReplyToExternalMessageID = TrimSpace (in_ReplyToExternalMessageID input), fr_Text = chunk,
            fr_Sequence = sequenceStart + of_nat i, fr_Done = stream_done input, fr_Silent = in_Silent input,
            ParseMode = [], fr_StreamID = TrimSpace (in_StreamID input), fr_StreamState = streamState\<rparr>)
          (List.enumerate 0 (splitProviderMessage (outboundText rnd input QQMaxMessageLen) QQMaxMessageLen)))"

definition RenderServerChanOutbound :: "(rat \<Rightarrow> rat) \<Rightarrow> OutboundRenderInput \<Rightarrow> OutboundFrame list" where
  "RenderServerChanOutbound rnd input =
     map (\<lambda>(i, chunk).
        \<lparr>fr_Provider = ''serverchan'',
         TargetID = TrimPrefix (TrimSpace (in_ConversationID input)) ''serverchan:'', TargetKind = ''chat'',
         fr_ReplyToExternalMessageID = TrimSpace (in_ReplyToExternalMessageID input), fr_Text = chunk,
         fr_Sequence = of_nat (i + 1), fr_Done = stream_done input, fr_Silent = in_Silent input,
         ParseMode = ''markdown'', fr_StreamID = [], fr_StreamState = 0\<rparr>)
       (List.enumerate 0
         (splitProviderMessage (outboundText rnd input ServerChanMaxMessageLen) ServerChanMaxMessageLen))"

text \<open>\<^const>\<open>None\<close> is the error for a provider without a renderer.\<close>

definition RenderProviderOutbound ::
  "'z env_scheme \<Rightarrow> (rat \<Rightarrow> rat) \<Rightarrow> OutboundRenderInput \<Rightarrow> OutboundFrame list option" where
  "RenderProviderOutbound E rnd input =
     (let provider = CanonicalProvider E (in_Provider input)
      in if provider = ''telegram'' then Some (RenderTelegramOutbound rnd input)
         else if provider = ''qq'' then Some (RenderQQOutbound rnd input)
         else if provider = ''serverchan'' then Some (RenderServerChanOutbound rnd input)
         else None)"

section \<open>The pieces of a message\<close>

lemma back_to_rune_start: "0 < back_to_rune s n \<Longrightarrow> RuneStart (s ! back_to_rune s n)"
  by (induction n) auto

lemma back_to_rune_ge: "j \<le> n \<Longrightarrow> RuneStart (s ! j) \<Longrightarrow> j \<le> back_to_rune s n"
  by (induction n) (auto simp: le_Suc_eq)

text \<open>The pieces put back with white space between them give the text.\<close>

inductive covers :: "string list \<Rightarrow> string \<Rightarrow> bool" where
  covers_Nil: "blank s \<Longrightarrow> covers [] s"
| covers_Cons: "blank g \<Longrightarrow> covers cs s \<Longrightarrow> covers (c # cs) (g @ c @ s)"

lemma covers_pad: "covers cs s \<Longrightarrow> blank u \<Longrightarrow> blank v \<Longrightarrow> covers cs (u @ s @ v)"
proof (induction arbitrary: u rule: covers.induct)
  case (covers_Nil s)
  then show ?case by (intro covers.intros blank_append)
next
  case (covers_Cons g cs s c)
  from covers_Cons.IH [of "[]"] covers_Cons.prems have "covers cs (s @ v)" by simp
  from covers.covers_Cons [OF blank_append [OF covers_Cons.prems(1) covers_Cons.hyps(1)] this, of c]
  show ?case by simp
qed

lemma split_loop_covers: "covers (split_loop maxLen rest) rest"
proof (induction maxLen rest rule: split_loop.induct)
  case (1 maxLen rest)
  show ?case
  proof (cases "0 < maxLen \<and> maxLen < length rest")
    case True
    define k where "k = cut_at maxLen rest"
    obtain u v where uv: "blank u" "blank v" "take k rest = u @ TrimSpace (take k rest) @ v"
      using TrimSpace_blank by blast
    obtain u' v' where uv': "blank u'" "blank v'" "drop k rest = u' @ TrimSpace (drop k rest) @ v'"
      using TrimSpace_blank by blast
    have "covers (split_loop maxLen (TrimSpace (drop k rest))) (TrimSpace (drop k rest))"
      using 1(1) [OF True k_def] by simp
    from covers_pad [OF this blank_append [OF uv(2) uv'(1)] uv'(2)]
    have "covers (split_loop maxLen (TrimSpace (drop k rest))) (v @ drop k rest)"
      by (subst uv'(3)) simp
    from covers.covers_Cons [OF uv(1) this, of "TrimSpace (take k rest)"]
    have "covers (TrimSpace (take k rest) # split_loop maxLen (TrimSpace (drop k rest)))
        (take k rest @ drop k rest)"
      by (subst uv(3)) simp
    then show ?thesis using True by (simp add: split_loop.simps [of maxLen rest] k_def Let_def)
  next
    case False
    have "covers [rest] ([] @ rest @ [])" by (intro covers.intros) simp_all
    then show ?thesis
      using covers.covers_Nil unfolding split_loop.simps [of maxLen rest] if_not_P [OF False] by simp
  qed
qed

lemma split_loop_bounded:
  "0 < maxLen \<Longrightarrow> c \<in> set (split_loop maxLen rest) \<Longrightarrow> length c \<le> maxLen"
proof (induction maxLen rest rule: split_loop.induct)
  case (1 maxLen rest)
  show ?case
  proof (cases "maxLen < length rest")
    case True
    let ?k = "cut_at maxLen rest"
    have "length (TrimSpace (take ?k rest)) \<le> maxLen"
      using length_TrimSpace [of "take ?k rest"] cut_at_bounds [OF 1(2), of rest] by simp
    then show ?thesis using 1 True by (auto simp: split_loop.simps [of maxLen rest] Let_def)
  next
    case False
    then show ?thesis using 1(3) by (simp add: split_loop.simps [of maxLen rest] split: if_splits)
  qed
qed

text \<open>With a window of four bytes or more a cut never splits a rune.\<close>

lemma cut_at_rune:
  assumes "utf8 s" and "4 \<le> maxLen" and "maxLen < length s"
  shows "RuneStart (s ! cut_at maxLen s)"
proof -
  have newline: "0 < back_to_rune s (newline + 1)"
    if "LastIndexByte newline_char (take maxLen s) = Some newline" "0 < newline" for newline
  proof -
    have "RuneStart (s ! newline)"
      using LastIndexByte_Some [OF that(1)] by (auto simp: RuneStart_def byte_def)
    then show ?thesis using back_to_rune_ge [of newline "newline + 1" s] that(2) by simp
  qed
  obtain j where "j \<le> maxLen" "maxLen \<le> j + 3" "RuneStart (s ! j)"
    using utf8_start_near [OF assms(1,3)] by blast
  then have "0 < back_to_rune s maxLen" using back_to_rune_ge [of j maxLen s] assms(2) by simp
  then show ?thesis
    using newline back_to_rune_start [of s]
    by (fastforce simp: cut_at_def Let_def simp del: back_to_rune.simps split: option.split)
qed

lemma split_loop_utf8:
  "4 \<le> maxLen \<Longrightarrow> utf8 rest \<Longrightarrow> c \<in> set (split_loop maxLen rest) \<Longrightarrow> utf8 c"
proof (induction maxLen rest rule: split_loop.induct)
  case (1 maxLen rest)
  show ?case
  proof (cases "maxLen < length rest")
    case True
    let ?k = "cut_at maxLen rest"
    have "?k < length rest" using cut_at_bounds [of maxLen rest] 1(2) True by simp
    from utf8_cut [OF 1(3) this cut_at_rune [OF 1(3,2) True]]
    have parts: "utf8 (TrimSpace (take ?k rest))" "utf8 (TrimSpace (drop ?k rest))"
      by (simp_all add: utf8_TrimSpace)
    have "0 < maxLen \<and> maxLen < length rest" using True 1(2) by simp
    from 1(1) [OF this refl 1(2) parts(2)] parts(1) 1(4) this show ?thesis
      by (auto simp: split_loop.simps [of maxLen rest] Let_def)
  next
    case False
    then show ?thesis using 1(3,4) by (simp add: split_loop.simps [of maxLen rest] split: if_splits)
  qed
qed

lemma split_loop_nonempty:
  "0 < maxLen \<Longrightarrow> trimmed rest \<Longrightarrow> c \<in> set (split_loop maxLen rest) \<Longrightarrow> c \<noteq> []"
proof (induction maxLen rest rule: split_loop.induct)
  case (1 maxLen rest)
  show ?case
  proof (cases "maxLen < length rest")
    case True
    then have "TrimSpace (take (cut_at maxLen rest) rest) \<noteq> []"
      using cut_at_bounds [OF 1(2), of rest] by (intro trimmed_prefix [OF 1(3)]) auto
    then show ?thesis
      using 1 True trimmed_TrimSpace by (auto simp: split_loop.simps [of maxLen rest] Let_def)
  next
    case False
    then show ?thesis using 1(4) by (simp add: split_loop.simps [of maxLen rest] split: if_splits)
  qed
qed

lemma empty_response_ok: "utf8 empty_response" "length empty_response = 16" "empty_response \<noteq> []"
proof -
  have "\<forall>r \<in> set (map (\<lambda>c. [c]) empty_response). rune r"
    by (simp add: empty_response_def rune_def width_defs byte_def)
  moreover have "empty_response = concat (map (\<lambda>c. [c]) empty_response)" by simp
  ultimately show "utf8 empty_response" unfolding utf8_def by blast
qed (simp_all add: empty_response_def)

lemma splitProviderMessage_all:
  assumes "16 \<le> maxLen"
  shows "\<forall>c \<in> set (splitProviderMessage msg maxLen).
      int (length c) \<le> maxLen \<and> (utf8 msg \<longrightarrow> utf8 c) \<and> (trimmed msg \<longrightarrow> c \<noteq> [])"
proof -
  have m: "0 < nat maxLen" "4 \<le> nat maxLen" using assms by simp_all
  have "int (length c) \<le> maxLen" if "c \<in> set (split_loop (nat maxLen) msg)" for c
    using split_loop_bounded [OF m(1) that] assms by simp
  then show ?thesis
    using assms empty_response_ok split_loop_utf8 [OF m(2), of msg] split_loop_nonempty [OF m(1), of msg]
    by (auto simp: splitProviderMessage_def)
qed

lemma splitProviderMessage_covers:
  assumes "TrimSpace msg \<noteq> []"
  shows "covers (splitProviderMessage msg maxLen) msg"
proof -
  have "covers [msg] ([] @ msg @ [])" by (intro covers.intros) simp_all
  then show ?thesis
    using assms split_loop_covers [of "nat maxLen" msg] by (simp add: splitProviderMessage_def)
qed

text \<open>
  C26: a message is cut into pieces that a provider accepts and that lose nothing but white
  space. For a limit that leaves room for the placeholder of an empty message, every piece is within
  the limit, every piece of a UTF-8 text is UTF-8 (no rune is cut in two), no piece of a trimmed text is
  empty, and the pieces with white space between them are the text.
\<close>

theorem splitProviderMessage_pieces:
  assumes "16 \<le> maxLen"
  shows "(\<forall>c \<in> set (splitProviderMessage msg maxLen).
      int (length c) \<le> maxLen \<and> (utf8 msg \<longrightarrow> utf8 c) \<and> (trimmed msg \<longrightarrow> c \<noteq> [])) \<and>
    (TrimSpace msg \<noteq> [] \<longrightarrow> covers (splitProviderMessage msg maxLen) msg)"
  using splitProviderMessage_all [OF assms] splitProviderMessage_covers by blast

text \<open>Witness: a text of two lines and a limit that fits the first line only.\<close>

theorem splitProviderMessage_pieces_witness:
  "splitProviderMessage (replicate 10 CHR ''a'' @ newline_char # replicate 9 CHR ''b'') 16 =
     [replicate 10 CHR ''a'', replicate 9 CHR ''b''] \<and>
   list_all (\<lambda>c. int (length c) \<le> 16)
      (splitProviderMessage (replicate 10 CHR ''a'' @ newline_char # replicate 9 CHR ''b'') 16)"
proof (rule conjI)
  show "splitProviderMessage (replicate 10 CHR ''a'' @ newline_char # replicate 9 CHR ''b'') 16 =
     [replicate 10 CHR ''a'', replicate 9 CHR ''b'']"
    by code_simp
qed (use splitProviderMessage_pieces [of 16] in \<open>auto simp: list_all_iff\<close>)

section \<open>The frames of a message\<close>

lemma length_truncateUTF8: "0 \<le> maxLen \<Longrightarrow> int (length (truncateUTF8 s maxLen)) \<le> maxLen"
  using back_to_rune_le [of s "nat (maxLen - 3)"]
  by (auto simp: truncateUTF8_def min_def)

lemma length_RenderStream: "0 < maxLen \<Longrightarrow> int (length (RenderStream rnd stream maxLen)) \<le> maxLen"
  unfolding RenderStream_def Let_def by (simp add: length_truncateUTF8)

lemma split_short: "int (length s) \<le> maxLen \<Longrightarrow> length (splitProviderMessage s maxLen) = 1"
  by (simp add: splitProviderMessage_def)

lemma split_some_piece: "splitProviderMessage s maxLen \<noteq> []"
  by (auto simp: splitProviderMessage_def split_loop.simps Let_def)

lemma stream_one_piece:
  "in_Stream input = Some stream \<Longrightarrow> 0 < maxLen \<Longrightarrow>
     length (splitProviderMessage (outboundText rnd input maxLen) maxLen) = 1"
  by (simp add: outboundText_def split_short length_RenderStream)

text \<open>What the three renderers share: numbered frames around the pieces of the text.\<close>

definition numbered :: "string list \<Rightarrow> OutboundFrame list \<Rightarrow> bool" where
  "numbered chunks frames \<longleftrightarrow>
     map fr_Text frames = chunks \<and> map fr_Sequence frames = map (\<lambda>i. fr_Sequence (hd frames) + of_nat i) [0..<length frames]"

lemma numbered_map:
  assumes "\<And>i c. fr_Text (f (i, c)) = c" and "\<And>i c. fr_Sequence (f (i, c)) = start + of_nat i"
    and "chunks \<noteq> []"
  shows "numbered chunks (map f (List.enumerate 0 chunks))"
proof -
  have "fr_Sequence (hd (map f (List.enumerate 0 chunks))) = start"
    using assms by (cases chunks) simp_all
  then show ?thesis
    using assms(1,2) by (auto simp: numbered_def enumerate_eq_zip comp_def split_def intro!: nth_equalityI)
qed

lemma renderers_numbered:
  "numbered (splitProviderMessage (outboundText rnd input TelegramMaxMessageLen) TelegramMaxMessageLen)
     (RenderTelegramOutbound rnd input)"
  "numbered (splitProviderMessage (outboundText rnd input QQMaxMessageLen) QQMaxMessageLen)
     (RenderQQOutbound rnd input)"
  "numbered (splitProviderMessage (outboundText rnd input ServerChanMaxMessageLen) ServerChanMaxMessageLen)
     (RenderServerChanOutbound rnd input)"
  unfolding RenderTelegramOutbound_def RenderQQOutbound_def RenderServerChanOutbound_def Let_def
    case_prod_beta [of _ "qqTarget _"]
  by (rule numbered_map; simp add: split_some_piece add.commute)+

lemma numbered_frames:
  assumes "numbered (splitProviderMessage s maxLen) frames" and "16 \<le> maxLen"
  shows "frames \<noteq> []" and "f \<in> set frames \<Longrightarrow> int (length (fr_Text f)) \<le> maxLen"
    and "i < length frames \<Longrightarrow> fr_Sequence (frames ! i) = fr_Sequence (hd frames) + of_nat i"
    and "length frames = length (splitProviderMessage s maxLen)"
proof -
  have pieces: "map fr_Text frames = splitProviderMessage s maxLen"
    and nums: "map fr_Sequence frames = map (\<lambda>i. fr_Sequence (hd frames) + of_nat i) [0..<length frames]"
    using assms(1) unfolding numbered_def by blast+
  show "frames \<noteq> []" using pieces split_some_piece [of s maxLen] by auto
  show "length frames = length (splitProviderMessage s maxLen)" using pieces length_map by metis
  show "int (length (fr_Text f)) \<le> maxLen" if "f \<in> set frames"
  proof -
    have "fr_Text f \<in> set (splitProviderMessage s maxLen)" using that pieces by (metis image_eqI set_map)
    then show ?thesis using splitProviderMessage_all [OF assms(2)] by blast
  qed
  show "fr_Sequence (frames ! i) = fr_Sequence (hd frames) + of_nat i" if "i < length frames"
    using arg_cong [OF nums, of "\<lambda>xs. xs ! i"] that by simp
qed

text \<open>
  C27: whatever is sent to a provider is at least one frame, every frame is within the
  longest message of the providers, the frames of one message are numbered in order (modulo
  \<open>2^32\<close>), and a running stream, whose message is edited in place, is always a single frame.
\<close>

theorem RenderProviderOutbound_frames:
  assumes "RenderProviderOutbound E rnd input = Some frames"
  shows "frames \<noteq> [] \<and> (\<forall>f \<in> set frames. length (fr_Text f) \<le> 4000) \<and>
    (\<forall>i < length frames. fr_Sequence (frames ! i) = fr_Sequence (hd frames) + of_nat i) \<and>
    (in_Stream input \<noteq> None \<longrightarrow> length frames = 1)"
proof -
  obtain maxLen where n: "numbered (splitProviderMessage (outboundText rnd input maxLen) maxLen) frames"
    and m: "16 \<le> maxLen" "maxLen \<le> 4000"
    using assms renderers_numbered [of rnd input]
    by (auto simp: RenderProviderOutbound_def Let_def TelegramMaxMessageLen_def QQMaxMessageLen_def
        ServerChanMaxMessageLen_def split: if_splits)
  note frames = numbered_frames [OF n m(1)]
  have "length (fr_Text f) \<le> 4000" if "f \<in> set frames" for f using frames(2) [OF that] m(2) by simp
  moreover have "length frames = 1" if "in_Stream input \<noteq> None"
    using that stream_one_piece [of input _ maxLen rnd] frames(4) m(1) by auto
  ultimately show ?thesis using frames(1,3) by blast
qed

definition demo_outbound :: OutboundRenderInput where
  "demo_outbound = \<lparr>in_Provider = ''QQ'', in_ConversationID = ''qq:group:7'', in_ReplyToExternalMessageID = [],
     in_Text = ''hello'', in_Silent = False, in_Stream = None, in_StreamID = [], SequenceStart = 0\<rparr>"

theorem RenderProviderOutbound_frames_witness:
  "\<exists>frames. RenderProviderOutbound demo_env (\<lambda>x. x) demo_outbound = Some frames \<and>
     map fr_Text frames = [''hello''] \<and> map TargetID frames = [''7''] \<and>
     list_all (\<lambda>f. length (fr_Text f) \<le> 4000) frames"
proof -
  have p: "CanonicalProvider demo_env ''QQ'' = ''qq''" by code_simp
  have t: "outboundText (\<lambda>x. x) demo_outbound 3500 = ''hello''" "qqTarget (TrimSpace ''qq:group:7'') = (''group'', ''7'')"
    "splitProviderMessage ''hello'' 3500 = [''hello'']" by code_simp+
  have r: "RenderProviderOutbound demo_env (\<lambda>x. x) demo_outbound = Some (RenderQQOutbound (\<lambda>x. x) demo_outbound)"
    using p by (simp add: RenderProviderOutbound_def Let_def demo_outbound_def)
  from RenderProviderOutbound_frames [OF r] r t show ?thesis
    by (simp add: list_all_iff RenderQQOutbound_def QQMaxMessageLen_def) (simp add: demo_outbound_def)
qed

end
