(* ===== verification/Session_Queue.thy ===== *)
theory Session_Queue
  imports Prelude
begin

text \<open>
  The queue of the chat coordinator (\<^verbatim>\<open>internal/imcoord/session_queue.go\<close>): the requests of one session
  run one after the other in a goroutine of their own, which ends when it has been idle for a while.
  Requests and slots are numbered; \<open>K r\<close> is the session key of request \<open>r\<close>. Every region that holds a
  lock and every operation on a channel is one step, so that an interleaving of the callers, of the
  goroutines of the slots and of their timers is a sequence of steps.
\<close>

section \<open>State and operations\<close>

record sessionSlot =
  sl_key :: string
  sl_queue :: "nat list"
  sl_refs :: nat
  sl_activeCancel :: "nat option"

record sessionQueue =
  sq_sessions :: "string \<rightharpoonup> nat"
  sq_slots :: "nat \<Rightarrow> sessionSlot"
  sq_next :: nat

definition on_slot :: "nat \<Rightarrow> (sessionSlot \<Rightarrow> sessionSlot) \<Rightarrow> sessionQueue \<Rightarrow> sessionQueue" where
  "on_slot s f q = q\<lparr>sq_slots := (sq_slots q)(s := f (sq_slots q s))\<rparr>"

definition newSessionQueue :: sessionQueue where
  "newSessionQueue = \<lparr>sq_sessions = Map.empty,
     sq_slots = (\<lambda>_. \<lparr>sl_key = [], sl_queue = [], sl_refs = 0, sl_activeCancel = None\<rparr>), sq_next = 0\<rparr>"

text \<open>The slot of a session, and whether it is new, so that its goroutine is started.\<close>

definition getOrCreate :: "string \<Rightarrow> sessionQueue \<Rightarrow> (nat \<times> bool) \<times> sessionQueue" where
  "getOrCreate sessionKey q =
     (case sq_sessions q sessionKey of
        Some s \<Rightarrow> ((s, False), on_slot s (\<lambda>sl. sl\<lparr>sl_refs := sl_refs sl + 1\<rparr>) q)
      | None \<Rightarrow>
          let s = sq_next q
          in ((s, True), q\<lparr>sq_next := Suc s, sq_sessions := (sq_sessions q)(sessionKey \<mapsto> s),
                sq_slots := (sq_slots q)(s := \<lparr>sl_key = sessionKey, sl_queue = [], sl_refs = 1, sl_activeCancel = None\<rparr>)\<rparr>))"

definition release :: "nat \<Rightarrow> sessionQueue \<Rightarrow> sessionQueue" where
  "release s q =
     (if sq_sessions q (sl_key (sq_slots q s)) \<noteq> Some s \<or> sl_refs (sq_slots q s) = 0 then q
      else on_slot s (\<lambda>sl. sl\<lparr>sl_refs := sl_refs sl - 1\<rparr>) q)"

definition tryDeleteIdle :: "nat \<Rightarrow> sessionQueue \<Rightarrow> bool \<times> sessionQueue" where
  "tryDeleteIdle s q =
     (let slot = sq_slots q s
      in if sq_sessions q (sl_key slot) \<noteq> Some s \<or> sl_queue slot \<noteq> [] \<or> sl_refs slot \<noteq> 0 then (False, q)
         else if sl_activeCancel slot \<noteq> None then (False, q)
         else (True, q\<lparr>sq_sessions := (sq_sessions q)(sl_key slot := None)\<rparr>))"

text \<open>
  The two critical regions of \<^verbatim>\<open>abort\<close>: it looks the slot up, and then reads the cancel function of the slot, here
  the request it belongs to. The cancel function is called after both.
\<close>

definition abort_slot :: "string \<Rightarrow> sessionQueue \<Rightarrow> nat option" where
  "abort_slot sessionKey q = sq_sessions q sessionKey"

definition abort_active :: "nat \<Rightarrow> sessionQueue \<Rightarrow> nat option" where
  "abort_active s q = sl_activeCancel (sq_slots q s)"

text \<open>Where a caller of \<^verbatim>\<open>enqueue\<close> is, and where the goroutine of a slot is.\<close>

datatype caller =
    NotStarted
  | AtSend nat           \<comment> \<open>has the slot, waits for room in its channel\<close>
  | SentTo nat           \<comment> \<open>the request is in the channel, the slot is not released yet\<close>
  | LeftSlot nat         \<comment> \<open>the context ended before, the slot is not released yet\<close>
  | AwaitsResult
  | Returned

datatype worker =
    Stopped
  | Selecting            \<comment> \<open>waits for a request or the timer\<close>
  | Checking nat
  | Running nat
  | Answering nat

datatype queueResult = Ran | Refused

text \<open>
  The whole system. \<open>qs_accepted\<close> and \<open>qs_taken\<close> record, for each session, the requests in the order in
  which they entered the channel and in which the goroutine took them out. \<open>qs_found\<close> are the slots that a call of
  \<^verbatim>\<open>abort\<close> has looked up so far, \<open>qs_chosen\<close> the requests whose cancel function one has read; a call may be between
  any two of its steps for as long as it likes.
\<close>

record queue_sys =
  qs_queue :: sessionQueue
  qs_worker :: "nat \<Rightarrow> worker"
  qs_caller :: "nat \<Rightarrow> caller"
  qs_ended :: "nat \<Rightarrow> bool"
  qs_found :: "nat \<Rightarrow> bool"
  qs_chosen :: "nat \<Rightarrow> bool"
  qs_cancelled :: "nat \<Rightarrow> bool"
  qs_result :: "nat \<Rightarrow> queueResult option"
  qs_accepted :: "string \<Rightarrow> nat list"
  qs_taken :: "string \<Rightarrow> nat list"

definition start_queue :: queue_sys where
  "start_queue = \<lparr>qs_queue = newSessionQueue, qs_worker = (\<lambda>_. Stopped), qs_caller = (\<lambda>_. NotStarted),
     qs_ended = (\<lambda>_. False), qs_found = (\<lambda>_. False), qs_chosen = (\<lambda>_. False), qs_cancelled = (\<lambda>_. False), qs_result = (\<lambda>_. None),
     qs_accepted = (\<lambda>_. []), qs_taken = (\<lambda>_. [])\<rparr>"

abbreviation slot_of :: "queue_sys \<Rightarrow> nat \<Rightarrow> sessionSlot" where
  "slot_of st s \<equiv> sq_slots (qs_queue st) s"

definition move_caller :: "nat \<Rightarrow> caller \<Rightarrow> queue_sys \<Rightarrow> queue_sys" where
  "move_caller r c st = st\<lparr>qs_caller := (qs_caller st)(r := c)\<rparr>"

definition move_worker :: "nat \<Rightarrow> worker \<Rightarrow> queue_sys \<Rightarrow> queue_sys" where
  "move_worker s x st = st\<lparr>qs_worker := (qs_worker st)(s := x)\<rparr>"

definition enter_slot :: "string \<Rightarrow> nat \<Rightarrow> queue_sys \<Rightarrow> queue_sys" where
  "enter_slot key r st =
     (case getOrCreate key (qs_queue st) of
        ((s, fresh), q) \<Rightarrow>
          move_caller r (AtSend s) ((if fresh then move_worker s Selecting st else st)\<lparr>qs_queue := q\<rparr>))"

definition send_request :: "nat \<Rightarrow> nat \<Rightarrow> queue_sys \<Rightarrow> queue_sys" where
  "send_request r s st =
     move_caller r (SentTo s)
       (st\<lparr>qs_queue := on_slot s (\<lambda>sl. sl\<lparr>sl_queue := sl_queue sl @ [r]\<rparr>) (qs_queue st),
           qs_accepted := (qs_accepted st)(sl_key (slot_of st s) := qs_accepted st (sl_key (slot_of st s)) @ [r])\<rparr>)"

definition take_request :: "nat \<Rightarrow> nat \<Rightarrow> queue_sys \<Rightarrow> queue_sys" where
  "take_request r s st =
     move_worker s (Checking r)
       (st\<lparr>qs_queue := on_slot s (\<lambda>sl. sl\<lparr>sl_queue := tl (sl_queue sl)\<rparr>) (qs_queue st),
           qs_taken := (qs_taken st)(sl_key (slot_of st s) := qs_taken st (sl_key (slot_of st s)) @ [r])\<rparr>)"

definition set_active :: "nat \<Rightarrow> nat option \<Rightarrow> queue_sys \<Rightarrow> queue_sys" where
  "set_active s c st = st\<lparr>qs_queue := on_slot s (\<lambda>sl. sl\<lparr>sl_activeCancel := c\<rparr>) (qs_queue st)\<rparr>"

definition answer :: "nat \<Rightarrow> queueResult \<Rightarrow> queue_sys \<Rightarrow> queue_sys" where
  "answer r x st = st\<lparr>qs_result := (qs_result st)(r \<mapsto> x)\<rparr>"

text \<open>
  The steps: first those of \<^verbatim>\<open>enqueue\<close>, then the end of a context and \<^verbatim>\<open>abort\<close>, then those of \<^verbatim>\<open>run\<close>. The
  channel of a slot has room for 64 requests.
\<close>

inductive queue_step :: "(nat \<Rightarrow> string) \<Rightarrow> queue_sys \<Rightarrow> queue_sys \<Rightarrow> bool" for K where
  enter: "qs_caller st r = NotStarted \<Longrightarrow> queue_step K st (enter_slot (K r) r st)"
| send: "qs_caller st r = AtSend s \<Longrightarrow> length (sl_queue (slot_of st s)) < 64 \<Longrightarrow>
     queue_step K st (send_request r s st)"
| give_up: "qs_caller st r = AtSend s \<Longrightarrow> qs_ended st r \<Longrightarrow> queue_step K st (move_caller r (LeftSlot s) st)"
| release_sent: "qs_caller st r = SentTo s \<Longrightarrow>
     queue_step K st (move_caller r AwaitsResult (st\<lparr>qs_queue := release s (qs_queue st)\<rparr>))"
| release_left: "qs_caller st r = LeftSlot s \<Longrightarrow>
     queue_step K st (move_caller r Returned (st\<lparr>qs_queue := release s (qs_queue st)\<rparr>))"
| answered: "qs_caller st r = AwaitsResult \<Longrightarrow> qs_result st r \<noteq> None \<Longrightarrow> queue_step K st (move_caller r Returned st)"
| leave: "qs_caller st r = AwaitsResult \<Longrightarrow> qs_ended st r \<Longrightarrow> queue_step K st (move_caller r Returned st)"
| context_ends: "queue_step K st (st\<lparr>qs_ended := (qs_ended st)(r := True)\<rparr>)"
| abort_finds: "abort_slot key (qs_queue st) = Some s \<Longrightarrow> queue_step K st (st\<lparr>qs_found := (qs_found st)(s := True)\<rparr>)"
| abort_reads: "qs_found st s \<Longrightarrow> abort_active s (qs_queue st) = Some r \<Longrightarrow>
     queue_step K st (st\<lparr>qs_chosen := (qs_chosen st)(r := True)\<rparr>)"
| abort_cancels: "qs_chosen st r \<Longrightarrow> queue_step K st (st\<lparr>qs_cancelled := (qs_cancelled st)(r := True)\<rparr>)"
| take_one: "qs_worker st s = Selecting \<Longrightarrow> sl_queue (slot_of st s) = r # rs \<Longrightarrow> queue_step K st (take_request r s st)"
| refuse: "qs_worker st s = Checking r \<Longrightarrow> qs_ended st r \<Longrightarrow>
     queue_step K st (move_worker s Selecting (answer r Refused st))"
| run_fn: "qs_worker st s = Checking r \<Longrightarrow> \<not> qs_ended st r \<Longrightarrow>
     queue_step K st (move_worker s (Running r) (set_active s (Some r) st))"
| fn_ends: "qs_worker st s = Running r \<Longrightarrow> queue_step K st (move_worker s (Answering r) (set_active s None st))"
| reply: "qs_worker st s = Answering r \<Longrightarrow> queue_step K st (move_worker s Selecting (answer r Ran st))"
| timeout: "qs_worker st s = Selecting \<Longrightarrow> tryDeleteIdle s (qs_queue st) = (deleted, q) \<Longrightarrow>
     queue_step K st (move_worker s (if deleted then Stopped else Selecting) (st\<lparr>qs_queue := q\<rparr>))"

section \<open>The invariant\<close>

definition holds_slot :: "caller \<Rightarrow> nat \<Rightarrow> bool" where
  "holds_slot c s \<longleftrightarrow> c = AtSend s \<or> c = SentTo s \<or> c = LeftSlot s"

definition holders :: "queue_sys \<Rightarrow> nat \<Rightarrow> nat set" where
  "holders st s = {r. holds_slot (qs_caller st r) s}"

definition in_hand :: "worker \<Rightarrow> nat \<Rightarrow> bool" where
  "in_hand x r \<longleftrightarrow> x = Checking r \<or> x = Running r \<or> x = Answering r"

definition waiting :: "queue_sys \<Rightarrow> string \<Rightarrow> nat list" where
  "waiting st k = (case sq_sessions (qs_queue st) k of None \<Rightarrow> [] | Some s \<Rightarrow> sl_queue (slot_of st s))"

text \<open>The goroutine of a slot runs exactly while the slot is registered under its key.\<close>

definition registered :: "queue_sys \<Rightarrow> bool" where
  "registered st \<longleftrightarrow>
     (\<forall>k s. sq_sessions (qs_queue st) k = Some s \<longrightarrow>
        s < sq_next (qs_queue st) \<and> sl_key (slot_of st s) = k \<and> qs_worker st s \<noteq> Stopped) \<and>
     (\<forall>s. qs_worker st s \<noteq> Stopped \<longrightarrow> sq_sessions (qs_queue st) (sl_key (slot_of st s)) = Some s)"

text \<open>The count of references is the number of callers that hold the slot; a stopped slot has none and no request.\<close>

definition counted :: "(nat \<Rightarrow> string) \<Rightarrow> queue_sys \<Rightarrow> bool" where
  "counted K st \<longleftrightarrow>
     (\<forall>s. finite (holders st s) \<and> (qs_worker st s \<noteq> Stopped \<longrightarrow> sl_refs (slot_of st s) = card (holders st s))) \<and>
     (\<forall>s. qs_worker st s = Stopped \<longrightarrow> holders st s = {}) \<and>
     (\<forall>r s. r \<in> holders st s \<longrightarrow> K r = sl_key (slot_of st s))"

definition past_send :: "caller \<Rightarrow> bool" where
  "past_send c \<longleftrightarrow> (case c of SentTo s \<Rightarrow> True | AwaitsResult \<Rightarrow> True | Returned \<Rightarrow> True | _ \<Rightarrow> False)"

definition lined_up :: "queue_sys \<Rightarrow> bool" where
  "lined_up st \<longleftrightarrow> (\<forall>k. qs_accepted st k = qs_taken st k @ waiting st k)"

definition accounted :: "(nat \<Rightarrow> string) \<Rightarrow> queue_sys \<Rightarrow> bool" where
  "accounted K st \<longleftrightarrow> (\<forall>k. distinct (qs_accepted st k) \<and>
     (\<forall>r \<in> set (qs_accepted st k). K r = k \<and> past_send (qs_caller st r)))"

definition served :: "(nat \<Rightarrow> string) \<Rightarrow> queue_sys \<Rightarrow> bool" where
  "served K st \<longleftrightarrow>
     (\<forall>r. qs_result st r \<noteq> None \<longrightarrow> r \<in> set (qs_taken st (K r))) \<and>
     (\<forall>s r. in_hand (qs_worker st s) r \<longrightarrow> r \<in> set (qs_taken st (sl_key (slot_of st s))) \<and> qs_result st r = None) \<and>
     (\<forall>k r. r \<in> set (qs_taken st k) \<longrightarrow> qs_result st r \<noteq> None \<or>
        (\<exists>s. sq_sessions (qs_queue st) k = Some s \<and> in_hand (qs_worker st s) r))"

definition abortable :: "queue_sys \<Rightarrow> bool" where
  "abortable st \<longleftrightarrow> (\<forall>s r. sl_activeCancel (slot_of st s) = Some r \<longleftrightarrow> qs_worker st s = Running r)"

lemmas queue_ops = enter_slot_def send_request_def take_request_def set_active_def answer_def move_caller_def
  move_worker_def on_slot_def getOrCreate_def release_def tryDeleteIdle_def Let_def

text \<open>Most steps leave the table of slots alone; the two that do not are opening and closing a slot.\<close>

definition same_table :: "queue_sys \<Rightarrow> queue_sys \<Rightarrow> bool" where
  "same_table st st' \<longleftrightarrow>
     sq_sessions (qs_queue st') = sq_sessions (qs_queue st) \<and> sq_next (qs_queue st') = sq_next (qs_queue st) \<and>
     (\<forall>s. sl_key (slot_of st' s) = sl_key (slot_of st s) \<and> (qs_worker st' s = Stopped \<longleftrightarrow> qs_worker st s = Stopped))"

definition open_slot :: "string \<Rightarrow> nat \<Rightarrow> queue_sys \<Rightarrow> queue_sys" where
  "open_slot key r st =
     (let s = sq_next (qs_queue st)
      in move_caller r (AtSend s) (move_worker s Selecting st
           \<lparr>qs_queue := (qs_queue st)\<lparr>sq_next := Suc s, sq_sessions := (sq_sessions (qs_queue st))(key \<mapsto> s),
              sq_slots := (sq_slots (qs_queue st))(s := \<lparr>sl_key = key, sl_queue = [], sl_refs = 1, sl_activeCancel = None\<rparr>)\<rparr>\<rparr>))"

definition close_slot :: "nat \<Rightarrow> queue_sys \<Rightarrow> queue_sys" where
  "close_slot s st = move_worker s Stopped
     (st\<lparr>qs_queue := (qs_queue st)\<lparr>sq_sessions := (sq_sessions (qs_queue st))(sl_key (slot_of st s) := None)\<rparr>\<rparr>)"

lemma open_slot_simps:
  "sq_sessions (qs_queue (open_slot key r st)) = (sq_sessions (qs_queue st))(key \<mapsto> sq_next (qs_queue st))"
  "sq_next (qs_queue (open_slot key r st)) = Suc (sq_next (qs_queue st))"
  "sq_slots (qs_queue (open_slot key r st)) = (sq_slots (qs_queue st))
     (sq_next (qs_queue st) := \<lparr>sl_key = key, sl_queue = [], sl_refs = 1, sl_activeCancel = None\<rparr>)"
  "qs_worker (open_slot key r st) = (qs_worker st)(sq_next (qs_queue st) := Selecting)"
  "qs_caller (open_slot key r st) = (qs_caller st)(r := AtSend (sq_next (qs_queue st)))"
  "qs_accepted (open_slot key r st) = qs_accepted st" "qs_taken (open_slot key r st) = qs_taken st"
  "qs_result (open_slot key r st) = qs_result st"
  by (simp_all add: open_slot_def move_caller_def move_worker_def Let_def)

lemma close_slot_simps:
  "sq_sessions (qs_queue (close_slot s st)) = (sq_sessions (qs_queue st))(sl_key (slot_of st s) := None)"
  "sq_next (qs_queue (close_slot s st)) = sq_next (qs_queue st)"
  "sq_slots (qs_queue (close_slot s st)) = sq_slots (qs_queue st)"
  "qs_worker (close_slot s st) = (qs_worker st)(s := Stopped)"
  "qs_caller (close_slot s st) = qs_caller st"
  "qs_accepted (close_slot s st) = qs_accepted st" "qs_taken (close_slot s st) = qs_taken st"
  "qs_result (close_slot s st) = qs_result st"
  by (simp_all add: close_slot_def move_worker_def)

lemma enter_cases:
  "enter_slot key r st =
     (case sq_sessions (qs_queue st) key of
        None \<Rightarrow> open_slot key r st
      | Some s \<Rightarrow> move_caller r (AtSend s)
          (st\<lparr>qs_queue := on_slot s (\<lambda>sl. sl\<lparr>sl_refs := sl_refs sl + 1\<rparr>) (qs_queue st)\<rparr>))"
  by (simp add: enter_slot_def getOrCreate_def open_slot_def Let_def move_worker_def split: option.splits)

lemma timeout_cases:
  assumes "tryDeleteIdle s (qs_queue st) = (deleted, q)" and "qs_worker st s = Selecting"
  shows "move_worker s (if deleted then Stopped else Selecting) (st\<lparr>qs_queue := q\<rparr>) =
     (if deleted then close_slot s st else st) \<and>
     (deleted \<longrightarrow> sq_sessions (qs_queue st) (sl_key (slot_of st s)) = Some s \<and> sl_queue (slot_of st s) = [] \<and>
        sl_refs (slot_of st s) = 0 \<and> sl_activeCancel (slot_of st s) = None)"
proof (cases deleted)
  case True
  then show ?thesis using assms(1) by (auto simp: tryDeleteIdle_def close_slot_def Let_def split: if_splits)
next
  case False
  then have "q = qs_queue st" using assms(1) by (auto simp: tryDeleteIdle_def Let_def split: if_splits)
  moreover have "(qs_worker st)(s := Selecting) = qs_worker st" using assms(2) by auto
  ultimately show ?thesis using False by (simp add: move_worker_def)
qed

lemma step_kinds:
  assumes "queue_step K st st'"
  obtains (same) "same_table st st'"
  | (opened) r where "qs_caller st r = NotStarted" "sq_sessions (qs_queue st) (K r) = None" "st' = open_slot (K r) r st"
  | (closed) s where "qs_worker st s = Selecting" "sq_sessions (qs_queue st) (sl_key (slot_of st s)) = Some s"
      "sl_queue (slot_of st s) = []" "sl_refs (slot_of st s) = 0" "st' = close_slot s st"
  using assms
proof cases
  case (enter r)
  show thesis
  proof (cases "sq_sessions (qs_queue st) (K r)")
    case None
    then show thesis using opened [of r] enter by (simp add: enter_cases)
  next
    case (Some s)
    then show thesis using same enter by (simp add: enter_cases same_table_def move_caller_def on_slot_def)
  qed
next
  case (timeout s deleted q)
  note t = timeout_cases [OF timeout(3,2)]
  show thesis
  proof (cases deleted)
    case True
    then show thesis using closed [of s] timeout(1,2) t by simp
  next
    case False
    then show thesis using same timeout(1) t by (simp add: same_table_def)
  qed
qed (rule same; simp add: same_table_def queue_ops)+

lemma registeredD:
  assumes "registered st" "sq_sessions (qs_queue st) k = Some s"
  shows "s < sq_next (qs_queue st)" "sl_key (slot_of st s) = k" "qs_worker st s \<noteq> Stopped"
  using assms by (simp_all add: registered_def)

lemma registered_live:
  "registered st \<Longrightarrow> qs_worker st s \<noteq> Stopped \<Longrightarrow> sq_sessions (qs_queue st) (sl_key (slot_of st s)) = Some s"
  by (simp add: registered_def)

lemma fresh_slot_stopped: "registered st \<Longrightarrow> qs_worker st (sq_next (qs_queue st)) = Stopped"
  using registered_live registeredD(1) by blast

lemma open_registered:
  assumes "registered st" "sq_sessions (qs_queue st) key = None"
  shows "registered (open_slot key r st)"
  unfolding registered_def open_slot_simps
proof (intro conjI allI impI, goal_cases)
  case (1 k s)
  then show ?case using registeredD [OF assms(1), of k s] by (cases "k = key") auto
next
  case (2 k s)
  then show ?case using registeredD [OF assms(1), of k s] by (cases "k = key") auto
next
  case (3 k s)
  then show ?case using registeredD [OF assms(1), of k s] by (cases "k = key") auto
next
  case (4 s)
  show ?case
  proof (cases "s = sq_next (qs_queue st)")
    case False
    then have "sq_sessions (qs_queue st) (sl_key (slot_of st s)) = Some s"
      using registered_live [OF assms(1)] 4 by simp
    then show ?thesis using False assms(2) by auto
  qed simp
qed

lemma close_registered:
  assumes "registered st" "sq_sessions (qs_queue st) (sl_key (slot_of st s)) = Some s"
  shows "registered (close_slot s st)"
  unfolding registered_def close_slot_simps
proof (intro conjI allI impI, goal_cases)
  case (1 k t)
  then show ?case using registeredD [OF assms(1), of k t] by (cases "k = sl_key (slot_of st s)") simp_all
next
  case (2 k t)
  then show ?case using registeredD [OF assms(1), of k t] by (cases "k = sl_key (slot_of st s)") simp_all
next
  case (3 k t)
  then have k: "k \<noteq> sl_key (slot_of st s)" and "sq_sessions (qs_queue st) k = Some t"
    by (cases "k = sl_key (slot_of st s)"; simp)+
  then have "t \<noteq> s" "qs_worker st t \<noteq> Stopped" using registeredD [OF assms(1), of k t] by blast+
  then show ?case by simp
next
  case (4 t)
  then have t: "t \<noteq> s" "qs_worker st t \<noteq> Stopped" by (cases "t = s"; simp)+
  then have "sq_sessions (qs_queue st) (sl_key (slot_of st t)) = Some t" using registered_live [OF assms(1)] by blast
  then show ?case using t(1) assms(2) by (cases "sl_key (slot_of st t) = sl_key (slot_of st s)") simp_all
qed

lemma registered_step:
  assumes "queue_step K st st'" "registered st"
  shows "registered st'"
  using assms(1)
proof (cases rule: step_kinds)
  case same
  then show ?thesis using assms(2) by (simp add: registered_def same_table_def)
next
  case (opened r)
  then show ?thesis using open_registered [OF assms(2)] by simp
next
  case (closed s)
  then show ?thesis using close_registered [OF assms(2)] by simp
qed

text \<open>References.\<close>

lemma holders_move:
  "holders (move_caller r c st) s = (if holds_slot c s then insert r (holders st s) else holders st s - {r})"
  by (auto simp: holders_def move_caller_def)

lemma holders_queue [simp]: "holders (st\<lparr>qs_queue := q\<rparr>) s = holders st s"
  by (simp add: holders_def)

lemma holds_slot_simps [simp]:
  "holds_slot NotStarted s = False" "holds_slot (AtSend t) s = (t = s)" "holds_slot (SentTo t) s = (t = s)"
  "holds_slot (LeftSlot t) s = (t = s)" "holds_slot AwaitsResult s = False" "holds_slot Returned s = False"
  by (auto simp: holds_slot_def)

lemma holders_mem: "r \<in> holders st s \<longleftrightarrow> holds_slot (qs_caller st r) s"
  by (simp add: holders_def)

text \<open>Steps that change neither the holders nor the counts.\<close>

lemma counted_same:
  assumes "counted K st" "same_table st st'" "\<And>s. holders st' s = holders st s"
    "\<And>s. sl_refs (slot_of st' s) = sl_refs (slot_of st s)"
  shows "counted K st'"
  using assms by (simp add: counted_def same_table_def)

lemma counted_enter:
  assumes "counted K st" "registered st" "qs_caller st r = NotStarted"
  shows "counted K (enter_slot (K r) r st)"
proof -
  have no: "r \<notin> holders st s" for s using assms(3) by (simp add: holders_mem)
  show ?thesis
  proof (cases "sq_sessions (qs_queue st) (K r)")
    case None
    let ?n = "sq_next (qs_queue st)"
    have h: "holders (open_slot (K r) r st) s = (if s = ?n then {r} else holders st s)" for s
      using no assms(1) fresh_slot_stopped [OF assms(2)]
      by (auto simp: holders_def open_slot_simps counted_def)
    show ?thesis
      using assms(1) None by (auto simp: enter_cases counted_def h open_slot_simps)
  next
    case (Some s)
    note reg = registeredD [OF assms(2) Some]
    have h: "holders (enter_slot (K r) r st) t = (if t = s then insert r (holders st s) else holders st t)" for t
      using Some no by (auto simp: enter_cases holders_move)
    show ?thesis
      using assms(1) reg no
      by (simp add: counted_def h) (simp add: enter_cases Some move_caller_def on_slot_def)
  qed
qed

lemma counted_release:
  assumes "counted K st" "registered st" "holds_slot (qs_caller st r) s" "\<And>t. \<not> holds_slot c t"
  shows "counted K (move_caller r c (st\<lparr>qs_queue := release s (qs_queue st)\<rparr>))"
proof -
  have r: "r \<in> holders st s" using assms(3) by (simp add: holders_mem)
  have fin: "finite (holders st s)" and live: "qs_worker st s \<noteq> Stopped"
    using assms(1) r unfolding counted_def by blast+
  have card: "sl_refs (slot_of st s) = card (holders st s)" using assms(1) live by (simp add: counted_def)
  then have pos: "sl_refs (slot_of st s) \<noteq> 0" using r fin by (auto simp: card_eq_0_iff)
  have q: "release s (qs_queue st) = on_slot s (\<lambda>sl. sl\<lparr>sl_refs := sl_refs sl - 1\<rparr>) (qs_queue st)"
    using registered_live [OF assms(2) live] pos by (simp add: release_def)
  have other: "r \<notin> holders st t" if "t \<noteq> s" for t
    using assms(3) that by (auto simp: holders_mem holds_slot_def)
  have h: "holders (move_caller r c (st\<lparr>qs_queue := release s (qs_queue st)\<rparr>)) t =
      (if t = s then holders st s - {r} else holders st t)" for t
    using assms(4) other by (auto simp: holders_move)
  show ?thesis
    using assms(1) live card r fin unfolding counted_def h
    by (simp add: q move_caller_def on_slot_def)
qed

lemma counted_close:
  assumes "counted K st" "sl_refs (slot_of st s) = 0" "qs_worker st s \<noteq> Stopped"
  shows "counted K (close_slot s st)"
proof -
  have "holders st s = {}" using assms unfolding counted_def by (metis card_0_eq)
  moreover have "holders (close_slot s st) = holders st" by (simp add: holders_def close_slot_simps fun_eq_iff)
  ultimately show ?thesis using assms(1) by (simp add: counted_def close_slot_simps)
qed

lemma counted_step:
  assumes "queue_step K st st'" "registered st" "counted K st"
  shows "counted K st'"
  using assms(1)
proof cases
  case (enter r)
  then show ?thesis using counted_enter [OF assms(3,2)] by simp
next
  case (release_sent r s)
  then show ?thesis using counted_release [OF assms(3,2), of r s AwaitsResult] by simp
next
  case (release_left r s)
  then show ?thesis using counted_release [OF assms(3,2), of r s Returned] by simp
next
  case (timeout s deleted q)
  note t = timeout_cases [OF timeout(3,2)]
  show ?thesis
  proof (cases deleted)
    case True
    then show ?thesis using t timeout(1,2) counted_close [OF assms(3), of s] by simp
  next
    case False
    then show ?thesis using t timeout(1) assms(3) by simp
  qed
qed (rule counted_same [OF assms(3)];
    auto simp: same_table_def queue_ops holders_def fun_upd_apply)+

text \<open>Order.\<close>

lemma waiting_live: "registered st \<Longrightarrow> qs_worker st s \<noteq> Stopped \<Longrightarrow> waiting st (sl_key (slot_of st s)) = sl_queue (slot_of st s)"
  by (simp add: waiting_def registered_live)

lemma lined_up_same:
  assumes "lined_up st" "same_table st st'" "\<And>s. sl_queue (slot_of st' s) = sl_queue (slot_of st s)"
    "qs_accepted st' = qs_accepted st" "qs_taken st' = qs_taken st"
  shows "lined_up st'"
proof -
  have "waiting st' k = waiting st k" for k
    using assms(2,3) by (simp add: waiting_def same_table_def split: option.splits)
  then show ?thesis using assms(1,4,5) by (simp add: lined_up_def)
qed

text \<open>A change of one channel is seen under the key of its slot only.\<close>

lemma waiting_on_slot:
  assumes "registered st" "qs_worker st s \<noteq> Stopped"
    "sq_sessions (qs_queue st') = sq_sessions (qs_queue st)"
    "sq_slots (qs_queue st') = (sq_slots (qs_queue st))(s := sl)"
  shows "waiting st' k = (if k = sl_key (slot_of st s) then sl_queue sl else waiting st k)"
proof (cases "k = sl_key (slot_of st s)")
  case True
  then show ?thesis using registered_live [OF assms(1,2)] assms(3,4) by (simp add: waiting_def)
next
  case False
  then have "sq_sessions (qs_queue st) k \<noteq> Some s" using registeredD(2) [OF assms(1)] by blast
  then show ?thesis using False assms(3,4) by (simp add: waiting_def split: option.splits)
qed

lemma waiting_send:
  assumes "registered st" "qs_worker st s \<noteq> Stopped"
  shows "waiting (send_request r s st) k = (if k = sl_key (slot_of st s) then waiting st k @ [r] else waiting st k)"
  using waiting_on_slot [OF assms, of "send_request r s st"] waiting_live [OF assms]
  by (simp add: send_request_def move_caller_def on_slot_def)

lemma waiting_take:
  assumes "registered st" "qs_worker st s \<noteq> Stopped"
  shows "waiting (take_request r s st) k =
     (if k = sl_key (slot_of st s) then tl (sl_queue (slot_of st s)) else waiting st k)"
  using waiting_on_slot [OF assms, of "take_request r s st"]
  by (simp add: take_request_def move_worker_def on_slot_def)

lemma waiting_open:
  assumes "registered st" "sq_sessions (qs_queue st) key = None"
  shows "waiting (open_slot key r st) k = waiting st k"
  using assms(2) registeredD(1) [OF assms(1)] by (auto simp: waiting_def open_slot_simps split: option.splits)

lemma waiting_close:
  assumes "sl_queue (slot_of st s) = []" "sq_sessions (qs_queue st) (sl_key (slot_of st s)) = Some s"
  shows "waiting (close_slot s st) k = waiting st k"
  using assms by (auto simp: waiting_def close_slot_simps split: option.splits)

lemma sender_live:
  assumes "counted K st" "qs_caller st r = AtSend s"
  shows "qs_worker st s \<noteq> Stopped" and "K r = sl_key (slot_of st s)"
  using assms unfolding counted_def by (metis holders_mem holds_slot_simps(2) empty_iff)+

lemma request_simps:
  "qs_accepted (send_request r s st) = (qs_accepted st)(sl_key (slot_of st s) := qs_accepted st (sl_key (slot_of st s)) @ [r])"
  "qs_taken (send_request r s st) = qs_taken st"
  "qs_caller (send_request r s st) = (qs_caller st)(r := SentTo s)"
  "qs_accepted (take_request r s st) = qs_accepted st"
  "qs_taken (take_request r s st) = (qs_taken st)(sl_key (slot_of st s) := qs_taken st (sl_key (slot_of st s)) @ [r])"
  "qs_caller (take_request r s st) = qs_caller st"
  by (simp_all add: send_request_def take_request_def move_caller_def move_worker_def)

lemma lined_up_step:
  assumes "queue_step K st st'" "registered st" "counted K st" "lined_up st"
  shows "lined_up st'"
  using assms(1)
proof cases
  case (enter r)
  show ?thesis
  proof (cases "sq_sessions (qs_queue st) (K r)")
    case None
    then show ?thesis
      using assms(4) enter(1) by (simp add: enter_cases lined_up_def waiting_open [OF assms(2)] open_slot_simps)
  next
    case (Some s)
    then show ?thesis
      unfolding enter(1)
      by (intro lined_up_same [OF assms(4)]) (auto simp: enter_cases same_table_def move_caller_def on_slot_def)
  qed
next
  case (send r s)
  note live = sender_live(1) [OF assms(3) send(2)]
  show ?thesis
    using assms(4) by (simp add: send(1) lined_up_def waiting_send [OF assms(2) live] request_simps)
next
  case (take_one s r rs)
  then have live: "qs_worker st s \<noteq> Stopped" by simp
  show ?thesis
    using assms(4) take_one(3) waiting_live [OF assms(2) live]
    by (simp add: take_one(1) lined_up_def waiting_take [OF assms(2) live] request_simps)
next
  case (timeout s deleted q)
  note t = timeout_cases [OF timeout(3,2)]
  show ?thesis
    using t timeout(1) assms(4) by (cases deleted) (simp_all add: lined_up_def waiting_close close_slot_simps)
qed (rule lined_up_same [OF assms(4)]; auto simp: same_table_def queue_ops)+

lemma accounted_caller:
  assumes "accounted K st" "qs_accepted st' = qs_accepted st" "\<And>r. past_send (qs_caller st r) \<Longrightarrow> past_send (qs_caller st' r)"
  shows "accounted K st'"
  using assms by (simp add: accounted_def)

lemma accounted_step:
  assumes "queue_step K st st'" "counted K st" "accounted K st"
  shows "accounted K st'"
  using assms(1)
proof cases
  case (send r s)
  let ?k = "sl_key (slot_of st s)"
  have "\<not> past_send (qs_caller st r)" using send(2) by (simp add: past_send_def)
  then have new: "r \<notin> set (qs_accepted st k)" for k using assms(3) by (auto simp: accounted_def)
  have old: "distinct (qs_accepted st k)" "\<And>x. x \<in> set (qs_accepted st k) \<Longrightarrow> K x = k \<and> past_send (qs_caller st x)" for k
    using assms(3) by (simp_all add: accounted_def)
  show ?thesis
    unfolding accounted_def send(1) request_simps
  proof (intro allI conjI ballI, goal_cases)
    case (1 k)
    then show ?case using old(1) new by simp
  next
    case (2 k x)
    then show ?case using old(2) [of x k] sender_live(2) [OF assms(2) send(2)] by (auto split: if_splits)
  next
    case (3 k x)
    then show ?case using old(2) [of x k] by (auto simp: past_send_def split: if_splits)
  qed
next
  case (enter r)
  then show ?thesis
    by (intro accounted_caller [OF assms(3)])
      (auto simp: enter_slot_def getOrCreate_def move_caller_def move_worker_def past_send_def Let_def split: option.splits)
next
  case (timeout s deleted q)
  then show ?thesis by (intro accounted_caller [OF assms(3)]) (simp_all add: move_worker_def)
qed (rule accounted_caller [OF assms(3)]; auto simp: queue_ops past_send_def split: if_splits)+

text \<open>Answers.\<close>

lemma in_hand_simps [simp]:
  "in_hand Stopped r = False" "in_hand Selecting r = False" "in_hand (Checking q) r = (q = r)"
  "in_hand (Running q) r = (q = r)" "in_hand (Answering q) r = (q = r)"
  by (auto simp: in_hand_def)

lemma servedD:
  assumes "served K st"
  shows "qs_result st r \<noteq> None \<Longrightarrow> r \<in> set (qs_taken st (K r))"
    and "in_hand (qs_worker st s) r \<Longrightarrow> r \<in> set (qs_taken st (sl_key (slot_of st s)))"
    and "in_hand (qs_worker st s) r \<Longrightarrow> qs_result st r = None"
    and "r \<in> set (qs_taken st k) \<Longrightarrow> qs_result st r = None \<Longrightarrow>
      \<exists>s. sq_sessions (qs_queue st) k = Some s \<and> in_hand (qs_worker st s) r"
  using assms unfolding served_def by blast+

lemma served_same:
  assumes "served K st" "same_table st st'" "\<And>s r. in_hand (qs_worker st' s) r = in_hand (qs_worker st s) r"
    "qs_taken st' = qs_taken st" "qs_result st' = qs_result st"
  shows "served K st'"
  using assms by (simp add: served_def same_table_def)

text \<open>A request is in the hands of one goroutine at most.\<close>

lemma hand_unique:
  assumes "registered st" "lined_up st" "accounted K st" "served K st"
    "in_hand (qs_worker st s) r" "in_hand (qs_worker st t) q" "K r = K q"
  shows "s = t"
proof -
  have k: "K x = sl_key (slot_of st u)" if x: "in_hand (qs_worker st u) x" for u x
  proof -
    have "x \<in> set (qs_accepted st (sl_key (slot_of st u)))"
      using servedD(2) [OF assms(4) x] assms(2) by (simp add: lined_up_def)
    then show ?thesis using assms(3) by (auto simp: accounted_def)
  qed
  have live: "qs_worker st s \<noteq> Stopped" "qs_worker st t \<noteq> Stopped" using assms(5,6) by auto
  have "sq_sessions (qs_queue st) (K r) = Some s" "sq_sessions (qs_queue st) (K r) = Some t"
    using registered_live [OF assms(1) live(1)] registered_live [OF assms(1) live(2)] k [OF assms(5)] k [OF assms(6)] assms(7)
    by simp_all
  then show ?thesis by simp
qed

lemma served_answer:
  assumes "registered st" "lined_up st" "accounted K st" "served K st" "in_hand (qs_worker st s) r"
  shows "served K (move_worker s Selecting (answer r x st))" (is "served K ?st")
proof -
  have k: "K r = sl_key (slot_of st s)"
    using servedD(2) [OF assms(4,5)] assms(2,3) by (auto simp: lined_up_def accounted_def)
  have f: "qs_worker ?st = (qs_worker st)(s := Selecting)" "qs_result ?st = (qs_result st)(r \<mapsto> x)"
    "qs_taken ?st = qs_taken st" "qs_queue ?st = qs_queue st"
    by (simp_all add: move_worker_def answer_def)
  have only: "s = t" if t: "in_hand (qs_worker st t) r" for t
    by (rule hand_unique [OF assms(1-5) t refl])
  show ?thesis
    unfolding served_def f
  proof (intro conjI allI impI, goal_cases)
    case (1 q)
    then show ?case using servedD(1) [OF assms(4), of q] servedD(2) [OF assms(4,5)] k by (cases "q = r") auto
  next
    case (2 t q)
    then have "in_hand (qs_worker st t) q" by (cases "t = s") simp_all
    then show ?case by (rule servedD(2) [OF assms(4)])
  next
    case (3 t q)
    then have t: "t \<noteq> s" "in_hand (qs_worker st t) q" by (cases "t = s"; simp)+
    then have "q \<noteq> r" using only by blast
    then show ?case using servedD(3) [OF assms(4) t(2)] by simp
  next
    case (4 j q)
    show ?case
    proof (cases "q = r \<or> qs_result st q \<noteq> None")
      case False
      then obtain t where t: "sq_sessions (qs_queue st) j = Some t" "in_hand (qs_worker st t) q"
        using servedD(4) [OF assms(4) 4] by auto
      have "t \<noteq> s" using False t(2) assms(5) by (cases "qs_worker st s") auto
      then show ?thesis using t by auto
    qed auto
  qed
qed

lemma served_take:
  assumes "registered st" "lined_up st" "accounted K st" "served K st"
    "qs_worker st s = Selecting" "sl_queue (slot_of st s) = r # rs"
  shows "served K (take_request r s st)" (is "served K ?st")
proof -
  let ?k = "sl_key (slot_of st s)"
  have reg: "sq_sessions (qs_queue st) ?k = Some s" using registered_live [OF assms(1)] assms(5) by simp
  have acc: "qs_accepted st ?k = qs_taken st ?k @ r # rs"
    using assms(2,6) waiting_live [OF assms(1), of s] assms(5) by (simp add: lined_up_def)
  then have k: "K r = ?k" and new: "r \<notin> set (qs_taken st ?k)"
    using assms(3) unfolding accounted_def by (auto dest!: spec [of _ ?k])
  have none: "qs_result st r = None" using servedD(1) [OF assms(4), of r] k new by (cases "qs_result st r") auto
  have f: "qs_worker ?st = (qs_worker st)(s := Checking r)" "qs_result ?st = qs_result st"
    "qs_taken ?st = (qs_taken st)(?k := qs_taken st ?k @ [r])" "sq_sessions (qs_queue ?st) = sq_sessions (qs_queue st)"
    "\<And>t. sl_key (slot_of ?st t) = sl_key (slot_of st t)"
    by (simp_all add: take_request_def move_worker_def on_slot_def)
  show ?thesis
    unfolding served_def f
  proof (intro conjI allI impI, goal_cases)
    case (1 q)
    then show ?case using servedD(1) [OF assms(4), of q] by auto
  next
    case (2 t q)
    then show ?case using servedD(2) [OF assms(4), of t q] by (cases "t = s") auto
  next
    case (3 t q)
    then show ?case using servedD(3) [OF assms(4), of t q] none by (cases "t = s") auto
  next
    case (4 j q)
    show ?case
    proof (cases "q = r \<and> j = ?k \<or> qs_result st q \<noteq> None")
      case True
      then show ?thesis using reg by auto
    next
      case False
      then have "q \<in> set (qs_taken st j)" using 4 by (auto split: if_splits)
      then obtain t where t: "sq_sessions (qs_queue st) j = Some t" "in_hand (qs_worker st t) q"
        using servedD(4) [OF assms(4)] False by auto
      have "t \<noteq> s" using t(2) assms(5) by auto
      then show ?thesis using t by auto
    qed
  qed
qed

lemma served_open:
  assumes "registered st" "served K st" "sq_sessions (qs_queue st) key = None"
  shows "served K (open_slot key r st)"
proof -
  let ?n = "sq_next (qs_queue st)"
  have stopped: "qs_worker st ?n = Stopped" by (rule fresh_slot_stopped [OF assms(1)])
  show ?thesis
    unfolding served_def open_slot_simps
  proof (intro conjI allI impI, goal_cases)
    case (1 q)
    then show ?case using servedD(1) [OF assms(2), of q] by auto
  next
    case (2 t q)
    then show ?case using servedD(2) [OF assms(2), of t q] by (cases "t = ?n") auto
  next
    case (3 t q)
    then show ?case using servedD(3) [OF assms(2), of t q] by (cases "t = ?n") auto
  next
    case (4 j q)
    show ?case
    proof (cases "qs_result st q")
      case None
      obtain t where t: "sq_sessions (qs_queue st) j = Some t" "in_hand (qs_worker st t) q"
        using servedD(4) [OF assms(2) 4 None] by blast
      have "t \<noteq> ?n" "j \<noteq> key" using t stopped assms(3) by auto
      then show ?thesis using t by auto
    qed simp
  qed
qed

lemma served_close:
  assumes "served K st" "qs_worker st s = Selecting" "sq_sessions (qs_queue st) (sl_key (slot_of st s)) = Some s"
  shows "served K (close_slot s st)"
  unfolding served_def close_slot_simps
proof (intro conjI allI impI, goal_cases)
  case (1 q)
  then show ?case using servedD(1) [OF assms(1), of q] by auto
next
  case (2 t q)
  then show ?case using servedD(2) [OF assms(1), of t q] by (cases "t = s") auto
next
  case (3 t q)
  then show ?case using servedD(3) [OF assms(1), of t q] by (cases "t = s") auto
next
  case (4 j q)
  show ?case
  proof (cases "qs_result st q")
    case None
    obtain t where t: "sq_sessions (qs_queue st) j = Some t" "in_hand (qs_worker st t) q"
      using servedD(4) [OF assms(1) 4 None] by blast
    have "t \<noteq> s" using t(2) assms(2) by auto
    then have "j \<noteq> sl_key (slot_of st s)" using t(1) assms(3) by auto
    then show ?thesis using t \<open>t \<noteq> s\<close> by auto
  qed simp
qed

lemma served_step:
  assumes "queue_step K st st'" "registered st" "lined_up st" "accounted K st" "served K st"
  shows "served K st'"
  using assms(1)
proof cases
  case (enter r)
  show ?thesis
  proof (cases "sq_sessions (qs_queue st) (K r)")
    case None
    then show ?thesis using served_open [OF assms(2,5)] enter(1) by (simp add: enter_cases)
  next
    case (Some s)
    then show ?thesis
      unfolding enter(1)
      by (intro served_same [OF assms(5)]) (auto simp: enter_cases same_table_def move_caller_def on_slot_def)
  qed
next
  case (take_one s r rs)
  then show ?thesis using served_take [OF assms(2-5)] by simp
next
  case (refuse s r)
  then show ?thesis using served_answer [OF assms(2-5), of s r] by simp
next
  case (reply s r)
  then show ?thesis using served_answer [OF assms(2-5), of s r] by simp
next
  case (timeout s deleted q)
  note t = timeout_cases [OF timeout(3,2)]
  show ?thesis
    using t timeout(1,2) assms(5) served_close [OF assms(5), of s] by (cases deleted) simp_all
qed (rule served_same [OF assms(5)]; auto simp: same_table_def queue_ops)+

lemma abortable_step:
  assumes "queue_step K st st'" "registered st" "abortable st"
  shows "abortable st'"
  using assms(1)
proof cases
  case (enter r)
  show ?thesis
  proof (cases "sq_sessions (qs_queue st) (K r)")
    case None
    then show ?thesis using assms(3) enter(1) by (simp add: enter_cases abortable_def open_slot_simps)
  next
    case (Some s)
    then show ?thesis
      using assms(3) enter(1) by (simp add: enter_cases abortable_def move_caller_def on_slot_def)
  qed
next
  case (timeout s deleted q)
  note t = timeout_cases [OF timeout(3,2)]
  show ?thesis
    using t timeout(1,2) assms(3) by (cases deleted) (auto simp: abortable_def close_slot_simps)
qed (use assms(3) in \<open>auto simp: abortable_def queue_ops\<close>)+

definition queue_ok :: "(nat \<Rightarrow> string) \<Rightarrow> queue_sys \<Rightarrow> bool" where
  "queue_ok K st \<longleftrightarrow> registered st \<and> counted K st \<and> lined_up st \<and> accounted K st \<and> served K st \<and> abortable st"

lemma queue_ok_start: "queue_ok K start_queue"
  by (simp add: queue_ok_def start_queue_def newSessionQueue_def registered_def counted_def lined_up_def accounted_def
      served_def abortable_def holders_def waiting_def)

lemma queue_ok_step: "queue_step K st st' \<Longrightarrow> queue_ok K st \<Longrightarrow> queue_ok K st'"
  unfolding queue_ok_def
  using registered_step counted_step lined_up_step accounted_step served_step abortable_step by metis

lemma queue_ok_reachable: "(queue_step K)\<^sup>*\<^sup>* start_queue st \<Longrightarrow> queue_ok K st"
  by (induction rule: rtranclp_induct) (auto intro: queue_ok_start queue_ok_step)

section \<open>Sessions are served in order, one request at a time\<close>

text \<open>
  C29: under every interleaving of callers, goroutines, timers, aborts and ended contexts,
  no two requests of a session run at the same time; the goroutine takes the requests of a session in the
  order in which they were accepted and each of them once, also when the slot was dropped as idle and opened
  again in between; and an accepted request is never lost: it was answered, or a goroutine that is registered for the
  session and has not stopped has it in hand or in its channel.
\<close>

theorem session_queue_serial:
  assumes "(queue_step K)\<^sup>*\<^sup>* start_queue st"
  shows "(\<forall>s t r q. qs_worker st s = Running r \<and> qs_worker st t = Running q \<and> K r = K q \<longrightarrow> s = t \<and> r = q) \<and>
    (\<forall>k. qs_accepted st k = qs_taken st k @ waiting st k \<and> distinct (qs_accepted st k)) \<and>
    (\<forall>k r. r \<in> set (qs_accepted st k) \<longrightarrow> qs_result st r \<noteq> None \<or>
       (\<exists>s. sq_sessions (qs_queue st) k = Some s \<and> qs_worker st s \<noteq> Stopped \<and>
          (in_hand (qs_worker st s) r \<or> r \<in> set (sl_queue (slot_of st s)))))"
proof -
  have ok: "registered st" "lined_up st" "accounted K st" "served K st"
    using queue_ok_reachable [OF assms] by (simp_all add: queue_ok_def)
  have "s = t \<and> r = q" if "qs_worker st s = Running r" "qs_worker st t = Running q" "K r = K q" for s t r q
    using hand_unique [OF ok, of s r t q] that by auto
  moreover have "qs_accepted st k = qs_taken st k @ waiting st k \<and> distinct (qs_accepted st k)" for k
    using ok(2,3) by (simp add: lined_up_def accounted_def)
  moreover have "qs_result st r \<noteq> None \<or> (\<exists>s. sq_sessions (qs_queue st) k = Some s \<and> qs_worker st s \<noteq> Stopped \<and>
      (in_hand (qs_worker st s) r \<or> r \<in> set (sl_queue (slot_of st s))))"
    if "r \<in> set (qs_accepted st k)" for k r
  proof -
    from that ok(2) consider "r \<in> set (qs_taken st k)" | "r \<in> set (waiting st k)" by (auto simp: lined_up_def)
    then show ?thesis
    proof cases
      case 1
      show ?thesis
      proof (cases "qs_result st r")
        case None
        then show ?thesis using servedD(4) [OF ok(4) 1] registeredD(3) [OF ok(1)] by blast
      qed simp
    next
      case 2
      then obtain s where "sq_sessions (qs_queue st) k = Some s" "r \<in> set (sl_queue (slot_of st s))"
        by (cases "sq_sessions (qs_queue st) k") (auto simp: waiting_def)
      then show ?thesis using registeredD(3) [OF ok(1)] by blast
    qed
  qed
  ultimately show ?thesis by blast
qed

text \<open>An abort reads the cancel function of a request that runs in the slot it has found.\<close>

lemma abort_running:
  assumes "(queue_step K)\<^sup>*\<^sup>* start_queue st" "abort_active s (qs_queue st) = Some r"
  shows "qs_worker st s = Running r"
  using queue_ok_reachable [OF assms(1)] assms(2)
  by (auto simp: queue_ok_def abortable_def abort_active_def)

section \<open>A concrete run\<close>

text \<open>Two requests of one session: the first runs, the second waits in the channel.\<close>

definition one_session :: "nat \<Rightarrow> string" where
  "one_session r = ''chat''"

definition two_entered :: queue_sys where
  "two_entered = enter_slot ''chat'' 1 (enter_slot ''chat'' 0 start_queue)"

definition two_sent :: queue_sys where
  "two_sent = send_request 1 0 (send_request 0 0 two_entered)"

definition first_runs :: queue_sys where
  "first_runs = move_worker 0 (Running 0) (set_active 0 (Some 0) (take_request 0 0 two_sent))"

lemmas demo_queue_defs = two_entered_def two_sent_def first_runs_def one_session_def start_queue_def newSessionQueue_def

lemma two_entered_reached: "(queue_step one_session)\<^sup>*\<^sup>* start_queue two_entered"
proof -
  have "queue_step one_session start_queue (enter_slot ''chat'' 0 start_queue)"
    using enter [of start_queue 0 one_session] by (simp add: one_session_def start_queue_def)
  moreover have "queue_step one_session (enter_slot ''chat'' 0 start_queue) two_entered"
    using enter [of "enter_slot ''chat'' 0 start_queue" 1 one_session]
    by (simp add: one_session_def two_entered_def start_queue_def newSessionQueue_def queue_ops)
  ultimately show ?thesis by (meson r_into_rtranclp rtranclp.rtrancl_into_rtrancl)
qed

lemma two_sent_reached: "(queue_step one_session)\<^sup>*\<^sup>* two_entered two_sent"
proof -
  have "queue_step one_session two_entered (send_request 0 0 two_entered)"
    by (rule send) (simp_all add: demo_queue_defs queue_ops)
  moreover have "queue_step one_session (send_request 0 0 two_entered) two_sent"
    unfolding two_sent_def by (rule send) (simp_all add: demo_queue_defs queue_ops)
  ultimately show ?thesis by (meson r_into_rtranclp rtranclp.rtrancl_into_rtrancl)
qed

lemma first_runs_reached: "(queue_step one_session)\<^sup>*\<^sup>* two_sent first_runs"
proof -
  have "queue_step one_session two_sent (take_request 0 0 two_sent)"
    by (rule take_one [of _ _ _ "[1]"]) (simp_all add: demo_queue_defs queue_ops)
  moreover have "queue_step one_session (take_request 0 0 two_sent) first_runs"
    unfolding first_runs_def by (rule run_fn) (simp_all add: demo_queue_defs queue_ops)
  ultimately show ?thesis by (meson r_into_rtranclp rtranclp.rtrancl_into_rtrancl)
qed

theorem session_queue_serial_witness:
  "qs_worker first_runs 0 = Running 0 \<and> qs_accepted first_runs ''chat'' = [0, 1] \<and>
   qs_accepted first_runs ''chat'' = qs_taken first_runs ''chat'' @ waiting first_runs ''chat'' \<and>
   (\<exists>s. sq_sessions (qs_queue first_runs) ''chat'' = Some s \<and> (1::nat) \<in> set (sl_queue (slot_of first_runs s)))"
proof -
  have r: "(queue_step one_session)\<^sup>*\<^sup>* start_queue first_runs"
    using two_entered_reached two_sent_reached first_runs_reached by (meson rtranclp_trans)
  have a: "qs_worker first_runs 0 = Running 0" "qs_accepted first_runs ''chat'' = [0, 1]" "qs_result first_runs 1 = None"
      "sq_sessions (qs_queue first_runs) ''chat'' = Some 0"
    by (simp_all add: demo_queue_defs queue_ops)
  note s = session_queue_serial [OF r]
  have "(\<exists>s. sq_sessions (qs_queue first_runs) ''chat'' = Some s \<and> qs_worker first_runs s \<noteq> Stopped \<and>
      (in_hand (qs_worker first_runs s) 1 \<or> (1::nat) \<in> set (sl_queue (slot_of first_runs s))))"
    using conjunct2 [OF conjunct2 [OF s]] a(2,3) by (auto dest!: spec [of _ "''chat''"] spec [of _ "1::nat"])
  then have "\<exists>s. sq_sessions (qs_queue first_runs) ''chat'' = Some s \<and> (1::nat) \<in> set (sl_queue (slot_of first_runs s))"
    using a(1,4) by auto
  then show ?thesis using a s by blast
qed

end
