(* ===== verification/IM_Inbound.thy ===== *)
theory IM_Inbound
  imports Complex_Main Encoding Utf8 Store_Base
begin

text \<open>
  Inbound chat messages as the adapters hand them over (\<^verbatim>\<open>internal/iminbound/types.go\<close>): normalization,
  validation, the text of a message and the draft built from it; and the cache that recognizes repeated
  deliveries (\<^verbatim>\<open>internal/imadapter/dedupe.go\<close>).
\<close>

section \<open>JSON values\<close>

text \<open>
  What \<^verbatim>\<open>encoding/json\<close> decodes a document into, or encodes. The two functions of the library the
  code calls on them are arguments: \<open>json_parse\<close> gives \<^const>\<open>None\<close> for text that is not JSON and
  \<open>json_marshal\<close> for values that cannot be encoded.
\<close>

datatype json =
    JNull
  | JBool bool
  | JNumber rat
  | JString string
  | JArray "json list"
  | JObject "(string \<times> json) list"

record json_codec =
  json_parse :: "string \<Rightarrow> json option"
  json_marshal :: "json \<Rightarrow> string option"

section \<open>Messages\<close>

record Sender =
  snd_ExternalID :: string
  snd_CandidateIDs :: "string list"
  snd_DisplayName :: string
  snd_Username :: string
  snd_Kind :: string

record Conversation =
  conv_ExternalID :: string
  conv_DisplayName :: string
  conv_IsGroup :: bool
  conv_TargetHint :: string
  conv_ThreadID :: string
  conv_ExternalThreadID :: string
  conv_RootMessageID :: string

record ContentBlock =
  blk_Type :: string
  blk_Text :: string
  blk_AttachmentID :: string
  blk_ExternalURL :: string
  blk_Filename :: string
  blk_MimeType :: string
  blk_SizeBytes :: int
  blk_Metadata :: "(string \<times> json) list"

record InboundMessage =
  inb_EndpointID :: string
  inb_EndpointKind :: string
  inb_Provider :: string
  inb_ExternalMessageID :: string
  inb_ReceivedUnix :: int
  inb_Conversation :: Conversation
  inb_Sender :: Sender
  inb_Content :: "ContentBlock list"
  inb_AttachmentIDs :: "string list"
  inb_Metadata :: "(string \<times> json) list"

record Draft =
  dft_Target :: string
  dft_ThreadID :: string
  dft_Role :: string
  dft_Content :: string
  dft_ReplyToMessageID :: string
  dft_SourceEndpointID :: string
  dft_ExternalMessageID :: string
  dft_ReceivedUnix :: int
  dft_MetadataJSON :: string
  dft_AttachmentIDs :: "string list"
  dft_Sender :: Sender

section \<open>Normalization\<close>

definition Conversation_Normalize :: "Conversation \<Rightarrow> Conversation" where
  "Conversation_Normalize c =
     c\<lparr>conv_ExternalID := TrimSpace (conv_ExternalID c), conv_DisplayName := TrimSpace (conv_DisplayName c),
       conv_TargetHint := TrimSpace (conv_TargetHint c), conv_ThreadID := TrimSpace (conv_ThreadID c),
       conv_ExternalThreadID := TrimSpace (conv_ExternalThreadID c),
       conv_RootMessageID := TrimSpace (conv_RootMessageID c)\<rparr>"

definition Sender_Normalize :: "Sender \<Rightarrow> Sender" where
  "Sender_Normalize s =
     (let ext = TrimSpace (snd_ExternalID s);
          candidates = clean_strings (ext # snd_CandidateIDs s)
      in s\<lparr>snd_ExternalID := (if ext = [] \<and> candidates \<noteq> [] then hd candidates else ext),
           snd_CandidateIDs := candidates, snd_DisplayName := TrimSpace (snd_DisplayName s),
           snd_Username := TrimSpace (snd_Username s), snd_Kind := TrimSpace (snd_Kind s)\<rparr>)"

definition ContentBlock_Normalize :: "ContentBlock \<Rightarrow> ContentBlock" where
  "ContentBlock_Normalize b =
     b\<lparr>blk_Type := (if blk_Type b = [] then ''text'' else blk_Type b), blk_Text := TrimSpace (blk_Text b),
       blk_AttachmentID := TrimSpace (blk_AttachmentID b), blk_ExternalURL := TrimSpace (blk_ExternalURL b),
       blk_Filename := TrimSpace (blk_Filename b), blk_MimeType := TrimSpace (blk_MimeType b)\<rparr>"

text \<open>\<open>now\<close> is the clock, read for a message without a time of its own.\<close>

definition Message_Normalize :: "int \<Rightarrow> InboundMessage \<Rightarrow> InboundMessage" where
  "Message_Normalize now m =
     m\<lparr>inb_EndpointID := TrimSpace (inb_EndpointID m), inb_EndpointKind := TrimSpace (inb_EndpointKind m),
       inb_Provider := TrimSpace (inb_Provider m),
       inb_ExternalMessageID := TrimSpace (inb_ExternalMessageID m),
       inb_ReceivedUnix := (if inb_ReceivedUnix m = 0 then now else inb_ReceivedUnix m),
       inb_Conversation := Conversation_Normalize (inb_Conversation m),
       inb_Sender := Sender_Normalize (inb_Sender m),
       inb_AttachmentIDs := clean_strings (inb_AttachmentIDs m),
       inb_Content := map ContentBlock_Normalize (inb_Content m)\<rparr>"

section \<open>Validation\<close>

datatype block_problem =
    BlockNeedsText string
  | BlockNeedsFile string
  | UnknownBlockEmpty
  | UnsupportedType string

definition ContentBlock_Validate :: "ContentBlock \<Rightarrow> block_problem option" where
  "ContentBlock_Validate b0 =
     (let b = ContentBlock_Normalize b0; t = blk_Type b
      in if t \<in> {''text'', ''reaction'', ''location''}
         then (if blk_Text b = [] then Some (BlockNeedsText t) else None)
         else if t \<in> {''image'', ''file'', ''audio'', ''video'', ''sticker''}
         then (if blk_AttachmentID b = [] \<and> blk_ExternalURL b = [] then Some (BlockNeedsFile t) else None)
         else if t = ''unknown''
         then (if blk_Text b = [] \<and> blk_AttachmentID b = [] \<and> blk_ExternalURL b = [] \<and> blk_Metadata b = []
               then Some UnknownBlockEmpty else None)
         else Some (UnsupportedType t))"

datatype problem =
    Required string
  | BadBlock nat block_problem

definition block_problems :: "ContentBlock list \<Rightarrow> problem list" where
  "block_problems blocks =
     concat (map (\<lambda>(i, b). case ContentBlock_Validate b of None \<Rightarrow> [] | Some p \<Rightarrow> [BadBlock i p])
       (List.enumerate 0 blocks))"

text \<open>The problems found; the message is valid when there are none.\<close>

definition Message_Validate :: "int \<Rightarrow> InboundMessage \<Rightarrow> problem list" where
  "Message_Validate now m0 =
     (let m = Message_Normalize now m0
      in (if inb_EndpointID m = [] then [Required ''endpoint_id''] else []) @
         (if inb_ExternalMessageID m = [] then [Required ''external_message_id''] else []) @
         (if conv_ExternalID (inb_Conversation m) = [] then [Required ''conversation.external_id''] else []) @
         (if snd_ExternalID (inb_Sender m) = [] then [Required ''sender.external_id''] else []) @
         (if inb_Content m = [] \<and> inb_AttachmentIDs m = []
          then [Required ''content or attachment_ids''] else []) @
         block_problems (inb_Content m))"

section \<open>The draft of a message\<close>

definition Message_DedupeKey :: "int \<Rightarrow> InboundMessage \<Rightarrow> string" where
  "Message_DedupeKey now m0 =
     (let m = Message_Normalize now m0
      in if inb_EndpointID m = [] \<or> inb_ExternalMessageID m = [] then []
         else inb_EndpointID m @ '':'' @ inb_ExternalMessageID m)"

definition block_text :: "ContentBlock \<Rightarrow> string list" where
  "block_text b =
     (if blk_Text b \<noteq> [] then [blk_Text b]
      else let label = blk_Type b @ (if blk_Filename b \<noteq> [] then '': '' @ blk_Filename b else [])
           in if label \<noteq> [] then [''['' @ label @ '']''] else [])"

definition Message_Text :: "int \<Rightarrow> InboundMessage \<Rightarrow> string" where
  "Message_Text now m0 =
     (let m = Message_Normalize now m0; parts = concat (map block_text (inb_Content m));
          n = length (inb_AttachmentIDs m)
      in if parts = [] \<and> 0 < n
         then (if n = 1 then ''[attachment]'' else ''['' @ digits_of n @ '' attachments]'')
         else Join [CHR 0x0A] parts)"

definition AllAttachmentIDs :: "int \<Rightarrow> InboundMessage \<Rightarrow> string list" where
  "AllAttachmentIDs now m0 =
     (let m = Message_Normalize now m0
      in clean_strings (inb_AttachmentIDs m @ map blk_AttachmentID (inb_Content m)))"

text \<open>The JSON form of the parts of a message; empty fields marked so in the code are left out.\<close>

definition omit_empty :: "string \<Rightarrow> string \<Rightarrow> (string \<times> json) list" where
  "omit_empty k v = (if v = [] then [] else [(k, JString v)])"

definition conversation_json :: "Conversation \<Rightarrow> json" where
  "conversation_json c = JObject
     ([(''external_id'', JString (conv_ExternalID c))] @ omit_empty ''display_name'' (conv_DisplayName c) @
      [(''is_group'', JBool (conv_IsGroup c))] @ omit_empty ''target_hint'' (conv_TargetHint c) @
      omit_empty ''thread_id'' (conv_ThreadID c) @ omit_empty ''external_thread_id'' (conv_ExternalThreadID c) @
      omit_empty ''root_message_id'' (conv_RootMessageID c))"

definition sender_json :: "Sender \<Rightarrow> json" where
  "sender_json s = JObject
     ([(''external_id'', JString (snd_ExternalID s))] @
      (if snd_CandidateIDs s = [] then [] else [(''candidate_ids'', JArray (map JString (snd_CandidateIDs s)))]) @
      omit_empty ''display_name'' (snd_DisplayName s) @ omit_empty ''username'' (snd_Username s) @
      omit_empty ''kind'' (snd_Kind s))"

definition block_json :: "ContentBlock \<Rightarrow> json" where
  "block_json b = JObject
     ([(''type'', JString (blk_Type b))] @ omit_empty ''text'' (blk_Text b) @
      omit_empty ''attachment_id'' (blk_AttachmentID b) @ omit_empty ''external_url'' (blk_ExternalURL b) @
      omit_empty ''filename'' (blk_Filename b) @ omit_empty ''mime_type'' (blk_MimeType b) @
      (if blk_SizeBytes b = 0 then [] else [(''size_bytes'', JNumber (of_int (blk_SizeBytes b)))]) @
      (if blk_Metadata b = [] then [] else [(''metadata'', JObject (blk_Metadata b))]))"

definition Message_MetadataJSON :: "json_codec \<Rightarrow> int \<Rightarrow> InboundMessage \<Rightarrow> string option" where
  "Message_MetadataJSON J now m0 =
     (let m = Message_Normalize now m0;
          im = JObject [(''endpoint_id'', JString (inb_EndpointID m)), (''endpoint_kind'', JString (inb_EndpointKind m)),
                 (''provider'', JString (inb_Provider m)),
                 (''external_message_id'', JString (inb_ExternalMessageID m)),
                 (''received_unix'', JNumber (of_int (inb_ReceivedUnix m))),
                 (''conversation'', conversation_json (inb_Conversation m)),
                 (''sender'', sender_json (inb_Sender m)),
                 (''content'', JArray (map block_json (inb_Content m)))]
      in json_marshal J (JObject
           (filter (\<lambda>(k, v). TrimSpace k \<noteq> [] \<and> k \<noteq> ''im'') (inb_Metadata m) @ [(''im'', im)])))"

datatype draft_err = InvalidMessage "problem list" | MarshalFailed

definition Message_Draft :: "json_codec \<Rightarrow> int \<Rightarrow> InboundMessage \<Rightarrow> draft_err + Draft" where
  "Message_Draft J now m0 =
     (let m = Message_Normalize now m0
      in if Message_Validate now m \<noteq> [] then Inl (InvalidMessage (Message_Validate now m))
         else case Message_MetadataJSON J now m of
           None \<Rightarrow> Inl MarshalFailed
         | Some metadataJSON \<Rightarrow> Inr
             \<lparr>dft_Target = conv_TargetHint (inb_Conversation m), dft_ThreadID = conv_ThreadID (inb_Conversation m),
              dft_Role = ''user'', dft_Content = Message_Text now m,
              dft_ReplyToMessageID = conv_RootMessageID (inb_Conversation m),
              dft_SourceEndpointID = inb_EndpointID m, dft_ExternalMessageID = inb_ExternalMessageID m,
              dft_ReceivedUnix = inb_ReceivedUnix m, dft_MetadataJSON = metadataJSON,
              dft_AttachmentIDs = AllAttachmentIDs now m, dft_Sender = inb_Sender m\<rparr>)"

section \<open>Recognizing repeated deliveries\<close>

text \<open>Times and the time to live are nanoseconds.\<close>

definition DefaultDedupeTTL :: int where
  "DefaultDedupeTTL = 60000000000"

record DedupeCache =
  TTL :: int
  seen :: "string \<rightharpoonup> int"

definition dedupe_ttl :: "DedupeCache \<Rightarrow> int" where
  "dedupe_ttl c = (if TTL c \<le> 0 then DefaultDedupeTTL else TTL c)"

definition purge :: "int \<Rightarrow> int \<Rightarrow> (string \<rightharpoonup> int) \<Rightarrow> (string \<rightharpoonup> int)" where
  "purge now ttl m = (\<lambda>k. case m k of None \<Rightarrow> None | Some t \<Rightarrow> if ttl < now - t then None else Some t)"

text \<open>\<open>key\<close> is the deduplication key of the message.\<close>

definition MarkSeen :: "int \<Rightarrow> string \<Rightarrow> DedupeCache \<Rightarrow> bool \<times> DedupeCache" where
  "MarkSeen now key c =
     (if key = [] then (False, c)
      else let kept = purge now (dedupe_ttl c) (seen c)
           in case kept key of
                Some _ \<Rightarrow> (True, c\<lparr>seen := kept\<rparr>)
              | None \<Rightarrow> (False, c\<lparr>seen := kept(key \<mapsto> now)\<rparr>))"

definition Forget :: "string \<Rightarrow> DedupeCache \<Rightarrow> DedupeCache" where
  "Forget key c = (if key = [] then c else c\<lparr>seen := (seen c)(key := None)\<rparr>)"

section \<open>Normal forms\<close>

lemma Conversation_Normalize_idem [simp]:
  "Conversation_Normalize (Conversation_Normalize c) = Conversation_Normalize c"
  by (simp add: Conversation_Normalize_def)

lemma ContentBlock_Normalize_idem [simp]:
  "ContentBlock_Normalize (ContentBlock_Normalize b) = ContentBlock_Normalize b"
  by (simp add: ContentBlock_Normalize_def)

lemma clean_strings_Cons_hd: "clean_strings (hd (clean_strings vs) # clean_strings vs) = clean_strings vs"
  if "clean_strings vs \<noteq> []"
proof -
  have "trimmed x \<and> x \<noteq> []" if "x \<in> set (clean_strings vs)" for x
    using that by (auto simp: clean_strings_set trimmed_def)
  moreover obtain x xs where x: "clean_strings vs = x # xs" using \<open>clean_strings vs \<noteq> []\<close> by (cases "clean_strings vs") auto
  ultimately have "TrimSpace x = x" "x \<noteq> []" by (auto simp: trimmed_def)
  then have "clean_strings (x # x # xs) = clean_strings (x # xs)" by (simp add: clean_strings_def)
  then show ?thesis using clean_strings_idem [of vs] x by simp
qed

lemma clean_strings_Cons_Nil [simp]: "clean_strings ([] # vs) = clean_strings vs"
  by (simp add: clean_strings_def)

lemma clean_strings_Cons_head:
  "TrimSpace x = x \<Longrightarrow> x \<noteq> [] \<Longrightarrow> clean_strings (x # vs) \<noteq> [] \<and> hd (clean_strings (x # vs)) = x"
  by (simp add: clean_strings_def)

lemma Sender_Normalize_idem [simp]: "Sender_Normalize (Sender_Normalize s) = Sender_Normalize s"
proof (cases "TrimSpace (snd_ExternalID s) = []")
  case True
  show ?thesis
  proof (cases "clean_strings (snd_CandidateIDs s) = []")
    case False
    then have "hd (clean_strings (snd_CandidateIDs s)) \<in> set (clean_strings (snd_CandidateIDs s))" by simp
    then have h: "TrimSpace (hd (clean_strings (snd_CandidateIDs s))) = hd (clean_strings (snd_CandidateIDs s))"
      "hd (clean_strings (snd_CandidateIDs s)) \<noteq> []"
      unfolding clean_strings_set by auto
    show ?thesis using True False h clean_strings_Cons_hd [OF False] by (simp add: Sender_Normalize_def Let_def)
  qed (use True in \<open>simp add: Sender_Normalize_def Let_def\<close>)
next
  case False
  have e: "TrimSpace (TrimSpace (snd_ExternalID s)) = TrimSpace (snd_ExternalID s)" by simp
  let ?vs = "TrimSpace (snd_ExternalID s) # snd_CandidateIDs s"
  have "clean_strings (TrimSpace (snd_ExternalID s) # clean_strings ?vs) = clean_strings ?vs"
    using clean_strings_Cons_hd [of ?vs] clean_strings_Cons_head [OF e False, of "snd_CandidateIDs s"] by simp
  then show ?thesis using False by (simp add: Sender_Normalize_def Let_def)
qed

lemma Message_Normalize_idem: "now \<noteq> 0 \<Longrightarrow> Message_Normalize now' (Message_Normalize now m) = Message_Normalize now m"
  by (simp add: Message_Normalize_def comp_def)

lemma Message_Validate_normal: "now \<noteq> 0 \<Longrightarrow> Message_Validate now (Message_Normalize now m) = Message_Validate now m"
  by (simp add: Message_Validate_def Message_Normalize_idem)

section \<open>What a draft carries\<close>

lemma clean_bracket: "strip_first space_encodings (CHR ''['' # s) = None"
  by (simp add: space_encodings_def HasPrefix_def)

lemma block_text_clean:
  "p \<in> set (block_text (ContentBlock_Normalize b)) \<Longrightarrow> p \<noteq> [] \<and> strip_first space_encodings p = None"
  by (auto simp: block_text_def Let_def clean_bracket ContentBlock_Normalize_def TrimSpace_left_clean
      split: if_splits)

lemma Join_clean:
  assumes "\<forall>p \<in> set ps. p \<noteq> [] \<and> strip_first space_encodings p = None" and "ps \<noteq> []"
  shows "strip_first space_encodings (Join [CHR 0x0A] ps) = None \<and> Join [CHR 0x0A] ps \<noteq> []"
  using assms by (cases "([CHR 0x0A], ps)" rule: Join.cases) (auto simp: strip_first_append)

text \<open>A message with content or attachments has a text that is not blank.\<close>

lemma Message_Text_nonblank:
  assumes "inb_Content m \<noteq> [] \<or> inb_AttachmentIDs (Message_Normalize now m) \<noteq> []"
  shows "TrimSpace (Message_Text now m) \<noteq> []"
proof -
  let ?parts = "concat (map block_text (inb_Content (Message_Normalize now m)))"
  have "\<forall>p \<in> set ?parts. p \<noteq> [] \<and> strip_first space_encodings p = None"
    using block_text_clean by (auto simp: Message_Normalize_def)
  note join = Join_clean [OF this]
  have some: "?parts \<noteq> []" if "inb_Content m \<noteq> []"
  proof -
    obtain b bs where "inb_Content m = b # bs" using \<open>inb_Content m \<noteq> []\<close> by (cases "inb_Content m") auto
    moreover have "block_text (ContentBlock_Normalize b) \<noteq> []"
      by (simp add: ContentBlock_Normalize_def block_text_def Let_def)
    ultimately show ?thesis by (simp add: Message_Normalize_def)
  qed
  have "strip_first space_encodings (Message_Text now m) = None \<and> Message_Text now m \<noteq> []"
    using assms some join by (auto simp: Message_Text_def Let_def clean_bracket)
  then show ?thesis using TrimSpace_nonempty by blast
qed

lemma Message_Draft_fields:
  assumes "Message_Draft J now m = Inr d" and "now \<noteq> 0"
  defines "n \<equiv> Message_Normalize now m"
  shows "Message_Validate now m = []" and "\<exists>v. json_marshal J v = Some (dft_MetadataJSON d)"
    and "dft_Target d = conv_TargetHint (inb_Conversation n)" and "dft_SourceEndpointID d = inb_EndpointID n"
    and "dft_ExternalMessageID d = inb_ExternalMessageID n" and "dft_Sender d = inb_Sender n"
    and "dft_Content d = Message_Text now n"
  using assms(1)
  by (auto simp: Message_Draft_def Message_Validate_normal [OF assms(2)] Let_def Message_MetadataJSON_def n_def
      split: if_splits option.splits)

end
