(* ===== verification/IM_Coordinator.thy ===== *)
theory IM_Coordinator
  imports IM_Inbound Auth Store_IMChat Store_Messages Store_Endpoints
begin

text \<open>
  The coordinator of inbound chat messages (\<^verbatim>\<open>internal/imcoord/coordinator.go\<close>, \<^verbatim>\<open>types.go\<close> and the
  contract of \<^verbatim>\<open>session_queue.go\<close>) with the subscription tokens of \<^verbatim>\<open>internal/imauth/token.go\<close>: it drops
  repeated deliveries, asks chats for authorization, executes chat commands and stores the other
  messages.
\<close>

section \<open>Drafts\<close>

datatype coord_err =
    ErrInvalidDraft "string list"
  | ErrAborted
  | ErrStaleDraft
  | ErrUnauthorizedChat
  | ErrAuthToken
  | ErrContext               \<comment> \<open>the context of the request ended\<close>
  | ErrLoad                  \<comment> \<open>loading the attachments failed\<close>
  | StoreErr err

record Result =
  res_HandledCommand :: bool
  res_Command :: string
  res_CommandArgs :: string
  res_SessionKey :: string
  res_Message :: Message
  res_Response :: string

definition no_message :: Message where
  "no_message = \<lparr>msg_ID = [], msg_Target = [], msg_ThreadID = [], msg_Role = [], msg_Content = [],
     msg_ReplyToMessageID = [], msg_SenderUserID = [], msg_SenderAgentID = [], msg_SenderDisplayName = [],
     msg_SenderKind = [], msg_SourceEndpointID = [], msg_ExternalMessageID = [], msg_MetadataJSON = [],
     msg_Attachments = [], msg_RequestID = [], msg_CreatedUnix = 0, msg_Kind = []\<rparr>"

definition no_result :: Result where
  "no_result = \<lparr>res_HandledCommand = False, res_Command = [], res_CommandArgs = [], res_SessionKey = [],
     res_Message = no_message, res_Response = []\<rparr>"

definition normalizedJSON :: "'z env_scheme \<Rightarrow> string \<Rightarrow> string" where
  "normalizedJSON E raw0 =
     (let raw = TrimSpace raw0
      in if raw = [] then ''{}'' else case json_compact E raw of Some out \<Rightarrow> out | None \<Rightarrow> raw)"

definition normalizeDraft :: "'z env_scheme \<Rightarrow> Draft \<Rightarrow> Draft" where
  "normalizeDraft E d =
     d\<lparr>dft_Target := TrimSpace (dft_Target d), dft_ThreadID := TrimSpace (dft_ThreadID d),
       dft_Role := (if TrimSpace (dft_Role d) = [] then ''user'' else TrimSpace (dft_Role d)),
       dft_Content := TrimSpace (dft_Content d), dft_ReplyToMessageID := TrimSpace (dft_ReplyToMessageID d),
       dft_SourceEndpointID := TrimSpace (dft_SourceEndpointID d),
       dft_ExternalMessageID := TrimSpace (dft_ExternalMessageID d),
       dft_ReceivedUnix := (if dft_ReceivedUnix d < 0 then 0 else dft_ReceivedUnix d),
       dft_MetadataJSON := normalizedJSON E (dft_MetadataJSON d),
       dft_AttachmentIDs := clean_strings (dft_AttachmentIDs d), dft_Sender := Sender_Normalize (dft_Sender d)\<rparr>"

text \<open>The problems of a draft. \<^verbatim>\<open>json.Valid\<close> accepts the text that \<^verbatim>\<open>json.Compact\<close> accepts.\<close>

definition validateDraft :: "'z env_scheme \<Rightarrow> Draft \<Rightarrow> string list" where
  "validateDraft E d0 =
     (let d = normalizeDraft E d0
      in (if dft_Target d = [] then [''target is required''] else []) @
         (if dft_SourceEndpointID d = [] then [''source endpoint id is required''] else []) @
         (if dft_ExternalMessageID d = [] then [''external message id is required''] else []) @
         (if snd_ExternalID (dft_Sender d) = [] then [''sender external id is required''] else []) @
         (if dft_Content d = [] \<and> dft_AttachmentIDs d = [] then [''content or attachments are required''] else []) @
         (if json_compact E (dft_MetadataJSON d) = None then [''metadata json must be valid''] else []))"

definition SessionKey :: "'z env_scheme \<Rightarrow> Draft \<Rightarrow> string" where
  "SessionKey E d0 =
     (let d = normalizeDraft E d0
      in if dft_ThreadID d \<noteq> [] then dft_Target d @ '':'' @ dft_ThreadID d
         else if snd_ExternalID (dft_Sender d) \<noteq> []
         then dft_Target d @ '':'' @ dft_SourceEndpointID d @ '':'' @ snd_ExternalID (dft_Sender d)
         else dft_Target d @ '':'' @ dft_SourceEndpointID d)"

definition draftToMessage :: "'z env_scheme \<Rightarrow> Draft \<Rightarrow> Attachment list \<Rightarrow> Message" where
  "draftToMessage E d0 attachments =
     (let d = normalizeDraft E d0
      in no_message\<lparr>msg_Target := dft_Target d, msg_ThreadID := dft_ThreadID d, msg_Role := dft_Role d,
           msg_Content := dft_Content d, msg_ReplyToMessageID := dft_ReplyToMessageID d,
           msg_SenderDisplayName := snd_DisplayName (dft_Sender d), msg_SenderKind := ''endpoint'',
           msg_SourceEndpointID := dft_SourceEndpointID d, msg_ExternalMessageID := dft_ExternalMessageID d,
           msg_MetadataJSON := dft_MetadataJSON d, msg_Attachments := attachments,
           msg_RequestID := dft_SourceEndpointID d @ '':'' @ dft_ExternalMessageID d\<rparr>)"

definition draftDedupeMessage :: "Draft \<Rightarrow> InboundMessage" where
  "draftDedupeMessage d =
     \<lparr>inb_EndpointID = dft_SourceEndpointID d, inb_EndpointKind = [], inb_Provider = [],
      inb_ExternalMessageID = dft_ExternalMessageID d, inb_ReceivedUnix = 0,
      inb_Conversation = \<lparr>conv_ExternalID = [], conv_DisplayName = [], conv_IsGroup = False,
        conv_TargetHint = [], conv_ThreadID = [], conv_ExternalThreadID = [], conv_RootMessageID = []\<rparr>,
      inb_Sender = \<lparr>snd_ExternalID = [], snd_CandidateIDs = [], snd_DisplayName = [], snd_Username = [],
        snd_Kind = []\<rparr>,
      inb_Content = [], inb_AttachmentIDs = [], inb_Metadata = []\<rparr>"

section \<open>Commands\<close>

definition normalizeCommand :: "'z env_scheme \<Rightarrow> string \<Rightarrow> string" where
  "normalizeCommand E command =
     (let c = ToLower E (TrimSpace command)
      in if c = ''/sub'' then ''/subscribe''
         else if c = ''/unsub'' then ''/unsubscribe''
         else if c = ''/v'' then ''/verbose''
         else if c = ''/h'' then ''/help''
         else c)"

definition parseCommand :: "'z env_scheme \<Rightarrow> string \<Rightarrow> string \<times> string" where
  "parseCommand E content0 =
     (let content = TrimSpace content0
      in if \<not> HasPrefix content ''/'' then ([], [])
         else (normalizeCommand E (takeWhile (\<lambda>c. c \<noteq> CHR '' '') content),
               TrimSpace (tl (dropWhile (\<lambda>c. c \<noteq> CHR '' '') content))))"

section \<open>Tokens of authorization requests\<close>

definition NewToken :: "auth_env \<Rightarrow> (store, string) action" where
  "NewToken A = do {
     buf \<leftarrow> drawn (\<lambda>n. rand_read A n 18);
     ret (case buf of None \<Rightarrow> [] | Some bs \<Rightarrow> ''nk_'' @ RawURLEncode bs)
   }"

definition imauth_HashToken :: "auth_env \<Rightarrow> string \<Rightarrow> string" where
  "imauth_HashToken A token = ''sha256:'' @ HexEncode (sha256 A (TrimSpace token))"

definition TokenPrefix :: "string \<Rightarrow> string" where
  "TokenPrefix token0 = (let token = TrimSpace token0 in if length token \<le> 10 then token else take 10 token)"

section \<open>Chats and their policy\<close>

record chatPolicy =
  pol_RequireSubscription :: bool
  pol_Provider :: string
  pol_DefaultTarget :: string
  pol_DefaultThreadID :: string

record chatIdentity =
  cid_ConversationID :: string
  cid_ExternalThreadID :: string
  cid_ChatTitle :: string

definition boolConfig :: "'z env_scheme \<Rightarrow> (string \<rightharpoonup> json) \<Rightarrow> string \<Rightarrow> bool \<Rightarrow> bool" where
  "boolConfig E raw key fallback =
     (case raw key of
        Some (JBool b) \<Rightarrow> b
      | Some (JString s) \<Rightarrow>
          (let t = ToLower E (TrimSpace s)
           in if t \<in> {''1'', ''true'', ''yes'', ''on''} then True
              else if t \<in> {''0'', ''false'', ''no'', ''off''} then False
              else fallback)
      | _ \<Rightarrow> fallback)"

definition stringConfig :: "(string \<rightharpoonup> json) \<Rightarrow> string \<Rightarrow> string" where
  "stringConfig raw key = (case raw key of Some (JString s) \<Rightarrow> TrimSpace s | _ \<Rightarrow> [])"

text \<open>\<^verbatim>\<open>json.Unmarshal\<close> into a \<^verbatim>\<open>map[string]any\<close>: an object, the last of equal keys winning.\<close>

definition unmarshal_map :: "json_codec \<Rightarrow> string \<Rightarrow> (string \<rightharpoonup> json)" where
  "unmarshal_map J text1 =
     (case json_parse J text1 of Some (JObject kvs) \<Rightarrow> map_of (rev kvs) | _ \<Rightarrow> Map.empty)"

definition chatPolicyFromEndpoint :: "'z env_scheme \<Rightarrow> json_codec \<Rightarrow> InteractionEndpoint \<Rightarrow> chatPolicy" where
  "chatPolicyFromEndpoint E J endpoint =
     (let raw = (if TrimSpace (iep_ConfigJSON endpoint) \<noteq> [] then unmarshal_map J (iep_ConfigJSON endpoint)
                 else Map.empty)
      in \<lparr>pol_RequireSubscription = boolConfig E raw ''require_subscription'' False \<or>
            boolConfig E raw ''chat_auth_required'' False \<or> boolConfig E raw ''require_chat_authorization'' False,
          pol_Provider = TrimSpace (iep_Provider endpoint), pol_DefaultTarget = stringConfig raw ''default_target'',
          pol_DefaultThreadID = stringConfig raw ''default_thread_id''\<rparr>)"

text \<open>
  \<^verbatim>\<open>json.Unmarshal\<close> into a struct matches keys without regard to case (the long s and the Kelvin sign
  fold to ASCII letters), goes through the fields in order and skips values of another type.
\<close>

fun fold_name :: "string \<Rightarrow> string" where
  "fold_name [] = []"
| "fold_name (c # s) =
     (if c = CHR 0xC5 \<and> take 1 s = [CHR 0xBF] then CHR ''s'' # fold_name (drop 1 s)
      else if c = CHR 0xE2 \<and> take 2 s = [CHR 0x84, CHR 0xAA] then CHR ''k'' # fold_name (drop 2 s)
      else lower_char c # fold_name s)"

definition decode_field :: "string \<Rightarrow> (json \<Rightarrow> 'a \<Rightarrow> 'a) \<Rightarrow> json \<Rightarrow> 'a \<Rightarrow> 'a" where
  "decode_field name decode doc x =
     (case doc of
        JObject kvs \<Rightarrow> fold (\<lambda>(k, v) x. if fold_name k = name then decode v x else x) kvs x
      | _ \<Rightarrow> x)"

definition decode_string :: "json \<Rightarrow> string \<Rightarrow> string" where
  "decode_string v old = (case v of JString s \<Rightarrow> s | _ \<Rightarrow> old)"

definition decode_im :: "string \<Rightarrow> json \<Rightarrow> string" where
  "decode_im name doc =
     decode_field ''im'' (decode_field ''conversation'' (decode_field name decode_string)) doc []"

definition chatIdentityFromDraft :: "json_codec \<Rightarrow> Draft \<Rightarrow> chatIdentity" where
  "chatIdentityFromDraft J d =
     (let raw = (\<lambda>name. case json_parse J (dft_MetadataJSON d) of None \<Rightarrow> [] | Some doc \<Rightarrow> decode_im name doc);
          conversation = TrimSpace (raw ''external_id''); title = TrimSpace (raw ''display_name'')
      in \<lparr>cid_ConversationID = (if conversation = [] then TrimSpace (snd_ExternalID (dft_Sender d)) else conversation),
          cid_ExternalThreadID = TrimSpace (raw ''external_thread_id''),
          cid_ChatTitle = (if title = [] then TrimSpace (snd_DisplayName (dft_Sender d)) else title)\<rparr>)"

definition no_subscription :: IMChatSubscription where
  "no_subscription = \<lparr>imsub_ID = [], imsub_EndpointID = [], imsub_Provider = [], imsub_ConversationID = [],
     imsub_ExternalThreadID = [], imsub_ChatTitle = [], imsub_Target = [], imsub_ThreadID = [],
     imsub_SenderExternalID = [], imsub_AuthorizedByRequestID = [], imsub_Subscribed = False,
     imsub_Verbose = False, imsub_AuthorizedUnix = 0, imsub_SubscribedUnix = 0, imsub_CreatedUnix = 0,
     imsub_UpdatedUnix = 0\<rparr>"

definition no_policy :: chatPolicy where
  "no_policy = \<lparr>pol_RequireSubscription = False, pol_Provider = [], pol_DefaultTarget = [], pol_DefaultThreadID = []\<rparr>"

definition resolveChatPolicy ::
  "senv \<Rightarrow> json_codec \<Rightarrow> Draft \<Rightarrow>
     (store, chatPolicy \<times> chatIdentity \<times> IMChatSubscription \<times> coord_err option) action" where
  "resolveChatPolicy E J draft =
     (let identity = chatIdentityFromDraft J draft
      in do {
        ep \<leftarrow> GetInteractionEndpoint E (dft_SourceEndpointID draft);
        case ep of
          Inl e \<Rightarrow>
            if e = ErrNotFound then ret (no_policy, identity, no_subscription, None)
            else ret (no_policy, identity, no_subscription, Some (StoreErr e))
        | Inr endpoint \<Rightarrow>
            (let policy = chatPolicyFromEndpoint E J endpoint
             in if \<not> pol_RequireSubscription policy then ret (policy, identity, no_subscription, None)
                else do {
                  s \<leftarrow> GetIMChatSubscription E (dft_SourceEndpointID draft) (cid_ConversationID identity)
                    (cid_ExternalThreadID identity);
                  case s of
                    Inl e \<Rightarrow>
                      if e = ErrNotFound then ret (policy, identity, no_subscription, Some ErrUnauthorizedChat)
                      else ret (policy, identity, no_subscription, Some (StoreErr e))
                  | Inr sub \<Rightarrow>
                      if \<not> imsub_Subscribed sub then ret (policy, identity, sub, Some ErrUnauthorizedChat)
                      else ret (policy, identity, sub, None)
                })
      })"

definition applySubscriptionRoute :: "Draft \<Rightarrow> IMChatSubscription \<Rightarrow> Draft" where
  "applySubscriptionRoute d sub =
     d\<lparr>dft_Target := (if TrimSpace (imsub_Target sub) \<noteq> [] then TrimSpace (imsub_Target sub) else dft_Target d),
       dft_ThreadID := (if TrimSpace (imsub_ThreadID sub) \<noteq> [] then TrimSpace (imsub_ThreadID sub)
                        else dft_ThreadID d)\<rparr>"

section \<open>Handling a draft\<close>

text \<open>
  The coordinator: \<open>startedAt\<close> in nanoseconds, \<open>authToken\<close> the configured token generator at each
  interaction, \<open>loadAttachments\<close> the loader of uploaded files.
\<close>

record coordinator =
  startedAt :: "int option"
  authToken :: "(nat \<Rightarrow> string) option"
  loadAttachments :: "(string \<Rightarrow> string list \<Rightarrow> Attachment list option) option"

definition handleSubscribe ::
  "senv \<Rightarrow> auth_env \<Rightarrow> json_codec \<Rightarrow> coordinator \<Rightarrow> Draft \<Rightarrow> string \<Rightarrow> chatIdentity \<Rightarrow> chatPolicy \<Rightarrow>
     (store, Result \<times> coord_err option) action" where
  "handleSubscribe E A J c draft key identity0 policy = do {
     t1 \<leftarrow> (case authToken c of None \<Rightarrow> ret [] | Some f \<Rightarrow> State_Monad.bind (drawn f) (\<lambda>t. ret (TrimSpace t)));
     token \<leftarrow> (if t1 = [] then NewToken A else ret t1);
     if token = [] then ret (no_result, Some ErrAuthToken)
     else do {
       now \<leftarrow> unixNow E;
       (let identity = (if cid_ConversationID identity0 = [] then chatIdentityFromDraft J draft else identity0)
        in do {
          created \<leftarrow> CreateIMChatAuthRequest E
            \<lparr>imreq_ID = [], imreq_EndpointID = dft_SourceEndpointID draft, imreq_Provider = pol_Provider policy,
             imreq_ConversationID = cid_ConversationID identity,
             imreq_ExternalThreadID = cid_ExternalThreadID identity, imreq_ChatTitle = cid_ChatTitle identity,
             imreq_SenderExternalID = snd_ExternalID (dft_Sender draft),
             imreq_TokenHash = imauth_HashToken A token, imreq_TokenPrefix = TokenPrefix token,
             imreq_Status = ''pending'',
             imreq_RequestedTarget = firstNonEmpty [dft_Target draft, pol_DefaultTarget policy],
             imreq_RequestedThreadID = firstNonEmpty [dft_ThreadID draft, pol_DefaultThreadID policy],
             imreq_ExpiresUnix = now + 600, imreq_ResolvedByUserID = [], imreq_ResolvedUnix = 0,
             imreq_CreatedUnix = 0, imreq_UpdatedUnix = 0\<rparr>;
          case created of
            Inl e \<Rightarrow> ret (no_result, Some (StoreErr e))
          | Inr _ \<Rightarrow> ret (no_result\<lparr>res_HandledCommand := True, res_Command := ''/subscribe'',
              res_SessionKey := key,
              res_Response := ''Authorization request created. Approve it in Nekode or bind with key: '' @ token @
                ''. This key expires in 10 minutes.''\<rparr>, None)
        })
     }
   }"

text \<open>\<open>active\<close> says whether the queue of the session has a request running, which \<^verbatim>\<open>/abort\<close> cancels.\<close>

definition handleCommand ::
  "senv \<Rightarrow> auth_env \<Rightarrow> json_codec \<Rightarrow> coordinator \<Rightarrow> (string \<Rightarrow> bool) \<Rightarrow> Draft \<Rightarrow> string \<Rightarrow> string \<Rightarrow> string \<Rightarrow>
     chatIdentity \<Rightarrow> IMChatSubscription \<Rightarrow> chatPolicy \<Rightarrow> (store, Result \<times> coord_err option) action" where
  "handleCommand E A J c active draft key command args identity sub policy =
     (let result = no_result\<lparr>res_HandledCommand := True, res_Command := command, res_CommandArgs := args,
            res_SessionKey := key\<rparr>;
          says = (\<lambda>response. ret (result\<lparr>res_Response := response\<rparr>, None));
          patched = (\<lambda>patch response. do {
            u \<leftarrow> UpdateIMChatSubscription E (imsub_ID sub) patch;
            case u of Inl e \<Rightarrow> ret (no_result, Some (StoreErr e)) | Inr _ \<Rightarrow> says response
          })
      in if command = ''/subscribe'' then handleSubscribe E A J c draft key identity policy
         else if command = ''/unsubscribe'' then
           (if imsub_ID sub = [] then says ''This chat is not subscribed.''
            else patched \<lparr>imsubp_ChatTitle = None, imsubp_Target = None, imsubp_ThreadID = None,
                   imsubp_Subscribed = Some False, imsubp_Verbose = None\<rparr>
                 ''Unsubscribed. Send /subscribe to request access again.'')
         else if command = ''/verbose'' then
           (if imsub_ID sub = [] then says ''Please /subscribe first.''
            else patched \<lparr>imsubp_ChatTitle = None, imsubp_Target = None, imsubp_ThreadID = None,
                   imsubp_Subscribed = None, imsubp_Verbose = Some (\<not> imsub_Verbose sub)\<rparr>
                 (if \<not> imsub_Verbose sub then ''Verbose mode: on.'' else ''Verbose mode: off.''))
         else if command = ''/help'' then
           says ''Commands: /subscribe, /unsubscribe, /verbose, /new, /agent <name>, /abort, /help.''
         else if command = ''/abort'' then
           (if active key then says ''Aborted.'' else says ''No active message to abort.'')
         else if command = ''/new'' then says ''New session requested.''
         else if command = ''/agent'' then
           (if args = [] then says ''Agent routing requires an agent name or id.''
            else says ''Agent routing requested.'')
         else says ''Unsupported command.'')"

definition createMessage :: "senv \<Rightarrow> coordinator \<Rightarrow> Draft \<Rightarrow> (store, coord_err + Message) action" where
  "createMessage E c draft =
     (case (if dft_AttachmentIDs draft = [] then Some []
            else case loadAttachments c of
                   None \<Rightarrow> Some []
                 | Some load \<Rightarrow> load (dft_Target draft) (dft_AttachmentIDs draft)) of
        None \<Rightarrow> ret (Inl ErrLoad)
      | Some attachments \<Rightarrow> do {
          m \<leftarrow> CreateMessage E (draftToMessage E draft attachments);
          ret (case m of Inl e \<Rightarrow> Inl (StoreErr e) | Inr message \<Rightarrow> Inr message)
        })"

definition isStale :: "coordinator \<Rightarrow> Draft \<Rightarrow> bool" where
  "isStale c draft =
     (case startedAt c of
        None \<Rightarrow> False
      | Some t \<Rightarrow> dft_ReceivedUnix draft \<noteq> 0 \<and> dft_ReceivedUnix draft * 1000000000 < t - 2000000000)"

text \<open>
  What the session queue does with the request: it runs it; runs it after \<^verbatim>\<open>/abort\<close> or with a context that
  has ended; never runs it because the caller's context ended first; or runs it and the caller does not
  wait for the end.
\<close>

datatype queue_turn = Runs | RunsCancelled | LeftBefore | LeftDuring

definition forget_unless_conflict :: "coord_err \<Rightarrow> string \<Rightarrow> DedupeCache \<Rightarrow> DedupeCache" where
  "forget_unless_conflict e key cache = (if e = StoreErr ErrConflict then cache else Forget key cache)"

definition store_draft ::
  "senv \<Rightarrow> coordinator \<Rightarrow> queue_turn \<Rightarrow> Draft \<Rightarrow> string \<Rightarrow> string \<Rightarrow> DedupeCache \<Rightarrow>
     (store, (Result \<times> coord_err option) \<times> DedupeCache) action" where
  "store_draft E c turn draft key dedupeKey cache =
     (let failed = (\<lambda>e cache. ret ((no_result, Some e), forget_unless_conflict e dedupeKey cache))
      in case turn of
           LeftBefore \<Rightarrow> failed ErrContext cache
         | RunsCancelled \<Rightarrow> failed ErrAborted cache
         | _ \<Rightarrow> do {
             m \<leftarrow> createMessage E c draft;
             case m of
               Inl e \<Rightarrow> failed (if turn = Runs then e else ErrContext) (forget_unless_conflict e dedupeKey cache)
             | Inr message \<Rightarrow>
                 if turn = Runs then ret ((no_result\<lparr>res_Message := message, res_SessionKey := key\<rparr>, None), cache)
                 else failed ErrContext cache
           })"

definition Handle ::
  "senv \<Rightarrow> auth_env \<Rightarrow> json_codec \<Rightarrow> coordinator \<Rightarrow> (string \<Rightarrow> bool) \<Rightarrow> int \<Rightarrow> queue_turn \<Rightarrow> Draft \<Rightarrow> DedupeCache \<Rightarrow>
     (store, (Result \<times> coord_err option) \<times> DedupeCache) action" where
  "Handle E A J c active now turn draft0 cache0 =
     (let draft = normalizeDraft E draft0; problems = validateDraft E draft
      in if problems \<noteq> [] then ret ((no_result, Some (ErrInvalidDraft problems)), cache0)
         else if isStale c draft then ret ((no_result, Some ErrStaleDraft), cache0)
         else let dedupeKey = Message_DedupeKey now (draftDedupeMessage draft);
                  (repeated, cache) = MarkSeen now dedupeKey cache0
              in if repeated then ret ((no_result, Some (StoreErr ErrConflict)), cache)
                 else do {
                   (policy, identity, sub, authErr) \<leftarrow> resolveChatPolicy E J draft;
                   if authErr \<noteq> None \<and> authErr \<noteq> Some ErrUnauthorizedChat
                   then ret ((no_result, authErr), Forget dedupeKey cache)
                   else let (command, args) = parseCommand E (dft_Content draft)
                     in if pol_RequireSubscription policy \<and> command = ''/subscribe''
                        then State_Monad.bind (handleSubscribe E A J c draft (SessionKey E draft) identity policy)
                          (\<lambda>r. ret (r, cache))
                        else if pol_RequireSubscription policy \<and> authErr \<noteq> None
                        then ret ((no_result\<lparr>res_HandledCommand := True, res_Command := command,
                          res_CommandArgs := args, res_SessionKey := SessionKey E draft,
                          res_Response := ''Authorization required. Send /subscribe in this chat, then approve the pending request in Nekode.''\<rparr>,
                          authErr), cache)
                        else let draft' = (if pol_RequireSubscription policy then applySubscriptionRoute draft sub
                                           else draft);
                                 key = SessionKey E draft'
                          in if command \<noteq> []
                             then State_Monad.bind (handleCommand E A J c active draft' key command args identity sub policy)
                               (\<lambda>r. ret (r, cache))
                             else store_draft E c turn draft' key dedupeKey cache
                 })"

section \<open>Which steps touch the messages\<close>

abbreviation same_messages :: "MessageRow list \<Rightarrow> store \<Rightarrow> bool" where
  "same_messages ms \<equiv> (\<lambda>d. messages d = ms)"

lemma keeps_messages [keeps_rules]:
  "keeps (on_db (same_messages ms)) (CreateIMChatAuthRequest E r)"
  "keeps (on_db (same_messages ms)) (UpdateIMChatSubscription E i p)"
  unfolding CreateIMChatAuthRequest_def UpdateIMChatSubscription_def Let_def
  by (intro keeps_rules keeps_ent_create keeps_ent_update_one; simp)+

lemma keeps_GetInteractionEndpoint [keeps_rules]: "keeps (on_db K) (GetInteractionEndpoint E i)"
  unfolding GetInteractionEndpoint_def by (intro keeps_rules)

lemma keeps_GetIMChatSubscription [keeps_rules]: "keeps (on_db K) (GetIMChatSubscription E i s t)"
  unfolding GetIMChatSubscription_def Let_def by (intro keeps_rules)

lemma keeps_NewToken [keeps_rules]: "keeps (on_db K) (NewToken A)"
  unfolding NewToken_def by (intro keeps_rules)

lemma keeps_resolveChatPolicy [keeps_rules]: "keeps (on_db K) (resolveChatPolicy E J d)"
  unfolding resolveChatPolicy_def Let_def by (intro keeps_rules)

lemma keeps_handleSubscribe [keeps_rules]:
  "keeps (on_db (same_messages ms)) (handleSubscribe E A J c d key identity policy)"
  unfolding handleSubscribe_def Let_def by (intro keeps_rules)

lemma keeps_handleCommand [keeps_rules]:
  "keeps (on_db (same_messages ms)) (handleCommand E A J c active d key command args identity sub policy)"
  unfolding handleCommand_def Let_def by (intro keeps_rules)

lemma keeps_messagesD:
  "keeps (on_db (same_messages (messages (db w)))) m \<Longrightarrow> run_state m w = (x, w') \<Longrightarrow>
     messages (db w') = messages (db w)"
  using keepsD [of _ m w] by fastforce

section \<open>A stored draft\<close>

lemma Forget_Forget [simp]: "Forget k (Forget k c) = Forget k c"
  by (simp add: Forget_def)

definition stored_row :: "Draft \<Rightarrow> MessageRow \<Rightarrow> bool" where
  "stored_row d row \<longleftrightarrow>
     msgr_SourceEndpointID row = TrimSpace (dft_SourceEndpointID d) \<and>
     msgr_ExternalMessageID row = TrimSpace (dft_ExternalMessageID d) \<and>
     msgr_Target row = TrimSpace (dft_Target d) \<and> msgr_ThreadID row = TrimSpace (dft_ThreadID d)"

lemma createMessage_run:
  assumes "run_state (createMessage E c d) w = (r, w')"
  shows "case r of
      Inl e \<Rightarrow> messages (db w') = messages (db w)
    | Inr m \<Rightarrow> \<exists>row. messages (db w') = messages (db w) @ [row] \<and> stored_row d row"
  using assms unfolding createMessage_def CreateMessage_def
  by (elim run_elims)
    (auto dest!: now_run defaultID_run create_run simp: through_Inl_iff through_Inr_iff stored_row_def
      draftToMessage_def normalizeDraft_def no_message_def split: sum.splits)

lemma store_draft_run:
  assumes "run_state (store_draft E c turn d key k cache) w = (((r, e), cache'), w')"
  shows "messages (db w') = messages (db w) \<and> cache' \<in> {cache, Forget k cache} \<or>
    (\<exists>row. messages (db w') = messages (db w) @ [row] \<and> stored_row d row) \<and>
      (turn = Runs \<and> cache' = cache \<or> turn = LeftDuring)"
proof -
  have forgets: "forget_unless_conflict e1 k cache \<in> {cache, Forget k cache}"
    "forget_unless_conflict e2 k (forget_unless_conflict e1 k cache) \<in> {cache, Forget k cache}" for e1 e2
    by (auto simp: forget_unless_conflict_def)
  show ?thesis
  proof (cases "turn = Runs \<or> turn = LeftDuring")
    case True
    then have "run_state (State_Monad.bind (createMessage E c d) (\<lambda>m. case m of
        Inl e \<Rightarrow> ret ((no_result, Some (if turn = Runs then e else ErrContext)),
          forget_unless_conflict (if turn = Runs then e else ErrContext) k (forget_unless_conflict e k cache))
      | Inr message \<Rightarrow>
          if turn = Runs then ret ((no_result\<lparr>res_Message := message, res_SessionKey := key\<rparr>, None), cache)
          else ret ((no_result, Some ErrContext), forget_unless_conflict ErrContext k cache))) w =
      (((r, e), cache'), w')"
      using assms unfolding store_draft_def Let_def by (elim disjE) (simp_all only: queue_turn.simps)
    then show ?thesis
    proof (elim run_bindE run_sumE run_ifE)
      fix x w1 e1
      assume "run_state (createMessage E c d) w = (x, w1)" "x = Inl e1"
        "run_state (ret ((no_result, Some (if turn = Runs then e1 else ErrContext)),
          forget_unless_conflict (if turn = Runs then e1 else ErrContext) k (forget_unless_conflict e1 k cache))) w1 =
          (((r, e), cache'), w')"
      then show ?thesis using createMessage_run [of E c d w x w1] forgets(2) by auto
    qed (use True createMessage_run [of E c d w] in fastforce)+
  next
    case False
    then have "messages (db w') = messages (db w) \<and> (\<exists>e1. cache' = forget_unless_conflict e1 k cache)"
      using assms by (cases turn) (auto simp: store_draft_def Let_def)
    then show ?thesis using forgets(1) by metis
  qed
qed

text \<open>The subscription that lets a chat in.\<close>

definition subscribed_chat :: "json_codec \<Rightarrow> Draft \<Rightarrow> store \<Rightarrow> IMChatSubscription \<Rightarrow> bool" where
  "subscribed_chat J d db0 s \<longleftrightarrow>
     s \<in> set (subscriptions db0) \<and> imsub_Subscribed s \<and>
     imsub_EndpointID s = TrimSpace (dft_SourceEndpointID d) \<and>
     imsub_ConversationID s = TrimSpace (cid_ConversationID (chatIdentityFromDraft J d)) \<and>
     imsub_ExternalThreadID s = TrimSpace (cid_ExternalThreadID (chatIdentityFromDraft J d))"

lemma GetInteractionEndpoint_run:
  assumes "run_state (GetInteractionEndpoint E i) w = (r, w')"
  shows "db w' = db w \<and> (case r of
      Inl e \<Rightarrow> e = ErrNotFound \<longrightarrow> (\<forall>ep \<in> set (endpoints (db w)). iep_ID ep \<noteq> i)
    | Inr ep \<Rightarrow> \<forall>ep' \<in> set (endpoints (db w)). iep_ID ep' = i \<longrightarrow> ep' = ep)"
  using assms unfolding GetInteractionEndpoint_def
  by (elim run_elims)
    (auto dest!: only_run simp: through_def notFound_def filter_empty_conv split: sum.splits if_splits
      dest: filter_singleton_only)

lemma GetIMChatSubscription_run:
  assumes "run_state (GetIMChatSubscription E ep conv thread) w = (r, w')"
  shows "db w' = db w \<and> (\<forall>s. r = Inr s \<longrightarrow> s \<in> set (subscriptions (db w)) \<and>
     imsub_EndpointID s = TrimSpace ep \<and> imsub_ConversationID s = TrimSpace conv \<and>
     imsub_ExternalThreadID s = TrimSpace thread)"
  using assms unfolding GetIMChatSubscription_def Let_def
  by (elim run_elims) (auto dest!: only_run filter_singletonD simp: through_def split: sum.splits)

lemma resolveChatPolicy_run:
  assumes "run_state (resolveChatPolicy E J d) w = ((policy, identity, sub, e), w')"
    and "e = None \<or> e = Some ErrUnauthorizedChat"
  shows "db w' = db w \<and>
    (\<forall>ep \<in> set (endpoints (db w)). iep_ID ep = dft_SourceEndpointID d \<longrightarrow> policy = chatPolicyFromEndpoint E J ep) \<and>
    (e = Some ErrUnauthorizedChat \<longrightarrow> pol_RequireSubscription policy) \<and>
    (e = None \<and> pol_RequireSubscription policy \<longrightarrow> subscribed_chat J d (db w) sub)"
  using assms unfolding resolveChatPolicy_def Let_def
  apply (elim run_bindE run_sumE run_ifE run_retE)
  apply (auto dest!: GetInteractionEndpoint_run GetIMChatSubscription_run
      simp: no_policy_def subscribed_chat_def)
  done

text \<open>What a call of \<^const>\<open>Handle\<close> has done when it returns.\<close>

lemma DedupeKey_draft:
  "Message_DedupeKey now (draftDedupeMessage d) =
     (if TrimSpace (dft_SourceEndpointID d) = [] \<or> TrimSpace (dft_ExternalMessageID d) = [] then []
      else TrimSpace (dft_SourceEndpointID d) @ '':'' @ TrimSpace (dft_ExternalMessageID d))"
  by (simp add: Message_DedupeKey_def draftDedupeMessage_def Message_Normalize_def Let_def)

lemma normalizeDraft_trims:
  "dft_SourceEndpointID (normalizeDraft E d) = TrimSpace (dft_SourceEndpointID d)"
  "dft_ExternalMessageID (normalizeDraft E d) = TrimSpace (dft_ExternalMessageID d)"
  by (simp_all add: normalizeDraft_def)

lemma route_ids:
  "dft_SourceEndpointID (applySubscriptionRoute d s) = dft_SourceEndpointID d"
  "dft_ExternalMessageID (applySubscriptionRoute d s) = dft_ExternalMessageID d"
  by (simp_all add: applySubscriptionRoute_def)

definition draft_key :: "Draft \<Rightarrow> string" where
  "draft_key d =
     (if TrimSpace (dft_SourceEndpointID d) = [] \<or> TrimSpace (dft_ExternalMessageID d) = [] then []
      else TrimSpace (dft_SourceEndpointID d) @ '':'' @ TrimSpace (dft_ExternalMessageID d))"

lemma DedupeKey_normalized: "Message_DedupeKey now (draftDedupeMessage (normalizeDraft E d)) = draft_key d"
  by (simp add: DedupeKey_draft draft_key_def normalizeDraft_trims)

text \<open>
  A row that \<^const>\<open>Handle\<close> may write for a draft: the draft itself, at an endpoint that does not ask for
  subscriptions; the draft on the route of a subscription of its chat, at one that does.
\<close>

definition authorized_row :: "senv \<Rightarrow> json_codec \<Rightarrow> Draft \<Rightarrow> store \<Rightarrow> MessageRow \<Rightarrow> bool" where
  "authorized_row E J d0 db0 row \<longleftrightarrow>
     (let d = normalizeDraft E d0
      in \<exists>policy.
        (\<forall>ep \<in> set (endpoints db0). iep_ID ep = dft_SourceEndpointID d \<longrightarrow> policy = chatPolicyFromEndpoint E J ep) \<and>
        (if pol_RequireSubscription policy
         then \<exists>s. subscribed_chat J d db0 s \<and> stored_row (applySubscriptionRoute d s) row
         else stored_row d row))"

lemma messages_unchanged:
  "run_state (resolveChatPolicy E J d) w = (p, w') \<Longrightarrow> messages (db w') = messages (db w)"
  "run_state (handleSubscribe E A J c d key identity policy) w = (q, w') \<Longrightarrow> messages (db w') = messages (db w)"
  "run_state (handleCommand E A J c active d key command args identity sub policy) w = (q, w') \<Longrightarrow>
     messages (db w') = messages (db w)"
  by (erule keeps_messagesD [rotated], intro keeps_rules)+

lemma store_draft_authorized:
  assumes "run_state (resolveChatPolicy E J (normalizeDraft E d0)) w = ((policy, identity, sub, authErr), w1)"
    and "authErr = None \<or> authErr = Some ErrUnauthorizedChat" and "pol_RequireSubscription policy \<longrightarrow> authErr = None"
    and "run_state (store_draft E c turn (if pol_RequireSubscription policy
        then applySubscriptionRoute (normalizeDraft E d0) sub else normalizeDraft E d0) key k cache) w1 =
      (((r, e), cache'), w')"
  shows "messages (db w') = messages (db w) \<and> cache' \<in> {cache, Forget k cache} \<or>
    (\<exists>row. messages (db w') = messages (db w) @ [row] \<and> authorized_row E J d0 (db w) row) \<and>
      (turn = Runs \<and> cache' = cache \<or> turn = LeftDuring)"
proof -
  note policy = resolveChatPolicy_run [OF assms(1,2)]
  have "authorized_row E J d0 (db w) row"
    if "stored_row (if pol_RequireSubscription policy then applySubscriptionRoute (normalizeDraft E d0) sub
        else normalizeDraft E d0) row" for row
    unfolding authorized_row_def Let_def using policy that assms(2,3) by (intro exI [of _ policy]) auto
  then show ?thesis using store_draft_run [OF assms(4)] policy by auto
qed

lemma Handle_run:
  assumes "run_state (Handle E A J c active now turn d0 cache0) w = (((r, e), cache'), w')"
  shows "messages (db w') = messages (db w) \<and>
      (cache' = cache0 \<or> MarkSeen now (draft_key d0) cache0 = (True, cache') \<or>
       (\<exists>c1. MarkSeen now (draft_key d0) cache0 = (False, c1) \<and> cache' \<in> {c1, Forget (draft_key d0) c1})) \<or>
    (\<exists>c1 row. MarkSeen now (draft_key d0) cache0 = (False, c1) \<and>
       messages (db w') = messages (db w) @ [row] \<and> authorized_row E J d0 (db w) row \<and>
       (turn = Runs \<and> cache' = c1 \<or> turn = LeftDuring))"
  using assms unfolding Handle_def Let_def DedupeKey_normalized
  apply (elim run_bindE run_ifE run_prodE run_retE)
  apply (simp_all only: prod.inject)
  apply simp_all
  apply (drule messages_unchanged(1), (drule messages_unchanged(2) | drule messages_unchanged(3))?, simp; fail)+
  subgoal premises prems for repeated cache x w1 policy b identity ba sub authErr command args
    using store_draft_authorized [OF prems(5,9,11,13)] by blast
  done

section \<open>Only authorized chats are stored\<close>

text \<open>
  C28: at an endpoint whose configuration asks for subscriptions, a draft is stored only
  when its chat has a subscription that is switched on; then exactly one message is added, on the
  target and thread of that subscription, with the identifiers of the draft. Nothing else that the
  coordinator does (commands, authorization requests, failures) writes a message.
\<close>

theorem coordinator_authorizes:
  assumes "ep \<in> set (endpoints (db w))" and "iep_ID ep = TrimSpace (dft_SourceEndpointID d)"
    and "pol_RequireSubscription (chatPolicyFromEndpoint E J ep)"
    and "w' = after (Handle E A J c active now turn d cache) w"
  shows "messages (db w') = messages (db w) \<or>
    (\<exists>s row. subscribed_chat J (normalizeDraft E d) (db w) s \<and> messages (db w') = messages (db w) @ [row] \<and>
       stored_row (applySubscriptionRoute (normalizeDraft E d) s) row)"
proof -
  obtain r e cache' where run: "run_state (Handle E A J c active now turn d cache) w = (((r, e), cache'), w')"
    using assms(4) by (metis prod.collapse)
  have "\<exists>s. subscribed_chat J (normalizeDraft E d) (db w) s \<and>
      stored_row (applySubscriptionRoute (normalizeDraft E d) s) row"
    if "authorized_row E J d (db w) row" for row
    using that assms(1-3) unfolding authorized_row_def Let_def normalizeDraft_trims by metis
  then show ?thesis using Handle_run [OF run] by blast
qed

section \<open>A delivery is stored once\<close>

fun HandleAll ::
  "senv \<Rightarrow> auth_env \<Rightarrow> json_codec \<Rightarrow> coordinator \<Rightarrow> (int \<times> (string \<Rightarrow> bool) \<times> queue_turn \<times> Draft) list \<Rightarrow> DedupeCache \<Rightarrow>
     (store, DedupeCache) action" where
  "HandleAll E A J c [] cache = ret cache"
| "HandleAll E A J c ((now, active, turn, d) # calls) cache = do {
     (r, cache') \<leftarrow> Handle E A J c active now turn d cache;
     HandleAll E A J c calls cache'
   }"

definition deliveries_of :: "string \<Rightarrow> string \<Rightarrow> store \<Rightarrow> nat" where
  "deliveries_of ep x d =
     length (filter (\<lambda>r. msgr_SourceEndpointID r = ep \<and> msgr_ExternalMessageID r = x) (messages d))"

definition marked :: "string \<Rightarrow> int \<Rightarrow> DedupeCache \<Rightarrow> bool" where
  "marked k t0 cache \<longleftrightarrow> (\<exists>t. seen cache k = Some t \<and> t0 \<le> t)"

lemma MarkSeen_ttl: "MarkSeen now k c = (b, c') \<Longrightarrow> dedupe_ttl c' = dedupe_ttl c"
  by (auto simp: MarkSeen_def dedupe_ttl_def Let_def split: if_splits option.splits)

lemma Forget_ttl [simp]: "dedupe_ttl (Forget k c) = dedupe_ttl c"
  by (simp add: Forget_def dedupe_ttl_def)

lemma MarkSeen_marked:
  assumes "marked k t0 c" and "now \<le> t0 + dedupe_ttl c" and "k \<noteq> []" and "MarkSeen now k' c = (b, c')"
  shows "marked k t0 c' \<and> (k' = k \<longrightarrow> b)"
  using assms by (auto simp: marked_def MarkSeen_def purge_def Let_def split: if_splits option.splits)

lemma MarkSeen_marks: "MarkSeen now k c = (False, c') \<Longrightarrow> k \<noteq> [] \<Longrightarrow> seen c' k = Some now"
  by (auto simp: MarkSeen_def Let_def split: if_splits option.splits)

lemma marked_Forget: "k \<noteq> k' \<Longrightarrow> marked k t0 c \<Longrightarrow> marked k t0 (Forget k' c)"
  by (simp add: marked_def Forget_def)

lemma authorized_row_ids:
  "authorized_row E J d db0 row \<Longrightarrow>
     msgr_SourceEndpointID row = TrimSpace (dft_SourceEndpointID d) \<and>
     msgr_ExternalMessageID row = TrimSpace (dft_ExternalMessageID d)"
  by (auto simp: authorized_row_def stored_row_def Let_def normalizeDraft_trims route_ids split: if_splits)

text \<open>One call: a marked delivery is not stored again and stays marked; an unmarked one is stored at most once and then marked.\<close>

lemma Handle_once:
  assumes "run_state (Handle E A J c active now turn d cache) w = (((r, e), cache'), w')"
    and "turn \<noteq> LeftDuring" and "t0 \<le> now" and "now \<le> t0 + dedupe_ttl cache"
    and "ep \<noteq> []" and "x \<noteq> []" and k: "k = ep @ '':'' @ x"
  shows "dedupe_ttl cache' = dedupe_ttl cache"
    and "marked k t0 cache \<Longrightarrow> deliveries_of ep x (db w') = deliveries_of ep x (db w) \<and> marked k t0 cache'"
    and "deliveries_of ep x (db w') = deliveries_of ep x (db w) \<or>
      deliveries_of ep x (db w') = Suc (deliveries_of ep x (db w)) \<and> marked k t0 cache'"
proof -
  have k0: "k \<noteq> []" using k by simp
  note run = Handle_run [OF assms(1)]
  show "dedupe_ttl cache' = dedupe_ttl cache" using run assms(2) by (auto dest: MarkSeen_ttl)
  have row: "deliveries_of ep x (db w') = Suc (deliveries_of ep x (db w)) \<and> draft_key d = k"
    if "messages (db w') = messages (db w) @ [row]" "authorized_row E J d (db w) row"
      "deliveries_of ep x (db w') \<noteq> deliveries_of ep x (db w)" for row
    using that authorized_row_ids [OF that(2)] assms(5,6) k
    by (auto simp: deliveries_of_def draft_key_def split: if_splits)
  show "deliveries_of ep x (db w') = deliveries_of ep x (db w) \<or>
      deliveries_of ep x (db w') = Suc (deliveries_of ep x (db w)) \<and> marked k t0 cache'"
    using run
  proof (elim disjE conjE exE)
    fix c1 row
    assume *: "MarkSeen now (draft_key d) cache = (False, c1)" "messages (db w') = messages (db w) @ [row]"
      "authorized_row E J d (db w) row" "cache' = c1"
    then have "seen cache' k = Some now" if "draft_key d = k" using MarkSeen_marks that k0 by auto
    then show ?thesis using row [OF *(2,3)] assms(3) by (auto simp: marked_def)
  qed (use assms(2) in \<open>simp_all add: deliveries_of_def\<close>)
  show "deliveries_of ep x (db w') = deliveries_of ep x (db w) \<and> marked k t0 cache'" if m: "marked k t0 cache"
    using run
  proof (elim disjE conjE exE)
    fix c1 row
    assume *: "MarkSeen now (draft_key d) cache = (False, c1)" "messages (db w') = messages (db w) @ [row]"
      "authorized_row E J d (db w) row" "cache' = c1"
    then show ?thesis using MarkSeen_marked [OF m assms(4) k0 *(1)] row [OF *(2,3)] by auto
  next
    fix c1
    assume *: "messages (db w') = messages (db w)" "MarkSeen now (draft_key d) cache = (False, c1)"
      "cache' \<in> {c1, Forget (draft_key d) c1}"
    then show ?thesis
      using MarkSeen_marked [OF m assms(4) k0 *(2)] marked_Forget [of k "draft_key d" t0 c1]
      by (auto simp: deliveries_of_def)
  next
    assume *: "messages (db w') = messages (db w)" "MarkSeen now (draft_key d) cache = (True, cache')"
    then show ?thesis using MarkSeen_marked [OF m assms(4) k0 *(2)] by (simp add: deliveries_of_def)
  qed (use m assms(2) in \<open>simp_all add: deliveries_of_def\<close>)
qed

lemma HandleAll_once:
  assumes "\<forall>(now, active, turn, d) \<in> set calls. t0 \<le> now \<and> now \<le> t0 + dedupe_ttl cache \<and> turn \<noteq> LeftDuring"
    and "ep \<noteq> []" and "x \<noteq> []"
  shows "deliveries_of ep x (db (after (HandleAll E A J c calls cache) w)) \<le>
    deliveries_of ep x (db w) + (if marked (ep @ '':'' @ x) t0 cache then 0 else 1)"
  using assms(1)
proof (induction calls arbitrary: cache w)
  case (Cons call calls)
  obtain now active turn d where call: "call = (now, active, turn, d)" by (cases call)
  obtain r e cache' w1 where run: "run_state (Handle E A J c active now turn d cache) w = (((r, e), cache'), w1)"
    by (metis prod.collapse)
  have now: "turn \<noteq> LeftDuring" "t0 \<le> now" "now \<le> t0 + dedupe_ttl cache" using Cons.prems call by auto
  note once = Handle_once [OF run now assms(2,3) refl]
  have "\<forall>(now, active, turn, d) \<in> set calls. t0 \<le> now \<and> now \<le> t0 + dedupe_ttl cache' \<and> turn \<noteq> LeftDuring"
    using Cons.prems unfolding once(1) by simp
  note IH = Cons.IH [OF this, of w1]
  have "after (HandleAll E A J c (call # calls) cache) w = after (HandleAll E A J c calls cache') w1"
    by (simp add: call run)
  then show ?case using IH once(2,3) by (auto split: if_splits)
qed simp

text \<open>
  C30: within the time to live of the deduplication cache, however often a provider delivers a
  message and whatever else arrives in between, at most one message is stored for it: repeats are
  refused while the first one is remembered, and it is forgotten early only when nothing was stored. The
  calls come one after the other, at times between \<open>t0\<close> and \<open>t0\<close> plus the time to live, and
  every caller waits for the end of its request.
\<close>

theorem coordinator_stores_once:
  assumes "\<forall>(now, active, turn, d) \<in> set calls. t0 \<le> now \<and> now \<le> t0 + dedupe_ttl cache \<and> turn \<noteq> LeftDuring"
    and "ep \<noteq> []" and "x \<noteq> []"
  shows "deliveries_of ep x (db (after (HandleAll E A J c calls cache) w)) \<le> Suc (deliveries_of ep x (db w))"
  using HandleAll_once [OF assms, of E A J c w] by (simp split: if_splits)

section \<open>An evaluated example\<close>

definition demo_codec :: json_codec where
  "demo_codec =
     \<lparr>json_parse = (\<lambda>s. if s = ''CFG'' then Some (JObject [(''require_subscription'', JBool True)]) else None),
      json_marshal = (\<lambda>_. Some ''{}'')\<rparr>"

definition chat_auth :: auth_env where
  "chat_auth = \<lparr>rand_read = (\<lambda>n k. Some (replicate k 7)), pbkdf2_key = (\<lambda>p s i k. None), sha256 = (\<lambda>_. [1, 2])\<rparr>"

definition demo_coordinator :: coordinator where
  "demo_coordinator = \<lparr>startedAt = None, authToken = None, loadAttachments = None\<rparr>"

definition demo_sender :: Sender where
  "demo_sender = \<lparr>snd_ExternalID = ''u1'', snd_CandidateIDs = [], snd_DisplayName = ''Ann'', snd_Username = [],
     snd_Kind = []\<rparr>"

definition demo_draft :: Draft where
  "demo_draft = \<lparr>dft_Target = ''#im'', dft_ThreadID = [], dft_Role = [], dft_Content = ''hello'',
     dft_ReplyToMessageID = [], dft_SourceEndpointID = ''ep1'', dft_ExternalMessageID = ''m1'',
     dft_ReceivedUnix = 5, dft_MetadataJSON = ''{}'', dft_AttachmentIDs = [], dft_Sender = demo_sender\<rparr>"

definition demo_endpoint :: InteractionEndpoint where
  "demo_endpoint = \<lparr>iep_ID = ''ep1'', iep_Kind = ''im'', iep_Provider = ''telegram'', iep_DisplayName = ''T'',
     iep_TargetPrefix = [], iep_InboundEnabled = True, iep_OutboundEnabled = True, iep_AuthMode = [],
     iep_ConfigJSON = ''CFG'', iep_CreatedUnix = 0, iep_UpdatedUnix = 0\<rparr>"

definition demo_subscription :: IMChatSubscription where
  "demo_subscription = no_subscription\<lparr>imsub_ID := ''s1'', imsub_EndpointID := ''ep1'', imsub_ConversationID := ''u1'',
     imsub_Target := ''#team'', imsub_Subscribed := True\<rparr>"

definition chat_world :: "store world" where
  "chat_world = world_of (empty_store\<lparr>endpoints := [demo_endpoint], subscriptions := [demo_subscription]\<rparr>)"

definition fresh_cache :: DedupeCache where
  "fresh_cache = \<lparr>TTL = 0, seen = Map.empty\<rparr>"

lemma demo_handled:
  "map msgr_Target (messages (db (after (Handle demo_env chat_auth demo_codec demo_coordinator (\<lambda>_. False) 9 Runs demo_draft
     fresh_cache) chat_world))) = [''#team'']"
  by code_simp

lemma demo_policy: "pol_RequireSubscription (chatPolicyFromEndpoint demo_env demo_codec demo_endpoint)"
  by code_simp

lemma chat_world_simps:
  "messages (db chat_world) = []" "endpoints (db chat_world) = [demo_endpoint]"
  by (simp_all add: chat_world_def empty_store_def)

text \<open>Witness: the draft of a subscribed chat goes to the target of its subscription.\<close>

theorem coordinator_authorizes_witness:
  "\<exists>s row. subscribed_chat demo_codec (normalizeDraft demo_env demo_draft) (db chat_world) s \<and>
     messages (db (after (Handle demo_env chat_auth demo_codec demo_coordinator (\<lambda>_. False) 9 Runs demo_draft
       fresh_cache) chat_world)) = [row] \<and>
     stored_row (applySubscriptionRoute (normalizeDraft demo_env demo_draft) s) row"
proof -
  have id: "iep_ID demo_endpoint = TrimSpace (dft_SourceEndpointID demo_draft)" by code_simp
  have ep: "demo_endpoint \<in> set (endpoints (db chat_world))" by (simp add: chat_world_simps)
  show ?thesis
    using coordinator_authorizes [OF ep id demo_policy refl,
        of chat_auth demo_coordinator "\<lambda>_. False" 9 Runs fresh_cache] demo_handled
    unfolding chat_world_simps(1) by (metis append_Nil list.distinct(1) list.simps(8))
qed

text \<open>Witness: the same delivery twice.\<close>

definition twice :: "(int \<times> (string \<Rightarrow> bool) \<times> queue_turn \<times> Draft) list" where
  "twice = [(9, \<lambda>_. False, Runs, demo_draft), (10, \<lambda>_. False, Runs, demo_draft)]"

lemma twice_stored:
  "length (messages (db (after (HandleAll demo_env chat_auth demo_codec demo_coordinator twice fresh_cache) chat_world))) = 1"
  by code_simp

theorem coordinator_stores_once_witness:
  "length (messages (db (after (HandleAll demo_env chat_auth demo_codec demo_coordinator twice fresh_cache) chat_world))) = 1 \<and>
   deliveries_of ''ep1'' ''m1''
     (db (after (HandleAll demo_env chat_auth demo_codec demo_coordinator twice fresh_cache) chat_world)) \<le> 1"
proof -
  have "\<forall>(now, active, turn, d) \<in> set twice. 9 \<le> now \<and> now \<le> 9 + dedupe_ttl fresh_cache \<and> turn \<noteq> LeftDuring"
    by (simp add: twice_def fresh_cache_def dedupe_ttl_def DefaultDedupeTTL_def)
  from coordinator_stores_once [OF this, of "''ep1''" "''m1''" demo_env chat_auth demo_codec demo_coordinator chat_world]
  show ?thesis using twice_stored by (simp add: deliveries_of_def chat_world_simps)
qed

section \<open>From inbound messages to drafts\<close>

text \<open>
  C31: a valid inbound message with a target becomes a draft that the coordinator accepts. Whatever
  the adapter delivers, when \<^verbatim>\<open>Validate\<close> finds no problem the draft has the endpoint, the message id, the
  sender and a text that is not empty (attachments are named in it), and the coordinator's own validation
  finds no problem in it, given that the JSON encoder writes valid JSON that is not blank.
\<close>

theorem inbound_draft_accepted:
  assumes "Message_Draft J now m = Inr d" and "now \<noteq> 0" and "TrimSpace (conv_TargetHint (inb_Conversation m)) \<noteq> []"
    and "\<And>v s. json_marshal J v = Some s \<Longrightarrow>
      TrimSpace s \<noteq> [] \<and> (\<exists>s'. json_compact E (TrimSpace s) = Some s' \<and> json_compact E s' \<noteq> None)"
  shows "validateDraft E d = [] \<and> dft_Content d \<noteq> []"
proof -
  let ?m = "Message_Normalize now m"
  note d = Message_Draft_fields [OF assms(1,2)]
  obtain v s' where json: "json_marshal J v = Some (dft_MetadataJSON d)" "TrimSpace (dft_MetadataJSON d) \<noteq> []"
    "json_compact E (TrimSpace (dft_MetadataJSON d)) = Some s'" "json_compact E s' \<noteq> None"
    using d(2) assms(4) by blast
  have valid: "inb_EndpointID ?m \<noteq> []" "inb_ExternalMessageID ?m \<noteq> []" "snd_ExternalID (inb_Sender ?m) \<noteq> []"
    "inb_Content ?m \<noteq> [] \<or> inb_AttachmentIDs ?m \<noteq> []"
    using d(1) by (auto simp: Message_Validate_def Let_def split: if_splits)
  have content: "TrimSpace (dft_Content d) \<noteq> []"
    unfolding d(7) using valid(4) by (intro Message_Text_nonblank) (simp add: Message_Normalize_idem assms(2))
  have "snd_ExternalID (Sender_Normalize (dft_Sender d)) \<noteq> []" "dft_Target d \<noteq> []"
    "TrimSpace (dft_Target d) = dft_Target d" "TrimSpace (dft_SourceEndpointID d) = dft_SourceEndpointID d"
    "TrimSpace (dft_ExternalMessageID d) = dft_ExternalMessageID d"
    using valid(3) assms(3) unfolding d(3-6)
    by (simp_all add: Message_Normalize_def Conversation_Normalize_def)
  then show ?thesis
    using content json valid(1,2) d(4,5)
    by (auto simp: validateDraft_def Let_def normalizeDraft_def normalizedJSON_def)
qed

definition demo_inbound :: InboundMessage where
  "demo_inbound =
     \<lparr>inb_EndpointID = '' ep1'', inb_EndpointKind = ''im'', inb_Provider = ''telegram'', inb_ExternalMessageID = ''m1'',
      inb_ReceivedUnix = 0,
      inb_Conversation = \<lparr>conv_ExternalID = ''c1'', conv_DisplayName = [], conv_IsGroup = False,
        conv_TargetHint = ''#im'', conv_ThreadID = [], conv_ExternalThreadID = [], conv_RootMessageID = []\<rparr>,
      inb_Sender = demo_sender, inb_Content = [], inb_AttachmentIDs = [''f1'', ''f2''], inb_Metadata = []\<rparr>"

lemma demo_inbound_draft: "isl (Message_Draft demo_codec 7 demo_inbound) = False"
  by code_simp

text \<open>Witness: a message that has attachments only.\<close>

theorem inbound_draft_accepted_witness:
  "\<exists>d. Message_Draft demo_codec 7 demo_inbound = Inr d \<and> validateDraft demo_env d = [] \<and> dft_Content d \<noteq> []"
proof -
  obtain d where d: "Message_Draft demo_codec 7 demo_inbound = Inr d"
    using demo_inbound_draft by (cases "Message_Draft demo_codec 7 demo_inbound") simp_all
  have target: "TrimSpace (conv_TargetHint (inb_Conversation demo_inbound)) \<noteq> []" by code_simp
  have blank: "TrimSpace ''{}'' \<noteq> []" by code_simp
  have "validateDraft demo_env d = [] \<and> dft_Content d \<noteq> []"
    by (rule inbound_draft_accepted [OF d _ target]) (use blank in \<open>auto simp: demo_codec_def demo_env_def\<close>)
  with d show ?thesis by blast
qed

end
