(* ===== verification/Binding.thy ===== *)
theory Binding
  imports IM_Coordinator Outgoing_Limit
begin

text \<open>
  Binding a chat account by a QR code: the sessions (\<^verbatim>\<open>internal/imbinding/session.go\<close>), the part of the
  Weixin channel that starts and polls them (\<^verbatim>\<open>internal/imchannels/weixin/binding.go\<close>) and the handlers of
  the HTTP server around them (\<^verbatim>\<open>internal/server/server.go\<close>). The answers of the iLink gateway, a remote
  service, are arguments.
\<close>

section \<open>Sessions\<close>

record BindingSession =
  bs_ID :: string
  bs_EndpointID :: string
  bs_Provider :: string
  bs_Method :: string
  bs_Status :: string
  bs_QRPayload :: string
  bs_QRImageURL :: string
  bs_ExpiresUnix :: int
  bs_CreatedUnix :: int
  bs_UpdatedUnix :: int
  bs_Detail :: string

record BindingPatch =
  bp_Status :: string
  bp_QRPayload :: string
  bp_QRImageURL :: string
  bp_ExpiresUnix :: int
  bp_Detail :: string

datatype bind_err = ErrEndpointUnsupported | ErrInvalidStatus | ErrSessionNotFound

text \<open>The sessions in memory beside the database. A method of the session store holds its mutex.\<close>

record bind_world =
  bw_disk :: "store world"
  bw_sessions :: "string \<rightharpoonup> BindingSession"

type_synonym 'a bind = "(bind_world, 'a) state"

definition on_store_of :: "(store, 'a) action \<Rightarrow> 'a bind" where
  "on_store_of m = State (\<lambda>w. case run_state m (bw_disk w) of (x, d) \<Rightarrow> (x, w\<lparr>bw_disk := d\<rparr>))"

definition get_sessions :: "(string \<rightharpoonup> BindingSession) bind" where
  "get_sessions = State (\<lambda>w. (bw_sessions w, w))"

definition put_session :: "BindingSession \<Rightarrow> unit bind" where
  "put_session s = State (\<lambda>w. ((), w\<lparr>bw_sessions := (bw_sessions w)(bs_ID s \<mapsto> s)\<rparr>))"

text \<open>The duration is in nanoseconds; only its whole seconds count.\<close>

definition NewStore_ttl :: "int \<Rightarrow> int" where
  "NewStore_ttl ttl = (if ttl \<le> 0 then 300 * 1000000000 else ttl)"

definition validStatus :: "string \<Rightarrow> bool" where
  "validStatus status \<longleftrightarrow> status \<in> {''pending'', ''scanned'', ''bound'', ''expired'', ''failed''}"

definition newSessionID :: "auth_env \<Rightarrow> (nat \<Rightarrow> nat) \<Rightarrow> string bind" where
  "newSessionID A nanos = on_store_of (drawn (\<lambda>n.
     case rand_read A n 12 of None \<Rightarrow> ''ibs_'' @ digits_of (nanos n) | Some buf \<Rightarrow> ''ibs_'' @ HexEncode buf))"

text \<open>Of the table of providers, only Weixin has a binding method.\<close>

definition binding_methods :: "string \<Rightarrow> string list" where
  "binding_methods provider = (if provider = ''weixin'' then [''qr_code''] else [])"

definition SupportsBindingMethod :: "'z env_scheme \<Rightarrow> string \<Rightarrow> string \<Rightarrow> bool" where
  "SupportsBindingMethod E provider meth \<longleftrightarrow>
     ToLower E (TrimSpace meth) \<in> set (binding_methods (CanonicalProvider E provider))"

definition Create :: "senv \<Rightarrow> auth_env \<Rightarrow> (nat \<Rightarrow> nat) \<Rightarrow> int \<Rightarrow> InteractionEndpoint \<Rightarrow> string \<Rightarrow> (bind_err + BindingSession) bind" where
  "Create E A nanos ttl endpoint method0 =
     (let m = ToLower E (TrimSpace method0); meth = (if m = [] then ''qr_code'' else m)
      in if \<not> equal_fold_word (iep_Kind endpoint) ''im'' \<or> \<not> SupportsBindingMethod E (iep_Provider endpoint) meth
         then ret (Inl ErrEndpointUnsupported)
         else do {
           now \<leftarrow> on_store_of (unixNow E);
           sessionID \<leftarrow> newSessionID A nanos;
           let session = \<lparr>bs_ID = sessionID, bs_EndpointID = iep_ID endpoint, bs_Provider = iep_Provider endpoint,
             bs_Method = meth, bs_Status = ''pending'', bs_QRPayload = ''nekode://im-bind/'' @ sessionID,
             bs_QRImageURL = [], bs_ExpiresUnix = now + ttl div 1000000000, bs_CreatedUnix = now,
             bs_UpdatedUnix = now, bs_Detail = ''Waiting for provider adapter QR ticket.''\<rparr>;
           put_session session;
           ret (Inr session)
         })"

text \<open>A pending session that has run out is marked when it is read.\<close>

definition binding_getLocked :: "senv \<Rightarrow> InteractionEndpoint \<Rightarrow> string \<Rightarrow> (bind_err + BindingSession) bind" where
  "binding_getLocked E endpoint sessionID = do {
     sessions \<leftarrow> get_sessions;
     case sessions (TrimSpace sessionID) of
       None \<Rightarrow> ret (Inl ErrSessionNotFound)
     | Some session \<Rightarrow>
         if bs_EndpointID session \<noteq> iep_ID endpoint then ret (Inl ErrSessionNotFound)
         else do {
           now \<leftarrow> on_store_of (unixNow E);
           if bs_Status session = ''pending'' \<and> bs_ExpiresUnix session \<le> now
           then do {
             let session = session\<lparr>bs_Status := ''expired'', bs_Detail := ''Binding session expired.'', bs_UpdatedUnix := now\<rparr>;
             put_session session;
             ret (Inr session)
           }
           else ret (Inr session)
         }
   }"

definition patched :: "'z env_scheme \<Rightarrow> BindingPatch \<Rightarrow> BindingSession \<Rightarrow> BindingSession" where
  "patched E patch session =
     session\<lparr>bs_Status := (if ToLower E (TrimSpace (bp_Status patch)) = [] then bs_Status session
          else ToLower E (TrimSpace (bp_Status patch))),
       bs_QRPayload := (if TrimSpace (bp_QRPayload patch) = [] then bs_QRPayload session else TrimSpace (bp_QRPayload patch)),
       bs_QRImageURL := (if TrimSpace (bp_QRImageURL patch) = [] then bs_QRImageURL session else TrimSpace (bp_QRImageURL patch)),
       bs_ExpiresUnix := (if 0 < bp_ExpiresUnix patch then bp_ExpiresUnix patch else bs_ExpiresUnix session),
       bs_Detail := (if TrimSpace (bp_Detail patch) = [] then bs_Detail session else TrimSpace (bp_Detail patch))\<rparr>"

definition Update :: "senv \<Rightarrow> InteractionEndpoint \<Rightarrow> string \<Rightarrow> BindingPatch \<Rightarrow> (bind_err + BindingSession) bind" where
  "Update E endpoint sessionID patch = do {
     found \<leftarrow> binding_getLocked E endpoint sessionID;
     case found of
       Inl e \<Rightarrow> ret (Inl e)
     | Inr session \<Rightarrow>
         (let status = ToLower E (TrimSpace (bp_Status patch))
          in if status \<noteq> [] \<and> \<not> validStatus status then ret (Inl ErrInvalidStatus)
             else do {
               now \<leftarrow> on_store_of (unixNow E);
               let session = (patched E patch session)\<lparr>bs_UpdatedUnix := now\<rparr>;
               put_session session;
               ret (Inr session)
             })
   }"

definition Get :: "senv \<Rightarrow> InteractionEndpoint \<Rightarrow> string \<Rightarrow> (bind_err + BindingSession) bind" where
  "Get E endpoint sessionID = binding_getLocked E endpoint sessionID"

definition Cancel :: "senv \<Rightarrow> InteractionEndpoint \<Rightarrow> string \<Rightarrow> (bind_err + BindingSession) bind" where
  "Cancel E endpoint sessionID = do {
     found \<leftarrow> binding_getLocked E endpoint sessionID;
     case found of
       Inl e \<Rightarrow> ret (Inl e)
     | Inr session \<Rightarrow> do {
         now \<leftarrow> on_store_of (unixNow E);
         let session = session\<lparr>bs_Status := ''failed'', bs_Detail := ''Binding session canceled.'', bs_UpdatedUnix := now\<rparr>;
         put_session session;
         ret (Inr session)
       }
   }"

section \<open>The Weixin channel\<close>

record Config =
  wx_EndpointID :: string
  wx_Mode :: string
  wx_BotToken :: string
  wx_BotID :: string
  wx_UserID :: string
  wx_BaseURL :: string
  wx_CDNBaseURL :: string
  wx_AppID :: string
  wx_AppSecret :: string
  wx_Token :: string
  wx_DefaultTarget :: string
  wx_DefaultThreadID :: string
  wx_APIBaseURL :: string
  wx_AccessToken :: string

text \<open>
  \<^verbatim>\<open>fmt.Sprint\<close> of a decoded value: a text is itself; \<open>sprint\<close> is its result on the other values.
\<close>

definition stringValue :: "(json \<Rightarrow> string) \<Rightarrow> (string \<rightharpoonup> json) \<Rightarrow> string \<Rightarrow> string" where
  "stringValue sprint raw key =
     (case raw key of
        None \<Rightarrow> [] | Some JNull \<Rightarrow> []
      | Some (JString s) \<Rightarrow> TrimSpace s
      | Some v \<Rightarrow> TrimSpace (sprint v))"

text \<open>\<^verbatim>\<open>json.Unmarshal\<close> into a \<^verbatim>\<open>map[string]any\<close>, with its errors; \<^verbatim>\<open>null\<close> gives a nil map.\<close>

definition decode_map :: "json_codec \<Rightarrow> string \<Rightarrow> (string \<rightharpoonup> json) option option" where
  "decode_map J s =
     (case json_parse J s of
        Some (JObject kvs) \<Rightarrow> Some (Some (map_of (rev kvs)))
      | Some JNull \<Rightarrow> Some None
      | _ \<Rightarrow> None)"

definition ConfigFromEndpoint :: "json_codec \<Rightarrow> (json \<Rightarrow> string) \<Rightarrow> InteractionEndpoint \<Rightarrow> Config option" where
  "ConfigFromEndpoint J sprint endpoint =
     (case (if TrimSpace (iep_ConfigJSON endpoint) = [] then Some None else decode_map J (iep_ConfigJSON endpoint)) of
        None \<Rightarrow> None
      | Some raw0 \<Rightarrow>
          (let raw = (case raw0 of None \<Rightarrow> Map.empty | Some m \<Rightarrow> m); value = stringValue sprint raw
           in Some \<lparr>wx_EndpointID = iep_ID endpoint, wx_Mode = firstNonEmpty [value ''mode'', ''ilink''],
                wx_BotToken = value ''bot_token'', wx_BotID = value ''bot_id'', wx_UserID = value ''user_id'',
                wx_BaseURL = value ''base_url'', wx_CDNBaseURL = value ''cdn_base_url'', wx_AppID = value ''app_id'',
                wx_AppSecret = firstNonEmpty [value ''app_secret'', value ''app_secret_ref''],
                wx_Token = firstNonEmpty [value ''token'', value ''webhook_token'', value ''token_ref''],
                wx_DefaultTarget = value ''default_target'', wx_DefaultThreadID = value ''default_thread_id'',
                wx_APIBaseURL = value ''api_base_url'', wx_AccessToken = value ''access_token''\<rparr>))"

definition normalize_config :: "'z env_scheme \<Rightarrow> Config \<Rightarrow> Config" where
  "normalize_config E c =
     (let mode = ToLower E (TrimSpace (wx_Mode c))
      in \<lparr>wx_EndpointID = TrimSpace (wx_EndpointID c), wx_Mode = (if mode = [] then ''ilink'' else mode),
          wx_BotToken = TrimSpace (wx_BotToken c), wx_BotID = TrimSpace (wx_BotID c), wx_UserID = TrimSpace (wx_UserID c),
          wx_BaseURL = TrimSpace (wx_BaseURL c), wx_CDNBaseURL = TrimSpace (wx_CDNBaseURL c),
          wx_AppID = TrimSpace (wx_AppID c), wx_AppSecret = TrimSpace (wx_AppSecret c), wx_Token = TrimSpace (wx_Token c),
          wx_DefaultTarget = TrimSpace (wx_DefaultTarget c), wx_DefaultThreadID = TrimSpace (wx_DefaultThreadID c),
          wx_APIBaseURL = TrimSpace (wx_APIBaseURL c), wx_AccessToken = TrimSpace (wx_AccessToken c)\<rparr>)"

definition SupportsILinkBinding :: "'z env_scheme \<Rightarrow> json_codec \<Rightarrow> (json \<Rightarrow> string) \<Rightarrow> InteractionEndpoint \<Rightarrow> bool" where
  "SupportsILinkBinding E J sprint endpoint =
     (case ConfigFromEndpoint J sprint endpoint of
        None \<Rightarrow> False | Some cfg \<Rightarrow> wx_Mode (normalize_config E cfg) = ''ilink'')"

record ILinkQRCodeResponse =
  qr_QRCode :: string
  qr_QRCodeImgContent :: string

record ILinkQRCodeStatusResponse =
  qs_Status :: string
  qs_BotToken :: string
  qs_ILinkBotID :: string
  qs_ILinkUserID :: string
  qs_BaseURL :: string

definition qrImageURL :: "string \<Rightarrow> string" where
  "qrImageURL value0 =
     (let value = TrimSpace value0
      in if value = [] \<or> HasPrefix value ''data:'' \<or> HasPrefix value ''http://'' \<or> HasPrefix value ''https://'' then value
         else ''data:image/png;base64,'' @ value)"

definition mapILinkQRStatus :: "'z env_scheme \<Rightarrow> ILinkQRCodeStatusResponse option \<Rightarrow> string" where
  "mapILinkQRStatus E status0 =
     (case status0 of
        None \<Rightarrow> ''pending''
      | Some status \<Rightarrow>
          (let value = ToLower E (TrimSpace (qs_Status status))
           in if TrimSpace (qs_BotToken status) \<noteq> [] then ''bound''
              else if Contains value ''scan'' then ''scanned''
              else if Contains value ''expire'' then ''expired''
              else if Contains value ''fail'' \<or> Contains value ''cancel'' \<or> Contains value ''reject'' then ''failed''
              else ''pending''))"

definition terminalBindingStatus :: "'z env_scheme \<Rightarrow> string \<Rightarrow> bool" where
  "terminalBindingStatus E status \<longleftrightarrow> ToLower E (TrimSpace status) \<in> {''bound'', ''expired'', ''failed''}"

text \<open>Errors of the channel; \<open>WxPanic\<close> is the assignment to a nil map.\<close>

datatype wx_err = WxConfig | WxUnsupported | WxGateway string | WxSession bind_err | WxJSON | WxPanic

text \<open>
  The configuration with the answer of the gateway merged into it. \<^verbatim>\<open>json.Marshal\<close> writes the keys of a
  map in order.
\<close>

definition merged_entries :: "(string \<rightharpoonup> json) \<Rightarrow> string list \<Rightarrow> (string \<times> json) list" where
  "merged_entries m keys = map (\<lambda>k. (k, the (m k))) (sort (remdups keys))"

definition put_text :: "string \<Rightarrow> string \<Rightarrow> (string \<times> json) list \<Rightarrow> (string \<times> json) list" where
  "put_text key value kvs = (if TrimSpace value = [] then kvs else kvs @ [(key, JString (TrimSpace value))])"

definition mergeILinkBindingConfig :: "json_codec \<Rightarrow> string \<Rightarrow> ILinkQRCodeStatusResponse \<Rightarrow> wx_err + string" where
  "mergeILinkBindingConfig J rawConfig status =
     (let merged = (\<lambda>kvs.
        let all = put_text ''base_url'' (qs_BaseURL status) (put_text ''user_id'' (qs_ILinkUserID status)
              (put_text ''bot_id'' (qs_ILinkBotID status)
                (kvs @ [(''mode'', JString ''ilink''), (''bot_token'', JString (TrimSpace (qs_BotToken status)))])))
        in (case json_marshal J (JObject (merged_entries (map_of (rev all)) (map fst all))) of
              None \<Rightarrow> Inl WxJSON | Some data \<Rightarrow> Inr data))
      in if TrimSpace rawConfig = [] then merged []
         else (case json_parse J rawConfig of
                 Some (JObject kvs) \<Rightarrow> merged kvs
               | Some JNull \<Rightarrow> Inl WxPanic
               | _ \<Rightarrow> Inl WxJSON))"

definition no_binding_patch :: BindingPatch where
  "no_binding_patch = \<lparr>bp_Status = [], bp_QRPayload = [], bp_QRImageURL = [], bp_ExpiresUnix = 0, bp_Detail = []\<rparr>"

text \<open>An error of a call comes with the session that the caller goes on with.\<close>

definition StartILinkBindingSession ::
  "senv \<Rightarrow> json_codec \<Rightarrow> (json \<Rightarrow> string) \<Rightarrow> InteractionEndpoint \<Rightarrow> BindingSession \<Rightarrow>
     string + ILinkQRCodeResponse \<Rightarrow> (wx_err + BindingSession) bind" where
  "StartILinkBindingSession E J sprint endpoint session answer =
     (let update = (\<lambda>patch. do {
        r \<leftarrow> Update E endpoint (bs_ID session) patch;
        ret (case r of Inl e \<Rightarrow> Inl (WxSession e) | Inr s \<Rightarrow> Inr s)
      })
      in case ConfigFromEndpoint J sprint endpoint of
           None \<Rightarrow> ret (Inl WxConfig)
         | Some cfg \<Rightarrow>
             if wx_Mode (normalize_config E cfg) \<noteq> ''ilink'' then ret (Inl WxUnsupported)
             else (case answer of
                 Inl e \<Rightarrow> update (no_binding_patch\<lparr>bp_Status := ''failed'', bp_Detail := e\<rparr>)
               | Inr qr \<Rightarrow> do {
                   now \<leftarrow> on_store_of (unixNow E);
                   update \<lparr>bp_Status = ''pending'', bp_QRPayload = TrimSpace (qr_QRCode qr),
                     bp_QRImageURL = qrImageURL (qr_QRCodeImgContent qr), bp_ExpiresUnix = now + 300,
                     bp_Detail = ''Waiting for Weixin QR scan.''\<rparr>
                 }))"

record BindingUpdate =
  bu_Session :: BindingSession
  bu_ConfigJSON :: string
  bu_Bound :: bool

definition poll_patch :: "'z env_scheme \<Rightarrow> ILinkQRCodeStatusResponse \<Rightarrow> BindingPatch" where
  "poll_patch E status =
     (let st = mapILinkQRStatus E (Some status)
      in if TrimSpace (qs_BotToken status) \<noteq> []
         then no_binding_patch\<lparr>bp_Status := ''bound'', bp_Detail := ''Weixin QR binding completed.''\<rparr>
         else no_binding_patch\<lparr>bp_Status := st,
           bp_Detail := (if st = ''scanned'' then ''Weixin QR scanned; waiting for authorization.''
             else ''Waiting for Weixin QR scan.'')\<rparr>)"

definition PollILinkBindingSession ::
  "senv \<Rightarrow> json_codec \<Rightarrow> (json \<Rightarrow> string) \<Rightarrow> InteractionEndpoint \<Rightarrow> BindingSession \<Rightarrow>
     string + ILinkQRCodeStatusResponse \<Rightarrow> (BindingUpdate \<times> wx_err option) bind" where
  "PollILinkBindingSession E J sprint endpoint session answer =
     (let same = \<lparr>bu_Session = session, bu_ConfigJSON = [], bu_Bound = False\<rparr>
      in case ConfigFromEndpoint J sprint endpoint of
           None \<Rightarrow> ret (same, Some WxConfig)
         | Some cfg \<Rightarrow>
             if wx_Mode (normalize_config E cfg) \<noteq> ''ilink'' \<or> bs_QRPayload session = [] \<or>
                terminalBindingStatus E (bs_Status session)
             then ret (same, None)
             else (case answer of
                 Inl e \<Rightarrow> do {
                   r \<leftarrow> Update E endpoint (bs_ID session) (no_binding_patch\<lparr>bp_Status := ''failed'', bp_Detail := e\<rparr>);
                   ret (case r of Inl e' \<Rightarrow> (same, Some (WxSession e'))
                        | Inr updated \<Rightarrow> (same\<lparr>bu_Session := updated\<rparr>, Some (WxGateway e)))
                 }
               | Inr status \<Rightarrow>
                   (let bound = (TrimSpace (qs_BotToken status) \<noteq> []);
                        merged = (if bound then mergeILinkBindingConfig J (iep_ConfigJSON endpoint) status else Inr [])
                    in case merged of
                         Inl e \<Rightarrow> ret (same, Some e)
                       | Inr config \<Rightarrow> do {
                           r \<leftarrow> Update E endpoint (bs_ID session) (poll_patch E status);
                           ret (case r of Inl e' \<Rightarrow> (same, Some (WxSession e'))
                                | Inr updated \<Rightarrow> (\<lparr>bu_Session = updated, bu_ConfigJSON = config, bu_Bound = bound\<rparr>, None))
                         })))"

section \<open>The handlers\<close>

datatype reply =
    Reply nat BindingSession
  | Failure nat string
  | BadGateway wx_err   \<comment> \<open>status 502 with the text of the error\<close>
  | Panic               \<comment> \<open>the HTTP library ends the request\<close>

definition readBindingEndpoint :: "senv \<Rightarrow> string \<Rightarrow> (reply + InteractionEndpoint) bind" where
  "readBindingEndpoint E i = do {
     r \<leftarrow> on_store_of (GetInteractionEndpoint E i);
     ret (case r of
            Inl e \<Rightarrow> Inl (if e = ErrNotFound then Failure 404 ''interaction endpoint not found''
                         else Failure 500 ''read interaction endpoint failed'')
          | Inr endpoint \<Rightarrow>
              if \<not> equal_fold_word (iep_Kind endpoint) ''im''
              then Inl (Failure 400 ''interaction endpoint is not an IM endpoint'') else Inr endpoint)
   }"

abbreviation is_weixin :: "'z env_scheme \<Rightarrow> InteractionEndpoint \<Rightarrow> bool" where
  "is_weixin E endpoint \<equiv> CanonicalProvider E (iep_Provider endpoint) = ''weixin''"

text \<open>\<open>body\<close> is the method in the request, \<^const>\<open>None\<close> when the request cannot be decoded.\<close>

definition create_session ::
  "senv \<Rightarrow> auth_env \<Rightarrow> (nat \<Rightarrow> nat) \<Rightarrow> int \<Rightarrow> json_codec \<Rightarrow> (json \<Rightarrow> string) \<Rightarrow> InteractionEndpoint \<Rightarrow>
     string option \<Rightarrow> (reply + BindingSession) bind" where
  "create_session E A nanos ttl J sprint endpoint body =
     (case body of
        None \<Rightarrow> ret (Inl (Failure 400 ''invalid json body''))
      | Some method0 \<Rightarrow>
          (let m = ToLower E (TrimSpace method0); meth = (if m = [] then ''qr_code'' else m)
           in if is_weixin E endpoint \<and> meth = ''qr_code'' \<and> \<not> SupportsILinkBinding E J sprint endpoint
              then ret (Inl (Failure 422 ''weixin QR binding requires mode=ilink''))
              else do {
                s \<leftarrow> Create E A nanos ttl endpoint meth;
                ret (case s of
                       Inl e \<Rightarrow> Inl (if e = ErrEndpointUnsupported
                         then Failure 422 ''binding method is not available for this endpoint''
                         else Failure 500 ''create binding session failed'')
                     | Inr session \<Rightarrow> Inr session)
              }))"

definition start_session ::
  "senv \<Rightarrow> json_codec \<Rightarrow> (json \<Rightarrow> string) \<Rightarrow> InteractionEndpoint \<Rightarrow> BindingSession \<Rightarrow>
     string + ILinkQRCodeResponse \<Rightarrow> reply bind" where
  "start_session E J sprint endpoint session answer =
     (if is_weixin E endpoint
      then do {
        r \<leftarrow> StartILinkBindingSession E J sprint endpoint session answer;
        ret (case r of Inl e \<Rightarrow> BadGateway e | Inr updated \<Rightarrow> Reply 201 updated)
      }
      else ret (Reply 201 session))"

definition handleCreateBindingSession ::
  "senv \<Rightarrow> auth_env \<Rightarrow> (nat \<Rightarrow> nat) \<Rightarrow> int \<Rightarrow> json_codec \<Rightarrow> (json \<Rightarrow> string) \<Rightarrow> string \<Rightarrow> string option \<Rightarrow>
     string + ILinkQRCodeResponse \<Rightarrow> reply bind" where
  "handleCreateBindingSession E A nanos ttl J sprint i body answer = do {
     ep \<leftarrow> readBindingEndpoint E i;
     case ep of
       Inl r \<Rightarrow> ret r
     | Inr endpoint \<Rightarrow> do {
         c \<leftarrow> create_session E A nanos ttl J sprint endpoint body;
         case c of Inl r \<Rightarrow> ret r | Inr session \<Rightarrow> start_session E J sprint endpoint session answer
       }
   }"

text \<open>
  Reading a session: the session is read, the gateway is asked without any lock, the session is
  updated, and the configuration of the endpoint is written when the account is bound.
\<close>

definition read_session :: "senv \<Rightarrow> InteractionEndpoint \<Rightarrow> string \<Rightarrow> (reply + BindingSession) bind" where
  "read_session E endpoint sessionID = do {
     s \<leftarrow> Get E endpoint sessionID;
     ret (case s of
            Inl e \<Rightarrow> Inl (if e = ErrSessionNotFound then Failure 404 ''binding session not found''
                         else Failure 500 ''read binding session failed'')
          | Inr session \<Rightarrow> Inr session)
   }"

definition poll_session ::
  "senv \<Rightarrow> json_codec \<Rightarrow> (json \<Rightarrow> string) \<Rightarrow> InteractionEndpoint \<Rightarrow> BindingSession \<Rightarrow>
     string + ILinkQRCodeStatusResponse \<Rightarrow> (reply + BindingUpdate) bind" where
  "poll_session E J sprint endpoint session answer =
     (if \<not> is_weixin E endpoint then ret (Inl (Reply 200 session))
      else do {
        p \<leftarrow> PollILinkBindingSession E J sprint endpoint session answer;
        (case p of (update, e) \<Rightarrow>
           ret (if e = Some WxPanic then Inl Panic
                else if e = None \<and> bu_Bound update \<and> bu_ConfigJSON update \<noteq> [] then Inr update
                else Inl (Reply 200 (if bs_ID (bu_Session update) \<noteq> [] then bu_Session update else session))))
      })"

definition persist_config :: "senv \<Rightarrow> InteractionEndpoint \<Rightarrow> BindingSession \<Rightarrow> BindingUpdate \<Rightarrow> reply bind" where
  "persist_config E endpoint session update = do {
     r \<leftarrow> on_store_of (UpdateInteractionEndpoint E (iep_ID endpoint)
       \<lparr>iepp_DisplayName = None, iepp_TargetPrefix = None, iepp_InboundEnabled = None, iepp_OutboundEnabled = None,
        iepp_AuthMode = None, iepp_ConfigJSON = Some (bu_ConfigJSON update)\<rparr>);
     ret (case r of
            Inl _ \<Rightarrow> Failure 500 ''persist weixin binding failed''
          | Inr _ \<Rightarrow> Reply 200 (if bs_ID (bu_Session update) \<noteq> [] then bu_Session update else session))
   }"

definition handleGetBindingSession ::
  "senv \<Rightarrow> json_codec \<Rightarrow> (json \<Rightarrow> string) \<Rightarrow> string \<Rightarrow> string \<Rightarrow> string + ILinkQRCodeStatusResponse \<Rightarrow> reply bind" where
  "handleGetBindingSession E J sprint i sessionID answer = do {
     ep \<leftarrow> readBindingEndpoint E i;
     case ep of
       Inl r \<Rightarrow> ret r
     | Inr endpoint \<Rightarrow> do {
         s \<leftarrow> read_session E endpoint sessionID;
         case s of
           Inl r \<Rightarrow> ret r
         | Inr session \<Rightarrow> do {
             p \<leftarrow> poll_session E J sprint endpoint session answer;
             case p of Inl r \<Rightarrow> ret r | Inr update \<Rightarrow> persist_config E endpoint session update
           }
       }
   }"

definition cancel_session :: "senv \<Rightarrow> InteractionEndpoint \<Rightarrow> string \<Rightarrow> reply bind" where
  "cancel_session E endpoint sessionID = do {
     s \<leftarrow> Cancel E endpoint sessionID;
     ret (case s of
            Inl e \<Rightarrow> if e = ErrSessionNotFound then Failure 404 ''binding session not found''
                     else Failure 500 ''cancel binding session failed''
          | Inr session \<Rightarrow> Reply 200 session)
   }"

definition handleCancelBindingSession :: "senv \<Rightarrow> string \<Rightarrow> string \<Rightarrow> reply bind" where
  "handleCancelBindingSession E i sessionID = do {
     ep \<leftarrow> readBindingEndpoint E i;
     case ep of Inl r \<Rightarrow> ret r | Inr endpoint \<Rightarrow> cancel_session E endpoint sessionID
   }"

section \<open>Concurrent requests\<close>

text \<open>
  Requests interleave between the accesses to the database and to the sessions. A request in flight has
  read its endpoint (and will create, read or cancel a session), waits for the gateway after it has created
  or read a session, or is about to write the configuration. The answers of the gateway to polls
  are any elements of \<open>T\<close>.
\<close>

datatype flight =
    Entered InteractionEndpoint
  | Starting InteractionEndpoint BindingSession
  | Polling InteractionEndpoint BindingSession
  | Persisting InteractionEndpoint BindingSession BindingUpdate

record bind_sys =
  by_world :: bind_world
  by_flight :: "flight list"

definition goes :: "flight option \<Rightarrow> flight list \<Rightarrow> bind_world \<Rightarrow> bind_sys \<Rightarrow> bind_sys" where
  "goes old new w y = \<lparr>by_world = w,
     by_flight = (case old of None \<Rightarrow> by_flight y | Some f \<Rightarrow> remove1 f (by_flight y)) @ new\<rparr>"

abbreviation follow :: "('b \<Rightarrow> flight) \<Rightarrow> reply + 'b \<Rightarrow> flight list" where
  "follow f x \<equiv> (case x of Inl _ \<Rightarrow> [] | Inr b \<Rightarrow> [f b])"

inductive bind_step ::
  "senv \<Rightarrow> json_codec \<Rightarrow> (json \<Rightarrow> string) \<Rightarrow> (string + ILinkQRCodeStatusResponse) set \<Rightarrow> bind_sys \<Rightarrow> bind_sys \<Rightarrow> bool"
  for E J sprint T where
  enter: "run_state (readBindingEndpoint E i) (by_world y) = (x, w) \<Longrightarrow>
    bind_step E J sprint T y (goes None (follow Entered x) w y)"
| create: "Entered ep \<in> set (by_flight y) \<Longrightarrow>
    run_state (create_session E A nanos ttl J sprint ep body) (by_world y) = (x, w) \<Longrightarrow>
    bind_step E J sprint T y (goes (Some (Entered ep)) (follow (Starting ep) x) w y)"
| start: "Starting ep s \<in> set (by_flight y) \<Longrightarrow> run_state (start_session E J sprint ep s qr) (by_world y) = (r, w) \<Longrightarrow>
    bind_step E J sprint T y (goes (Some (Starting ep s)) [] w y)"
| look: "Entered ep \<in> set (by_flight y) \<Longrightarrow> run_state (read_session E ep sid) (by_world y) = (x, w) \<Longrightarrow>
    bind_step E J sprint T y (goes (Some (Entered ep)) (follow (Polling ep) x) w y)"
| poll: "Polling ep s \<in> set (by_flight y) \<Longrightarrow> answer \<in> T \<Longrightarrow>
    run_state (poll_session E J sprint ep s answer) (by_world y) = (x, w) \<Longrightarrow>
    bind_step E J sprint T y (goes (Some (Polling ep s)) (follow (Persisting ep s) x) w y)"
| persist: "Persisting ep s u \<in> set (by_flight y) \<Longrightarrow> run_state (persist_config E ep s u) (by_world y) = (r, w) \<Longrightarrow>
    bind_step E J sprint T y (goes (Some (Persisting ep s u)) [] w y)"
| cancel: "Entered ep \<in> set (by_flight y) \<Longrightarrow> run_state (cancel_session E ep sid) (by_world y) = (r, w) \<Longrightarrow>
    bind_step E J sprint T y (goes (Some (Entered ep)) [] w y)"

section \<open>Only a token binds an account\<close>

lemma run_sessions [simp]:
  "run_state get_sessions w = (bw_sessions w, w)"
  "run_state (put_session s) w = ((), w\<lparr>bw_sessions := (bw_sessions w)(bs_ID s \<mapsto> s)\<rparr>)"
  by (simp_all add: get_sessions_def put_session_def)

lemma run_on_store_of:
  "run_state (on_store_of m) w = (case run_state m (bw_disk w) of (x, d) \<Rightarrow> (x, w\<lparr>bw_disk := d\<rparr>))"
  by (simp add: on_store_of_def)

lemma on_store_ofE:
  assumes "run_state (on_store_of m) w = (x, w')"
  obtains d where "run_state m (bw_disk w) = (x, d)" and "w' = w\<lparr>bw_disk := d\<rparr>"
proof (cases "run_state m (bw_disk w)")
  case (Pair y d)
  note parts = assms [unfolded run_on_store_of Pair prod.case prod.inject]
  show ?thesis by (rule that [of d]) (simp_all only: Pair parts [THEN conjunct1] parts [THEN conjunct2, symmetric])
qed

lemma get_sessionsE:
  assumes "run_state get_sessions w = (x, w')"
  obtains "x = bw_sessions w" and "w' = w"
proof -
  note parts = assms [unfolded run_sessions prod.inject]
  show ?thesis by (rule that [OF parts [THEN conjunct1, symmetric] parts [THEN conjunct2, symmetric]])
qed

lemma put_sessionE:
  assumes "run_state (put_session s) w = (x, w')"
  obtains "w' = w\<lparr>bw_sessions := (bw_sessions w)(bs_ID s \<mapsto> s)\<rparr>"
proof -
  note parts = assms [unfolded run_sessions prod.inject]
  show ?thesis by (rule that [OF parts [THEN conjunct2, symmetric]])
qed

lemmas bind_elims = run_elims on_store_ofE get_sessionsE put_sessionE

text \<open>
  The sessions are filed under their ids, the bound ones are among \<open>B\<close>, and the endpoints are \<open>eps\<close>.
\<close>

definition unbound :: "string set \<Rightarrow> InteractionEndpoint list \<Rightarrow> bind_world \<Rightarrow> bool" where
  "unbound B eps w \<longleftrightarrow> endpoints (db (bw_disk w)) = eps \<and>
     (\<forall>i s. bw_sessions w i = Some s \<longrightarrow> bs_ID s = i \<and> (bs_Status s = ''bound'' \<longrightarrow> i \<in> B))"

lemma unbound_tick: "db d = db (bw_disk w) \<Longrightarrow> unbound B eps (w\<lparr>bw_disk := d\<rparr>) \<longleftrightarrow> unbound B eps w"
  by (simp add: unbound_def)

lemma unbound_put:
  "unbound B eps w \<Longrightarrow> bs_ID s = i \<Longrightarrow> bs_Status s = ''bound'' \<longrightarrow> i \<in> B \<Longrightarrow>
     unbound B eps (w\<lparr>bw_sessions := (bw_sessions w)(i \<mapsto> s)\<rparr>)"
  by (simp add: unbound_def)

lemma binding_getLocked_run:
  assumes "run_state (binding_getLocked E ep sid) w = (x, w')" and "unbound B eps w"
  shows "unbound B eps w' \<and> (\<forall>s. x = Inr s \<longrightarrow> bs_ID s = TrimSpace sid \<and> bs_EndpointID s = iep_ID ep \<and>
     (bs_Status s = ''bound'' \<longrightarrow> bs_ID s \<in> B))"
  using assms unfolding binding_getLocked_def Let_def
  by (elim bind_elims) (auto simp: unbound_def dest!: now_run)

lemma Update_run:
  assumes "run_state (Update E ep sid patch) w = (x, w')" and "unbound B eps w"
    and "ToLower E (TrimSpace (bp_Status patch)) \<noteq> ''bound''"
  shows "unbound B eps w'"
  using assms(1,3) unfolding Update_def Let_def
proof (elim bind_elims, goal_cases)
  case (3 found w1 session now w2 u w3 d)
  have got: "unbound B eps w1" "bs_Status session = ''bound'' \<longrightarrow> bs_ID session \<in> B"
    using binding_getLocked_run [OF 3(2) assms(2)] 3(3) by auto
  let ?s = "(patched E patch session)\<lparr>bs_UpdatedUnix := now\<rparr>"
  have "bs_ID ?s = bs_ID session" and "bs_Status ?s = ''bound'' \<longrightarrow> bs_ID ?s \<in> B"
    using got(2) assms(3) by (auto simp: patched_def)
  moreover have "unbound B eps w2" using got(1) 3(8) now_run [OF 3(7)] by (simp add: unbound_tick)
  ultimately show ?case using 3(6,9) by (simp add: unbound_put)
qed (use binding_getLocked_run [OF _ assms(2)] in \<open>auto\<close>)

lemma Cancel_run:
  assumes "run_state (Cancel E ep sid) w = (x, w')" and "unbound B eps w"
  shows "unbound B eps w'"
  using assms(1) unfolding Cancel_def Let_def
proof (elim bind_elims, goal_cases)
  case (2 found w1 session now w2 u w3 d)
  have "unbound B eps w2"
    using binding_getLocked_run [OF 2(1) assms(2)] 2(6) now_run [OF 2(5)] by (simp add: unbound_tick)
  then show ?case using 2(4,7) by (simp add: unbound_put)
qed (use binding_getLocked_run [OF _ assms(2)] in auto)

lemma Create_run:
  assumes "run_state (Create E A nanos ttl ep m) w = (x, w')" and "unbound B eps w"
  shows "unbound B eps w'"
  using assms unfolding Create_def newSessionID_def Let_def
  by (elim bind_elims) (auto dest!: now_run drawn_run simp: unbound_def)

lemma words_normal:
  "ToLower E (TrimSpace ''failed'') = ''failed''" "ToLower E (TrimSpace ''pending'') = ''pending''"
  "ToLower E (TrimSpace ''scanned'') = ''scanned''" "ToLower E (TrimSpace ''expired'') = ''expired''"
  "ToLower E (TrimSpace ''bound'') = ''bound''"
  by (rule norm_word, code_simp)+

lemma Start_run:
  assumes "run_state (StartILinkBindingSession E J sprint ep s qr) w = (x, w')" and "unbound B eps w"
  shows "unbound B eps w'"
  using assms unfolding StartILinkBindingSession_def Let_def
  by (elim bind_elims) (auto simp: no_binding_patch_def words_normal unbound_tick dest!: now_run elim!: Update_run)

definition tokenless :: "string + ILinkQRCodeStatusResponse \<Rightarrow> bool" where
  "tokenless answer = (case answer of Inl _ \<Rightarrow> True | Inr status \<Rightarrow> TrimSpace (qs_BotToken status) = [])"

lemma poll_patch_unbound:
  "TrimSpace (qs_BotToken status) = [] \<Longrightarrow> ToLower E (TrimSpace (bp_Status (poll_patch E status))) \<noteq> ''bound''"
  by (simp add: poll_patch_def Let_def mapILinkQRStatus_def no_binding_patch_def words_normal)

lemma Poll_run:
  assumes "run_state (PollILinkBindingSession E J sprint ep s answer) w = ((u, e), w')" and "unbound B eps w"
    and "tokenless answer"
  shows "unbound B eps w' \<and> \<not> bu_Bound u"
  using assms unfolding PollILinkBindingSession_def Let_def tokenless_def
  by (elim bind_elims)
    (auto simp: no_binding_patch_def words_normal poll_patch_unbound elim!: Update_run split: sum.splits)

lemma reading_run:
  assumes "run_state (readBindingEndpoint E i) w = (x, w')" and "unbound B eps w"
  shows "unbound B eps w'"
  using assms unfolding readBindingEndpoint_def
  by (elim bind_elims) (auto dest!: GetInteractionEndpoint_run simp: unbound_tick)

lemma create_session_run:
  assumes "run_state (create_session E A nanos ttl J sprint ep body) w = (x, w')" and "unbound B eps w"
  shows "unbound B eps w'"
  using assms unfolding create_session_def Let_def by (elim bind_elims) (auto elim: Create_run)

lemma start_session_run:
  assumes "run_state (start_session E J sprint ep s qr) w = (x, w')" and "unbound B eps w"
  shows "unbound B eps w'"
  using assms unfolding start_session_def by (elim bind_elims) (auto elim: Start_run)

lemma read_session_run:
  assumes "run_state (read_session E ep sid) w = (x, w')" and "unbound B eps w"
  shows "unbound B eps w'"
  using assms unfolding read_session_def Get_def by (elim bind_elims) (auto dest: binding_getLocked_run)

lemma cancel_session_run:
  assumes "run_state (cancel_session E ep sid) w = (x, w')" and "unbound B eps w"
  shows "unbound B eps w'"
  using assms unfolding cancel_session_def by (elim bind_elims) (auto elim: Cancel_run)

lemma poll_session_run:
  assumes "run_state (poll_session E J sprint ep s answer) w = (x, w')" and "unbound B eps w" and "tokenless answer"
  shows "unbound B eps w' \<and> (\<exists>r. x = Inl r)"
  using assms unfolding poll_session_def by (elim bind_elims) (auto dest!: Poll_run)

definition writes_config :: "flight \<Rightarrow> bool" where
  "writes_config f = (case f of Persisting _ _ _ \<Rightarrow> True | _ \<Rightarrow> False)"

definition nothing_bound :: "string set \<Rightarrow> InteractionEndpoint list \<Rightarrow> bind_sys \<Rightarrow> bool" where
  "nothing_bound B eps y \<longleftrightarrow> unbound B eps (by_world y) \<and> (\<forall>f \<in> set (by_flight y). \<not> writes_config f)"

lemma nothing_bound_goes:
  assumes "nothing_bound B eps y" and "unbound B eps w" and "\<forall>f \<in> set new. \<not> writes_config f"
  shows "nothing_bound B eps (goes old new w y)"
  using assms by (auto simp: nothing_bound_def goes_def split: option.splits dest: notin_set_remove1 set_remove1_subset [THEN subsetD])

lemma nothing_bound_step:
  assumes "bind_step E J sprint T y y'" and "nothing_bound B eps y" and "\<forall>a \<in> T. tokenless a"
  shows "nothing_bound B eps y'"
proof -
  have w: "unbound B eps (by_world y)" and quiet: "\<And>ep s u. Persisting ep s u \<notin> set (by_flight y)"
    using assms(2) by (force simp: nothing_bound_def writes_config_def)+
  note runs = reading_run create_session_run start_session_run read_session_run cancel_session_run
  show ?thesis
    using assms(1)
  proof cases
    case (poll ep s answer x w')
    then have "unbound B eps w' \<and> (\<exists>r. x = Inl r)" using w assms(3) by (intro poll_session_run) auto
    then show ?thesis using poll(1) assms(2) by (auto intro!: nothing_bound_goes)
  next
    case (persist ep s u r w')
    then show ?thesis using quiet by simp
  qed (use assms(2) runs [OF _ w] in \<open>auto simp: writes_config_def intro!: nothing_bound_goes split: sum.splits\<close>)
qed

lemma nothing_bound_steps:
  "(bind_step E J sprint T)\<^sup>*\<^sup>* y y' \<Longrightarrow> nothing_bound B eps y \<Longrightarrow> \<forall>a \<in> T. tokenless a \<Longrightarrow> nothing_bound B eps y'"
  by (induction rule: rtranclp_induct) (use nothing_bound_step in blast)+

text \<open>
  C16: an account is bound only by a token. As long as the gateway answers no poll with a bot
  token, whatever requests interleave in whatever way, no session becomes bound and no endpoint is changed.
\<close>

theorem bound_by_token:
  assumes "(bind_step E J sprint T)\<^sup>*\<^sup>* y y'" and "by_flight y = []"
    and "\<And>i s. bw_sessions (by_world y) i = Some s \<Longrightarrow> bs_ID s = i"
    and "\<forall>a \<in> T. tokenless a"
  shows "endpoints (db (bw_disk (by_world y'))) = endpoints (db (bw_disk (by_world y))) \<and>
    (\<forall>i s. bw_sessions (by_world y') i = Some s \<and> bs_Status s = ''bound'' \<longrightarrow>
       (\<exists>s0. bw_sessions (by_world y) i = Some s0 \<and> bs_Status s0 = ''bound''))"
proof -
  let ?B = "{i. \<exists>s0. bw_sessions (by_world y) i = Some s0 \<and> bs_Status s0 = ''bound''}"
  have "nothing_bound ?B (endpoints (db (bw_disk (by_world y)))) y"
    using assms(2,3) by (auto simp: nothing_bound_def unbound_def)
  from nothing_bound_steps [OF assms(1) this assms(4)] show ?thesis
    by (simp add: nothing_bound_def unbound_def)
qed

text \<open>
  C35: a poll that was asking the gateway while its session was canceled, or had
  expired, overwrites that. When the answer has a token the session becomes bound, whatever its state has
  become meanwhile, and the configuration with the token is on its way to the endpoint.
\<close>

theorem canceled_binding_revived:
  assumes "is_weixin E ep" and "ConfigFromEndpoint J sprint ep = Some cfg" and "wx_Mode (normalize_config E cfg) = ''ilink''"
    and "bs_QRPayload s \<noteq> []" and "\<not> terminalBindingStatus E (bs_Status s)"
    and "TrimSpace (qs_BotToken status) \<noteq> []"
    and "mergeILinkBindingConfig J (iep_ConfigJSON ep) status = Inr config" and "config \<noteq> []"
    and "bw_sessions w (TrimSpace (bs_ID s)) = Some now" and "bs_ID now = TrimSpace (bs_ID s)"
    and "bs_EndpointID now = iep_ID ep"
  shows "\<exists>u w'. run_state (poll_session E J sprint ep s (Inr status)) w = (Inr u, w') \<and> bu_ConfigJSON u = config \<and>
    (\<exists>s'. bw_sessions w' (bs_ID now) = Some s' \<and> bs_Status s' = ''bound'')"
  using assms
  by (simp add: poll_session_def PollILinkBindingSession_def Update_def binding_getLocked_def poll_patch_def no_binding_patch_def
    run_on_store_of words_normal validStatus_def patched_def Let_def)

section \<open>A canceled session\<close>

definition wx_endpoint :: InteractionEndpoint where
  "wx_endpoint = demo_endpoint\<lparr>iep_Provider := ''wechat'', iep_ConfigJSON := []\<rparr>"

definition wx_session :: "string \<Rightarrow> BindingSession" where
  "wx_session status = \<lparr>bs_ID = ''b1'', bs_EndpointID = ''ep1'', bs_Provider = ''weixin'', bs_Method = ''qr_code'',
     bs_Status = status, bs_QRPayload = ''qr'', bs_QRImageURL = [], bs_ExpiresUnix = 5000, bs_CreatedUnix = 0,
     bs_UpdatedUnix = 0, bs_Detail = []\<rparr>"

definition wx_world :: "string \<Rightarrow> bind_world" where
  "wx_world status = \<lparr>bw_disk = world_of (empty_store\<lparr>endpoints := [wx_endpoint]\<rparr>), bw_sessions = [''b1'' \<mapsto> wx_session status]\<rparr>"

definition wx_token :: ILinkQRCodeStatusResponse where
  "wx_token = \<lparr>qs_Status = ''confirmed'', qs_BotToken = ''tok'', qs_ILinkBotID = [], qs_ILinkUserID = [], qs_BaseURL = []\<rparr>"

text \<open>Witness: read as pending, canceled, and bound by the answer.\<close>

theorem canceled_binding_revived_witness:
  "bs_Status (the (bw_sessions (wx_world ''failed'') ''b1'')) = ''failed'' \<and>
   (\<exists>u w'. run_state (poll_session demo_env demo_codec (\<lambda>_. []) wx_endpoint (wx_session ''pending'') (Inr wx_token))
       (wx_world ''failed'') = (Inr u, w') \<and> (\<exists>s'. bw_sessions w' ''b1'' = Some s' \<and> bs_Status s' = ''bound''))"
proof -
  let ?cfg = "the (ConfigFromEndpoint demo_codec (\<lambda>_. []) wx_endpoint)"
  have facts: "is_weixin demo_env wx_endpoint" "ConfigFromEndpoint demo_codec (\<lambda>_. []) wx_endpoint = Some ?cfg"
      "wx_Mode (normalize_config demo_env ?cfg) = ''ilink''" "\<not> terminalBindingStatus demo_env ''pending''"
      "TrimSpace (qs_BotToken wx_token) \<noteq> []" "TrimSpace ''b1'' = ''b1''"
      "mergeILinkBindingConfig demo_codec (iep_ConfigJSON wx_endpoint) wx_token = Inr ''{}''"
    by code_simp+
  show ?thesis
    using canceled_binding_revived [of demo_env wx_endpoint demo_codec "\<lambda>_. []" ?cfg "wx_session ''pending''" wx_token "''{}''"
        "wx_world ''failed''" "wx_session ''failed''", OF facts(1-3)] facts
    by (auto simp: wx_session_def wx_world_def wx_endpoint_def demo_endpoint_def)
qed

definition entered :: bind_sys where
  "entered = goes None (follow Entered (fst (run_state (readBindingEndpoint demo_env ''ep1'') (wx_world ''pending''))))
     (snd (run_state (readBindingEndpoint demo_env ''ep1'') (wx_world ''pending'')))
     \<lparr>by_world = wx_world ''pending'', by_flight = []\<rparr>"

definition looked :: bind_sys where
  "looked = goes (Some (Entered wx_endpoint)) (follow (Polling wx_endpoint)
       (fst (run_state (read_session demo_env wx_endpoint ''b1'') (by_world entered))))
     (snd (run_state (read_session demo_env wx_endpoint ''b1'') (by_world entered))) entered"

definition polled :: bind_sys where
  "polled = goes (Some (Polling wx_endpoint (wx_session ''pending''))) (follow (Persisting wx_endpoint (wx_session ''pending''))
       (fst (run_state (poll_session demo_env demo_codec (\<lambda>_. []) wx_endpoint (wx_session ''pending'') (Inl ''timeout''))
         (by_world looked))))
     (snd (run_state (poll_session demo_env demo_codec (\<lambda>_. []) wx_endpoint (wx_session ''pending'') (Inl ''timeout''))
       (by_world looked))) looked"

lemma bind_demo:
  "by_flight entered = [Entered wx_endpoint]"
  "by_flight looked = [Polling wx_endpoint (wx_session ''pending'')]"
  "bs_Status (the (bw_sessions (by_world polled) ''b1'')) = ''failed''"
  by code_simp+

text \<open>Witness: a poll that times out.\<close>

theorem bound_by_token_witness:
  "bs_Status (the (bw_sessions (by_world polled) ''b1'')) = ''failed'' \<and>
   endpoints (db (bw_disk (by_world polled))) = [wx_endpoint]"
proof -
  let ?S = "bind_step demo_env demo_codec (\<lambda>_. []) {Inl ''timeout''}" and ?y = "\<lparr>by_world = wx_world ''pending'', by_flight = []\<rparr>"
  have 1: "?S ?y entered" unfolding entered_def by (rule bind_step.enter) simp
  have 2: "?S entered looked" unfolding looked_def by (rule bind_step.look) (simp_all add: bind_demo)
  have 3: "?S looked polled" unfolding polled_def by (rule bind_step.poll) (simp_all add: bind_demo)
  have steps: "?S\<^sup>*\<^sup>* ?y polled"
    by (rule converse_rtranclp_into_rtranclp [where r = ?S, OF 1], rule converse_rtranclp_into_rtranclp [where r = ?S, OF 2],
      rule r_into_rtranclp [where r = ?S, OF 3])
  have "bs_ID s = i" if "bw_sessions (by_world ?y) i = Some s" for i s
    using that by (auto simp: wx_world_def wx_session_def split: if_splits)
  from bound_by_token [OF steps _ this] show ?thesis
    using bind_demo(3) by (auto simp: tokenless_def wx_world_def)
qed

end
