(* ===== verification/Daemon_Server.thy ===== *)
theory Daemon_Server
  imports Encoding Store_Events Store_Tasks "HOL-Library.AList"
begin

text \<open>
  The daemon control server (\<^verbatim>\<open>internal/daemonrpc/server.go\<close>), first part: its state, the messages of
  the protocol it keeps, leases, the computers with their heartbeats, and the presence of agents derived
  from them. Messages of the generated package are records of the fields the server reads or writes;
  fields that it only passes on are one opaque value.
\<close>

section \<open>Messages\<close>

record Lease =
  lea_LeaseId :: string
  lea_HolderId :: string
  lea_ResourceType :: string
  lea_ResourceId :: string
  lea_ExpiresTimeUnix :: int
  lea_HeartbeatAfterSeconds :: "32 word"

datatype ComputerStatus =
    COMPUTER_STATUS_UNSPECIFIED | COMPUTER_STATUS_ONLINE | COMPUTER_STATUS_STALE
  | COMPUTER_STATUS_OFFLINE | COMPUTER_STATUS_DEGRADED | COMPUTER_STATUS_OTHER int

datatype AgentPresence =
    AGENT_PRESENCE_UNSPECIFIED | AGENT_PRESENCE_ONLINE | AGENT_PRESENCE_IDLE | AGENT_PRESENCE_BUSY
  | AGENT_PRESENCE_SLEEPING | AGENT_PRESENCE_STALE | AGENT_PRESENCE_OFFLINE | AGENT_PRESENCE_DEGRADED
  | AGENT_PRESENCE_OTHER int

datatype AgentStatusSeverity =
    AGENT_STATUS_SEVERITY_UNSPECIFIED | AGENT_STATUS_SEVERITY_INFO | AGENT_STATUS_SEVERITY_WARNING
  | AGENT_STATUS_SEVERITY_ERROR | AGENT_STATUS_SEVERITY_OTHER int

datatype AgentHealth =
    AGENT_HEALTH_UNSPECIFIED | AGENT_HEALTH_OK | AGENT_HEALTH_PROVIDER_QUOTA | AGENT_HEALTH_COMMAND_FAILED
  | AGENT_HEALTH_TEST_FAILED | AGENT_HEALTH_AUTH_REQUIRED | AGENT_HEALTH_RUNTIME_ERROR
  | AGENT_HEALTH_OFFLINE | AGENT_HEALTH_OTHER int

datatype AgentActivityState =
    AGENT_ACTIVITY_STATE_UNSPECIFIED | AGENT_ACTIVITY_STATE_RECEIVING_MESSAGE
  | AGENT_ACTIVITY_STATE_READING_CONTEXT | AGENT_ACTIVITY_STATE_COMPACTING_CONTEXT
  | AGENT_ACTIVITY_STATE_THINKING | AGENT_ACTIVITY_STATE_CODING | AGENT_ACTIVITY_STATE_RUNNING_COMMAND
  | AGENT_ACTIVITY_STATE_RUNNING_TEST | AGENT_ACTIVITY_STATE_REVIEWING | AGENT_ACTIVITY_STATE_WAITING
  | AGENT_ACTIVITY_STATE_BLOCKED | AGENT_ACTIVITY_STATE_RESTARTING | AGENT_ACTIVITY_STATE_OTHER int

record AgentStatusSnapshot =
  ast_AgentId :: string
  ast_ComputerId :: string
  ast_RuntimeProfileId :: string
  ast_Presence :: AgentPresence
  ast_ActivityState :: AgentActivityState
  ast_Health :: AgentHealth
  ast_Summary :: string
  ast_Detail :: string
  ast_Severity :: AgentStatusSeverity
  ast_UpdatedTimeUnix :: int
  ast_Other :: string

record AgentProfile =
  agp_AgentId :: string
  agp_ComputerId :: string
  agp_RuntimeProfileId :: string
  agp_Other :: string

record ComputerInfo =
  ci_DaemonId :: string
  ci_ComputerId :: string
  ci_Status :: ComputerStatus
  ci_Other :: string

record ComputerInventory =
  inv_Agents :: "AgentProfile list"
  inv_Other :: string

datatype RunState =
    RUN_STATE_UNSPECIFIED | RUN_STATE_QUEUED | RUN_STATE_RUNNING | RUN_STATE_BLOCKED
  | RUN_STATE_COMPLETED | RUN_STATE_FAILED | RUN_STATE_CANCELED | RUN_STATE_OTHER int

record Run =
  drun_RunId :: string
  drun_TaskId :: string
  drun_Target :: string
  drun_AgentId :: string
  drun_ComputerId :: string
  drun_RuntimeProfileId :: string
  drun_State :: RunState
  drun_LeaseId :: string
  drun_RequestId :: string
  drun_StartedTimeUnix :: int
  drun_UpdatedTimeUnix :: int
  drun_CompletedTimeUnix :: int
  drun_Error :: string
  drun_Summary :: string
  drun_Attempt :: "32 word"
  drun_MaxAttempts :: "32 word"
  drun_LastHeartbeatTimeUnix :: int

record RunStep =
  stp_StepId :: string
  stp_RunId :: string
  stp_Other :: string

datatype EventOperation =
    EVENT_OPERATION_UNSPECIFIED | EVENT_OPERATION_CREATED | EVENT_OPERATION_UPDATED
  | EVENT_OPERATION_DELETED | EVENT_OPERATION_STATE_CHANGED | EVENT_OPERATION_APPENDED
  | EVENT_OPERATION_CLAIMED | EVENT_OPERATION_RELEASED | EVENT_OPERATION_FAILED
  | EVENT_OPERATION_CANCELED | EVENT_OPERATION_HEARTBEAT | EVENT_OPERATION_INVALIDATED
  | EVENT_OPERATION_SNAPSHOT | EVENT_OPERATION_OTHER int

datatype MessageKind =
    MESSAGE_KIND_UNSPECIFIED | MESSAGE_KIND_DECISION | MESSAGE_KIND_BLOCKER | MESSAGE_KIND_STATUS
  | MESSAGE_KIND_NOTE | MESSAGE_KIND_OTHER int

datatype ActorKind =
    ACTOR_KIND_UNSPECIFIED | ACTOR_KIND_HUMAN | ACTOR_KIND_AGENT | ACTOR_KIND_DAEMON | ACTOR_KIND_ENDPOINT
  | ACTOR_KIND_SYSTEM | ACTOR_KIND_OTHER int

datatype OutboundDeliveryStatus =
    OUTBOUND_DELIVERY_STATUS_UNSPECIFIED | OUTBOUND_DELIVERY_STATUS_PENDING
  | OUTBOUND_DELIVERY_STATUS_DELIVERED | OUTBOUND_DELIVERY_STATUS_FAILED
  | OUTBOUND_DELIVERY_STATUS_RETRYING | OUTBOUND_DELIVERY_STATUS_CANCELED | OUTBOUND_DELIVERY_STATUS_OTHER int

record Actor =
  act_ActorKind :: ActorKind
  act_AgentId :: string
  act_UserId :: string
  act_DaemonId :: string
  act_DisplayName :: string

text \<open>The protocol's message; its attachments have the fields of the store's.\<close>

record CollaborationMessage =
  cm_MessageId :: string
  cm_Target :: string
  cm_ThreadId :: string
  cm_Role :: string
  cm_Kind :: MessageKind
  cm_Content :: string
  cm_ReplyToMessageId :: string
  cm_CreatedTimeUnix :: int
  cm_RequestId :: string
  cm_SourceEndpointId :: string
  cm_ExternalMessageId :: string
  cm_MetadataJson :: string
  cm_Attachments :: "Attachment list"
  cm_Sender :: Actor
  cm_AggregateId :: string

record SavedMessageRecord =
  smr_SavedMessageId :: string
  smr_Target :: string
  smr_ThreadId :: string
  smr_MessageId :: string
  smr_SavedByAgentId :: string
  smr_SavedByUserId :: string
  smr_SavedTimeUnix :: int
  smr_Message :: CollaborationMessage

record OutboundDeliveryRecord =
  odr_DeliveryId :: string
  odr_Target :: string
  odr_MessageId :: string
  odr_EndpointId :: string
  odr_EndpointKind :: string
  odr_ExternalMessageId :: string
  odr_Status :: OutboundDeliveryStatus
  odr_AttemptCount :: "32 word"
  odr_NextRetryTimeUnix :: int
  odr_DeliveredTimeUnix :: int
  odr_LastError :: string
  odr_RequestId :: string

datatype ReminderScheduleKind =
    REMINDER_SCHEDULE_KIND_UNSPECIFIED | REMINDER_SCHEDULE_KIND_CRON | REMINDER_SCHEDULE_KIND_EVERY
  | REMINDER_SCHEDULE_KIND_AT | REMINDER_SCHEDULE_KIND_RRULE | REMINDER_SCHEDULE_KIND_NATURAL
  | REMINDER_SCHEDULE_KIND_OTHER int

datatype ReminderStatus =
    REMINDER_STATUS_UNSPECIFIED | REMINDER_STATUS_ACTIVE | REMINDER_STATUS_DONE | REMINDER_STATUS_CANCELED
  | REMINDER_STATUS_PAUSED | REMINDER_STATUS_FAILED | REMINDER_STATUS_OTHER int

record ReminderRecurrence =
  rec_Rule :: string
  rec_Description :: string
  rec_Timezone :: string

record ReminderRecord =
  rr_ReminderId :: string
  rr_Target :: string
  rr_ScheduleKind :: ReminderScheduleKind
  rr_Schedule :: string
  rr_Prompt :: string
  rr_Enabled :: bool
  rr_NextRunUnix :: int
  rr_LastRunUnix :: int
  rr_RunCount :: "32 word"
  rr_LastError :: string
  rr_Title :: string
  rr_Status :: ReminderStatus
  rr_MsgRef :: string
  rr_CancelToken :: string
  rr_Recurrence :: "ReminderRecurrence option"

text \<open>
  A server event. Its kind and the type of its scope follow from the payload: an assigned run in the scope
  of a task, or an outbound delivery in the scope of a target.
\<close>

datatype event_payload = RunPayload Run | OutboundDeliveryPayload OutboundDeliveryRecord

record ServerEvent =
  sev_EventId :: string
  sev_Sequence :: int
  sev_AggregateId :: string
  sev_Target :: string
  sev_CreatedTimeUnix :: int
  sev_ProtocolVersion :: int
  sev_RequestId :: string
  sev_Operation :: EventOperation
  sev_ScopeId :: string
  sev_ScopeTarget :: string
  sev_Payload :: event_payload

datatype TaskState =
    TASK_STATE_UNSPECIFIED | TASK_STATE_TODO | TASK_STATE_IN_PROGRESS | TASK_STATE_IN_REVIEW
  | TASK_STATE_DONE | TASK_STATE_BLOCKED | TASK_STATE_CANCELED | TASK_STATE_OTHER int

text \<open>The protocol's task; the claim policy is always exclusive and the other fields stay empty.\<close>

record ProtoTask =
  pt_TaskId :: string
  pt_Summary :: string
  pt_State :: TaskState
  pt_Target :: string
  pt_ThreadId :: string
  pt_AssigneeId :: string
  pt_CreatedByUserId :: string
  pt_BlockedReason :: string
  pt_BoardColumn :: string
  pt_CreatedTimeUnix :: int
  pt_UpdatedTimeUnix :: int
  pt_GraphVersion :: int
  pt_ClaimLeaseId :: string
  pt_CurrentRunId :: string

text \<open>The answer to a claim; the conflict policy is fail-silent when the claim was not accepted and unset otherwise.\<close>

record ClaimResponse =
  cr_Task :: ProtoTask
  cr_Accepted :: bool
  cr_ConflictReason :: string
  cr_CurrentAssigneeId :: string
  cr_ClaimLease :: "Lease option"

text \<open>The responses the server remembers.\<close>

datatype proto_msg =
    RegisterComputerResponse int Lease
  | SyncComputerInventoryResponse string int
  | AcquireStartPermitResponse Lease
  | ReleaseStartPermitResponse
  | ClaimCollaborationTaskResponse ClaimResponse
  | UpdateRunStatusResponse Run
  | RenewRunLeaseResponse bool "Run option" "Lease option" string
  | AppendRunStepResponse RunStep
  | SendMessageResponse CollaborationMessage
  | RetryOutboundDeliveryResponse OutboundDeliveryRecord
  | SaveMessageResponse SavedMessageRecord
  | UnsaveMessageResponse "SavedMessageRecord option"
  | CreateCollaborationTaskResponse ProtoTask
  | UpdateTaskResponse "ProtoTask option" string
  | ScheduleReminderResponse ReminderRecord
  | CancelReminderResponse bool ReminderRecord
  | SnoozeReminderResponse ReminderRecord
  | UpdateReminderResponse ReminderRecord

section \<open>The state\<close>

text \<open>
  A lease is shared: the state of a computer and the table of leases point to the same object. Lease
  identifiers are drawn at random, so \<open>lease_objects\<close> has the objects by their identifier and
  \<open>lease_table\<close> says which of them are in the table. Runs are listed in some order.
\<close>

record computerState =
  cst_info :: "ComputerInfo option"
  cst_inventory :: "ComputerInventory option"
  cst_inventoryVersion :: string
  cst_lease :: "string option"
  cst_lastHeartbeat :: int

record Server =
  srv_serverID :: string
  srv_computers :: "(string \<times> computerState) list"
  srv_lease_objects :: "string \<rightharpoonup> Lease"
  srv_lease_table :: "string \<Rightarrow> bool"
  srv_statuses :: "string \<rightharpoonup> AgentStatusSnapshot"
  srv_runs :: "Run list"
  srv_runSteps :: "string \<rightharpoonup> RunStep list"
  srv_serverEvents :: "string \<rightharpoonup> ServerEvent"
  srv_eventSeq :: int
  srv_idempotency :: "string \<rightharpoonup> proto_msg"

text \<open>The server beside the database; an operation of the store runs on its part.\<close>

record rpc_world =
  on_disk :: "store world"
  server :: Server

datatype rpc_err =
    InvalidArgument string
  | NotFound string
  | AlreadyExists string
  | FailedPrecondition string
  | Unauthenticated string
  | Aborted string
  | Internal string "err option"      \<comment> \<open>what failed, and the error of the store\<close>

type_synonym 'a rpc = "(rpc_world, 'a) state"

definition store_call :: "(store, 'a) action \<Rightarrow> 'a rpc" where
  "store_call m = State (\<lambda>r. case run_state m (on_disk r) of (x, w) \<Rightarrow> (x, r\<lparr>on_disk := w\<rparr>))"

definition get_server :: "Server rpc" where
  "get_server = State (\<lambda>r. (server r, r))"

definition with_server :: "(Server \<Rightarrow> Server) \<Rightarrow> unit rpc" where
  "with_server f = State (\<lambda>r. ((), r\<lparr>server := f (server r)\<rparr>))"

text \<open>A start of the process: nothing is kept in memory.\<close>

definition fresh_server :: "string \<Rightarrow> Server" where
  "fresh_server serverID =
     \<lparr>srv_serverID = serverID, srv_computers = [], srv_lease_objects = Map.empty, srv_lease_table = (\<lambda>_. False),
      srv_statuses = Map.empty, srv_runs = [], srv_runSteps = Map.empty, srv_serverEvents = Map.empty,
      srv_eventSeq = 0, srv_idempotency = Map.empty\<rparr>"

definition New :: "senv \<Rightarrow> string \<Rightarrow> unit rpc" where
  "New E serverID0 = do {
     i \<leftarrow> (if TrimSpace serverID0 = [] then store_call (newID E ''srv'') else ret serverID0);
     with_server (\<lambda>_. fresh_server i)
   }"

section \<open>Leases\<close>

definition newLease :: "senv \<Rightarrow> string \<Rightarrow> string \<Rightarrow> string \<Rightarrow> int \<Rightarrow> Lease rpc" where
  "newLease E resourceType resourceID holderID ttl0 = do {
     i \<leftarrow> store_call (newID E ''lease'');
     now \<leftarrow> store_call (unixNow E);
     ret \<lparr>lea_LeaseId = i, lea_HolderId = holderID, lea_ResourceType = resourceType,
          lea_ResourceId = resourceID, lea_ExpiresTimeUnix = now + (if ttl0 \<le> 0 then 60 else ttl0),
          lea_HeartbeatAfterSeconds = 30\<rparr>
   }"

definition put_lease :: "Lease \<Rightarrow> Server \<Rightarrow> Server" where
  "put_lease l s = s\<lparr>srv_lease_objects := (srv_lease_objects s)(lea_LeaseId l \<mapsto> l),
     srv_lease_table := (srv_lease_table s)(lea_LeaseId l := True)\<rparr>"

definition lookup_lease :: "Server \<Rightarrow> string \<Rightarrow> Lease option" where
  "lookup_lease s i = (if srv_lease_table s i then srv_lease_objects s i else None)"

section \<open>Computers\<close>

definition computerLeaseSeconds :: int where
  "computerLeaseSeconds = 90"

definition computerStaleAfterSeconds :: int where
  "computerStaleAfterSeconds = 60"

definition computerOfflineAfterSeconds :: int where
  "computerOfflineAfterSeconds = computerLeaseSeconds"

definition no_computer :: computerState where
  "no_computer = \<lparr>cst_info = None, cst_inventory = None, cst_inventoryVersion = [], cst_lease = None,
     cst_lastHeartbeat = 0\<rparr>"

definition put_computer :: "string \<Rightarrow> computerState \<Rightarrow> Server \<Rightarrow> Server" where
  "put_computer i c s = s\<lparr>srv_computers := AList.update i c (srv_computers s)\<rparr>"

definition derivedStatus :: "computerState option \<Rightarrow> int \<Rightarrow> ComputerStatus" where
  "derivedStatus c now =
     (let reported = (case c of
            None \<Rightarrow> COMPUTER_STATUS_UNSPECIFIED
          | Some cs \<Rightarrow> (case cst_info cs of None \<Rightarrow> COMPUTER_STATUS_UNSPECIFIED | Some info \<Rightarrow> ci_Status info))
      in case c of
           None \<Rightarrow> reported
         | Some cs \<Rightarrow>
             if cst_lastHeartbeat cs \<le> 0 then reported
             else let ageSeconds = now - cst_lastHeartbeat cs
                  in if computerOfflineAfterSeconds \<le> ageSeconds then COMPUTER_STATUS_OFFLINE
                     else if computerStaleAfterSeconds \<le> ageSeconds then COMPUTER_STATUS_STALE
                     else if reported \<in> {COMPUTER_STATUS_UNSPECIFIED, COMPUTER_STATUS_STALE, COMPUTER_STATUS_OFFLINE}
                     then COMPUTER_STATUS_ONLINE
                     else reported)"

definition heartbeatAgeDetail :: "int \<Rightarrow> int \<Rightarrow> string" where
  "heartbeatAgeDetail lastHeartbeat now =
     (if lastHeartbeat \<le> 0 then ''daemon heartbeat has not been observed''
      else ''last daemon heartbeat was '' @ digits_of (nat (max 0 (now - lastHeartbeat))) @ '' seconds ago'')"

definition firstNonZeroInt64 :: "int list \<Rightarrow> int" where
  "firstNonZeroInt64 values = (case filter (\<lambda>v. v \<noteq> 0) values of [] \<Rightarrow> 0 | v # _ \<Rightarrow> v)"

definition warn :: "AgentStatusSeverity \<Rightarrow> AgentStatusSeverity" where
  "warn s = (if s = AGENT_STATUS_SEVERITY_UNSPECIFIED \<or> s = AGENT_STATUS_SEVERITY_INFO
             then AGENT_STATUS_SEVERITY_WARNING else s)"

definition applyComputerStatusToAgentStatus ::
  "AgentStatusSnapshot \<Rightarrow> ComputerStatus \<Rightarrow> int \<Rightarrow> int \<Rightarrow> AgentStatusSnapshot" where
  "applyComputerStatusToAgentStatus snapshot0 computerStatus lastHeartbeat now =
     (let snapshot = (if ast_UpdatedTimeUnix snapshot0 = 0
                      then snapshot0\<lparr>ast_UpdatedTimeUnix := firstNonZeroInt64 [lastHeartbeat, now]\<rparr> else snapshot0)
      in case computerStatus of
           COMPUTER_STATUS_STALE \<Rightarrow>
             snapshot\<lparr>ast_Presence := AGENT_PRESENCE_STALE, ast_Severity := warn (ast_Severity snapshot),
               ast_Summary := (if ast_Summary snapshot = [] \<or> ast_Health snapshot = AGENT_HEALTH_OK \<or>
                                  ast_Health snapshot = AGENT_HEALTH_UNSPECIFIED
                               then ''daemon heartbeat stale'' else ast_Summary snapshot),
               ast_Detail := heartbeatAgeDetail lastHeartbeat now\<rparr>
         | COMPUTER_STATUS_OFFLINE \<Rightarrow>
             snapshot\<lparr>ast_Presence := AGENT_PRESENCE_OFFLINE, ast_ActivityState := AGENT_ACTIVITY_STATE_WAITING,
               ast_Health := AGENT_HEALTH_OFFLINE, ast_Severity := AGENT_STATUS_SEVERITY_ERROR,
               ast_Summary := ''daemon offline'', ast_Detail := heartbeatAgeDetail lastHeartbeat now\<rparr>
         | COMPUTER_STATUS_DEGRADED \<Rightarrow>
             snapshot\<lparr>ast_Presence :=
                 (if ast_Presence snapshot \<in> {AGENT_PRESENCE_UNSPECIFIED, AGENT_PRESENCE_ONLINE,
                       AGENT_PRESENCE_IDLE, AGENT_PRESENCE_BUSY}
                  then AGENT_PRESENCE_DEGRADED else ast_Presence snapshot),
               ast_Severity := warn (ast_Severity snapshot)\<rparr>
         | _ \<Rightarrow> snapshot)"

definition derivedAgentStatus :: "Server \<Rightarrow> AgentStatusSnapshot \<Rightarrow> int \<Rightarrow> AgentStatusSnapshot" where
  "derivedAgentStatus s snapshot now =
     (let cp = (if ast_UpdatedTimeUnix snapshot = 0 then snapshot\<lparr>ast_UpdatedTimeUnix := now\<rparr> else snapshot)
      in case map_of (srv_computers s) (ast_ComputerId cp) of
           None \<Rightarrow> cp
         | Some computer \<Rightarrow>
             applyComputerStatusToAgentStatus cp (derivedStatus (Some computer) now) (cst_lastHeartbeat computer) now)"

text \<open>Where an agent runs: the inventories first, in the order \<open>iter\<close> visits them, then its own status.\<close>

definition agentRoute :: "((string \<times> computerState) list \<Rightarrow> (string \<times> computerState) list) \<Rightarrow> Server \<Rightarrow> string \<Rightarrow> string \<times> string" where
  "agentRoute iter s agentID =
     (let hits = concat (map (\<lambda>(computerID, computer).
            map (\<lambda>p. (if agp_ComputerId p \<noteq> [] then agp_ComputerId p else computerID, agp_RuntimeProfileId p))
              (filter (\<lambda>p. agp_AgentId p = agentID)
                (case cst_inventory computer of None \<Rightarrow> [] | Some inventory \<Rightarrow> inv_Agents inventory)))
          (iter (srv_computers s)))
      in case hits of
           hit # _ \<Rightarrow> hit
         | [] \<Rightarrow> (case srv_statuses s agentID of
                  Some snapshot \<Rightarrow> (ast_ComputerId snapshot, ast_RuntimeProfileId snapshot)
                | None \<Rightarrow> ([], [])))"

section \<open>Remembered responses\<close>

text \<open>
  \<open>pj_marshal\<close> and \<open>pj_unmarshal\<close> are \<^verbatim>\<open>protojson\<close> on responses; the second one is told the method,
  which fixes the type of the message. \<open>pj_task\<close> and \<open>pj_message\<close>
  encode the payload of an event about a task or a message.
\<close>

record proto_codec =
  pj_marshal :: "proto_msg \<Rightarrow> string option"
  pj_unmarshal :: "string \<Rightarrow> string \<Rightarrow> proto_msg option"
  pj_task :: "ProtoTask \<Rightarrow> string option"
  pj_message :: "CollaborationMessage \<Rightarrow> string option"
  pj_reminder :: "ReminderRecord \<Rightarrow> string option"

definition message_name :: "proto_msg \<Rightarrow> string" where
  "message_name m = ''nekode.daemon.v1.'' @
     (case m of
        RegisterComputerResponse _ _ \<Rightarrow> ''RegisterComputerResponse''
      | SyncComputerInventoryResponse _ _ \<Rightarrow> ''SyncComputerInventoryResponse''
      | AcquireStartPermitResponse _ \<Rightarrow> ''AcquireStartPermitResponse''
      | ReleaseStartPermitResponse \<Rightarrow> ''ReleaseStartPermitResponse''
      | ClaimCollaborationTaskResponse _ \<Rightarrow> ''ClaimCollaborationTaskResponse''
      | UpdateRunStatusResponse _ \<Rightarrow> ''UpdateRunStatusResponse''
      | RenewRunLeaseResponse _ _ _ _ \<Rightarrow> ''RenewRunLeaseResponse''
      | AppendRunStepResponse _ \<Rightarrow> ''AppendRunStepResponse''
      | SendMessageResponse _ \<Rightarrow> ''SendMessageResponse''
      | RetryOutboundDeliveryResponse _ \<Rightarrow> ''RetryOutboundDeliveryResponse''
      | SaveMessageResponse _ \<Rightarrow> ''SaveMessageResponse''
      | UnsaveMessageResponse _ \<Rightarrow> ''UnsaveMessageResponse''
      | CreateCollaborationTaskResponse _ \<Rightarrow> ''CreateCollaborationTaskResponse''
      | UpdateTaskResponse _ _ \<Rightarrow> ''UpdateTaskResponse''
      | ScheduleReminderResponse _ \<Rightarrow> ''ScheduleReminderResponse''
      | CancelReminderResponse _ _ \<Rightarrow> ''CancelReminderResponse''
      | SnoozeReminderResponse _ \<Rightarrow> ''SnoozeReminderResponse''
      | UpdateReminderResponse _ \<Rightarrow> ''UpdateReminderResponse'')"

text \<open>The first value that is not empty; unlike the store's helper it does not trim.\<close>

definition first_value :: "string list \<Rightarrow> string" where
  "first_value values = (case filter (\<lambda>v. v \<noteq> []) values of [] \<Rightarrow> [] | v # _ \<Rightarrow> v)"

definition idempotencyCacheKey :: "string \<Rightarrow> string \<Rightarrow> string \<Rightarrow> string" where
  "idempotencyCacheKey meth requestID idempotencyKey =
     (let key = first_value [idempotencyKey, requestID] in if key = [] then [] else meth @ '':'' @ key)"

definition replay :: "senv \<Rightarrow> 'p proto_codec_scheme \<Rightarrow> string \<Rightarrow> string \<Rightarrow> string \<Rightarrow> proto_msg option rpc" where
  "replay E P meth requestID idempotencyKey =
     (let key = idempotencyCacheKey meth requestID idempotencyKey
      in if key = [] then ret None
         else do {
           s \<leftarrow> get_server;
           case srv_idempotency s key of
             Some msg \<Rightarrow> ret (Some msg)
           | None \<Rightarrow> do {
               found \<leftarrow> store_call (GetIdempotencyRecord E ''daemonrpc'' meth [] (first_value [idempotencyKey, requestID]));
               ret (case found of
                      Inl _ \<Rightarrow> None
                    | Inr r \<Rightarrow> if idem_Status r \<noteq> ''completed'' \<or> idem_ResponseJSON r = [] then None
                             else pj_unmarshal P meth (idem_ResponseJSON r))
             }
         })"

definition idem_request :: "string \<Rightarrow> string \<Rightarrow> IdempotencyRecord" where
  "idem_request meth key =
     \<lparr>idem_ID = [], idem_Scope = ''daemonrpc'', idem_Method = meth, idem_ActorID = [], idem_IdempotencyKey = key,
      idem_RequestHash = [], idem_ResponseType = [], idem_ResponseJSON = [], idem_ResourceType = [],
      idem_ResourceID = [], idem_Status = ''pending'', idem_CreatedUnix = 0, idem_ExpiresUnix = 0\<rparr>"

text \<open>\<^const>\<open>None\<close> lets the call go on.\<close>

definition reserve :: "senv \<Rightarrow> string \<Rightarrow> string \<Rightarrow> string \<Rightarrow> rpc_err option rpc" where
  "reserve E meth requestID idempotencyKey =
     (let key = first_value [idempotencyKey, requestID]
      in if key = [] then ret None
         else do {
           r \<leftarrow> store_call (ReserveIdempotencyRecord E (idem_request meth key));
           ret (case r of
                  Inl e \<Rightarrow> Some (Internal ''reserve idempotency'' (Some e))
                | Inr (record1, created) \<Rightarrow>
                    if created \<or> idem_Status record1 = ''completed'' then None
                    else Some (Aborted ''idempotency key is already in progress''))
         })"

definition remember :: "senv \<Rightarrow> 'p proto_codec_scheme \<Rightarrow> string \<Rightarrow> string \<Rightarrow> string \<Rightarrow> proto_msg \<Rightarrow> unit rpc" where
  "remember E P meth requestID idempotencyKey msg =
     (let key = idempotencyCacheKey meth requestID idempotencyKey
      in if key = [] then ret ()
         else do {
           with_server (\<lambda>s. s\<lparr>srv_idempotency := (srv_idempotency s)(key \<mapsto> msg)\<rparr>);
           case pj_marshal P msg of
             None \<Rightarrow> ret ()
           | Some body \<Rightarrow> do {
               _ \<leftarrow> store_call (CompleteIdempotencyRecord E
                 ((idem_request meth (first_value [idempotencyKey, requestID]))\<lparr>idem_ResponseType := message_name msg,
                    idem_ResponseJSON := body, idem_Status := ''completed''\<rparr>));
               ret ()
             }
         })"

text \<open>The frame of every call: replay, reserve, the body, and the response remembered when it has one.\<close>

definition idempotent ::
  "senv \<Rightarrow> 'p proto_codec_scheme \<Rightarrow> string \<Rightarrow> string \<Rightarrow> string \<Rightarrow> (rpc_err + proto_msg \<times> bool) rpc \<Rightarrow> (rpc_err + proto_msg) rpc" where
  "idempotent E P meth requestID idempotencyKey body = do {
     old \<leftarrow> replay E P meth requestID idempotencyKey;
     case old of
       Some msg \<Rightarrow> ret (Inr msg)
     | None \<Rightarrow> do {
         refused \<leftarrow> reserve E meth requestID idempotencyKey;
         case refused of
           Some e \<Rightarrow> ret (Inl e)
         | None \<Rightarrow> do {
             r \<leftarrow> body;
             case r of
               Inl e \<Rightarrow> ret (Inl e)
             | Inr (msg, keep) \<Rightarrow>
                 if keep then do { remember E P meth requestID idempotencyKey msg; ret (Inr msg) } else ret (Inr msg)
           }
       }
   }"

section \<open>Registration and heartbeats\<close>

definition RegisterComputer ::
  "senv \<Rightarrow> 'p proto_codec_scheme \<Rightarrow> string \<Rightarrow> string \<Rightarrow> ComputerInfo option \<Rightarrow> ComputerInventory option \<Rightarrow> (rpc_err + proto_msg) rpc" where
  "RegisterComputer E P requestID key info0 inventory =
     idempotent E P ''RegisterComputer'' requestID key
       (case info0 of
          None \<Rightarrow> ret (Inl (InvalidArgument ''computer_id and daemon_id are required''))
        | Some info \<Rightarrow>
            if ci_ComputerId info = [] \<or> ci_DaemonId info = []
            then ret (Inl (InvalidArgument ''computer_id and daemon_id are required''))
            else do {
              now \<leftarrow> store_call (unixNow E);
              lease \<leftarrow> newLease E ''computer'' (ci_ComputerId info) (ci_DaemonId info) computerLeaseSeconds;
              with_server (\<lambda>s. put_lease lease (put_computer (ci_ComputerId info)
                \<lparr>cst_info = Some info, cst_inventory = inventory, cst_inventoryVersion = ''initial'',
                 cst_lease = Some (lea_LeaseId lease), cst_lastHeartbeat = now\<rparr> s));
              ret (Inr (RegisterComputerResponse now lease, True))
            })"

text \<open>The lease a heartbeat keeps: the one of the computer, when the caller names it.\<close>

definition kept_lease :: "Server \<Rightarrow> computerState \<Rightarrow> string \<Rightarrow> Lease option" where
  "kept_lease s c leaseID =
     (case cst_lease c of
        None \<Rightarrow> None
      | Some i \<Rightarrow> if leaseID = [] \<or> i \<noteq> leaseID then None else srv_lease_objects s i)"

definition status_updates :: "int \<Rightarrow> AgentStatusSnapshot list \<Rightarrow> Server \<Rightarrow> Server" where
  "status_updates now snapshots s =
     s\<lparr>srv_statuses := fold (\<lambda>snapshot m.
         if ast_AgentId snapshot = [] then m
         else m(ast_AgentId snapshot \<mapsto> (if ast_UpdatedTimeUnix snapshot = 0
                then snapshot\<lparr>ast_UpdatedTimeUnix := now\<rparr> else snapshot)))
       snapshots (srv_statuses s)\<rparr>"

definition HeartbeatComputer ::
  "senv \<Rightarrow> ComputerInfo option \<Rightarrow> ComputerInventory option \<Rightarrow> bool \<Rightarrow> string \<Rightarrow> string \<Rightarrow> AgentStatusSnapshot list \<Rightarrow>
     (rpc_err + int \<times> Lease) rpc" where
  "HeartbeatComputer E info0 inventory fullSnapshot inventoryVersion leaseID snapshots =
     (case info0 of
        None \<Rightarrow> ret (Inl (InvalidArgument ''computer_id is required''))
      | Some info \<Rightarrow>
          if ci_ComputerId info = [] then ret (Inl (InvalidArgument ''computer_id is required''))
          else do {
            now \<leftarrow> store_call (unixNow E);
            s \<leftarrow> get_server;
            (let computerID = ci_ComputerId info;
                 c0 = (case map_of (srv_computers s) computerID of None \<Rightarrow> no_computer | Some c \<Rightarrow> c);
                 c1 = c0\<lparr>cst_info := Some info, cst_lastHeartbeat := now\<rparr>;
                 c2 = (if fullSnapshot then c1\<lparr>cst_inventory := inventory, cst_inventoryVersion := inventoryVersion\<rparr>
                       else c1)
             in do {
               lease0 \<leftarrow> (case kept_lease s c0 leaseID of
                  Some l \<Rightarrow> ret l
                | None \<Rightarrow> newLease E ''computer'' computerID
                    (if ci_DaemonId info = [] then computerID else ci_DaemonId info) computerLeaseSeconds);
               (let lease = lease0\<lparr>lea_ExpiresTimeUnix := now + computerLeaseSeconds\<rparr>
                in do {
                  with_server (\<lambda>s. status_updates now snapshots (put_lease lease
                    (put_computer computerID (c2\<lparr>cst_lease := Some (lea_LeaseId lease)\<rparr>) s)));
                  ret (Inr (now, lease))
                })
             })
          })"

definition SyncComputerInventory ::
  "senv \<Rightarrow> 'p proto_codec_scheme \<Rightarrow> string \<Rightarrow> string \<Rightarrow> ComputerInfo option \<Rightarrow> ComputerInventory option \<Rightarrow> string \<Rightarrow>
     (rpc_err + proto_msg) rpc" where
  "SyncComputerInventory E P requestID key info0 inventory inventoryVersion =
     idempotent E P ''SyncComputerInventory'' requestID key
       (case info0 of
          None \<Rightarrow> ret (Inl (InvalidArgument ''computer_id is required''))
        | Some info \<Rightarrow>
            if ci_ComputerId info = [] then ret (Inl (InvalidArgument ''computer_id is required''))
            else do {
              now \<leftarrow> store_call (unixNow E);
              s \<leftarrow> get_server;
              (let versionID = (if inventoryVersion = [] then (if now < 0 then ''-'' else []) @ digits_of (nat \<bar>now\<bar>)
                                else inventoryVersion);
                   c0 = (case map_of (srv_computers s) (ci_ComputerId info) of None \<Rightarrow> no_computer | Some c \<Rightarrow> c)
               in do {
                 with_server (put_computer (ci_ComputerId info)
                   (c0\<lparr>cst_info := Some info, cst_inventory := inventory, cst_inventoryVersion := versionID\<rparr>));
                 ret (Inr (SyncComputerInventoryResponse versionID now, True))
               })
            })"

section \<open>Start permits\<close>

definition AcquireStartPermit ::
  "senv \<Rightarrow> 'p proto_codec_scheme \<Rightarrow> string \<Rightarrow> string \<Rightarrow> string \<Rightarrow> string \<Rightarrow> 32 word \<Rightarrow> (rpc_err + proto_msg) rpc" where
  "AcquireStartPermit E P requestID key computerID agentID ttl0 =
     idempotent E P ''AcquireStartPermit'' requestID key
       (if computerID = [] \<or> agentID = [] then ret (Inl (InvalidArgument ''computer_id and agent_id are required''))
        else do {
          lease \<leftarrow> newLease E ''start_permit'' agentID computerID (if ttl0 = 0 then 60 else uint ttl0);
          with_server (put_lease lease);
          ret (Inr (AcquireStartPermitResponse lease, True))
        })"

definition ReleaseStartPermit ::
  "senv \<Rightarrow> 'p proto_codec_scheme \<Rightarrow> string \<Rightarrow> string \<Rightarrow> string \<Rightarrow> (rpc_err + proto_msg) rpc" where
  "ReleaseStartPermit E P requestID key leaseID =
     idempotent E P ''ReleaseStartPermit'' requestID key
       (do {
          with_server (\<lambda>s. s\<lparr>srv_lease_table := (srv_lease_table s)(leaseID := False)\<rparr>);
          ret (Inr (ReleaseStartPermitResponse, True))
        })"

section \<open>Running calls\<close>

lemma run_server [simp]:
  "run_state get_server r = (server r, r)"
  "run_state (with_server f) r = ((), r\<lparr>server := f (server r)\<rparr>)"
  by (simp_all add: get_server_def with_server_def)

lemma run_store_call:
  "run_state (store_call m) r = (case run_state m (on_disk r) of (x, w) \<Rightarrow> (x, r\<lparr>on_disk := w\<rparr>))"
  by (simp add: store_call_def)

lemma store_callE:
  assumes "run_state (store_call m) r = (x, r')"
  obtains w where "run_state m (on_disk r) = (x, w)" and "r' = r\<lparr>on_disk := w\<rparr>"
proof (cases "run_state m (on_disk r)")
  case (Pair y w)
  note parts = assms [unfolded run_store_call Pair prod.case prod.inject]
  show ?thesis by (rule that [of w]) (simp_all only: Pair parts [THEN conjunct1] parts [THEN conjunct2, symmetric])
qed

lemma get_serverE:
  assumes "run_state get_server r = (x, r')"
  obtains "x = server r" and "r' = r"
proof -
  note parts = assms [unfolded run_server prod.inject]
  show ?thesis by (rule that [OF parts [THEN conjunct1, symmetric] parts [THEN conjunct2, symmetric]])
qed

lemma with_serverE:
  assumes "run_state (with_server f) r = (x, r')"
  obtains "r' = r\<lparr>server := f (server r)\<rparr>"
proof -
  note parts = assms [unfolded run_server prod.inject]
  show ?thesis by (rule that [OF parts [THEN conjunct2, symmetric]])
qed

lemmas rpc_elims = run_elims store_callE get_serverE with_serverE

lemma keeps_get_server [keeps_rules]: "keeps I get_server"
  by (simp add: keeps_def)

abbreviation on_server :: "(Server \<Rightarrow> bool) \<Rightarrow> rpc_world \<Rightarrow> bool" where
  "on_server K \<equiv> (\<lambda>r. K (server r))"

abbreviation on_store :: "(store \<Rightarrow> bool) \<Rightarrow> rpc_world \<Rightarrow> bool" where
  "on_store K \<equiv> (\<lambda>r. K (db (on_disk r)))"

lemma keeps_server_store_call [keeps_rules]: "keeps (on_server K) (store_call m)"
  by (simp add: keeps_def run_store_call split: prod.splits)

lemma keeps_server_with: "(\<And>s. K s \<Longrightarrow> K (f s)) \<Longrightarrow> keeps (on_server K) (with_server f)"
  by (simp add: keeps_def)

lemma keeps_store_with [keeps_rules]: "keeps (on_store K) (with_server f)"
  by (simp add: keeps_def)

lemma keeps_store_call: "keeps (on_db K) m \<Longrightarrow> keeps (on_store K) (store_call m)"
  by (auto simp: keeps_def run_store_call split: prod.splits)

end
