(* ===== verification/Daemon_Memory.thy ===== *)
theory Daemon_Memory
  imports Daemon_Server Store_Decisions Store_AgentRuns "HOL-Library.Sublist"
begin

text \<open>
  The daemon control server, decisions of channels and reports about agent runs
  (\<^verbatim>\<open>internal/daemonrpc/memory.go\<close>). The handlers use nothing of the server but its store, so they are actions
  on the store that return an error of the protocol. An absent request context or actor has the same effect
  as an actor with empty fields, so it is not distinguished from it.
\<close>

section \<open>Messages\<close>

datatype DecisionStatus =
    DECISION_STATUS_UNSPECIFIED | DECISION_STATUS_PROPOSED | DECISION_STATUS_RATIFIED | DECISION_STATUS_REJECTED
  | DECISION_STATUS_RETIRED | DECISION_STATUS_OTHER int

datatype DecisionVote =
    DECISION_VOTE_UNSPECIFIED | DECISION_VOTE_APPROVE | DECISION_VOTE_REJECT | DECISION_VOTE_ABSTAIN
  | DECISION_VOTE_OTHER int

datatype AgentRunPhase =
    AGENT_RUN_PHASE_UNSPECIFIED | AGENT_RUN_PHASE_START | AGENT_RUN_PHASE_TOOL_CALL | AGENT_RUN_PHASE_TOOL_RESULT
  | AGENT_RUN_PHASE_ERROR | AGENT_RUN_PHASE_OUTPUT | AGENT_RUN_PHASE_END | AGENT_RUN_PHASE_OTHER int

record ProtoDecision =
  pd_DecisionId :: string
  pd_Target :: string
  pd_Title :: string
  pd_Body :: string
  pd_Status :: DecisionStatus
  pd_ProposerId :: string
  pd_ProposerKind :: ActorKind
  pd_CreatedTimeUnix :: int
  pd_RatifiedTimeUnix :: int
  pd_RetiredTimeUnix :: int
  pd_RetiredBy :: string
  pd_RetireReason :: string
  pd_SupersedesDecisionId :: string
  pd_ApproveCount :: "32 word"
  pd_RejectCount :: "32 word"
  pd_AbstainCount :: "32 word"

record DecisionVoteRecord =
  dvr_DecisionId :: string
  dvr_VoterId :: string
  dvr_VoterKind :: ActorKind
  dvr_Decision :: DecisionVote
  dvr_VotedTimeUnix :: int
  dvr_Reason :: string

record ProtoAgentRunEvent =
  pe_RunId :: string
  pe_AgentId :: string
  pe_ComputerId :: string
  pe_Phase :: AgentRunPhase
  pe_AtUnixNano :: int
  pe_Summary :: string
  pe_PayloadJson :: string
  pe_ExitCode :: int
  pe_ErrorMessage :: string

record AgentRunSummary =
  ars_RunId :: string
  ars_AgentId :: string
  ars_ComputerId :: string
  ars_StartedTimeUnix :: int
  ars_EndedTimeUnix :: int
  ars_ExitCode :: int
  ars_Summary :: string
  ars_ErrorMessage :: string
  ars_EventCount :: "32 word"

record SearchHit =
  sh_Run :: AgentRunSummary
  sh_MatchingEvent :: ProtoAgentRunEvent
  sh_Highlight :: string

section \<open>Conversions\<close>

definition decisionStatusFromProto :: "DecisionStatus \<Rightarrow> string" where
  "decisionStatusFromProto st =
     (case st of
        DECISION_STATUS_PROPOSED \<Rightarrow> ''proposed'' | DECISION_STATUS_RATIFIED \<Rightarrow> ''ratified''
      | DECISION_STATUS_REJECTED \<Rightarrow> ''rejected'' | DECISION_STATUS_RETIRED \<Rightarrow> ''retired'' | _ \<Rightarrow> [])"

definition decisionStatusToProto :: "string \<Rightarrow> DecisionStatus" where
  "decisionStatusToProto st =
     (if st = ''proposed'' then DECISION_STATUS_PROPOSED
      else if st = ''ratified'' then DECISION_STATUS_RATIFIED
      else if st = ''rejected'' then DECISION_STATUS_REJECTED
      else if st = ''retired'' then DECISION_STATUS_RETIRED
      else DECISION_STATUS_UNSPECIFIED)"

definition decisionVoteFromProto :: "DecisionVote \<Rightarrow> string" where
  "decisionVoteFromProto vote =
     (case vote of
        DECISION_VOTE_APPROVE \<Rightarrow> ''approve'' | DECISION_VOTE_REJECT \<Rightarrow> ''reject''
      | DECISION_VOTE_ABSTAIN \<Rightarrow> ''abstain'' | _ \<Rightarrow> [])"

definition decisionVoteToProto :: "string \<Rightarrow> DecisionVote" where
  "decisionVoteToProto vote =
     (if vote = ''approve'' then DECISION_VOTE_APPROVE
      else if vote = ''reject'' then DECISION_VOTE_REJECT
      else if vote = ''abstain'' then DECISION_VOTE_ABSTAIN
      else DECISION_VOTE_UNSPECIFIED)"

definition actorKindToProto :: "'z env_scheme \<Rightarrow> string \<Rightarrow> ActorKind" where
  "actorKindToProto E kind0 =
     (let kind = ToLower E kind0
      in if kind = ''agent'' then ACTOR_KIND_AGENT
         else if kind = ''human'' \<or> kind = ''user'' then ACTOR_KIND_HUMAN
         else ACTOR_KIND_UNSPECIFIED)"

definition decisionToProto :: "'z env_scheme \<Rightarrow> ChannelDecision \<Rightarrow> ProtoDecision" where
  "decisionToProto E row =
     \<lparr>pd_DecisionId = dec_ID row, pd_Target = dec_Target row, pd_Title = dec_Title row, pd_Body = dec_Body row,
      pd_Status = decisionStatusToProto (dec_Status row), pd_ProposerId = dec_ProposerID row,
      pd_ProposerKind = actorKindToProto E (dec_ProposerKind row), pd_CreatedTimeUnix = dec_CreatedUnix row,
      pd_RatifiedTimeUnix = dec_RatifiedUnix row, pd_RetiredTimeUnix = dec_RetiredUnix row,
      pd_RetiredBy = dec_RetiredBy row, pd_RetireReason = dec_RetireReason row,
      pd_SupersedesDecisionId = dec_SupersedesDecisionID row, pd_ApproveCount = dec_ApproveCount row,
      pd_RejectCount = dec_RejectCount row, pd_AbstainCount = dec_AbstainCount row\<rparr>"

definition decisionVoteRecordToProto :: "'z env_scheme \<Rightarrow> ChannelDecisionVote \<Rightarrow> DecisionVoteRecord" where
  "decisionVoteRecordToProto E row =
     \<lparr>dvr_DecisionId = vot_DecisionID row, dvr_VoterId = vot_VoterID row,
      dvr_VoterKind = actorKindToProto E (vot_VoterKind row), dvr_Decision = decisionVoteToProto (vot_Decision row),
      dvr_VotedTimeUnix = vot_VotedUnix row, dvr_Reason = vot_Reason row\<rparr>"

definition agentRunPhaseFromProto :: "AgentRunPhase \<Rightarrow> string" where
  "agentRunPhaseFromProto phase =
     (case phase of
        AGENT_RUN_PHASE_START \<Rightarrow> ''start'' | AGENT_RUN_PHASE_TOOL_CALL \<Rightarrow> ''tool_call''
      | AGENT_RUN_PHASE_TOOL_RESULT \<Rightarrow> ''tool_result'' | AGENT_RUN_PHASE_ERROR \<Rightarrow> ''error''
      | AGENT_RUN_PHASE_OUTPUT \<Rightarrow> ''output'' | AGENT_RUN_PHASE_END \<Rightarrow> ''end'' | _ \<Rightarrow> [])"

definition agentRunPhaseToProto :: "string \<Rightarrow> AgentRunPhase" where
  "agentRunPhaseToProto phase =
     (if phase = ''start'' then AGENT_RUN_PHASE_START
      else if phase = ''tool_call'' then AGENT_RUN_PHASE_TOOL_CALL
      else if phase = ''tool_result'' then AGENT_RUN_PHASE_TOOL_RESULT
      else if phase = ''error'' then AGENT_RUN_PHASE_ERROR
      else if phase = ''output'' then AGENT_RUN_PHASE_OUTPUT
      else if phase = ''end'' then AGENT_RUN_PHASE_END
      else AGENT_RUN_PHASE_UNSPECIFIED)"

definition agentRunSummaryToProto :: "AgentRun \<Rightarrow> AgentRunSummary" where
  "agentRunSummaryToProto row =
     \<lparr>ars_RunId = run_ID row, ars_AgentId = run_AgentID row, ars_ComputerId = run_ComputerID row,
      ars_StartedTimeUnix = run_StartedUnix row, ars_EndedTimeUnix = run_EndedUnix row,
      ars_ExitCode = run_ExitCode row, ars_Summary = run_Summary row, ars_ErrorMessage = run_Error row,
      ars_EventCount = run_EventCount row\<rparr>"

definition agentRunEventToProto :: "AgentRunEvent \<Rightarrow> ProtoAgentRunEvent" where
  "agentRunEventToProto row =
     \<lparr>pe_RunId = evt_RunID row, pe_AgentId = [], pe_ComputerId = [],
      pe_Phase = agentRunPhaseToProto (evt_Phase row), pe_AtUnixNano = evt_AtUnixNano row,
      pe_Summary = evt_Summary row, pe_PayloadJson = evt_PayloadJSON row, pe_ExitCode = evt_ExitCode row,
      pe_ErrorMessage = evt_ErrorMessage row\<rparr>"

text \<open>Who acts: the identifier and the kind, both empty when there is no identifier.\<close>

definition actorFromContext :: "Actor \<Rightarrow> string \<times> string" where
  "actorFromContext actor =
     (let (i, kind) = (if act_ActorKind actor = ACTOR_KIND_AGENT then (TrimSpace (act_AgentId actor), ''agent'')
                       else (TrimSpace (act_UserId actor), ''human''))
      in if i = [] then ([], []) else (i, kind))"

section \<open>Decisions\<close>

type_synonym 'a handler = "(store, rpc_err + 'a) action"

definition ListChannelDecisions ::
  "senv \<Rightarrow> string \<Rightarrow> DecisionStatus list \<Rightarrow> int \<Rightarrow> ProtoDecision list handler" where
  "ListChannelDecisions E target0 statusFilter limit =
     (let target = TrimSpace target0
      in if target = [] then ret (Inl (InvalidArgument ''target is required''))
         else do {
           r \<leftarrow> ListDecisions E \<lparr>deco_Target = target, deco_StatusFilter = map decisionStatusFromProto statusFilter,
             deco_Limit = (if limit \<le> 0 then 100 else limit), deco_AfterCreated = 0\<rparr>;
           ret (case r of
                  Inl e \<Rightarrow> Inl (Internal ''list decisions'' (Some e))
                | Inr rows \<Rightarrow> Inr (map (decisionToProto E) rows))
         })"

definition ProposeChannelDecision ::
  "senv \<Rightarrow> string \<Rightarrow> string \<Rightarrow> string \<Rightarrow> string \<Rightarrow> Actor \<Rightarrow> ProtoDecision handler" where
  "ProposeChannelDecision E target0 title0 body0 supersedes actor =
     (let title = TrimSpace title0; body = TrimSpace body0; target = TrimSpace target0;
          (proposerID, proposerKind) = actorFromContext actor
      in if target = [] \<or> title = [] \<or> body = []
         then ret (Inl (InvalidArgument ''target, title, and body are required''))
         else if proposerID = [] then ret (Inl (Unauthenticated ''proposer identity required''))
         else do {
           r \<leftarrow> CreateDecision E \<lparr>dec_ID = [], dec_Target = target, dec_Title = title, dec_Body = body,
             dec_Status = ''proposed'', dec_ProposerID = proposerID, dec_ProposerKind = proposerKind,
             dec_CreatedUnix = 0, dec_RatifiedUnix = 0, dec_RetiredUnix = 0, dec_RetiredBy = [],
             dec_RetireReason = [], dec_SupersedesDecisionID = TrimSpace supersedes, dec_ApproveCount = 0,
             dec_RejectCount = 0, dec_AbstainCount = 0\<rparr>;
           ret (case r of
                  Inl e \<Rightarrow> Inl (Internal ''create decision'' (Some e))
                | Inr created \<Rightarrow> Inr (decisionToProto E created))
         })"

definition VoteChannelDecision ::
  "senv \<Rightarrow> string \<Rightarrow> DecisionVote \<Rightarrow> string \<Rightarrow> Actor \<Rightarrow> (ProtoDecision \<times> DecisionVoteRecord) handler" where
  "VoteChannelDecision E decisionID0 vote0 reason actor =
     (let decisionID = TrimSpace decisionID0; (voterID, voterKind) = actorFromContext actor;
          decision = decisionVoteFromProto vote0
      in if decisionID = [] then ret (Inl (InvalidArgument ''decision_id is required''))
         else if voterID = [] then ret (Inl (Unauthenticated ''voter identity required''))
         else if decision = [] then ret (Inl (InvalidArgument ''decision vote is required''))
         else do {
           r \<leftarrow> UpsertDecisionVote E \<lparr>vot_ID = [], vot_DecisionID = decisionID, vot_VoterID = voterID,
             vot_VoterKind = voterKind, vot_Decision = decision, vot_VotedUnix = 0, vot_Reason = TrimSpace reason\<rparr>;
           ret (case r of
                  Inl e \<Rightarrow> Inl (if e = ErrNotFound then NotFound ''decision not found''
                               else if e = ErrInvalid then FailedPrecondition ''decision is not open for voting''
                               else Internal ''vote'' (Some e))
                | Inr (refreshed, persisted) \<Rightarrow>
                    Inr (decisionToProto E refreshed, decisionVoteRecordToProto E persisted))
         })"

text \<open>
  Ratifying and retiring read the decision, look at its status and then write: two statements, between which the
  statements of other requests may come. The first half answers the checked identifier.
\<close>

definition ratify_check :: "senv \<Rightarrow> string \<Rightarrow> bool \<Rightarrow> string handler" where
  "ratify_check E decisionID0 force =
     (let decisionID = TrimSpace decisionID0
      in if decisionID = [] then ret (Inl (InvalidArgument ''decision_id is required''))
         else do {
           g \<leftarrow> GetDecision E decisionID;
           ret (case g of
                  Inl e \<Rightarrow> Inl (if e = ErrNotFound then NotFound ''decision not found''
                               else Internal ''load decision'' (Some e))
                | Inr current \<Rightarrow>
                    if dec_Status current \<noteq> ''proposed'' then Inl (FailedPrecondition ''decision is not proposed'')
                    else if force \<or> 2 \<le> dec_ApproveCount current \<and> dec_RejectCount current = 0 then Inr decisionID
                    else Inl (FailedPrecondition ''quorum not met''))
         })"

definition ratify_write :: "senv \<Rightarrow> string \<Rightarrow> ProtoDecision handler" where
  "ratify_write E decisionID = do {
     r \<leftarrow> ForceRatifyDecision E decisionID;
     ret (case r of Inl e \<Rightarrow> Inl (Internal ''ratify'' (Some e)) | Inr ratified \<Rightarrow> Inr (decisionToProto E ratified))
   }"

definition RatifyChannelDecision :: "senv \<Rightarrow> string \<Rightarrow> bool \<Rightarrow> ProtoDecision handler" where
  "RatifyChannelDecision E decisionID force = do {
     c \<leftarrow> ratify_check E decisionID force;
     case c of Inl e \<Rightarrow> ret (Inl e) | Inr i \<Rightarrow> ratify_write E i
   }"

definition retire_check :: "senv \<Rightarrow> string \<Rightarrow> Actor \<Rightarrow> (string \<times> string) handler" where
  "retire_check E decisionID0 actor =
     (let decisionID = TrimSpace decisionID0; actorID = fst (actorFromContext actor)
      in if decisionID = [] then ret (Inl (InvalidArgument ''decision_id is required''))
         else if actorID = [] then ret (Inl (Unauthenticated ''retire actor identity required''))
         else do {
           g \<leftarrow> GetDecision E decisionID;
           ret (case g of
                  Inl e \<Rightarrow> Inl (if e = ErrNotFound then NotFound ''decision not found''
                               else Internal ''load decision'' (Some e))
                | Inr current \<Rightarrow>
                    if dec_Status current \<noteq> ''proposed'' \<and> dec_Status current \<noteq> ''ratified''
                    then Inl (FailedPrecondition ''decision is already closed'')
                    else Inr (decisionID, actorID))
         })"

definition retire_write :: "senv \<Rightarrow> string \<Rightarrow> string \<Rightarrow> string \<Rightarrow> ProtoDecision handler" where
  "retire_write E decisionID actorID reason = do {
     r \<leftarrow> RetireDecision E decisionID actorID (TrimSpace reason);
     ret (case r of Inl e \<Rightarrow> Inl (Internal ''retire'' (Some e)) | Inr retired \<Rightarrow> Inr (decisionToProto E retired))
   }"

definition RetireChannelDecision :: "senv \<Rightarrow> string \<Rightarrow> string \<Rightarrow> Actor \<Rightarrow> ProtoDecision handler" where
  "RetireChannelDecision E decisionID reason actor = do {
     c \<leftarrow> retire_check E decisionID actor;
     case c of Inl e \<Rightarrow> ret (Inl e) | Inr (i, actorID) \<Rightarrow> retire_write E i actorID reason
   }"

definition list_votes_call :: "senv \<Rightarrow> string \<Rightarrow> DecisionVoteRecord list handler" where
  "list_votes_call E decisionID0 =
     (let decisionID = TrimSpace decisionID0
      in if decisionID = [] then ret (Inl (InvalidArgument ''decision_id is required''))
         else do {
           r \<leftarrow> ListDecisionVotes E decisionID;
           ret (case r of
                  Inl e \<Rightarrow> Inl (Internal ''list votes'' (Some e))
                | Inr rows \<Rightarrow> Inr (map (decisionVoteRecordToProto E) rows))
         })"

section \<open>Agent runs\<close>

text \<open>Go's division of integers, which truncates.\<close>

definition go_div :: "int \<Rightarrow> int \<Rightarrow> int" where
  "go_div a b = sgn a * sgn b * (\<bar>a\<bar> div \<bar>b\<bar>)"

definition reported_event :: "ProtoAgentRunEvent \<Rightarrow> AgentRunEvent" where
  "reported_event ev =
     \<lparr>evt_ID = [], evt_RunID = pe_RunId ev, evt_AtUnixNano = pe_AtUnixNano ev,
      evt_Phase = agentRunPhaseFromProto (pe_Phase ev), evt_Summary = pe_Summary ev,
      evt_PayloadJSON = pe_PayloadJson ev, evt_ExitCode = pe_ExitCode ev, evt_ErrorMessage = pe_ErrorMessage ev\<rparr>"

definition reported_agent_run :: "ProtoAgentRunEvent \<Rightarrow> AgentRun" where
  "reported_agent_run ev =
     \<lparr>run_ID = [], run_AgentID = pe_AgentId ev, run_ComputerID = pe_ComputerId ev,
      run_StartedUnix = go_div (pe_AtUnixNano ev) 1000000000, run_EndedUnix = go_div (pe_AtUnixNano ev) 1000000000,
      run_ExitCode = 0, run_Summary = [], run_Error = [], run_EventCount = 0\<rparr>"

text \<open>
  A stream is the events received and how it ends: with the end of the stream, or with an error of the connection. The
  loop carries the numbers of persisted and dropped events; its answer is what \<^verbatim>\<open>SendAndClose\<close> is given.
\<close>

datatype stream_end = EOF | RecvError string

datatype report_err = ReportRecv string | ReportRpc rpc_err

fun ReportAgentRun ::
  "senv \<Rightarrow> stream_end \<Rightarrow> int \<Rightarrow> int \<Rightarrow> ProtoAgentRunEvent list \<Rightarrow> (store, report_err + int \<times> int) action" where
  "ReportAgentRun E fin persisted dropped [] =
     ret (case fin of EOF \<Rightarrow> Inr (persisted, dropped) | RecvError e \<Rightarrow> Inl (ReportRecv e))"
| "ReportAgentRun E fin persisted dropped (event # events) =
     (if agentRunPhaseFromProto (pe_Phase event) = [] then ReportAgentRun E fin persisted (dropped + 1) events
      else do {
        r \<leftarrow> AppendAgentRunEvent E (reported_event event) (reported_agent_run event);
        case r of
          Inr _ \<Rightarrow> ReportAgentRun E fin (persisted + 1) dropped events
        | Inl e \<Rightarrow>
            if e = ErrInvalid then ReportAgentRun E fin persisted (dropped + 1) events
            else ret (Inl (ReportRpc (Internal ''persist event'' (Some e))))
      })"

definition list_agent_runs_call :: "senv \<Rightarrow> string \<Rightarrow> string \<Rightarrow> int \<Rightarrow> AgentRunSummary list handler" where
  "list_agent_runs_call E agentID computerID limit = do {
     r \<leftarrow> ListAgentRuns E \<lparr>runo_AgentID = TrimSpace agentID, runo_ComputerID = TrimSpace computerID,
       runo_Limit = (if limit \<le> 0 then 50 else limit), runo_BeforeStarted = 0\<rparr>;
     ret (case r of
            Inl e \<Rightarrow> Inl (Internal ''list runs'' (Some e))
          | Inr rows \<Rightarrow> Inr (map agentRunSummaryToProto rows))
   }"

definition get_agent_run_call :: "senv \<Rightarrow> string \<Rightarrow> bool \<Rightarrow> (AgentRunSummary \<times> ProtoAgentRunEvent list) handler" where
  "get_agent_run_call E runID0 includeEvents =
     (let runID = TrimSpace runID0
      in if runID = [] then ret (Inl (InvalidArgument ''run_id is required''))
         else do {
           r \<leftarrow> GetAgentRun E runID includeEvents;
           ret (case r of
                  Inl e \<Rightarrow> Inl (if e = ErrNotFound then NotFound ''run not found'' else Internal ''get run'' (Some e))
                | Inr (run, events) \<Rightarrow> Inr (agentRunSummaryToProto run, map agentRunEventToProto events))
         })"

definition search_agent_runs_call :: "senv \<Rightarrow> string \<Rightarrow> string \<Rightarrow> string \<Rightarrow> int \<Rightarrow> SearchHit list handler" where
  "search_agent_runs_call E query0 agentID computerID limit =
     (let query = TrimSpace query0
      in if query = [] then ret (Inl (InvalidArgument ''query is required''))
         else do {
           r \<leftarrow> SearchAgentRuns E \<lparr>runs_Query = query, runs_AgentID = TrimSpace agentID,
             runs_ComputerID = TrimSpace computerID, runs_Limit = limit\<rparr>;
           ret (case r of
                  Inl e \<Rightarrow> Inl (Internal ''search runs'' (Some e))
                | Inr hits \<Rightarrow> Inr (map (\<lambda>hit. \<lparr>sh_Run = agentRunSummaryToProto (hit_Run hit),
                    sh_MatchingEvent = agentRunEventToProto (hit_Event hit), sh_Highlight = hit_Highlight hit\<rparr>) hits))
         })"

section \<open>Decisions move forward\<close>

text \<open>What is settled when a decision is proposed, and how its status may change afterwards.\<close>

definition same_proposal :: "ChannelDecision \<Rightarrow> ChannelDecision \<Rightarrow> bool" where
  "same_proposal r q \<longleftrightarrow>
     dec_ID q = dec_ID r \<and> dec_Target q = dec_Target r \<and> dec_Title q = dec_Title r \<and> dec_Body q = dec_Body r \<and>
     dec_ProposerID q = dec_ProposerID r \<and> dec_ProposerKind q = dec_ProposerKind r \<and>
     dec_CreatedUnix q = dec_CreatedUnix r \<and> dec_SupersedesDecisionID q = dec_SupersedesDecisionID r"

definition moves_to :: "string \<Rightarrow> string \<Rightarrow> bool" where
  "moves_to a b \<longleftrightarrow> b = a \<or> b = ''retired'' \<or> a = ''proposed'' \<and> b = ''ratified''"

definition advances :: "store \<Rightarrow> store \<Rightarrow> bool" where
  "advances d d' \<longleftrightarrow>
     (\<forall>r \<in> set (decisions d). \<exists>q \<in> set (decisions d'). same_proposal r q \<and> moves_to (dec_Status r) (dec_Status q))"

text \<open>
  Inside an operation only the rows \<open>R\<close> may become ratified; the operation has checked that these are proposed.
\<close>

definition ratifies_at_most :: "(string \<Rightarrow> bool) \<Rightarrow> store \<Rightarrow> store \<Rightarrow> bool" where
  "ratifies_at_most R d d' \<longleftrightarrow>
     (\<forall>r \<in> set (decisions d). \<exists>q \<in> set (decisions d'). same_proposal r q \<and>
        (dec_Status q = dec_Status r \<or> dec_Status q = ''retired'' \<or> R (dec_ID r) \<and> dec_Status q = ''ratified''))"

lemma advances_refl [simp]: "advances d d"
  by (auto simp: advances_def same_proposal_def moves_to_def)

lemma ratifies_refl [simp]: "ratifies_at_most R d d"
  by (auto simp: ratifies_at_most_def same_proposal_def)

lemma same_proposal_trans: "same_proposal a b \<Longrightarrow> same_proposal b c \<Longrightarrow> same_proposal a c"
  by (simp add: same_proposal_def)

lemma moves_to_trans: "moves_to a b \<Longrightarrow> moves_to b c \<Longrightarrow> moves_to a c"
  by (auto simp: moves_to_def)

lemma advances_trans: "advances a b \<Longrightarrow> advances b c \<Longrightarrow> advances a c"
  unfolding advances_def by (meson same_proposal_trans moves_to_trans)

lemma ratifies_advances:
  assumes "ratifies_at_most R d d'" and "\<And>r. r \<in> set (decisions d) \<Longrightarrow> R (dec_ID r) \<Longrightarrow> dec_Status r = ''proposed''"
  shows "advances d d'"
  unfolding advances_def
proof
  fix r assume r: "r \<in> set (decisions d)"
  with assms(1) obtain q where "q \<in> set (decisions d')" "same_proposal r q"
    "dec_Status q = dec_Status r \<or> dec_Status q = ''retired'' \<or> R (dec_ID r) \<and> dec_Status q = ''ratified''"
    unfolding ratifies_at_most_def by blast
  with assms(2) [OF r] show "\<exists>q \<in> set (decisions d'). same_proposal r q \<and> moves_to (dec_Status r) (dec_Status q)"
    by (auto simp: moves_to_def)
qed

text \<open>Rewriting the rows of one identifier.\<close>

lemma ratifies_map_rows:
  assumes "ratifies_at_most R d0 d"
    and "\<And>r. same_proposal r (f r)"
    and "\<And>r. p r \<Longrightarrow> dec_Status (f r) = dec_Status r \<or> dec_Status (f r) = ''retired'' \<or>
       R (dec_ID r) \<and> dec_Status (f r) = ''ratified''"
  shows "ratifies_at_most R d0 (d\<lparr>decisions := map_rows p f (decisions d)\<rparr>)"
proof -
  have "\<exists>q' \<in> set (map_rows p f (decisions d)). same_proposal r q' \<and>
      (dec_Status q' = dec_Status r \<or> dec_Status q' = ''retired'' \<or> R (dec_ID r) \<and> dec_Status q' = ''ratified'')"
    if q: "q \<in> set (decisions d)" "same_proposal r q"
      "dec_Status q = dec_Status r \<or> dec_Status q = ''retired'' \<or> R (dec_ID r) \<and> dec_Status q = ''ratified''" for r q
  proof (rule bexI)
    show "(if p q then f q else q) \<in> set (map_rows p f (decisions d))" using q(1) by (auto simp: map_rows_def)
    show "same_proposal r (if p q then f q else q) \<and>
      (dec_Status (if p q then f q else q) = dec_Status r \<or> dec_Status (if p q then f q else q) = ''retired'' \<or>
       R (dec_ID r) \<and> dec_Status (if p q then f q else q) = ''ratified'')"
      using q(2,3) assms(2) [of q] assms(3) [of q] by (auto simp: same_proposal_def)
  qed
  with assms(1) show ?thesis unfolding ratifies_at_most_def by fastforce
qed

lemma ratifies_update:
  assumes "\<And>r. same_proposal r (f r)"
    and "\<And>r. dec_ID r = i \<Longrightarrow> dec_Status (f r) = dec_Status r \<or> dec_Status (f r) = ''retired'' \<or>
       R i \<and> dec_Status (f r) = ''ratified''"
  shows "keeps (on_db (ratifies_at_most R d0)) (ent_update_one E ChannelDecisionEnt c i f)"
proof (rule keeps_ent_update_one)
  fix d assume d: "ratifies_at_most R d0 d"
  show "ratifies_at_most R d0 (put_rows ChannelDecisionEnt (map_rows (\<lambda>r. row_id ChannelDecisionEnt r = i) f
      (rows_of ChannelDecisionEnt d)) d)"
    using ratifies_map_rows [OF d, of f "\<lambda>r. dec_ID r = i"] assms by (simp add: ChannelDecisionEnt_def)
qed

lemma ratifies_votes: "keeps (on_db (ratifies_at_most R d0)) (write_vote E v old)"
  unfolding write_vote_def
  by (intro keeps_rules keeps_ent_create keeps_ent_update_one)
    (simp_all add: ratifies_at_most_def ChannelDecisionVoteEnt_def)

lemma ratifies_tally: "keeps (on_db (ratifies_at_most (\<lambda>j. j = i) d0)) (update_tally E i counts)"
  unfolding update_tally_def
  by (intro keeps_rules ratifies_update) (simp_all add: same_proposal_def)

lemma ratifies_retire: "keeps (on_db (ratifies_at_most R d0)) (retire_superseded E s v u)"
  unfolding retire_superseded_def
  by (intro keeps_rules ratifies_update) (simp_all add: same_proposal_def)

lemma vote_body_ratifies:
  assumes "run_state (vote_body E v p) w = (x, w')"
  shows "ratifies_at_most (\<lambda>j. j = vot_DecisionID v) (db w) (db w')"
proof -
  have "keeps (on_db (ratifies_at_most (\<lambda>j. j = vot_DecisionID v) (db w))) (vote_body E v p)"
    unfolding vote_body_def Let_def by (intro keeps_rules ratifies_votes ratifies_tally ratifies_retire)
  from keepsD [OF this, of w] assms show ?thesis by simp
qed

lemma get_decision_run:
  "run_state (GetDecision E i) w = (x, w') \<Longrightarrow>
     db w' = db w \<and> (\<forall>p. x = Inr p \<longrightarrow> filter (\<lambda>r. dec_ID r = i) (decisions (db w)) = [p])"
  unfolding GetDecision_def
  by (elim run_elims) (auto simp: through_Inr_iff ChannelDecisionEnt_def dest!: run_dests split: sum.splits)

lemma proposed_advances:
  assumes "filter (\<lambda>r. dec_ID r = i) (decisions d) = [p]" and "dec_Status p = ''proposed''"
    and "ratifies_at_most (\<lambda>j. j = i) d d'"
  shows "advances d d'"
  by (rule ratifies_advances [OF assms(3)]) (use assms(1,2) filter_singleton_only in fastforce)

lemma UpsertDecisionVote_advances:
  assumes "run_state (UpsertDecisionVote E vote) w = (x, w')"
  shows "advances (db w) (db w')"
  using assms unfolding UpsertDecisionVote_def Let_def
  by (elim run_elims)
    (auto simp: ChannelDecisionEnt_def dest!: run_dests get_decision_run vote_body_ratifies
      intro: proposed_advances split: sum.splits)

lemma decision_writes:
  "keeps (on_db (ratifies_at_most (\<lambda>j. j = i) d0)) (ForceRatifyDecision E i)"
  "keeps (on_db (ratifies_at_most R d0)) (RetireDecision E i who reason)"
  unfolding ForceRatifyDecision_def RetireDecision_def
  by (intro keeps_rules ratifies_update; simp add: same_proposal_def)+

lemma ratify_check_run:
  assumes "run_state (ratify_check E i0 force) w = (x, w')"
  shows "db w' = db w \<and> (\<forall>i. x = Inr i \<longrightarrow> (\<exists>p. filter (\<lambda>r. dec_ID r = i) (decisions (db w)) = [p] \<and>
     dec_Status p = ''proposed'' \<and> (force \<or> quorum (dec_ApproveCount p) (dec_RejectCount p))))"
  using assms unfolding ratify_check_def Let_def
  by (elim run_elims) (auto simp: quorum_def dest!: get_decision_run split: sum.splits if_splits)

lemma retire_check_run:
  assumes "run_state (retire_check E i0 actor) w = (x, w')"
  shows "db w' = db w \<and> (\<forall>i who. x = Inr (i, who) \<longrightarrow> who \<noteq> [] \<and>
     (\<exists>p. filter (\<lambda>r. dec_ID r = i) (decisions (db w)) = [p] \<and> dec_Status p \<in> {''proposed'', ''ratified''}))"
  using assms unfolding retire_check_def Let_def
  by (elim run_elims) (auto dest!: get_decision_run split: sum.splits if_splits)

lemma ratify_write_run:
  assumes "run_state (ratify_write E i) w = (x, w')"
  shows "ratifies_at_most (\<lambda>j. j = i) (db w) (db w')"
proof -
  have "keeps (on_db (ratifies_at_most (\<lambda>j. j = i) (db w))) (ratify_write E i)"
    unfolding ratify_write_def by (intro keeps_rules decision_writes)
  from keepsD [OF this, of w] assms show ?thesis by simp
qed

lemma retire_write_run:
  assumes "run_state (retire_write E i who reason) w = (x, w')"
  shows "advances (db w) (db w')"
proof -
  have "keeps (on_db (ratifies_at_most (\<lambda>j. False) (db w))) (retire_write E i who reason)"
    unfolding retire_write_def by (intro keeps_rules decision_writes)
  from keepsD [OF this, of w] assms have "ratifies_at_most (\<lambda>j. False) (db w) (db w')" by simp
  then show ?thesis by (rule ratifies_advances) simp
qed

text \<open>One request about decisions, with any arguments and any faults of the database.\<close>

inductive decision_step :: "senv \<Rightarrow> store world \<Rightarrow> store world \<Rightarrow> bool" for E where
  propose: "run_state (ProposeChannelDecision E target title body supersedes actor) w = (x, w') \<Longrightarrow> decision_step E w w'"
| vote: "run_state (VoteChannelDecision E i vote reason actor) w = (x, w') \<Longrightarrow> decision_step E w w'"
| ratify: "run_state (RatifyChannelDecision E i force) w = (x, w') \<Longrightarrow> decision_step E w w'"
| retire: "run_state (RetireChannelDecision E i reason actor) w = (x, w') \<Longrightarrow> decision_step E w w'"

lemma propose_advances:
  assumes "run_state (ProposeChannelDecision E target title body supersedes actor) w = (x, w')"
  shows "advances (db w) (db w')"
proof -
  have "keeps (on_db (advances (db w))) (ProposeChannelDecision E target title body supersedes actor)"
    unfolding ProposeChannelDecision_def CreateDecision_def Let_def case_prod_unfold
    by (intro keeps_rules keeps_ent_create) (auto simp: advances_def ChannelDecisionEnt_def)
  from keepsD [OF this, of w] assms show ?thesis by simp
qed

lemma decision_step_advances: "decision_step E w w' \<Longrightarrow> advances (db w) (db w')"
proof (induction rule: decision_step.induct)
  case (vote i v reason actor w x w')
  then show ?case
    unfolding VoteChannelDecision_def Let_def case_prod_unfold
    by (elim run_elims) (auto dest: UpsertDecisionVote_advances)
next
  case (ratify i force w x w')
  then show ?case
    unfolding RatifyChannelDecision_def
    by (elim run_elims) (auto dest!: ratify_check_run ratify_write_run intro: proposed_advances split: sum.splits)
next
  case (retire i reason actor w x w')
  then show ?case
    unfolding RetireChannelDecision_def
    by (elim run_elims) (auto dest!: retire_check_run retire_write_run split: sum.splits)
qed (rule propose_advances)

text \<open>
  C3: over any sequence of requests to propose, vote on, ratify and retire decisions that
  do not overlap, with any faults of the database, every decision stays in the table, what was proposed
  stays as it was, and its status changes only from proposed to ratified and from any status to retired. So
  a retired decision stays retired, and a ratified or rejected one is never open for voting again.
\<close>

theorem decisions_move_forward:
  assumes "(decision_step E)\<^sup>*\<^sup>* w w'" and "r \<in> set (decisions (db w))"
  shows "\<exists>q \<in> set (decisions (db w')). same_proposal r q \<and> moves_to (dec_Status r) (dec_Status q)"
proof -
  have "advances (db w) (db w')"
    using assms(1) by (induction rule: rtranclp_induct) (auto intro: decision_step_advances advances_trans)
  with assms(2) show ?thesis unfolding advances_def by blast
qed

text \<open>
  When the two halves of a ratification enclose a retirement of the same decision, the retired decision ends as ratified.
\<close>

lemma updated_row:
  "r \<in> set rows \<Longrightarrow> \<exists>q \<in> set rows. dec_ID q = dec_ID r \<and> f q \<in> set (map_rows (\<lambda>q. dec_ID q = dec_ID r) f rows)"
  using map_rows_mem [of r rows "\<lambda>q. dec_ID q = dec_ID r" f] by blast

lemma ratify_write_done:
  assumes "run_state (ratify_write E i) w = (Inr q, w')"
  shows "\<exists>r \<in> set (decisions (db w)). dec_ID r = i \<and>
     r\<lparr>dec_Status := ''ratified'', dec_RatifiedUnix := clock E (tick w)\<rparr> \<in> set (decisions (db w'))"
  using assms unfolding ratify_write_def ForceRatifyDecision_def
  by (elim run_elims)
    (auto simp: through_Inr_iff ChannelDecisionEnt_def dest!: run_dests find_SomeD split: sum.splits
      intro: updated_row)

lemma retire_done:
  assumes "run_state (RetireChannelDecision E i0 reason actor) w = (Inr retired, w')"
  shows "\<forall>r \<in> set (decisions (db w')). dec_ID r = TrimSpace i0 \<longrightarrow>
     dec_Status r = ''retired'' \<and> dec_RetiredBy r = fst (actorFromContext actor)"
  using assms unfolding RetireChannelDecision_def retire_write_def retire_check_def RetireDecision_def Let_def
  by (elim run_elims)
    (auto simp: through_Inr_iff ChannelDecisionEnt_def map_rows_set dest!: run_dests
      split: sum.splits if_splits)

lemma retired_decision_ratified:
  assumes "run_state (RetireChannelDecision E i0 reason actor) w1 = (Inr retired, w2)"
    and "run_state (ratify_write E (TrimSpace i0)) w2 = (Inr q, w3)"
  shows "\<exists>r \<in> set (decisions (db w2)). \<exists>r' \<in> set (decisions (db w3)). same_proposal r r' \<and> dec_ID r = TrimSpace i0 \<and>
     dec_Status r = ''retired'' \<and> dec_Status r' = ''ratified'' \<and> dec_RetiredBy r' = fst (actorFromContext actor)"
proof -
  obtain r where r: "r \<in> set (decisions (db w2))" "dec_ID r = TrimSpace i0"
      "r\<lparr>dec_Status := ''ratified'', dec_RatifiedUnix := clock E (tick w2)\<rparr> \<in> set (decisions (db w3))"
    using ratify_write_done [OF assms(2)] by blast
  then show ?thesis using retire_done [OF assms(1)]
    by (intro bexI [OF _ r(1)] bexI [OF _ r(3)]) (simp add: same_proposal_def)
qed

text \<open>A retirement that comes between the two halves of a ratification.\<close>

definition overlap_world :: "store world" where
  "overlap_world = world_of (demo_decision_store ''proposed'')"

definition overlap_actor :: Actor where
  "overlap_actor = \<lparr>act_ActorKind = ACTOR_KIND_HUMAN, act_AgentId = [], act_UserId = ''u1'', act_DaemonId = [],
     act_DisplayName = []\<rparr>"

definition overlap :: "string list" where
  "overlap = fst (run_state (do {
     c \<leftarrow> ratify_check demo_env ''d1'' True;
     t \<leftarrow> RetireChannelDecision demo_env ''d1'' ''old'' overlap_actor;
     r \<leftarrow> (case c of Inl e \<Rightarrow> ret (Inl e) | Inr i \<Rightarrow> ratify_write demo_env i);
     ret [case t of Inl _ \<Rightarrow> [] | Inr d \<Rightarrow> decisionStatusFromProto (pd_Status d),
          case r of Inl _ \<Rightarrow> [] | Inr d \<Rightarrow> decisionStatusFromProto (pd_Status d)]
   }) overlap_world)"

lemma overlap_result: "overlap = [''retired'', ''ratified'']"
  by code_simp

section \<open>Every reported event is accounted for\<close>

lemma phase_words:
  "ToLower E (TrimSpace (agentRunPhaseFromProto ph)) = agentRunPhaseFromProto ph"
proof -
  have "ToLower E (TrimSpace ''start'') = ''start''" "ToLower E (TrimSpace ''tool_call'') = ''tool_call''"
    "ToLower E (TrimSpace ''tool_result'') = ''tool_result''" "ToLower E (TrimSpace ''error'') = ''error''"
    "ToLower E (TrimSpace ''output'') = ''output''" "ToLower E (TrimSpace ''end'') = ''end''"
    "ToLower E (TrimSpace []) = []"
    by (rule norm_word, code_simp)+
  then show ?thesis by (cases ph) (simp_all add: agentRunPhaseFromProto_def)
qed

lemma AppendAgentRunEvent_stored:
  assumes "run_state (AppendAgentRunEvent E ev ri) w = (Inr (u, e), w')"
  shows "e\<lparr>evt_ID := []\<rparr> = ev\<lparr>evt_ID := [], evt_Phase := ToLower E (TrimSpace (evt_Phase ev))\<rparr>"
  using assms unfolding AppendAgentRunEvent_def Let_def
  by (elim run_elims) (auto simp: through_Inr_iff dest!: run_dests split: sum.splits)

lemma reported_stored:
  "run_state (AppendAgentRunEvent E (reported_event ev) ri) w = (Inr (u, e), w') \<Longrightarrow>
     e\<lparr>evt_ID := []\<rparr> = reported_event ev"
  by (drule AppendAgentRunEvent_stored) (simp add: reported_event_def phase_words)

text \<open>What a stream leaves in the store.\<close>

definition stream_stored ::
  "ProtoAgentRunEvent list \<Rightarrow> store world \<Rightarrow> AgentRunEvent list \<Rightarrow> store world \<Rightarrow> bool" where
  "stream_stored events w stored w' \<longleftrightarrow>
     agentRunEvents (db w') = agentRunEvents (db w) @ stored \<and>
     subseq (map (evt_ID_update (\<lambda>_. [])) stored) (map reported_event events) \<and>
     runs_ok (db w') \<and> open_tx w' = open_tx w"

lemma stream_stored_drop:
  "stream_stored events w stored w' \<Longrightarrow> stream_stored (ev # events) w stored w'"
  by (auto simp: stream_stored_def)

lemma stream_stored_keep:
  assumes "stream_stored events w1 stored w'" and "agentRunEvents (db w1) = agentRunEvents (db w) @ [e]"
    and "open_tx w1 = open_tx w" and "e\<lparr>evt_ID := []\<rparr> = reported_event ev"
  shows "stream_stored (ev # events) w (e # stored) w'"
  using assms by (simp add: stream_stored_def)

text \<open>
  Whatever the faults of the database, a stream leaves the reported events it has persisted, in order, behind those
  that were there, each counted by its run; and when it is answered, every event was either persisted or dropped.
\<close>

lemma ReportAgentRun_accounted:
  assumes "runs_ok (db w)" and "run_state (ReportAgentRun E fin p d events) w = (out, w')"
  shows "\<exists>stored. stream_stored events w stored w' \<and>
     (\<forall>p' d'. out = Inr (p', d') \<longrightarrow> p' = p + int (length stored) \<and> p' + d' = p + d + int (length events))"
  using assms
proof (induction events arbitrary: p d w)
  case Nil
  then show ?case
    by (intro exI [of _ "[]"]) (auto simp: stream_stored_def split: stream_end.splits)
next
  case (Cons ev events)
  have dropped: "\<exists>stored. stream_stored (ev # events) w stored w' \<and>
      (\<forall>p' d'. out = Inr (p', d') \<longrightarrow> p' = p + int (length stored) \<and> p' + d' = p + d + int (length (ev # events)))"
    if run: "run_state (ReportAgentRun E fin p (d + 1) events) w1 = (out, w')"
      and same: "db w1 = db w" "open_tx w1 = open_tx w" for w1
  proof -
    obtain stored where "stream_stored events w1 stored w'"
      "\<forall>p' d'. out = Inr (p', d') \<longrightarrow> p' = p + int (length stored) \<and> p' + d' = p + (d + 1) + int (length events)"
      using Cons.IH [OF _ run] Cons.prems(1) same(1) by auto
    then show ?thesis
      using stream_stored_drop [of events w stored w' ev] same
      by (intro exI [of _ stored]) (auto simp: stream_stored_def)
  qed
  show ?case
  proof (cases "agentRunPhaseFromProto (pe_Phase ev) = []")
    case True
    with Cons.prems(2) show ?thesis by (intro dropped [of w]) simp_all
  next
    case False
    obtain x w1 where ap: "run_state (AppendAgentRunEvent E (reported_event ev) (reported_agent_run ev)) w = (x, w1)"
      by fastforce
    show ?thesis
    proof (cases x)
      case (Inl e)
      have same: "db w1 = db w" "open_tx w1 = open_tx w" using AppendAgentRunEvent_atomic [OF ap] Inl by auto
      show ?thesis
      proof (cases "e = ErrInvalid")
        case True
        with Cons.prems(2) False ap Inl show ?thesis by (intro dropped [OF _ same]) simp
      next
        case other: False
        with Cons.prems False ap Inl same show ?thesis
          by (intro exI [of _ "[]"]) (auto simp: stream_stored_def)
      qed
    next
      case (Inr ue)
      obtain u e where ue: "ue = (u, e)" by (cases ue)
      note ok = AppendAgentRunEvent_ok [OF Cons.prems(1) ap [unfolded Inr ue]]
      have run: "run_state (ReportAgentRun E fin (p + 1) d events) w1 = (out, w')"
        using Cons.prems(2) False ap Inr by simp
      obtain stored where st: "stream_stored events w1 stored w'"
        "\<forall>p' d'. out = Inr (p', d') \<longrightarrow> p' = p + 1 + int (length stored) \<and> p' + d' = p + 1 + d + int (length events)"
        using Cons.IH [OF _ run] ok by blast
      have "stream_stored (ev # events) w (e # stored) w'"
        using ok AppendAgentRunEvent_atomic [OF ap] reported_stored [OF ap [unfolded Inr ue]]
        by (intro stream_stored_keep [OF st(1)]) simp_all
      with st(2) show ?thesis by (intro exI [of _ "e # stored"]) auto
    qed
  qed
qed

section \<open>A vote that ratifies\<close>

definition voted_world :: "store world" where
  "voted_world = snd (run_state (VoteChannelDecision demo_env ''d1'' DECISION_VOTE_APPROVE ''ok''
     (overlap_actor\<lparr>act_UserId := ''u2''\<rparr>)) overlap_world)"

lemma voted_world_reached: "decision_step demo_env overlap_world voted_world"
  unfolding voted_world_def by (rule decision_step.vote, rule surjective_pairing)

lemma voted_statuses: "map dec_Status (decisions (db voted_world)) = [''ratified'', ''retired'']"
  by code_simp

theorem decisions_move_forward_witness:
  "map dec_Status (decisions (db voted_world)) = [''ratified'', ''retired''] \<and>
   list_ex (\<lambda>q. same_proposal (demo_decision\<lparr>dec_Status := ''proposed''\<rparr>) q \<and> moves_to ''proposed'' (dec_Status q))
     (decisions (db voted_world))"
proof -
  have "demo_decision\<lparr>dec_Status := ''proposed''\<rparr> \<in> set (decisions (db overlap_world))"
    by (simp add: overlap_world_def demo_decision_store_def)
  from decisions_move_forward [OF r_into_rtranclp [of "decision_step demo_env", OF voted_world_reached] this]
  show ?thesis using voted_statuses by (auto simp: list_ex_iff)
qed

end
