(* ===== verification/Daemon_Runs.thy ===== *)
theory Daemon_Runs
  imports Daemon_Server
begin

text \<open>
  The daemon control server (\<^verbatim>\<open>internal/daemonrpc/server.go\<close>), second part: claims of tasks, the runs they
  start, the reports of daemons about them, and what the reports do to tasks and attempts in the store.
\<close>

section \<open>Requests and conversions\<close>

datatype TaskClaimMode =
    TASK_CLAIM_MODE_UNSPECIFIED | TASK_CLAIM_MODE_OWNER | TASK_CLAIM_MODE_REVIEWER
  | TASK_CLAIM_MODE_ASSISTANT | TASK_CLAIM_MODE_OTHER int

text \<open>The fields of a claim that the server reads.\<close>

record ClaimRequest =
  clm_TaskId :: string
  clm_AgentId :: string
  clm_RequestId :: string
  clm_IdempotencyKey :: string
  clm_ClaimMode :: TaskClaimMode
  clm_LeaseTtlSeconds :: "32 word"

record UpdateRunStatusRequest =
  urs_RunId :: string
  urs_AgentId :: string
  urs_State :: RunState
  urs_Summary :: string
  urs_Error :: string
  urs_BlockedReason :: string
  urs_RequestId :: string
  urs_IdempotencyKey :: string
  urs_LeaseId :: string
  urs_ResultJson :: string
  urs_ResultDigest :: string
  urs_ResultSignature :: string
  urs_SignaturePublicKey :: string

text \<open>
  The environment of the server: the encoding of messages, the order in which Go visits its maps, and
  the replacement of secrets in a report by the two regular expressions of the source.
\<close>

record daemon_env = proto_codec +
  iter_runs :: "Run list \<Rightarrow> Run list"
  iter_computers :: "(string \<times> computerState) list \<Rightarrow> (string \<times> computerState) list"
  redact_secrets :: "string \<Rightarrow> string"

definition claimStartsExecution :: "TaskClaimMode \<Rightarrow> bool" where
  "claimStartsExecution mode \<longleftrightarrow> mode = TASK_CLAIM_MODE_UNSPECIFIED \<or> mode = TASK_CLAIM_MODE_OWNER"

definition isTerminalRunState :: "RunState \<Rightarrow> bool" where
  "isTerminalRunState st \<longleftrightarrow> st \<in> {RUN_STATE_COMPLETED, RUN_STATE_FAILED, RUN_STATE_CANCELED}"

definition taskStateFromStorage :: "'z env_scheme \<Rightarrow> string \<Rightarrow> TaskState" where
  "taskStateFromStorage E st =
     (let s = ToLower E (TrimSpace st)
      in if s = ''todo'' then TASK_STATE_TODO
         else if s = ''in_progress'' then TASK_STATE_IN_PROGRESS
         else if s = ''in_review'' then TASK_STATE_IN_REVIEW
         else if s = ''done'' then TASK_STATE_DONE
         else if s = ''blocked'' then TASK_STATE_BLOCKED
         else if s = ''canceled'' \<or> s = ''cancelled'' then TASK_STATE_CANCELED
         else TASK_STATE_UNSPECIFIED)"

definition taskStateToStorage :: "TaskState \<Rightarrow> string option" where
  "taskStateToStorage st =
     (case st of
        TASK_STATE_TODO \<Rightarrow> Some ''todo''
      | TASK_STATE_IN_PROGRESS \<Rightarrow> Some ''in_progress''
      | TASK_STATE_IN_REVIEW \<Rightarrow> Some ''in_review''
      | TASK_STATE_DONE \<Rightarrow> Some ''done''
      | TASK_STATE_BLOCKED \<Rightarrow> Some ''blocked''
      | TASK_STATE_CANCELED \<Rightarrow> Some ''canceled''
      | _ \<Rightarrow> None)"

definition taskToProto :: "'z env_scheme \<Rightarrow> Task \<Rightarrow> ProtoTask" where
  "taskToProto E t =
     \<lparr>pt_TaskId = tsk_ID t, pt_Summary = tsk_Summary t, pt_State = taskStateFromStorage E (tsk_State t),
      pt_Target = tsk_Target t, pt_ThreadId = tsk_ID t, pt_AssigneeId = tsk_AssigneeID t,
      pt_CreatedByUserId = tsk_CreatedByUserID t, pt_BlockedReason = tsk_BlockedReason t,
      pt_BoardColumn = tsk_State t, pt_CreatedTimeUnix = tsk_CreatedUnix t,
      pt_UpdatedTimeUnix = tsk_UpdatedUnix t, pt_GraphVersion = tsk_Version t,
      pt_ClaimLeaseId = tsk_ClaimLeaseID t, pt_CurrentRunId = []\<rparr>"

definition eventOperationToStorage :: "EventOperation \<Rightarrow> string" where
  "eventOperationToStorage operation =
     (case operation of
        EVENT_OPERATION_CREATED \<Rightarrow> ''created'' | EVENT_OPERATION_UPDATED \<Rightarrow> ''updated''
      | EVENT_OPERATION_DELETED \<Rightarrow> ''deleted'' | EVENT_OPERATION_STATE_CHANGED \<Rightarrow> ''state_changed''
      | EVENT_OPERATION_APPENDED \<Rightarrow> ''appended'' | EVENT_OPERATION_CLAIMED \<Rightarrow> ''claimed''
      | EVENT_OPERATION_RELEASED \<Rightarrow> ''released'' | EVENT_OPERATION_FAILED \<Rightarrow> ''failed''
      | EVENT_OPERATION_CANCELED \<Rightarrow> ''canceled'' | EVENT_OPERATION_HEARTBEAT \<Rightarrow> ''heartbeat''
      | EVENT_OPERATION_INVALIDATED \<Rightarrow> ''invalidated'' | EVENT_OPERATION_SNAPSHOT \<Rightarrow> ''snapshot''
      | _ \<Rightarrow> [])"

text \<open>
  An event about a task. \<^const>\<open>None\<close> is success; \<open>Some None\<close> says that the payload could not be
  encoded.
\<close>

definition RecordTaskMutation ::
  "senv \<Rightarrow> 'p proto_codec_scheme \<Rightarrow> Task \<Rightarrow> EventOperation \<Rightarrow> err option option rpc" where
  "RecordTaskMutation E P t operation =
     (case pj_task P (taskToProto E t) of
        None \<Rightarrow> ret (Some None)
      | Some payload \<Rightarrow> do {
          s \<leftarrow> get_server;
          r \<leftarrow> store_call (AppendCollaborationEvent E
            \<lparr>cev_ID = [], cev_ServerID = srv_serverID s, cev_Sequence = 0, cev_EventID = [],
             cev_Target = tsk_Target t, cev_AggregateID = tsk_ID t, cev_Kind = ''task'',
             cev_Operation = eventOperationToStorage operation, cev_ScopeType = ''task'',
             cev_ScopeID = tsk_ID t, cev_WorkspaceID = [], cev_ActivityID = [], cev_PayloadJSON = payload,
             cev_CreatedUnix = tsk_UpdatedUnix t, cev_ProtocolVersion = 1\<rparr>);
          ret (case r of Inl e \<Rightarrow> Some (Some e) | Inr _ \<Rightarrow> None)
        })"

section \<open>Runs\<close>

definition put_run :: "Run \<Rightarrow> Server \<Rightarrow> Server" where
  "put_run r s = s\<lparr>srv_runs :=
     (if list_ex (\<lambda>q. drun_RunId q = drun_RunId r) (srv_runs s)
      then map (\<lambda>q. if drun_RunId q = drun_RunId r then r else q) (srv_runs s)
      else srv_runs s @ [r])\<rparr>"

definition find_run :: "Server \<Rightarrow> string \<Rightarrow> Run option" where
  "find_run s i = find (\<lambda>r. drun_RunId r = i) (srv_runs s)"

text \<open>Announces a run to the daemons: a numbered event with a fresh identifier.\<close>

definition runEvent :: "senv \<Rightarrow> Run \<Rightarrow> string \<Rightarrow> string \<Rightarrow> EventOperation \<Rightarrow> unit rpc" where
  "runEvent E run target requestID operation = do {
     i \<leftarrow> store_call (newID E ''evt'');
     now \<leftarrow> store_call (unixNow E);
     with_server (\<lambda>s. s\<lparr>srv_eventSeq := srv_eventSeq s + 1,
       srv_serverEvents := (srv_serverEvents s)(i \<mapsto>
         \<lparr>sev_EventId = i, sev_Sequence = srv_eventSeq s + 1, sev_AggregateId = drun_RunId run,
          sev_Target = target, sev_CreatedTimeUnix = now, sev_ProtocolVersion = 1, sev_RequestId = requestID,
          sev_Operation = operation, sev_ScopeId = drun_TaskId run, sev_ScopeTarget = drun_Target run,
          sev_Payload = RunPayload run\<rparr>)\<rparr>)
   }"

definition active_run :: "string \<Rightarrow> string \<Rightarrow> Run \<Rightarrow> bool" where
  "active_run taskID agentID r \<longleftrightarrow>
     drun_TaskId r = taskID \<and> drun_AgentId r = agentID \<and> \<not> isTerminalRunState (drun_State r)"

definition ensureClaimRun :: "senv \<Rightarrow> daemon_env \<Rightarrow> Task \<Rightarrow> ClaimRequest \<Rightarrow> Lease \<Rightarrow> Run rpc" where
  "ensureClaimRun E D t req lease = do {
     s \<leftarrow> get_server;
     case find (active_run (tsk_ID t) (clm_AgentId req)) (iter_runs D (srv_runs s)) of
       Some existing \<Rightarrow> ret existing
     | None \<Rightarrow> (let (computerID, runtimeProfileID) = agentRoute (iter_computers D) s (clm_AgentId req)
         in do {
           now \<leftarrow> store_call (unixNow E);
           i \<leftarrow> store_call (newID E ''run'');
           (let run = \<lparr>drun_RunId = i, drun_TaskId = tsk_ID t, drun_Target = tsk_Target t,
                  drun_AgentId = clm_AgentId req, drun_ComputerId = computerID,
                  drun_RuntimeProfileId = runtimeProfileID, drun_State = RUN_STATE_QUEUED,
                  drun_LeaseId = lea_LeaseId lease, drun_RequestId = clm_RequestId req,
                  drun_StartedTimeUnix = now, drun_UpdatedTimeUnix = now, drun_CompletedTimeUnix = 0,
                  drun_Error = [], drun_Summary = tsk_Summary t, drun_Attempt = 1, drun_MaxAttempts = 1,
                  drun_LastHeartbeatTimeUnix = 0\<rparr>
            in do {
              with_server (put_run run);
              runEvent E run (tsk_Target t) (clm_RequestId req) EVENT_OPERATION_CREATED;
              ret run
            })
         })
   }"

definition firstNonZeroUint32 :: "32 word list \<Rightarrow> 32 word" where
  "firstNonZeroUint32 values = (case filter (\<lambda>v. v \<noteq> 0) values of [] \<Rightarrow> 0 | v # _ \<Rightarrow> v)"

section \<open>Claims\<close>

definition promote_claimed :: "senv \<Rightarrow> bool \<Rightarrow> Task \<Rightarrow> (err + Task \<times> bool) rpc" where
  "promote_claimed E runTask t =
     (if runTask \<and> tsk_State t = ''todo'' then do {
        u \<leftarrow> store_call (UpdateTask E (tsk_ID t)
          \<lparr>tskp_Summary = None, tskp_Description = None, tskp_State = Some ''in_progress'',
           tskp_AssigneeID = None, tskp_BlockedReason = None\<rparr>);
        ret (case u of Inl e \<Rightarrow> Inl e | Inr promoted \<Rightarrow> Inr (promoted, True))
      }
      else ret (Inr (t, False)))"

definition record_claim :: "senv \<Rightarrow> Task \<Rightarrow> ClaimRequest \<Rightarrow> Lease \<Rightarrow> Run option \<Rightarrow> err option rpc" where
  "record_claim E t req lease run0 =
     (case run0 of
        None \<Rightarrow> ret None
      | Some run \<Rightarrow> do {
          a \<leftarrow> store_call (RecordTaskAttemptClaim E
            \<lparr>tat_ID = [], tat_TaskID = tsk_ID t, tat_Attempt = firstNonZeroUint32 [drun_Attempt run, 1],
             tat_RunID = drun_RunId run, tat_AgentID = clm_AgentId req, tat_ClaimLeaseID = lea_LeaseId lease,
             tat_Status = ''claimed'', tat_OutputJSON = [], tat_OutputDigest = [], tat_OutputSignature = [],
             tat_SignaturePublicKey = [], tat_ErrorMessage = [], tat_ClaimedUnix = 0, tat_StartedUnix = 0,
             tat_CompletedUnix = 0, tat_UpdatedUnix = 0\<rparr>);
          ret (case a of Inl e \<Rightarrow> Some e | Inr _ \<Rightarrow> None)
        })"

definition claim_accepted ::
  "senv \<Rightarrow> daemon_env \<Rightarrow> ClaimRequest \<Rightarrow> Lease \<Rightarrow> Task \<Rightarrow> (rpc_err + proto_msg \<times> bool) rpc" where
  "claim_accepted E D req lease claimed =
     (let runTask = claimStartsExecution (clm_ClaimMode req)
      in do {
        promotion \<leftarrow> promote_claimed E runTask claimed;
        case promotion of
          Inl e \<Rightarrow> ret (Inl (Internal ''promote claimed task'' (Some e)))
        | Inr (updated, promotedToExecution) \<Rightarrow> do {
            with_server (put_lease lease);
            run \<leftarrow> (if runTask then State_Monad.bind (ensureClaimRun E D updated req lease) (\<lambda>r. ret (Some r)) else ret None);
            recorded \<leftarrow> record_claim E updated req lease run;
            case recorded of
              Some e \<Rightarrow> ret (Inl (Internal ''record task attempt claim'' (Some e)))
            | None \<Rightarrow> do {
                e1 \<leftarrow> RecordTaskMutation E D updated EVENT_OPERATION_CLAIMED;
                case e1 of
                  Some e \<Rightarrow> ret (Inl (Internal ''append task claim event'' e))
                | None \<Rightarrow> do {
                    e2 \<leftarrow> (if promotedToExecution then RecordTaskMutation E D updated EVENT_OPERATION_STATE_CHANGED
                           else ret None);
                    case e2 of
                      Some e \<Rightarrow> ret (Inl (Internal ''append task state event'' e))
                    | None \<Rightarrow> ret (Inr (ClaimCollaborationTaskResponse
                        \<lparr>cr_Task = (taskToProto E updated)\<lparr>pt_CurrentRunId :=
                            (case run of None \<Rightarrow> [] | Some r \<Rightarrow> drun_RunId r)\<rparr>,
                         cr_Accepted = True, cr_ConflictReason = [], cr_CurrentAssigneeId = [],
                         cr_ClaimLease = Some lease\<rparr>, True))
                  }
              }
          }
      })"

definition claim_body :: "senv \<Rightarrow> daemon_env \<Rightarrow> ClaimRequest \<Rightarrow> (rpc_err + proto_msg \<times> bool) rpc" where
  "claim_body E D req =
     do {
        lease \<leftarrow> newLease E ''task_claim'' (clm_TaskId req) (clm_AgentId req)
          (if clm_LeaseTtlSeconds req = 0 then 300 else uint (clm_LeaseTtlSeconds req));
        claim \<leftarrow> store_call (ClaimTaskCAS E (clm_TaskId req) (clm_AgentId req) (lea_LeaseId lease));
        case claim of
          Inl e \<Rightarrow>
            if e = ErrNotFound then ret (Inl (NotFound ''task not found''))
            else ret (Inl (Internal ''claim task'' (Some e)))
        | Inr (updated, accepted) \<Rightarrow>
            if \<not> accepted
            then ret (Inr (ClaimCollaborationTaskResponse
              \<lparr>cr_Task = taskToProto E updated, cr_Accepted = False, cr_ConflictReason = ''already_claimed'',
               cr_CurrentAssigneeId = tsk_AssigneeID updated, cr_ClaimLease = None\<rparr>, True))
            else claim_accepted E D req lease updated
      }"

definition ClaimCollaborationTask :: "senv \<Rightarrow> daemon_env \<Rightarrow> ClaimRequest \<Rightarrow> (rpc_err + proto_msg) rpc" where
  "ClaimCollaborationTask E D req =
     idempotent E D ''ClaimCollaborationTask'' (clm_RequestId req) (clm_IdempotencyKey req) (claim_body E D req)"

section \<open>Reports about runs\<close>

definition truncatePromptText :: "string \<Rightarrow> int \<Rightarrow> string" where
  "truncatePromptText value0 limit =
     (let val = TrimSpace value0
      in if limit \<le> 0 \<or> int (length val) \<le> limit then val
         else if limit < 20 then take (nat limit) val
         else TrimSpace (take (nat (limit - 15)) val) @ '' ...<truncated>'')"

definition redactRunFeedback :: "daemon_env \<Rightarrow> string \<Rightarrow> string" where
  "redactRunFeedback D value0 =
     (let val = truncatePromptText value0 512 in if val = [] then [] else redact_secrets D val)"

definition runTargetFromAgent :: "string \<Rightarrow> string" where
  "runTargetFromAgent agentID = (if agentID = [] then [] else ''dm:'' @ agentID)"

definition runFailureReason :: "daemon_env \<Rightarrow> Run \<Rightarrow> UpdateRunStatusRequest \<Rightarrow> string" where
  "runFailureReason D run req =
     (let detail = first_value [redactRunFeedback D (urs_BlockedReason req), drun_Error run, drun_Summary run];
          parts = [''Run '' @ drun_RunId run,
                   ''agent '' @ first_value [drun_AgentId run, urs_AgentId req, ''unknown'']] @
                  (if drun_RuntimeProfileId run \<noteq> [] then [''runtime '' @ drun_RuntimeProfileId run] else []) @
                  (if detail \<noteq> [] then [detail] else [])
      in truncatePromptText (Join '': '' parts) 512)"

definition runFailureReasonForAttempt :: "daemon_env \<Rightarrow> Run \<Rightarrow> UpdateRunStatusRequest \<Rightarrow> string" where
  "runFailureReasonForAttempt D run req =
     (if drun_State run \<in> {RUN_STATE_FAILED, RUN_STATE_CANCELED} then runFailureReason D run req else [])"

definition taskAttemptStatusFromRunState :: "RunState \<Rightarrow> string option" where
  "taskAttemptStatusFromRunState st =
     (case st of
        RUN_STATE_QUEUED \<Rightarrow> Some ''claimed''
      | RUN_STATE_UNSPECIFIED \<Rightarrow> Some ''claimed''
      | RUN_STATE_RUNNING \<Rightarrow> Some ''running''
      | RUN_STATE_BLOCKED \<Rightarrow> Some ''running''
      | RUN_STATE_COMPLETED \<Rightarrow> Some ''completed''
      | RUN_STATE_FAILED \<Rightarrow> Some ''failed''
      | RUN_STATE_CANCELED \<Rightarrow> Some ''canceled''
      | _ \<Rightarrow> None)"

definition recordTaskAttemptRunStatus ::
  "senv \<Rightarrow> daemon_env \<Rightarrow> Run \<Rightarrow> UpdateRunStatusRequest \<Rightarrow> rpc_err option rpc" where
  "recordTaskAttemptRunStatus E D run req =
     (if drun_TaskId run = [] then ret None
      else case taskAttemptStatusFromRunState (drun_State run) of
        None \<Rightarrow> ret None
      | Some attemptStatus \<Rightarrow> do {
          a \<leftarrow> store_call (UpdateTaskAttemptFromRun E
            \<lparr>tat_ID = [], tat_TaskID = drun_TaskId run, tat_Attempt = firstNonZeroUint32 [drun_Attempt run, 1],
             tat_RunID = drun_RunId run, tat_AgentID = first_value [drun_AgentId run, urs_AgentId req],
             tat_ClaimLeaseID = first_value [drun_LeaseId run, urs_LeaseId req], tat_Status = attemptStatus,
             tat_OutputJSON = urs_ResultJson req, tat_OutputDigest = urs_ResultDigest req,
             tat_OutputSignature = urs_ResultSignature req, tat_SignaturePublicKey = urs_SignaturePublicKey req,
             tat_ErrorMessage = runFailureReasonForAttempt D run req, tat_ClaimedUnix = 0, tat_StartedUnix = 0,
             tat_CompletedUnix = 0, tat_UpdatedUnix = 0\<rparr>);
          ret (case a of
                 Inr _ \<Rightarrow> None
               | Inl e \<Rightarrow> if e = ErrInvalid then Some (InvalidArgument ''invalid task attempt output'')
                          else Some (Internal ''record task attempt status'' (Some e)))
        })"

definition run_patch :: "daemon_env \<Rightarrow> Run \<Rightarrow> UpdateRunStatusRequest \<Rightarrow> TaskPatch" where
  "run_patch D run req =
     (let patch = (\<lambda>st reason. \<lparr>tskp_Summary = None, tskp_Description = None, tskp_State = st,
            tskp_AssigneeID = None, tskp_BlockedReason = reason\<rparr>)
      in case drun_State run of
           RUN_STATE_COMPLETED \<Rightarrow> patch (Some ''in_review'') (Some [])
         | RUN_STATE_FAILED \<Rightarrow> patch (Some ''blocked'') (Some (runFailureReason D run req))
         | RUN_STATE_CANCELED \<Rightarrow> patch (Some ''canceled'') (Some (runFailureReason D run req))
         | _ \<Rightarrow> patch None None)"

definition updateTaskFromRunStatus ::
  "senv \<Rightarrow> daemon_env \<Rightarrow> Run \<Rightarrow> UpdateRunStatusRequest \<Rightarrow> rpc_err option rpc" where
  "updateTaskFromRunStatus E D run req =
     (if drun_TaskId run = [] \<or> \<not> isTerminalRunState (drun_State run) then ret None
      else do {
        u \<leftarrow> store_call (UpdateTask E (drun_TaskId run) (run_patch D run req));
        case u of
          Inl e \<Rightarrow> if e = ErrNotFound then ret None
                   else ret (Some (Internal ''update task from run status'' (Some e)))
        | Inr t \<Rightarrow> do {
            r \<leftarrow> RecordTaskMutation E D t EVENT_OPERATION_STATE_CHANGED;
            ret (case r of None \<Rightarrow> None | Some e \<Rightarrow> Some (Internal ''append task run status event'' e))
          }
      })"

text \<open>The run after a report: a new one when the server does not know it.\<close>

definition reported_run :: "daemon_env \<Rightarrow> Server \<Rightarrow> int \<Rightarrow> UpdateRunStatusRequest \<Rightarrow> Run" where
  "reported_run D s now req =
     (let route = agentRoute (iter_computers D) s;
          r0 = (case find_run s (urs_RunId req) of
                  Some r \<Rightarrow> r
                | None \<Rightarrow>
                    \<lparr>drun_RunId = urs_RunId req, drun_TaskId = [], drun_Target = runTargetFromAgent (urs_AgentId req),
                     drun_AgentId = urs_AgentId req, drun_ComputerId = fst (route (urs_AgentId req)),
                     drun_RuntimeProfileId = snd (route (urs_AgentId req)), drun_State = RUN_STATE_UNSPECIFIED,
                     drun_LeaseId = urs_LeaseId req, drun_RequestId = [], drun_StartedTimeUnix = now,
                     drun_UpdatedTimeUnix = 0, drun_CompletedTimeUnix = 0, drun_Error = [], drun_Summary = [],
                     drun_Attempt = 0, drun_MaxAttempts = 0, drun_LastHeartbeatTimeUnix = 0\<rparr>);
          r1 = (if drun_AgentId r0 = [] then r0\<lparr>drun_AgentId := urs_AgentId req\<rparr> else r0);
          r2 = (if drun_AgentId r1 \<noteq> []
                then r1\<lparr>drun_ComputerId := (if drun_ComputerId r1 = [] then fst (route (drun_AgentId r1)) else drun_ComputerId r1),
                        drun_RuntimeProfileId := (if drun_RuntimeProfileId r1 = [] then snd (route (drun_AgentId r1))
                                                  else drun_RuntimeProfileId r1)\<rparr>
                else r1);
          r3 = (if drun_Target r2 = [] then r2\<lparr>drun_Target := runTargetFromAgent (drun_AgentId r2)\<rparr> else r2);
          r4 = (if drun_LeaseId r3 = [] then r3\<lparr>drun_LeaseId := urs_LeaseId req\<rparr> else r3)
      in r4\<lparr>drun_State := urs_State req, drun_Summary := redactRunFeedback D (urs_Summary req),
            drun_Error := redactRunFeedback D (urs_Error req), drun_UpdatedTimeUnix := now,
            drun_LastHeartbeatTimeUnix := now,
            drun_CompletedTimeUnix := (if isTerminalRunState (urs_State req) then now else drun_CompletedTimeUnix r4)\<rparr>)"

definition report_body :: "senv \<Rightarrow> daemon_env \<Rightarrow> UpdateRunStatusRequest \<Rightarrow> (rpc_err + proto_msg \<times> bool) rpc" where
  "report_body E D req =
     (if urs_RunId req = [] then ret (Inl (InvalidArgument ''run_id is required''))
      else do {
        now \<leftarrow> store_call (unixNow E);
        s \<leftarrow> get_server;
        (let run = reported_run D s now req
         in do {
           with_server (put_run run);
           runEvent E run (first_value [drun_Target run, drun_ComputerId run, drun_AgentId run])
             (urs_RequestId req) EVENT_OPERATION_UPDATED;
           e1 \<leftarrow> recordTaskAttemptRunStatus E D run req;
           case e1 of
             Some e \<Rightarrow> ret (Inl e)
           | None \<Rightarrow> do {
               e2 \<leftarrow> updateTaskFromRunStatus E D run req;
               ret (case e2 of Some e \<Rightarrow> Inl e | None \<Rightarrow> Inr (UpdateRunStatusResponse run, True))
             }
         })
      })"

definition UpdateRunStatus :: "senv \<Rightarrow> daemon_env \<Rightarrow> UpdateRunStatusRequest \<Rightarrow> (rpc_err + proto_msg) rpc" where
  "UpdateRunStatus E D req =
     idempotent E D ''UpdateRunStatus'' (urs_RequestId req) (urs_IdempotencyKey req) (report_body E D req)"

definition RenewRunLease ::
  "senv \<Rightarrow> daemon_env \<Rightarrow> string \<Rightarrow> string \<Rightarrow> string \<Rightarrow> string \<Rightarrow> 32 word \<Rightarrow> (rpc_err + proto_msg) rpc" where
  "RenewRunLease E D requestID key runID leaseID ttl0 =
     idempotent E D ''RenewRunLease'' requestID key
       (if runID = [] \<or> leaseID = [] then ret (Inl (InvalidArgument ''run_id and lease_id are required''))
        else do {
          s \<leftarrow> get_server;
          case lookup_lease s leaseID of
            None \<Rightarrow> ret (Inr (RenewRunLeaseResponse False None None ''lease_not_found'', False))
          | Some lease0 \<Rightarrow> do {
              now \<leftarrow> store_call (unixNow E);
              (let lease = lease0\<lparr>lea_ExpiresTimeUnix := now + (if ttl0 = 0 then 300 else uint ttl0)\<rparr>
               in do {
                 with_server (put_lease lease);
                 ret (Inr (RenewRunLeaseResponse True (find_run s runID) (Some lease) [], True))
               })
            }
        })"

definition AppendRunStep :: "senv \<Rightarrow> daemon_env \<Rightarrow> string \<Rightarrow> string \<Rightarrow> RunStep \<Rightarrow> (rpc_err + proto_msg) rpc" where
  "AppendRunStep E D requestID key step =
     idempotent E D ''AppendRunStep'' requestID key
       (if stp_RunId step = [] then ret (Inl (InvalidArgument ''run_id is required''))
        else do {
          i \<leftarrow> (if stp_StepId step = [] then store_call (newID E ''step'') else ret (stp_StepId step));
          (let cp = step\<lparr>stp_StepId := i\<rparr>
           in do {
             with_server (\<lambda>s. s\<lparr>srv_runSteps := (srv_runSteps s)(stp_RunId cp \<mapsto>
               (case srv_runSteps s (stp_RunId cp) of None \<Rightarrow> [] | Some steps \<Rightarrow> steps) @ [cp])\<rparr>);
             ret (Inr (AppendRunStepResponse cp, True))
           })
        })"

section \<open>Reading runs\<close>

definition run_limit :: "int \<Rightarrow> nat" where
  "run_limit limit = (if limit \<le> 0 \<or> 200 < limit then 100 else nat limit)"

text \<open>The cursor that ends every list.\<close>

record EventCursor =
  ecur_Cursor :: string
  ecur_Target :: string
  ecur_ProtocolVersion :: "32 word"
  ecur_SnapshotId :: string
  ecur_Sequence :: int
  ecur_AggregateId :: string
  ecur_ServerId :: string

definition cursorFromCount :: "nat \<Rightarrow> string \<Rightarrow> string \<Rightarrow> EventCursor" where
  "cursorFromCount count target serverID =
     \<lparr>ecur_Cursor = target @ '':'' @ digits_of count, ecur_Target = target, ecur_ProtocolVersion = 1,
      ecur_SnapshotId = [], ecur_Sequence = int count, ecur_AggregateId = target, ecur_ServerId = serverID\<rparr>"

definition FetchAssignedRuns ::
  "daemon_env \<Rightarrow> Server \<Rightarrow> string \<Rightarrow> string list \<Rightarrow> int \<Rightarrow> Run list \<times> EventCursor" where
  "FetchAssignedRuns D s computerID agentIDs limit =
     (let runs = take (run_limit limit) (filter (\<lambda>r. (computerID = [] \<or> drun_ComputerId r = computerID) \<and>
        (agentIDs = [] \<or> drun_AgentId r \<in> set agentIDs)) (iter_runs D (srv_runs s)))
      in (runs, cursorFromCount (length runs) computerID (srv_serverID s)))"

definition ListRuns ::
  "daemon_env \<Rightarrow> Server \<Rightarrow> string \<Rightarrow> string \<Rightarrow> string \<Rightarrow> int \<Rightarrow> Run list \<times> EventCursor" where
  "ListRuns D s target taskID agentID limit =
     (let runs = take (run_limit limit) (filter (\<lambda>r. (target = [] \<or> drun_Target r = target) \<and>
        (taskID = [] \<or> drun_TaskId r = taskID) \<and> (agentID = [] \<or> drun_AgentId r = agentID))
        (iter_runs D (srv_runs s)))
      in (runs, cursorFromCount (length runs) target (srv_serverID s)))"

definition GetRun :: "Server \<Rightarrow> string \<Rightarrow> rpc_err + Run \<times> RunStep list" where
  "GetRun s runID =
     (case find_run s runID of
        None \<Rightarrow> Inl (NotFound ''run not found'')
      | Some run \<Rightarrow> Inr (run, case srv_runSteps s runID of None \<Rightarrow> [] | Some steps \<Rightarrow> steps))"

end
