(* ===== verification/Daemon_Messages.thy ===== *)
theory Daemon_Messages
  imports Daemon_Runs IM_Coordinator Store_Deliveries
begin

text \<open>
  The daemon control server (\<^verbatim>\<open>internal/daemonrpc/server.go\<close>), messages: sending one, the deliveries to
  chat networks and other endpoints that this queues, their retries, saved messages, and the plain
  operations on tasks.
\<close>

section \<open>Conversions\<close>

definition messageKindToStorage :: "MessageKind \<Rightarrow> string" where
  "messageKindToStorage kind =
     (case kind of
        MESSAGE_KIND_DECISION \<Rightarrow> ''decision'' | MESSAGE_KIND_BLOCKER \<Rightarrow> ''blocker''
      | MESSAGE_KIND_STATUS \<Rightarrow> ''status'' | MESSAGE_KIND_NOTE \<Rightarrow> ''note'' | _ \<Rightarrow> [])"

definition messageKindFromStorage :: "string \<Rightarrow> MessageKind" where
  "messageKindFromStorage kind =
     (if kind = ''decision'' then MESSAGE_KIND_DECISION
      else if kind = ''blocker'' then MESSAGE_KIND_BLOCKER
      else if kind = ''status'' then MESSAGE_KIND_STATUS
      else if kind = ''note'' then MESSAGE_KIND_NOTE
      else MESSAGE_KIND_UNSPECIFIED)"

definition actorKindToStorage :: "ActorKind \<Rightarrow> string" where
  "actorKindToStorage kind =
     (case kind of
        ACTOR_KIND_HUMAN \<Rightarrow> ''human'' | ACTOR_KIND_AGENT \<Rightarrow> ''agent'' | ACTOR_KIND_DAEMON \<Rightarrow> ''daemon''
      | ACTOR_KIND_ENDPOINT \<Rightarrow> ''endpoint'' | ACTOR_KIND_SYSTEM \<Rightarrow> ''system'' | _ \<Rightarrow> [])"

definition actorKindFromStorage :: "'z env_scheme \<Rightarrow> string \<Rightarrow> ActorKind" where
  "actorKindFromStorage E kind0 =
     (let kind = ToLower E (TrimSpace kind0)
      in if kind = ''human'' \<or> kind = ''user'' then ACTOR_KIND_HUMAN
         else if kind = ''agent'' then ACTOR_KIND_AGENT
         else if kind = ''daemon'' then ACTOR_KIND_DAEMON
         else if kind = ''endpoint'' then ACTOR_KIND_ENDPOINT
         else if kind = ''system'' then ACTOR_KIND_SYSTEM
         else ACTOR_KIND_UNSPECIFIED)"

definition outboundDeliveryStatusToStorage :: "OutboundDeliveryStatus \<Rightarrow> string" where
  "outboundDeliveryStatusToStorage st =
     (case st of
        OUTBOUND_DELIVERY_STATUS_PENDING \<Rightarrow> ''pending'' | OUTBOUND_DELIVERY_STATUS_DELIVERED \<Rightarrow> ''delivered''
      | OUTBOUND_DELIVERY_STATUS_FAILED \<Rightarrow> ''failed'' | OUTBOUND_DELIVERY_STATUS_RETRYING \<Rightarrow> ''retrying''
      | OUTBOUND_DELIVERY_STATUS_CANCELED \<Rightarrow> ''canceled'' | _ \<Rightarrow> [])"

definition outboundDeliveryStatusFromStorage :: "'z env_scheme \<Rightarrow> string \<Rightarrow> OutboundDeliveryStatus" where
  "outboundDeliveryStatusFromStorage E st0 =
     (let st = ToLower E (TrimSpace st0)
      in if st = ''pending'' then OUTBOUND_DELIVERY_STATUS_PENDING
         else if st = ''delivered'' then OUTBOUND_DELIVERY_STATUS_DELIVERED
         else if st = ''failed'' then OUTBOUND_DELIVERY_STATUS_FAILED
         else if st = ''retrying'' then OUTBOUND_DELIVERY_STATUS_RETRYING
         else if st = ''canceled'' \<or> st = ''cancelled'' then OUTBOUND_DELIVERY_STATUS_CANCELED
         else OUTBOUND_DELIVERY_STATUS_UNSPECIFIED)"

definition outboundDeliveryOperation :: "OutboundDeliveryStatus \<Rightarrow> EventOperation" where
  "outboundDeliveryOperation st =
     (case st of
        OUTBOUND_DELIVERY_STATUS_FAILED \<Rightarrow> EVENT_OPERATION_FAILED
      | OUTBOUND_DELIVERY_STATUS_CANCELED \<Rightarrow> EVENT_OPERATION_CANCELED
      | _ \<Rightarrow> EVENT_OPERATION_STATE_CHANGED)"

definition messageToProto :: "'z env_scheme \<Rightarrow> Message \<Rightarrow> CollaborationMessage" where
  "messageToProto E m =
     \<lparr>cm_MessageId = msg_ID m, cm_Target = msg_Target m, cm_ThreadId = msg_ThreadID m, cm_Role = msg_Role m,
      cm_Kind = messageKindFromStorage (msg_Kind m), cm_Content = msg_Content m,
      cm_ReplyToMessageId = msg_ReplyToMessageID m, cm_CreatedTimeUnix = msg_CreatedUnix m,
      cm_RequestId = msg_RequestID m, cm_SourceEndpointId = msg_SourceEndpointID m,
      cm_ExternalMessageId = msg_ExternalMessageID m, cm_MetadataJson = msg_MetadataJSON m,
      cm_Attachments = msg_Attachments m,
      cm_Sender = \<lparr>act_ActorKind = actorKindFromStorage E (msg_SenderKind m), act_AgentId = msg_SenderAgentID m,
        act_UserId = msg_SenderUserID m, act_DaemonId = [], act_DisplayName = msg_SenderDisplayName m\<rparr>,
      cm_AggregateId = msg_Target m\<rparr>"

definition outboundDeliveryToProto :: "'z env_scheme \<Rightarrow> OutboundDelivery \<Rightarrow> OutboundDeliveryRecord" where
  "outboundDeliveryToProto E d =
     \<lparr>odr_DeliveryId = odlv_ID d, odr_Target = odlv_Target d, odr_MessageId = odlv_MessageID d,
      odr_EndpointId = odlv_EndpointID d, odr_EndpointKind = odlv_EndpointKind d,
      odr_ExternalMessageId = odlv_ExternalMessageID d,
      odr_Status = outboundDeliveryStatusFromStorage E (odlv_Status d), odr_AttemptCount = odlv_AttemptCount d,
      odr_NextRetryTimeUnix = odlv_NextRetryTimeUnix d, odr_DeliveredTimeUnix = odlv_DeliveredTimeUnix d,
      odr_LastError = odlv_LastError d, odr_RequestId = odlv_RequestID d\<rparr>"

definition savedMessageToProto :: "'z env_scheme \<Rightarrow> SavedMessage \<Rightarrow> SavedMessageRecord" where
  "savedMessageToProto E s =
     \<lparr>smr_SavedMessageId = sav_ID s, smr_Target = sav_Target s, smr_ThreadId = msg_ThreadID (sav_Message s),
      smr_MessageId = sav_MessageID s, smr_SavedByAgentId = sav_SavedByAgentID s,
      smr_SavedByUserId = sav_SavedByUserID s, smr_SavedTimeUnix = sav_CreatedUnix s,
      smr_Message = messageToProto E (sav_Message s)\<rparr>"

section \<open>Events\<close>

definition RecordMessageMutation ::
  "senv \<Rightarrow> 'p proto_codec_scheme \<Rightarrow> Message \<Rightarrow> EventOperation \<Rightarrow> err option option rpc" where
  "RecordMessageMutation E P m operation =
     (case pj_message P (messageToProto E m) of
        None \<Rightarrow> ret (Some None)
      | Some payload \<Rightarrow> do {
          s \<leftarrow> get_server;
          r \<leftarrow> store_call (AppendCollaborationEvent E
            \<lparr>cev_ID = [], cev_ServerID = srv_serverID s, cev_Sequence = 0, cev_EventID = [],
             cev_Target = msg_Target m,
             cev_AggregateID = first_value [msg_ThreadID m, cm_AggregateId (messageToProto E m), msg_Target m],
             cev_Kind = ''message'', cev_Operation = eventOperationToStorage operation, cev_ScopeType = ''target'',
             cev_ScopeID = msg_Target m, cev_WorkspaceID = [], cev_ActivityID = [], cev_PayloadJSON = payload,
             cev_CreatedUnix = msg_CreatedUnix m, cev_ProtocolVersion = 1\<rparr>);
          ret (case r of Inl e \<Rightarrow> Some (Some e) | Inr _ \<Rightarrow> None)
        })"

definition EmitOutboundDeliveryEvent :: "senv \<Rightarrow> OutboundDelivery \<Rightarrow> EventOperation \<Rightarrow> unit rpc" where
  "EmitOutboundDeliveryEvent E d operation = do {
     i \<leftarrow> store_call (newID E ''evt'');
     now \<leftarrow> store_call (unixNow E);
     with_server (\<lambda>s. s\<lparr>srv_eventSeq := srv_eventSeq s + 1,
       srv_serverEvents := (srv_serverEvents s)(i \<mapsto>
         \<lparr>sev_EventId = i, sev_Sequence = srv_eventSeq s + 1, sev_AggregateId = odlv_MessageID d,
          sev_Target = odlv_Target d, sev_CreatedTimeUnix = now, sev_ProtocolVersion = 1,
          sev_RequestId = odlv_RequestID d, sev_Operation = operation, sev_ScopeId = odlv_Target d,
          sev_ScopeTarget = odlv_Target d, sev_Payload = OutboundDeliveryPayload (outboundDeliveryToProto E d)\<rparr>)\<rparr>)
   }"

section \<open>Deliveries of a message\<close>

datatype OutboundPolicy =
    OUTBOUND_POLICY_UNSPECIFIED | OUTBOUND_POLICY_NONE | OUTBOUND_POLICY_SOURCE_ONLY
  | OUTBOUND_POLICY_ALL_BOUND_ENDPOINTS | OUTBOUND_POLICY_SELECTED_ENDPOINTS | OUTBOUND_POLICY_OTHER int

definition shouldEnqueueOutboundDelivery :: "OutboundPolicy \<Rightarrow> bool \<Rightarrow> string \<Rightarrow> bool" where
  "shouldEnqueueOutboundDelivery policy emitOutbound senderKind =
     (case policy of
        OUTBOUND_POLICY_NONE \<Rightarrow> False
      | OUTBOUND_POLICY_SOURCE_ONLY \<Rightarrow> True
      | OUTBOUND_POLICY_ALL_BOUND_ENDPOINTS \<Rightarrow> True
      | OUTBOUND_POLICY_SELECTED_ENDPOINTS \<Rightarrow> True
      | _ \<Rightarrow> emitOutbound \<or> senderKind = ''agent'')"

definition has_source :: "Message \<Rightarrow> bool" where
  "has_source m \<longleftrightarrow> msg_SourceEndpointID m \<noteq> [] \<and> msg_ExternalMessageID m \<noteq> []"

text \<open>
  The message a chat sent that this one answers: itself, the message it replies to, or the first one of
  that thread. \<^const>\<open>None\<close> says that there is none.
\<close>

definition sourceMessageForOutbound :: "senv \<Rightarrow> Message \<Rightarrow> Message option op" where
  "sourceMessageForOutbound E msg =
     (if has_source msg then ret (Inr (Some msg))
      else if msg_ReplyToMessageID msg = [] then ret (Inr None)
      else do {
        p \<leftarrow> GetMessage E (msg_Target msg) (msg_ReplyToMessageID msg);
        case p of
          Inl e \<Rightarrow> ret (if e = ErrNotFound then Inr None else Inl e)
        | Inr parent \<Rightarrow>
            if has_source parent then ret (Inr (Some parent))
            else if msg_ThreadID parent = [] \<or> msg_ThreadID parent = msg_ID parent then ret (Inr None)
            else do {
              q \<leftarrow> GetMessage E (msg_Target parent) (msg_ThreadID parent);
              ret (case q of
                     Inl e \<Rightarrow> if e = ErrNotFound then Inr None else Inl e
                   | Inr opener \<Rightarrow> Inr (if has_source opener then Some opener else None))
            }
      })"

definition boolConfigValue :: "'z env_scheme \<Rightarrow> (string \<rightharpoonup> json) \<Rightarrow> string \<Rightarrow> bool" where
  "boolConfigValue E raw key =
     (case raw key of
        Some (JBool b) \<Rightarrow> b
      | Some (JString s) \<Rightarrow> ToLower E (TrimSpace s) \<in> {''1'', ''true'', ''yes'', ''on''}
      | _ \<Rightarrow> False)"

definition imEndpointRequiresChatSubscription :: "'z env_scheme \<Rightarrow> json_codec \<Rightarrow> InteractionEndpoint \<Rightarrow> bool" where
  "imEndpointRequiresChatSubscription E J endpoint =
     (let raw = (if TrimSpace (iep_ConfigJSON endpoint) \<noteq> [] then unmarshal_map J (iep_ConfigJSON endpoint)
                 else Map.empty)
      in boolConfigValue E raw ''require_subscription'' \<or> boolConfigValue E raw ''chat_auth_required'' \<or>
         boolConfigValue E raw ''require_chat_authorization'')"

definition verboseOnlyOutboundMessage :: "'z env_scheme \<Rightarrow> Message \<Rightarrow> bool" where
  "verboseOnlyOutboundMessage E m \<longleftrightarrow> ToLower E (TrimSpace (msg_Kind m)) = ''status''"

record imChatIdentity =
  ici_ConversationID :: string
  ici_ExternalThreadID :: string

definition imChatIdentityFromMetadata :: "json_codec \<Rightarrow> string \<Rightarrow> imChatIdentity" where
  "imChatIdentityFromMetadata J metadataJSON =
     (let raw = (\<lambda>name. case json_parse J metadataJSON of None \<Rightarrow> [] | Some doc \<Rightarrow> decode_im name doc)
      in \<lparr>ici_ConversationID = TrimSpace (raw ''external_id''),
          ici_ExternalThreadID = TrimSpace (raw ''external_thread_id'')\<rparr>)"

definition suppressIMChatSourceDelivery ::
  "senv \<Rightarrow> json_codec \<Rightarrow> InteractionEndpoint \<Rightarrow> Message \<Rightarrow> Message \<Rightarrow> bool op" where
  "suppressIMChatSourceDelivery E J endpoint source msg =
     (let identity = imChatIdentityFromMetadata J (msg_MetadataJSON source)
      in if \<not> equal_fold_word (iep_Kind endpoint) ''im'' then ret (Inr False)
         else if ici_ConversationID identity = [] then ret (Inr False)
         else do {
           s \<leftarrow> GetIMChatSubscription E (iep_ID endpoint) (ici_ConversationID identity) (ici_ExternalThreadID identity);
           ret (case s of
                  Inl e \<Rightarrow> if e = ErrNotFound then Inr (imEndpointRequiresChatSubscription E J endpoint) else Inl e
                | Inr subscription \<Rightarrow>
                    Inr (\<not> imsub_Subscribed subscription \<or>
                         \<not> imsub_Verbose subscription \<and> verboseOnlyOutboundMessage E msg))
         })"

definition new_delivery :: "Message \<Rightarrow> InteractionEndpoint \<Rightarrow> string \<Rightarrow> OutboundDelivery" where
  "new_delivery msg endpoint externalMessageID =
     \<lparr>odlv_ID = [], odlv_Target = msg_Target msg, odlv_MessageID = msg_ID msg, odlv_EndpointID = iep_ID endpoint,
      odlv_EndpointKind = iep_Kind endpoint, odlv_ExternalMessageID = externalMessageID, odlv_Status = ''pending'',
      odlv_AttemptCount = 0, odlv_NextRetryTimeUnix = 0, odlv_DeliveredTimeUnix = 0, odlv_LastError = [],
      odlv_RequestID = first_value [msg_RequestID msg, msg_ID msg @ '':'' @ iep_ID endpoint],
      odlv_CreatedUnix = 0, odlv_UpdatedUnix = 0\<rparr>"

text \<open>Store a delivery and announce it.\<close>

definition enqueue_delivery :: "senv \<Rightarrow> OutboundDelivery \<Rightarrow> (err + OutboundDelivery) rpc" where
  "enqueue_delivery E d = do {
     r \<leftarrow> store_call (CreateOutboundDelivery E d);
     case r of
       Inl e \<Rightarrow> ret (Inl e)
     | Inr delivery \<Rightarrow> do { EmitOutboundDeliveryEvent E delivery EVENT_OPERATION_CREATED; ret (Inr delivery) }
   }"

definition EnqueueSourceOutboundDelivery ::
  "senv \<Rightarrow> json_codec \<Rightarrow> Message \<Rightarrow> (err + OutboundDelivery option) rpc" where
  "EnqueueSourceOutboundDelivery E J msg = do {
     s \<leftarrow> store_call (sourceMessageForOutbound E msg);
     case s of
       Inl e \<Rightarrow> ret (Inl e)
     | Inr found \<Rightarrow> (case found of
         None \<Rightarrow> ret (Inr None)
       | Some source \<Rightarrow>
         if \<not> has_source source then ret (Inr None)
         else do {
           ep \<leftarrow> store_call (GetInteractionEndpoint E (msg_SourceEndpointID source));
           case ep of
             Inl e \<Rightarrow> ret (if e = ErrNotFound then Inr None else Inl e)
           | Inr endpoint \<Rightarrow>
               if \<not> iep_OutboundEnabled endpoint then ret (Inr None)
               else do {
                 x \<leftarrow> store_call (suppressIMChatSourceDelivery E J endpoint source msg);
                 case x of
                   Inl e \<Rightarrow> ret (Inl e)
                 | Inr suppress \<Rightarrow>
                     if suppress then ret (Inr None)
                     else do {
                       d \<leftarrow> enqueue_delivery E (new_delivery msg endpoint (msg_ExternalMessageID source));
                       ret (case d of Inl e \<Rightarrow> Inl e | Inr delivery \<Rightarrow> Inr (Some delivery))
                     }
               }
         })
   }"

text \<open>The loop over the routes; \<open>seenEndpoints\<close> are the endpoints that have their delivery.\<close>

fun enqueue_routes ::
  "senv \<Rightarrow> Message \<Rightarrow> string set \<Rightarrow> OutboundDelivery list \<Rightarrow> NotificationRoute list \<Rightarrow>
     (err + OutboundDelivery list) rpc" where
  "enqueue_routes E msg seenEndpoints out [] = ret (Inr out)"
| "enqueue_routes E msg seenEndpoints out (route # rest) =
     (if nroute_EndpointID route \<in> seenEndpoints then enqueue_routes E msg seenEndpoints out rest
      else do {
        ep \<leftarrow> store_call (GetInteractionEndpoint E (nroute_EndpointID route));
        case ep of
          Inl e \<Rightarrow> if e = ErrNotFound then enqueue_routes E msg seenEndpoints out rest else ret (Inl e)
        | Inr endpoint \<Rightarrow>
            if \<not> iep_OutboundEnabled endpoint then enqueue_routes E msg seenEndpoints out rest
            else do {
              d \<leftarrow> enqueue_delivery E (new_delivery msg endpoint []);
              case d of
                Inl e \<Rightarrow> ret (Inl e)
              | Inr delivery \<Rightarrow>
                  enqueue_routes E msg (insert (nroute_EndpointID route) seenEndpoints) (out @ [delivery]) rest
            }
      })"

definition enqueueRoutedOutboundDeliveries ::
  "senv \<Rightarrow> json_codec \<Rightarrow> Message \<Rightarrow> bool \<Rightarrow> (err + OutboundDelivery list) rpc" where
  "enqueueRoutedOutboundDeliveries E J msg includeSource = do {
     s \<leftarrow> (if includeSource then EnqueueSourceOutboundDelivery E J msg else ret (Inr None));
     case s of
       Inl e \<Rightarrow> ret (Inl e)
     | Inr source \<Rightarrow>
         (let out = (case source of None \<Rightarrow> [] | Some d \<Rightarrow> [d])
          in do {
            rs \<leftarrow> store_call (ResolveNotificationRoutes E
              \<lparr>nrouter_Target = msg_Target msg, nrouter_ThreadID = msg_ThreadID msg, nrouter_EventKind = ''message'',
               nrouter_Limit = 100\<rparr>);
            case rs of
              Inl e \<Rightarrow> ret (if e = ErrInvalidState then Inr out else Inl e)
            | Inr rest \<Rightarrow> enqueue_routes E msg (set (map odlv_EndpointID out)) out rest
          })
   }"

definition EnqueueOutboundDeliveries ::
  "senv \<Rightarrow> json_codec \<Rightarrow> Message \<Rightarrow> OutboundPolicy \<Rightarrow> (err + OutboundDelivery list) rpc" where
  "EnqueueOutboundDeliveries E J msg policy =
     (case policy of
        OUTBOUND_POLICY_NONE \<Rightarrow> ret (Inr [])
      | OUTBOUND_POLICY_ALL_BOUND_ENDPOINTS \<Rightarrow> enqueueRoutedOutboundDeliveries E J msg True
      | OUTBOUND_POLICY_SELECTED_ENDPOINTS \<Rightarrow> enqueueRoutedOutboundDeliveries E J msg False
      | _ \<Rightarrow> do {
          d \<leftarrow> EnqueueSourceOutboundDelivery E J msg;
          ret (case d of Inl e \<Rightarrow> Inl e | Inr None \<Rightarrow> Inr [] | Inr (Some delivery) \<Rightarrow> Inr [delivery])
        })"

section \<open>Calls\<close>

text \<open>The fields of a message to send that the server reads.\<close>

record SendMessageRequest =
  smq_RequestId :: string
  smq_IdempotencyKey :: string
  smq_Target :: string
  smq_Content :: string
  smq_Role :: string
  smq_Kind :: MessageKind
  smq_ReplyToMessageId :: string
  smq_Sender :: Actor
  smq_SourceEndpointId :: string
  smq_MetadataJson :: string
  smq_OutboundPolicy :: OutboundPolicy
  smq_EmitOutbound :: bool

definition sent_message :: "SendMessageRequest \<Rightarrow> Message" where
  "sent_message req =
     (let kind = actorKindToStorage (act_ActorKind (smq_Sender req))
      in no_message\<lparr>msg_Target := smq_Target req, msg_ThreadID := smq_ReplyToMessageId req,
           msg_Role := (if smq_Role req = [] then ''user'' else smq_Role req), msg_Content := smq_Content req,
           msg_Kind := messageKindToStorage (smq_Kind req), msg_ReplyToMessageID := smq_ReplyToMessageId req,
           msg_SenderUserID := act_UserId (smq_Sender req), msg_SenderAgentID := act_AgentId (smq_Sender req),
           msg_SenderDisplayName := act_DisplayName (smq_Sender req),
           msg_SenderKind := (if kind = [] then ''agent'' else kind), msg_SourceEndpointID := smq_SourceEndpointId req,
           msg_MetadataJSON := (if TrimSpace (smq_MetadataJson req) = [] then ''{}'' else smq_MetadataJson req),
           msg_RequestID := first_value [smq_IdempotencyKey req, smq_RequestId req]\<rparr>)"

text \<open>A message that exists already is reported by the code \<^verbatim>\<open>AlreadyExists\<close>.\<close>

definition send_body ::
  "senv \<Rightarrow> 'p proto_codec_scheme \<Rightarrow> json_codec \<Rightarrow> SendMessageRequest \<Rightarrow> (rpc_err + proto_msg \<times> bool) rpc" where
  "send_body E P J req =
     (if smq_Target req = [] \<or> smq_Content req = []
      then ret (Inl (InvalidArgument ''target and content are required''))
      else do {
        c \<leftarrow> store_call (CreateMessage E (sent_message req));
        case c of
          Inl e \<Rightarrow> ret (Inl (if e = ErrConflict then AlreadyExists ''message request already exists''
                            else Internal ''create message'' (Some e)))
        | Inr created \<Rightarrow> do {
            m \<leftarrow> RecordMessageMutation E P created EVENT_OPERATION_APPENDED;
            case m of
              Some e \<Rightarrow> ret (Inl (Internal ''append message event'' e))
            | None \<Rightarrow>
                if \<not> shouldEnqueueOutboundDelivery (smq_OutboundPolicy req) (smq_EmitOutbound req)
                       (msg_SenderKind (sent_message req))
                then ret (Inr (SendMessageResponse (messageToProto E created), True))
                else do {
                  d \<leftarrow> EnqueueOutboundDeliveries E J created (smq_OutboundPolicy req);
                  ret (case d of
                         Inl e \<Rightarrow> Inl (Internal ''enqueue outbound delivery'' (Some e))
                       | Inr _ \<Rightarrow> Inr (SendMessageResponse (messageToProto E created), True))
                }
          }
      })"

definition SendMessage ::
  "senv \<Rightarrow> 'p proto_codec_scheme \<Rightarrow> json_codec \<Rightarrow> SendMessageRequest \<Rightarrow> (rpc_err + proto_msg) rpc" where
  "SendMessage E P J req =
     idempotent E P ''SendMessage'' (smq_RequestId req) (smq_IdempotencyKey req) (send_body E P J req)"

definition list_deliveries ::
  "senv \<Rightarrow> string \<Rightarrow> string \<Rightarrow> string \<Rightarrow> OutboundDeliveryStatus list \<Rightarrow> int \<Rightarrow>
     (rpc_err + OutboundDeliveryRecord list \<times> EventCursor) rpc" where
  "list_deliveries E target messageID endpointID statuses limit = do {
     s \<leftarrow> get_server;
     r \<leftarrow> store_call (ListOutboundDeliveries E
       \<lparr>odlvo_Target = target, odlvo_MessageID = messageID, odlvo_EndpointID = endpointID,
        odlvo_Statuses = filter (\<lambda>s. s \<noteq> []) (map outboundDeliveryStatusToStorage statuses),
        odlvo_Limit = limit, odlvo_ReadyUnix = 0\<rparr>);
     ret (case r of
            Inl e \<Rightarrow> Inl (if e = ErrInvalidState then InvalidArgument ''invalid outbound delivery status''
                         else Internal ''list outbound deliveries'' (Some e))
          | Inr found \<Rightarrow>
              Inr (map (outboundDeliveryToProto E) found, cursorFromCount (length found) target (srv_serverID s)))
   }"

definition RetryOutboundDelivery ::
  "senv \<Rightarrow> 'p proto_codec_scheme \<Rightarrow> string \<Rightarrow> string \<Rightarrow> string \<Rightarrow> (rpc_err + proto_msg) rpc" where
  "RetryOutboundDelivery E P requestID key deliveryID =
     idempotent E P ''RetryOutboundDelivery'' requestID key
       (if deliveryID = [] then ret (Inl (InvalidArgument ''delivery_id is required''))
        else do {
          now \<leftarrow> store_call (unixNow E);
          r \<leftarrow> store_call (ScheduleOutboundDeliveryRetry E deliveryID now);
          case r of
            Inl e \<Rightarrow> ret (Inl (if e = ErrNotFound then NotFound ''outbound delivery not found''
                              else Internal ''retry outbound delivery'' (Some e)))
          | Inr delivery \<Rightarrow> do {
              EmitOutboundDeliveryEvent E delivery EVENT_OPERATION_UPDATED;
              ret (Inr (RetryOutboundDeliveryResponse (outboundDeliveryToProto E delivery), True))
            }
        })"

definition RecordOutboundDeliveryStatus ::
  "senv \<Rightarrow> string \<Rightarrow> OutboundDeliveryStatus \<Rightarrow> string \<Rightarrow> int \<Rightarrow> int \<Rightarrow> (err + OutboundDelivery) rpc" where
  "RecordOutboundDeliveryStatus E deliveryID st lastError nextRetry delivered0 =
     (if outboundDeliveryStatusToStorage st = [] then ret (Inl ErrInvalidState)
      else do {
        delivered \<leftarrow> (if st = OUTBOUND_DELIVERY_STATUS_DELIVERED \<and> delivered0 = 0 then store_call (unixNow E)
                      else ret delivered0);
        r \<leftarrow> store_call (UpdateOutboundDeliveryStatus E deliveryID (outboundDeliveryStatusToStorage st) (TrimSpace lastError)
          (if st = OUTBOUND_DELIVERY_STATUS_RETRYING then nextRetry else 0)
          (if st = OUTBOUND_DELIVERY_STATUS_DELIVERED then delivered else 0));
        case r of
          Inl e \<Rightarrow> ret (Inl e)
        | Inr delivery \<Rightarrow> do { EmitOutboundDeliveryEvent E delivery (outboundDeliveryOperation st); ret (Inr delivery) }
      })"

definition ReadMessages ::
  "senv \<Rightarrow> string \<Rightarrow> int \<Rightarrow> (rpc_err + CollaborationMessage list \<times> EventCursor) rpc" where
  "ReadMessages E target limit =
     (if target = [] then ret (Inl (InvalidArgument ''target is required''))
      else do {
        s \<leftarrow> get_server;
        r \<leftarrow> store_call (ListMessages E target [] limit);
        ret (case r of
               Inl e \<Rightarrow> Inl (Internal ''list messages'' (Some e))
             | Inr ms \<Rightarrow> Inr (map (messageToProto E) ms, cursorFromCount (length ms) target (srv_serverID s)))
      })"

definition save_call ::
  "senv \<Rightarrow> 'p proto_codec_scheme \<Rightarrow> string \<Rightarrow> string \<Rightarrow> string \<Rightarrow> string \<Rightarrow> string \<Rightarrow> string \<Rightarrow> (rpc_err + proto_msg) rpc" where
  "save_call E P requestID key target messageID userID agentID =
     idempotent E P ''SaveMessage'' requestID key
       (if target = [] \<or> messageID = [] then ret (Inl (InvalidArgument ''target and message_id are required''))
        else do {
          r \<leftarrow> store_call (SaveMessage E target messageID userID agentID);
          ret (case r of
                 Inl e \<Rightarrow> Inl (if e = ErrNotFound then NotFound ''message not found'' else Internal ''save message'' (Some e))
               | Inr saved \<Rightarrow> Inr (SaveMessageResponse (savedMessageToProto E saved), True))
        })"

text \<open>An answer that nothing was saved is not remembered.\<close>

definition unsave_call ::
  "senv \<Rightarrow> 'p proto_codec_scheme \<Rightarrow> string \<Rightarrow> string \<Rightarrow> string \<Rightarrow> string \<Rightarrow> string \<Rightarrow> string \<Rightarrow> (rpc_err + proto_msg) rpc" where
  "unsave_call E P requestID key target messageID userID agentID =
     idempotent E P ''UnsaveMessage'' requestID key
       (if target = [] \<or> messageID = [] then ret (Inl (InvalidArgument ''target and message_id are required''))
        else do {
          r \<leftarrow> store_call (UnsaveMessage E target messageID userID agentID);
          ret (case r of
                 Inl e \<Rightarrow> if e = ErrNotFound then Inr (UnsaveMessageResponse None, False)
                          else Inl (Internal ''unsave message'' (Some e))
               | Inr saved \<Rightarrow> Inr (UnsaveMessageResponse (Some (savedMessageToProto E saved)), True))
        })"

definition CreateCollaborationTask ::
  "senv \<Rightarrow> 'p proto_codec_scheme \<Rightarrow> string \<Rightarrow> string \<Rightarrow> string \<Rightarrow> string \<Rightarrow> string \<Rightarrow> string \<Rightarrow> (rpc_err + proto_msg) rpc" where
  "CreateCollaborationTask E P requestID key target summary agentID userID =
     idempotent E P ''CreateCollaborationTask'' requestID key
       (if target = [] \<or> summary = [] then ret (Inl (InvalidArgument ''target and summary are required''))
        else do {
          c \<leftarrow> store_call (CreateTask E
            \<lparr>tsk_ID = [], tsk_Summary = summary, tsk_Description = [], tsk_State = ''todo'', tsk_Target = target,
             tsk_AssigneeID = agentID, tsk_CreatedByUserID = userID, tsk_BlockedReason = [], tsk_Version = 0,
             tsk_ClaimLeaseID = [], tsk_CreatedUnix = 0, tsk_UpdatedUnix = 0\<rparr>);
          case c of
            Inl e \<Rightarrow> ret (Inl (Internal ''create task'' (Some e)))
          | Inr created \<Rightarrow> do {
              m \<leftarrow> RecordTaskMutation E P created EVENT_OPERATION_CREATED;
              ret (case m of
                     Some e \<Rightarrow> Inl (Internal ''append task event'' e)
                   | None \<Rightarrow> Inr (CreateCollaborationTaskResponse (taskToProto E created), True))
            }
        })"

text \<open>A rejected update is an answer without a task, and is not remembered.\<close>

definition update_task_body ::
  "senv \<Rightarrow> 'p proto_codec_scheme \<Rightarrow> string \<Rightarrow> string option \<Rightarrow> TaskState option \<Rightarrow>
     (rpc_err + proto_msg \<times> bool) rpc" where
  "update_task_body E P taskID summary state =
       (let rejected = (\<lambda>reason. Inr (UpdateTaskResponse None reason, False))
        in if (case state of None \<Rightarrow> False | Some st \<Rightarrow> taskStateToStorage st = None) then ret (rejected ''invalid_state'')
           else do {
             u \<leftarrow> store_call (UpdateTask E taskID
               \<lparr>tskp_Summary = summary, tskp_Description = None,
                tskp_State = (case state of None \<Rightarrow> None | Some st \<Rightarrow> taskStateToStorage st),
                tskp_AssigneeID = None, tskp_BlockedReason = None\<rparr>);
             case u of
               Inl e \<Rightarrow> ret (if e = ErrNotFound then rejected ''task_not_found''
                            else if e = ErrInvalidState then rejected ''invalid_state''
                            else Inl (Internal ''update task'' (Some e)))
             | Inr t \<Rightarrow> do {
                 m \<leftarrow> RecordTaskMutation E P t
                   (if state = None then EVENT_OPERATION_UPDATED else EVENT_OPERATION_STATE_CHANGED);
                 ret (case m of
                        Some e \<Rightarrow> Inl (Internal ''append task event'' e)
                      | None \<Rightarrow> Inr (UpdateTaskResponse (Some (taskToProto E t)) [], True))
               }
           })"

definition update_task_call ::
  "senv \<Rightarrow> 'p proto_codec_scheme \<Rightarrow> string \<Rightarrow> string \<Rightarrow> string \<Rightarrow> string option \<Rightarrow> TaskState option \<Rightarrow>
     (rpc_err + proto_msg) rpc" where
  "update_task_call E P requestID key taskID summary state =
     idempotent E P ''UpdateTask'' requestID key (update_task_body E P taskID summary state)"

section \<open>Where a message may be delivered\<close>

text \<open>
  The specification: the message a chat sent that another one answers, the subscription of a chat, and
  whether it lets a message of the server through.
\<close>

definition message_at :: "senv \<Rightarrow> store \<Rightarrow> string \<Rightarrow> string \<Rightarrow> Message \<Rightarrow> bool" where
  "message_at E d target i m \<longleftrightarrow>
     (\<exists>row \<in> set (messages d). msgr_ID row = i \<and> (target \<noteq> [] \<longrightarrow> msgr_Target row = target) \<and> m = messageFromEnt E row)"

definition answers :: "senv \<Rightarrow> store \<Rightarrow> Message \<Rightarrow> Message \<Rightarrow> bool" where
  "answers E d msg source \<longleftrightarrow> has_source source \<and>
     (source = msg \<or>
      (\<exists>parent. message_at E d (msg_Target msg) (msg_ReplyToMessageID msg) parent \<and>
         (source = parent \<or> message_at E d (msg_Target parent) (msg_ThreadID parent) source)))"

definition chat_subscription :: "json_codec \<Rightarrow> store \<Rightarrow> InteractionEndpoint \<Rightarrow> Message \<Rightarrow> IMChatSubscription list" where
  "chat_subscription J d ep source =
     (let identity = imChatIdentityFromMetadata J (msg_MetadataJSON source)
      in filter (\<lambda>s. TrimSpace (iep_ID ep) \<noteq> [] \<and> imsub_EndpointID s = TrimSpace (iep_ID ep) \<and>
           imsub_ConversationID s = ici_ConversationID identity \<and>
           imsub_ExternalThreadID s = ici_ExternalThreadID identity) (subscriptions d))"

definition chat_allows :: "senv \<Rightarrow> json_codec \<Rightarrow> store \<Rightarrow> InteractionEndpoint \<Rightarrow> Message \<Rightarrow> Message \<Rightarrow> bool" where
  "chat_allows E J d ep source msg \<longleftrightarrow>
     \<not> equal_fold_word (iep_Kind ep) ''im'' \<or>
     ici_ConversationID (imChatIdentityFromMetadata J (msg_MetadataJSON source)) = [] \<or>
     (case chat_subscription J d ep source of
        [] \<Rightarrow> \<not> imEndpointRequiresChatSubscription E J ep
      | s # _ \<Rightarrow> imsub_Subscribed s \<and> (imsub_Verbose s \<or> \<not> verboseOnlyOutboundMessage E msg))"

definition as_source :: "senv \<Rightarrow> json_codec \<Rightarrow> store \<Rightarrow> Message \<Rightarrow> OutboundDelivery \<Rightarrow> InteractionEndpoint \<Rightarrow> bool" where
  "as_source E J d msg row ep \<longleftrightarrow>
     (\<exists>source. answers E d msg source \<and> msg_SourceEndpointID source = iep_ID ep \<and>
        odlv_ExternalMessageID row = msg_ExternalMessageID source \<and> chat_allows E J d ep source msg)"

definition as_routed :: "store \<Rightarrow> Message \<Rightarrow> OutboundDelivery \<Rightarrow> InteractionEndpoint \<Rightarrow> bool" where
  "as_routed d msg row ep \<longleftrightarrow> odlv_ExternalMessageID row = [] \<and>
     (\<exists>route \<in> set (routes d). nroute_EndpointID route = iep_ID ep \<and>
        eligible (TrimSpace (msg_Target msg)) (TrimSpace (msg_ThreadID msg)) ''message'' route)"

text \<open>A new delivery of a message to an endpoint that accepts deliveries, for a reason \<open>why\<close>.\<close>

definition queued_for ::
  "store \<Rightarrow> Message \<Rightarrow> (OutboundDelivery \<Rightarrow> InteractionEndpoint \<Rightarrow> bool) \<Rightarrow> OutboundDelivery \<Rightarrow> bool" where
  "queued_for d msg why row \<longleftrightarrow>
     odlv_Status row = ''pending'' \<and> odlv_AttemptCount row = 0 \<and> odlv_Target row = msg_Target msg \<and>
     odlv_MessageID row = msg_ID msg \<and>
     (\<exists>ep \<in> set (endpoints d). iep_ID ep = odlv_EndpointID row \<and> iep_OutboundEnabled ep \<and>
        odlv_EndpointKind row = iep_Kind ep \<and> why row ep)"

section \<open>What queueing does\<close>

text \<open>The database has grown by the deliveries \<open>ds\<close>, and as many events have been announced.\<close>

definition queues :: "rpc_world \<Rightarrow> OutboundDelivery list \<Rightarrow> rpc_world \<Rightarrow> bool" where
  "queues r ds r' \<longleftrightarrow>
     db (on_disk r') = (db (on_disk r))\<lparr>deliveries := deliveries (db (on_disk r)) @ ds\<rparr> \<and>
     srv_eventSeq (server r') = srv_eventSeq (server r) + int (length ds)"

lemma queues_Nil: "db w = db (on_disk r) \<Longrightarrow> queues r [] (r\<lparr>on_disk := w\<rparr>)"
  by (simp add: queues_def)

lemma queues_refl [simp]: "queues r [] r"
  by (simp add: queues_def)

lemma queues_trans: "queues r ds r1 \<Longrightarrow> queues r1 ds' r2 \<Longrightarrow> queues r (ds @ ds') r2"
  by (simp add: queues_def)

lemma queues_read: "db w = db (on_disk r) \<Longrightarrow> queues (r\<lparr>on_disk := w\<rparr>) ds r' \<longleftrightarrow> queues r ds r'"
  by (simp add: queues_def)

lemma pending_normal: "normalizeOutboundDeliveryStatus E ''pending'' = ''pending''"
  by (subst normalizeOutboundDeliveryStatus_def, subst norm_word) (code_simp, simp)

lemma message_kind_normal: "normalizeNotificationEventKind E ''message'' = ''message''"
  by (subst normalizeNotificationEventKind_def, subst norm_word) (code_simp, simp add: ReplaceAll_char_def)

lemma CreateOutboundDelivery_run:
  assumes "run_state (CreateOutboundDelivery E (new_delivery msg ep x)) w = (res, w')"
  shows "case res of
      Inl _ \<Rightarrow> db w' = db w
    | Inr row \<Rightarrow> db w' = (db w)\<lparr>deliveries := deliveries (db w) @ [row]\<rparr> \<and>
        (\<exists>i t. row = (new_delivery msg ep x)\<lparr>odlv_ID := i, odlv_CreatedUnix := t, odlv_UpdatedUnix := t\<rparr>)"
  using assms unfolding CreateOutboundDelivery_def Let_def
  by (elim run_elims)
    (auto simp: new_delivery_def pending_normal through_def OutboundDeliveryEnt_def
      dest!: now_run defaultID_run create_run split: sum.splits)

lemma enqueue_delivery_run:
  assumes "run_state (enqueue_delivery E (new_delivery msg ep x)) r = (res, r')"
  shows "case res of
      Inl _ \<Rightarrow> queues r [] r'
    | Inr row \<Rightarrow> queues r [row] r' \<and>
        (\<exists>i t. row = (new_delivery msg ep x)\<lparr>odlv_ID := i, odlv_CreatedUnix := t, odlv_UpdatedUnix := t\<rparr>)"
  using assms unfolding enqueue_delivery_def EmitOutboundDeliveryEvent_def
  by (elim rpc_elims) (auto dest!: CreateOutboundDelivery_run newID_run now_run simp: queues_def)

lemma endpoint_run:
  assumes "run_state (GetInteractionEndpoint E i) w = (res, w')"
  shows "db w' = db w \<and> (case res of
      Inl e \<Rightarrow> e = ErrNotFound \<longrightarrow> (\<forall>ep \<in> set (endpoints (db w)). iep_ID ep \<noteq> i)
    | Inr ep \<Rightarrow> ep \<in> set (endpoints (db w)) \<and> iep_ID ep = i \<and> (\<forall>ep' \<in> set (endpoints (db w)). iep_ID ep' = i \<longrightarrow> ep' = ep))"
  using assms GetInteractionEndpoint_run [OF assms] unfolding GetInteractionEndpoint_def
  by (elim run_elims) (auto dest!: only_run filter_singletonD simp: through_def InteractionEndpointEnt_def split: sum.splits)

lemma GetMessage_run:
  assumes "run_state (GetMessage E target i) w = (res, w')"
  shows "db w' = db w \<and> (\<forall>m. res = Inr m \<longrightarrow> message_at E (db w) target i m)"
  using assms unfolding GetMessage_def message_at_def
  by (elim run_elims) (auto dest!: only_run filter_singletonD simp: through_def MessageEnt_def split: sum.splits)

lemma sourceMessageForOutbound_run:
  assumes "run_state (sourceMessageForOutbound E msg) w = (res, w')"
  shows "db w' = db w \<and> (\<forall>source. res = Inr (Some source) \<longrightarrow> answers E (db w) msg source)"
  using assms unfolding sourceMessageForOutbound_def answers_def
  by (elim run_elims) (auto dest!: GetMessage_run split: sum.splits if_splits)

lemma IMChatSubscription_run:
  assumes "run_state (GetIMChatSubscription E ep conv thread) w = (res, w')"
  defines "rows \<equiv> filter (\<lambda>s. TrimSpace ep \<noteq> [] \<and> imsub_EndpointID s = TrimSpace ep \<and>
    imsub_ConversationID s = TrimSpace conv \<and> imsub_ExternalThreadID s = TrimSpace thread) (subscriptions (db w))"
  shows "db w' = db w \<and> (TrimSpace conv \<noteq> [] \<longrightarrow>
     (case res of Inl e \<Rightarrow> e = ErrNotFound \<longrightarrow> rows = [] | Inr s \<Rightarrow> rows = [s]))"
  using assms(1) unfolding GetIMChatSubscription_def Let_def rows_def
  by (elim run_elims) (auto dest!: only_run simp: through_def notFound_def IMChatSubscriptionEnt_def
    split: sum.splits if_splits)

lemma suppress_run:
  assumes "run_state (suppressIMChatSourceDelivery E J ep source msg) w = (res, w')"
  shows "db w' = db w \<and> (\<forall>b. res = Inr b \<longrightarrow> (b \<longleftrightarrow> \<not> chat_allows E J (db w) ep source msg))"
proof -
  let ?id = "imChatIdentityFromMetadata J (msg_MetadataJSON source)"
  have trim: "TrimSpace (ici_ConversationID ?id) = ici_ConversationID ?id"
      "TrimSpace (ici_ExternalThreadID ?id) = ici_ExternalThreadID ?id"
    by (simp_all add: imChatIdentityFromMetadata_def Let_def)
  show ?thesis
    using assms unfolding suppressIMChatSourceDelivery_def Let_def chat_allows_def chat_subscription_def
    by (elim run_elims) (auto dest!: IMChatSubscription_run simp: trim split: sum.splits if_splits)
qed

lemma queued_forI:
  assumes "run_state (enqueue_delivery E (new_delivery msg ep x)) r = (Inr row, r')"
    and "ep \<in> set (endpoints d)" and "iep_OutboundEnabled ep"
    and "\<And>q. odlv_ExternalMessageID q = x \<Longrightarrow> why q ep"
  shows "queued_for d msg why row"
  using enqueue_delivery_run [OF assms(1)] assms(2-4) by (auto simp: queued_for_def new_delivery_def)

lemmas outbound_reads = sourceMessageForOutbound_run [THEN conjunct1] endpoint_run [THEN conjunct1]
  suppress_run [THEN conjunct1]

lemma EnqueueSource_run:
  assumes "run_state (EnqueueSourceOutboundDelivery E J msg) r = (res, r')"
  shows "case res of
      Inl _ \<Rightarrow> queues r [] r'
    | Inr None \<Rightarrow> queues r [] r'
    | Inr (Some row) \<Rightarrow> queues r [row] r' \<and> queued_for (db (on_disk r)) msg (as_source E J (db (on_disk r)) msg) row"
  using assms unfolding EnqueueSourceOutboundDelivery_def
proof (elim rpc_elims, goal_cases)
  case (8 x r1 s source y r2 ep z r3 supp q r4 w1 w2 w3)
  have 1: "db w1 = db (on_disk r)" "answers E (db (on_disk r)) msg source"
    using sourceMessageForOutbound_run [OF 8(11)] 8(1,2) by simp_all
  have 2: "db w2 = db w1" "ep \<in> set (endpoints (db w1))" "iep_ID ep = msg_SourceEndpointID source"
    using endpoint_run [OF 8(13)] 8(4,12) by simp_all
  have 3: "db w3 = db w2" "chat_allows E J (db w2) ep source msg"
    using suppress_run [OF 8(15)] 8(6,7,14) by auto
  note spec = 1 2 3 [unfolded 2(1)]
  have r3: "r3 = r\<lparr>on_disk := w3\<rparr>" using 8 by simp
  show ?case
  proof (cases q)
    case (Inl e)
    then show ?thesis
      using 8(5,9,10) enqueue_delivery_run [OF 8(8)] spec by (auto simp: r3 queues_read)
  next
    case (Inr row)
    have "queued_for (db (on_disk r)) msg (as_source E J (db (on_disk r)) msg) row"
      by (rule queued_forI [OF 8(8) [unfolded Inr]]) (use spec 8(5) in \<open>auto simp: as_source_def\<close>)
    then show ?thesis
      using 8(9,10) Inr enqueue_delivery_run [OF 8(8)] spec by (auto simp: r3 queues_read)
  qed
qed (auto dest!: outbound_reads simp: queues_def split: if_splits)

definition routed_by :: "NotificationRoute list \<Rightarrow> OutboundDelivery \<Rightarrow> InteractionEndpoint \<Rightarrow> bool" where
  "routed_by rs row ep \<longleftrightarrow> odlv_ExternalMessageID row = [] \<and> iep_ID ep \<in> nroute_EndpointID ` set rs"

lemma queued_for_endpoints: "endpoints d = endpoints d' \<Longrightarrow> queued_for d msg why row = queued_for d' msg why row"
  by (simp add: queued_for_def)

definition routes_queued ::
  "store \<Rightarrow> Message \<Rightarrow> string set \<Rightarrow> OutboundDelivery list \<Rightarrow> NotificationRoute list \<Rightarrow>
     err + OutboundDelivery list \<Rightarrow> OutboundDelivery list \<Rightarrow> bool" where
  "routes_queued d msg seenEndpoints out rs res ds \<longleftrightarrow>
     distinct (map odlv_EndpointID ds) \<and> odlv_EndpointID ` set ds \<inter> seenEndpoints = {} \<and>
     (\<forall>row \<in> set ds. queued_for d msg (routed_by rs) row) \<and>
     (\<forall>xs. res = Inr xs \<longrightarrow> xs = out @ ds \<and>
       (\<forall>ep \<in> set (endpoints d). iep_OutboundEnabled ep \<longrightarrow> iep_ID ep \<in> nroute_EndpointID ` set rs \<longrightarrow>
          iep_ID ep \<in> seenEndpoints \<union> odlv_EndpointID ` set ds))"

lemma queued_for_mono: "(\<And>ep. why row ep \<Longrightarrow> why' row ep) \<Longrightarrow> queued_for d msg why row \<Longrightarrow> queued_for d msg why' row"
  unfolding queued_for_def by blast

lemma queued_for_more: "queued_for d msg (routed_by rs) row \<Longrightarrow> queued_for d msg (routed_by (route # rs)) row"
  by (erule queued_for_mono [rotated]) (simp add: routed_by_def)

lemma routes_queued_Nil: "routes_queued d msg seenEndpoints out [] (Inr out) []"
  by (simp add: routes_queued_def)

lemma routes_queued_stop: "routes_queued d msg seenEndpoints out rs (Inl e) []"
  by (simp add: routes_queued_def)

lemma routes_queued_skip:
  assumes "routes_queued d msg seenEndpoints out rs res ds"
    and "\<And>ep. ep \<in> set (endpoints d) \<Longrightarrow> iep_OutboundEnabled ep \<Longrightarrow> iep_ID ep = nroute_EndpointID route \<Longrightarrow>
      iep_ID ep \<in> seenEndpoints"
  shows "routes_queued d msg seenEndpoints out (route # rs) res ds"
  using assms queued_for_more unfolding routes_queued_def by auto

lemma routes_queued_step:
  assumes "routes_queued d msg (insert (nroute_EndpointID route) seenEndpoints) (out @ [row]) rs res ds"
    and "queued_for d msg (routed_by (route # rs)) row" and "odlv_EndpointID row = nroute_EndpointID route"
    and "nroute_EndpointID route \<notin> seenEndpoints"
  shows "routes_queued d msg seenEndpoints out (route # rs) res (row # ds)"
  using assms queued_for_more unfolding routes_queued_def by auto

lemma routes_queued_endpoints:
  "endpoints d = endpoints d' \<Longrightarrow> routes_queued d = routes_queued d'"
  by (intro ext) (simp add: routes_queued_def queued_for_endpoints [of d d'])

lemma enqueue_routes_run:
  assumes "run_state (enqueue_routes E msg seenEndpoints out rs) r = (res, r')"
  shows "\<exists>ds. queues r ds r' \<and> routes_queued (db (on_disk r)) msg seenEndpoints out rs res ds"
  using assms
proof (induction rs arbitrary: seenEndpoints out r)
  case Nil
  then have "res = Inr out" and "r' = r" by simp_all
  then show ?case using routes_queued_Nil queues_refl by blast
next
  case (Cons route rs)
  have skip: ?case
    if "run_state (enqueue_routes E msg seenEndpoints out rs) (r\<lparr>on_disk := w\<rparr>) = (res, r')" and "db w = db (on_disk r)"
      and "\<And>ep. ep \<in> set (endpoints (db (on_disk r))) \<Longrightarrow> iep_OutboundEnabled ep \<Longrightarrow>
        iep_ID ep = nroute_EndpointID route \<Longrightarrow> iep_ID ep \<in> seenEndpoints" for w
    using Cons.IH [OF that(1)] routes_queued_skip [OF _ that(3)] by (auto simp: queues_read that(2))
  have stop: ?case if "res = Inl e" and "queues r [] r'" for e
    using that routes_queued_stop by auto
  from Cons.prems show ?case
    unfolding enqueue_routes.simps
  proof (elim rpc_elims, goal_cases)
    case 1
    then show ?case by (intro skip [of "on_disk r"]) simp_all
  next
    case (2 x r1 e w)
    then show ?case using endpoint_run [OF 2(5)] by (intro skip [of w]) auto
  next
    case (3 x r1 e w)
    then show ?case using endpoint_run [OF 3(6)] by (intro stop) (auto simp: queues_def)
  next
    case (4 x r1 ep w)
    then show ?case using endpoint_run [OF 4(5)] by (intro skip [of w]) auto
  next
    case (5 x r1 ep y r2 e w)
    then show ?case
      using endpoint_run [OF 5(8)] enqueue_delivery_run [OF 5(4)] by (intro stop [of e]) (auto simp: queues_read)
  next
    case (6 x r1 ep y r2 row w)
    have w: "db w = db (on_disk r)" and ep: "ep \<in> set (endpoints (db (on_disk r)))" "iep_ID ep = nroute_EndpointID route"
      using endpoint_run [OF 6(7)] 6(2) by simp_all
    have row: "queues r [row] r2" "odlv_EndpointID row = nroute_EndpointID route"
      using enqueue_delivery_run [OF 6(4)] 6(5,8) ep w by (auto simp: queues_read new_delivery_def)
    have why: "queued_for (db (on_disk r)) msg (routed_by (route # rs)) row"
      by (rule queued_forI [OF 6(4) [unfolded 6(5)] ep(1)]) (use 6(3) ep in \<open>auto simp: routed_by_def\<close>)
    obtain ds where "queues r2 ds r'" and rest: "routes_queued (db (on_disk r2)) msg
        (insert (nroute_EndpointID route) seenEndpoints) (out @ [row]) rs res ds"
      using Cons.IH [OF 6(6)] by blast
    then have "queues r (row # ds) r'" using queues_trans [OF row(1)] by fastforce
    moreover have "endpoints (db (on_disk r2)) = endpoints (db (on_disk r))" using row(1) by (simp add: queues_def)
    then have "routes_queued (db (on_disk r)) msg seenEndpoints out (route # rs) res (row # ds)"
      using rest why row(2) 6(1) by (intro routes_queued_step) (simp_all cong: routes_queued_endpoints)
    ultimately show ?case by blast
  qed
qed

lemma resolve_db:
  assumes "run_state (ResolveNotificationRoutes E opts) w = (res, w')"
  shows "db w' = db w"
  using assms unfolding ResolveNotificationRoutes_def ListNotificationRoutes_def Let_def
  by (elim run_elims) (auto dest!: all_run)

abbreviation routable :: "store \<Rightarrow> Message \<Rightarrow> InteractionEndpoint \<Rightarrow> bool" where
  "routable d msg ep \<equiv> \<exists>route \<in> set (routes d). nroute_EndpointID route = iep_ID ep \<and>
     eligible (TrimSpace (msg_Target msg)) (TrimSpace (msg_ThreadID msg)) ''message'' route"

lemma resolved_routable:
  assumes "run_state (ResolveNotificationRoutes E \<lparr>nrouter_Target = msg_Target msg, nrouter_ThreadID = msg_ThreadID msg,
      nrouter_EventKind = ''message'', nrouter_Limit = 100\<rparr>) w = (Inr rs, w')"
  shows "routed_by rs row ep \<Longrightarrow> as_routed (db w) msg row ep"
    and "length (enabled_at (TrimSpace (msg_Target msg)) (db w)) < 100 \<Longrightarrow> routable (db w) msg ep \<Longrightarrow>
      iep_ID ep \<in> nroute_EndpointID ` set rs"
proof -
  show "as_routed (db w) msg row ep" if "routed_by rs row ep"
    using that resolved_sound(2) [OF assms] by (auto simp: routed_by_def as_routed_def message_kind_normal)
  assume few: "length (enabled_at (TrimSpace (msg_Target msg)) (db w)) < 100" and "routable (db w) msg ep"
  then obtain route where route: "route \<in> set (routes (db w))" "nroute_EndpointID route = iep_ID ep"
      "eligible (TrimSpace (msg_Target msg)) (TrimSpace (msg_ThreadID msg)) ''message'' route"
    by blast
  have "set rs \<subseteq> set (enabled_at (TrimSpace (msg_Target msg)) (db w))"
    using resolved_sound(2) [OF assms] by (auto simp: eligible_def)
  moreover have "distinct rs" using resolved_sound(1) [OF assms] by (auto simp: distinct_map)
  ultimately have "length rs < 100"
    using few by (metis (no_types, lifting) List.finite_set card_length card_mono distinct_card le_less_trans order_trans)
  then show "iep_ID ep \<in> nroute_EndpointID ` set rs"
    using resolved_complete [OF assms, of route] few route
    by (simp add: message_kind_normal clamp_limit_def)
qed

text \<open>
  With fewer than 100 enabled routes at the target, no endpoint that accepts deliveries and has an
  eligible route is left out of \<open>ds\<close>.
\<close>

definition covered :: "store \<Rightarrow> Message \<Rightarrow> OutboundDelivery list \<Rightarrow> bool" where
  "covered d msg ds \<longleftrightarrow>
     (TrimSpace (msg_Target msg) \<noteq> [] \<longrightarrow> length (enabled_at (TrimSpace (msg_Target msg)) d) < 100 \<longrightarrow>
       (\<forall>ep \<in> set (endpoints d). iep_OutboundEnabled ep \<longrightarrow> routable d msg ep \<longrightarrow>
          iep_ID ep \<in> odlv_EndpointID ` set ds))"

lemma resolve_invalid:
  assumes "run_state (ResolveNotificationRoutes E \<lparr>nrouter_Target = target, nrouter_ThreadID = t,
      nrouter_EventKind = ''message'', nrouter_Limit = l\<rparr>) w = (Inl ErrInvalidState, w')"
  shows "TrimSpace target = []"
  using assms unfolding ResolveNotificationRoutes_def ListNotificationRoutes_def Let_def
  by (elim run_elims) (auto simp: message_kind_normal validNotificationEventKind_def through_Inl_iff plain_def
    split: sum.splits if_splits)

lemma source_part:
  assumes "run_state (if includeSource then EnqueueSourceOutboundDelivery E J msg else ret (Inr None)) r = (res, r')"
  defines "d \<equiv> db (on_disk r)"
  shows "\<exists>ds. queues r ds r' \<and> length ds \<le> 1 \<and>
    (\<forall>row \<in> set ds. queued_for d msg (\<lambda>row ep. includeSource \<and> as_source E J d msg row ep) row) \<and>
    (\<forall>found. res = Inr found \<longrightarrow> ds = (case found of None \<Rightarrow> [] | Some row \<Rightarrow> [row]))"
proof (cases includeSource)
  case True
  with assms(1) have "run_state (EnqueueSourceOutboundDelivery E J msg) r = (res, r')" by simp
  note run = EnqueueSource_run [OF this]
  show ?thesis
  proof (cases "\<exists>row. res = Inr (Some row)")
    case True
    then obtain row where "res = Inr (Some row)" by blast
    with run \<open>includeSource\<close> show ?thesis by (intro exI [of _ "[row]"]) (simp add: d_def)
  next
    case False
    with run have "queues r [] r'" by (auto split: sum.splits option.splits)
    with False show ?thesis by (intro exI [of _ "[]"]) (auto split: option.splits)
  qed
qed (use assms in \<open>auto intro!: exI [of _ "[]"]\<close>)

text \<open>The routed deliveries of a message, after those to its source in \<open>out\<close>.\<close>

lemma routes_part:
  assumes "run_state (State_Monad.bind (store_call (ResolveNotificationRoutes E
       \<lparr>nrouter_Target = msg_Target msg, nrouter_ThreadID = msg_ThreadID msg, nrouter_EventKind = ''message'',
        nrouter_Limit = 100\<rparr>))
     (\<lambda>rs. case rs of
        Inl e \<Rightarrow> ret (if e = ErrInvalidState then Inr out else Inl e)
      | Inr rest \<Rightarrow> enqueue_routes E msg (set (map odlv_EndpointID out)) out rest)) r = (res, r')"
  defines "d \<equiv> db (on_disk r)"
  shows "\<exists>ds. queues r ds r' \<and> distinct (map odlv_EndpointID ds) \<and>
    set (map odlv_EndpointID ds) \<inter> set (map odlv_EndpointID out) = {} \<and>
    (\<forall>row \<in> set ds. queued_for d msg (as_routed d msg) row) \<and>
    (\<forall>xs. res = Inr xs \<longrightarrow> xs = out @ ds \<and> covered d msg xs)"
  using assms(1)
proof (elim run_bindE run_sumE run_retE store_callE, goal_cases)
  case (1 x r1 e w)
  have "queues r [] r'" using 1(3,5) resolve_db [OF 1(4)] by (simp add: queues_Nil)
  moreover have "TrimSpace (msg_Target msg) = []" if "res = Inr xs" for xs
    using that 1(1,2) resolve_invalid [of E "msg_Target msg" "msg_ThreadID msg" 100 "on_disk r" w] 1(4)
    by (simp split: if_splits)
  ultimately show ?case using 1(2) by (intro exI [of _ "[]"]) (auto simp: covered_def split: if_splits)
next
  case (2 x r1 rs w)
  note resolved = resolved_routable [OF 2(3) [unfolded 2(1)], folded d_def]
  have w: "db w = d" using resolve_db [OF 2(3)] by (simp add: d_def)
  obtain ds where "queues r1 ds r'" and ds: "routes_queued d msg (set (map odlv_EndpointID out)) out rs res ds"
    using enqueue_routes_run [OF 2(2)] 2(4) w by auto
  then have "queues r ds r'" using 2(4) w by (simp add: queues_read d_def)
  moreover have "queued_for d msg (as_routed d msg) row" if "row \<in> set ds" for row
    using ds that resolved(1) unfolding routes_queued_def by (blast intro: queued_for_mono)
  moreover have "covered d msg (out @ ds)" if "res = Inr xs" for xs
    unfolding covered_def
  proof (intro impI ballI)
    fix ep assume "length (enabled_at (TrimSpace (msg_Target msg)) d) < 100" and ep: "ep \<in> set (endpoints d)"
      "iep_OutboundEnabled ep" and "routable d msg ep"
    then have "iep_ID ep \<in> nroute_EndpointID ` set rs" by (intro resolved(2))
    with ds that ep show "iep_ID ep \<in> odlv_EndpointID ` set (out @ ds)"
      unfolding routes_queued_def set_map set_append image_Un by blast
  qed
  ultimately show ?case
    using ds unfolding routes_queued_def set_map by (intro exI [of _ ds]) blast
qed

lemma queue_frame:
  "as_routed (d\<lparr>deliveries := rows\<rparr>) = as_routed d"
  "covered (d\<lparr>deliveries := rows\<rparr>) = covered d"
  "queued_for (d\<lparr>deliveries := rows\<rparr>) = queued_for d"
  by (intro ext; simp add: as_routed_def covered_def queued_for_def)+

lemma routed_run:
  assumes "run_state (enqueueRoutedOutboundDeliveries E J msg includeSource) r = (res, r')"
  defines "d \<equiv> db (on_disk r)"
  shows "\<exists>ds. queues r ds r' \<and> distinct (map odlv_EndpointID ds) \<and>
    (\<forall>row \<in> set ds. queued_for d msg (\<lambda>row ep. includeSource \<and> as_source E J d msg row ep \<or> as_routed d msg row ep) row) \<and>
    (\<forall>xs. res = Inr xs \<longrightarrow> xs = ds \<and> covered d msg ds)"
proof -
  from assms(1) obtain x r1 where first: "run_state (if includeSource then EnqueueSourceOutboundDelivery E J msg
      else ret (Inr None)) r = (x, r1)"
    and rest: "run_state (case x of Inl e \<Rightarrow> ret (Inl e) | Inr source \<Rightarrow>
        let out = (case source of None \<Rightarrow> [] | Some d \<Rightarrow> [d])
        in State_Monad.bind (store_call (ResolveNotificationRoutes E
              \<lparr>nrouter_Target = msg_Target msg, nrouter_ThreadID = msg_ThreadID msg, nrouter_EventKind = ''message'',
               nrouter_Limit = 100\<rparr>))
            (\<lambda>rs. case rs of
               Inl e \<Rightarrow> ret (if e = ErrInvalidState then Inr out else Inl e)
             | Inr rest \<Rightarrow> enqueue_routes E msg (set (map odlv_EndpointID out)) out rest)) r1 = (res, r')"
    unfolding enqueueRoutedOutboundDeliveries_def by (rule run_bindE)
  obtain ds where ds: "queues r ds r1" "length ds \<le> 1"
    and why: "\<And>row. row \<in> set ds \<Longrightarrow> queued_for d msg (\<lambda>row ep. includeSource \<and> as_source E J d msg row ep) row"
    and found: "\<And>f. x = Inr f \<Longrightarrow> ds = (case f of None \<Rightarrow> [] | Some row \<Rightarrow> [row])"
    using source_part [OF first] unfolding d_def by blast
  have one: "distinct (map odlv_EndpointID ds)" using ds(2) by (cases ds) simp_all
  have why: "queued_for d msg (\<lambda>row ep. includeSource \<and> as_source E J d msg row ep \<or> as_routed d msg row ep) row"
    if "row \<in> set ds" for row
    by (rule queued_for_mono [OF _ why [OF that]]) blast
  show ?thesis
  proof (cases x)
    case (Inl e)
    with rest have "res = Inl e" and "r' = r1" by simp_all
    with ds(1) one why show ?thesis by blast
  next
    case (Inr f)
    have d1: "db (on_disk r1) = d\<lparr>deliveries := deliveries d @ ds\<rparr>" using ds(1) by (simp add: queues_def d_def)
    obtain more where "queues r1 more r'" and "distinct (map odlv_EndpointID more)"
      and "set (map odlv_EndpointID more) \<inter> set (map odlv_EndpointID ds) = {}"
      and routed: "\<forall>row \<in> set more. queued_for d msg (as_routed d msg) row"
      and result: "\<forall>xs. res = Inr xs \<longrightarrow> xs = ds @ more \<and> covered d msg xs"
      using routes_part [OF rest [unfolded Inr sum.case Let_def, folded found [OF Inr]], unfolded d1 queue_frame] by blast
    moreover have "queued_for d msg (\<lambda>row ep. includeSource \<and> as_source E J d msg row ep \<or> as_routed d msg row ep) row"
      if "row \<in> set more" for row
      by (rule queued_for_mono [OF _ bspec [OF routed that]]) blast
    ultimately have "queues r (ds @ more) r' \<and> distinct (map odlv_EndpointID (ds @ more)) \<and>
      (\<forall>row \<in> set (ds @ more). queued_for d msg
         (\<lambda>row ep. includeSource \<and> as_source E J d msg row ep \<or> as_routed d msg row ep) row)"
      using one why queues_trans [OF ds(1)] by (simp add: Int_commute) blast
    with result show ?thesis by blast
  qed
qed

text \<open>Which reasons a policy admits.\<close>

definition may_deliver ::
  "senv \<Rightarrow> json_codec \<Rightarrow> store \<Rightarrow> Message \<Rightarrow> OutboundPolicy \<Rightarrow> OutboundDelivery \<Rightarrow> InteractionEndpoint \<Rightarrow> bool" where
  "may_deliver E J d msg policy row ep \<longleftrightarrow>
     (case policy of
        OUTBOUND_POLICY_NONE \<Rightarrow> False
      | OUTBOUND_POLICY_ALL_BOUND_ENDPOINTS \<Rightarrow> as_source E J d msg row ep \<or> as_routed d msg row ep
      | OUTBOUND_POLICY_SELECTED_ENDPOINTS \<Rightarrow> as_routed d msg row ep
      | _ \<Rightarrow> as_source E J d msg row ep)"

definition routed_policy :: "OutboundPolicy \<Rightarrow> bool" where
  "routed_policy policy \<longleftrightarrow> policy = OUTBOUND_POLICY_ALL_BOUND_ENDPOINTS \<or> policy = OUTBOUND_POLICY_SELECTED_ENDPOINTS"

lemma source_only_run:
  assumes "run_state (State_Monad.bind (EnqueueSourceOutboundDelivery E J msg) (\<lambda>x.
      ret (case x of Inl e \<Rightarrow> Inl e | Inr None \<Rightarrow> Inr [] | Inr (Some delivery) \<Rightarrow> Inr [delivery]))) r = (res, r')"
  defines "d \<equiv> db (on_disk r)"
  shows "\<exists>ds. queues r ds r' \<and> distinct (map odlv_EndpointID ds) \<and>
    (\<forall>row \<in> set ds. queued_for d msg (as_source E J d msg) row) \<and> (\<forall>xs. res = Inr xs \<longrightarrow> xs = ds)"
proof -
  from assms(1) obtain x where x: "run_state (EnqueueSourceOutboundDelivery E J msg) r = (x, r')"
    and res: "(case x of Inl e \<Rightarrow> Inl e | Inr None \<Rightarrow> Inr [] | Inr (Some delivery) \<Rightarrow> Inr [delivery]) = res"
    by (elim run_bindE run_retE) auto
  obtain ds where ds: "queues r ds r'" "length ds \<le> 1" "\<forall>row \<in> set ds. queued_for d msg (as_source E J d msg) row"
      "\<forall>found. x = Inr found \<longrightarrow> ds = (case found of None \<Rightarrow> [] | Some row \<Rightarrow> [row])"
    using source_part [of True E J msg r x r'] x unfolding d_def by (simp only: if_True simp_thms) blast
  moreover have "distinct (map odlv_EndpointID ds)" using ds(2) by (cases ds) simp_all
  moreover have "xs = ds" if "res = Inr xs" for xs
    using that res ds(4) by (auto split: sum.splits option.splits)
  ultimately show ?thesis by blast
qed

text \<open>
  C11: on every outcome, failures of the database included, queueing the
  deliveries of a message changes nothing in the database but new rows at the end of the deliveries, one
  per endpoint at most, and advances the counter of server events by their number; a successful answer
  lists exactly these. Each is pending, for that message, to an existing endpoint that accepts deliveries,
  and for a reason the policy admits: an enabled route of the target and thread for messages, or that the
  message answers one that came from that endpoint. In the second case, when the endpoint is a chat network,
  either the chat is subscribed (verbosely for a status message), or it has no subscription and the endpoint
  asks for none, or the answered message names no conversation: the code looks no subscription up for such a
  message, so that an unsubscribed chat is not spared then.
\<close>

theorem outbound_deliveries_justified:
  assumes "run_state (EnqueueOutboundDeliveries E J msg policy) r = (res, r')"
  shows "\<exists>ds. queues r ds r' \<and> distinct (map odlv_EndpointID ds) \<and>
    (\<forall>row \<in> set ds. queued_for (db (on_disk r)) msg (may_deliver E J (db (on_disk r)) msg policy) row) \<and>
    (\<forall>xs. res = Inr xs \<longrightarrow> xs = ds)"
proof -
  have may: "may_deliver E J d msg OUTBOUND_POLICY_ALL_BOUND_ENDPOINTS = (\<lambda>row ep. True \<and> as_source E J d msg row ep \<or> as_routed d msg row ep)"
    "may_deliver E J d msg OUTBOUND_POLICY_SELECTED_ENDPOINTS = (\<lambda>row ep. False \<and> as_source E J d msg row ep \<or> as_routed d msg row ep)"
    for d by (intro ext; simp add: may_deliver_def)+
  have other: "may_deliver E J d msg policy = as_source E J d msg"
    if "\<not> routed_policy policy" and "policy \<noteq> OUTBOUND_POLICY_NONE" for d
    using that by (intro ext; cases policy) (simp_all add: may_deliver_def routed_policy_def)
  consider "policy = OUTBOUND_POLICY_NONE" | "policy = OUTBOUND_POLICY_ALL_BOUND_ENDPOINTS"
    | "policy = OUTBOUND_POLICY_SELECTED_ENDPOINTS" | "\<not> routed_policy policy" "policy \<noteq> OUTBOUND_POLICY_NONE"
    by (auto simp: routed_policy_def)
  then show ?thesis
  proof cases
    case 1
    with assms show ?thesis by (intro exI [of _ "[]"]) (auto simp: EnqueueOutboundDeliveries_def)
  next
    case 2
    then show ?thesis using routed_run [of E J msg True r res r'] assms
      by (simp only: EnqueueOutboundDeliveries_def OutboundPolicy.case may) blast
  next
    case 3
    then show ?thesis using routed_run [of E J msg False r res r'] assms
      by (simp only: EnqueueOutboundDeliveries_def OutboundPolicy.case may) blast
  next
    case 4
    have "run_state (State_Monad.bind (EnqueueSourceOutboundDelivery E J msg) (\<lambda>x.
      ret (case x of Inl e \<Rightarrow> Inl e | Inr None \<Rightarrow> Inr [] | Inr (Some delivery) \<Rightarrow> Inr [delivery]))) r = (res, r')"
      using assms 4 by (cases policy) (simp_all only: EnqueueOutboundDeliveries_def OutboundPolicy.case routed_policy_def simp_thms)
    from source_only_run [OF this] show ?thesis by (simp only: other [OF 4])
  qed
qed

text \<open>
  C15: when a message is queued for the bound or the selected endpoints and the
  target has fewer than 100 enabled routes, a successful answer has a stored delivery for every endpoint
  that accepts deliveries and has an eligible route.
\<close>

theorem outbound_routes_covered:
  assumes "run_state (EnqueueOutboundDeliveries E J msg policy) r = (Inr ds, r')" and "routed_policy policy"
    and "TrimSpace (msg_Target msg) \<noteq> []"
    and "length (enabled_at (TrimSpace (msg_Target msg)) (db (on_disk r))) < 100"
    and "ep \<in> set (endpoints (db (on_disk r)))" and "iep_OutboundEnabled ep"
    and "route \<in> set (routes (db (on_disk r)))" and "nroute_EndpointID route = iep_ID ep"
    and "eligible (TrimSpace (msg_Target msg)) (TrimSpace (msg_ThreadID msg)) ''message'' route"
  shows "\<exists>row \<in> set (deliveries (db (on_disk r'))). row \<in> set ds \<and> odlv_EndpointID row = iep_ID ep \<and>
    odlv_MessageID row = msg_ID msg"
proof -
  obtain b where run: "run_state (enqueueRoutedOutboundDeliveries E J msg b) r = (Inr ds, r')"
    using assms(1,2) by (auto simp: EnqueueOutboundDeliveries_def routed_policy_def)
  obtain xs where xs: "queues r xs r'" "xs = ds" "covered (db (on_disk r)) msg xs"
    and why: "\<forall>row \<in> set xs. queued_for (db (on_disk r)) msg (\<lambda>row ep. b \<and> as_source E J (db (on_disk r)) msg row ep \<or>
      as_routed (db (on_disk r)) msg row ep) row"
    using routed_run [OF run] by blast
  have "routable (db (on_disk r)) msg ep" using assms(7-9) by blast
  with xs(3) assms(3-6) have "iep_ID ep \<in> odlv_EndpointID ` set xs" unfolding covered_def by blast
  then obtain row where row: "row \<in> set xs" "odlv_EndpointID row = iep_ID ep" by auto
  moreover have "odlv_MessageID row = msg_ID msg" using why row(1) unfolding queued_for_def by blast
  moreover have "row \<in> set (deliveries (db (on_disk r')))" using xs(1) row(1) by (simp add: queues_def)
  ultimately show ?thesis using xs(2) by blast
qed

section \<open>A reply to a subscribed chat\<close>

definition outbound_codec :: json_codec where
  "outbound_codec =
     \<lparr>json_parse = (\<lambda>s. if s = ''CFG'' then Some (JObject [(''require_subscription'', JBool True)])
        else if s = ''META'' then Some (JObject [(''im'', JObject [(''conversation'', JObject [(''external_id'', JString ''u1'')])])])
        else None),
      json_marshal = (\<lambda>_. Some ''{}'')\<rparr>"

definition chat_row :: MessageRow where
  "chat_row = \<lparr>msgr_ID = ''m1'', msgr_Target = ''#dev'', msgr_ThreadID = [], msgr_Role = ''user'', msgr_Content = ''hi'',
     msgr_ReplyToMessageID = [], msgr_SenderUserID = [], msgr_SenderAgentID = [], msgr_SenderDisplayName = [],
     msgr_SenderKind = ''endpoint'', msgr_SourceEndpointID = ''ep1'', msgr_ExternalMessageID = ''x1'',
     msgr_MetadataJSON = ''META'', msgr_AttachmentsJSON = [], msgr_RequestID = [], msgr_CreatedUnix = 0, msgr_Kind = []\<rparr>"

definition outbound_rpc :: rpc_world where
  "outbound_rpc = \<lparr>on_disk = world_of (empty_store\<lparr>messages := [chat_row],
       endpoints := [demo_endpoint, demo_endpoint\<lparr>iep_ID := ''e1'', iep_Kind := ''webhook''\<rparr>],
       subscriptions := [demo_subscription], routes := [demo_route ''r1'' ''e1'' ''all'' 9]\<rparr>),
     server = fresh_server ''s1''\<rparr>"

definition reply :: "string \<Rightarrow> Message" where
  "reply kind = no_message\<lparr>msg_ID := ''m2'', msg_Target := ''#dev'', msg_Kind := kind, msg_ReplyToMessageID := ''m1''\<rparr>"

definition replied :: "string \<Rightarrow> (err + OutboundDelivery list) \<times> rpc_world" where
  "replied kind = run_state (EnqueueOutboundDeliveries demo_env outbound_codec (reply kind)
     OUTBOUND_POLICY_ALL_BOUND_ENDPOINTS) outbound_rpc"

definition reached :: "string \<Rightarrow> (string \<times> string) list" where
  "reached kind = map (\<lambda>row. (odlv_EndpointID row, odlv_ExternalMessageID row)) (deliveries (db (on_disk (snd (replied kind)))))"

lemma replied_ok: "\<not> isl (fst (replied ''note''))"
  by code_simp

lemma reached_note: "reached ''note'' = [(''ep1'', ''x1''), (''e1'', [])]"
  by code_simp

lemma reached_status: "reached ''status'' = [(''e1'', [])]"
  by code_simp

text \<open>Witness: a note goes to the chat and along the route, a status message along the route only.\<close>

theorem outbound_deliveries_justified_witness:
  "reached ''note'' = [(''ep1'', ''x1''), (''e1'', [])] \<and> reached ''status'' = [(''e1'', [])] \<and>
   (\<exists>ds. queues outbound_rpc ds (snd (replied ''note'')) \<and> distinct (map odlv_EndpointID ds) \<and>
     list_all (\<lambda>row. queued_for (db (on_disk outbound_rpc)) (reply ''note'') (may_deliver demo_env outbound_codec
       (db (on_disk outbound_rpc)) (reply ''note'') OUTBOUND_POLICY_ALL_BOUND_ENDPOINTS) row) ds)"
proof -
  have "run_state (EnqueueOutboundDeliveries demo_env outbound_codec (reply ''note'')
      OUTBOUND_POLICY_ALL_BOUND_ENDPOINTS) outbound_rpc = (fst (replied ''note''), snd (replied ''note''))"
    by (simp add: replied_def)
  from outbound_deliveries_justified [OF this] show ?thesis
    using reached_note reached_status unfolding list_all_iff by blast
qed

theorem outbound_routes_covered_witness:
  "\<exists>row. row \<in> set (deliveries (db (on_disk (snd (replied ''note''))))) \<and> odlv_EndpointID row = ''e1'' \<and>
     odlv_MessageID row = ''m2''"
proof -
  let ?ep = "demo_endpoint\<lparr>iep_ID := ''e1'', iep_Kind := ''webhook''\<rparr>"
  have run: "run_state (EnqueueOutboundDeliveries demo_env outbound_codec (reply ''note'')
      OUTBOUND_POLICY_ALL_BOUND_ENDPOINTS) outbound_rpc = (Inr (projr (fst (replied ''note''))), snd (replied ''note''))"
    using replied_ok by (simp add: replied_def prod_eq_iff)
  have trim: "TrimSpace (msg_Target (reply ''note'')) = ''#dev''" "TrimSpace ''#dev'' = ''#dev''" "TrimSpace (msg_ThreadID (reply ''note'')) = []"
    by code_simp+
  have world: "endpoints (db (on_disk outbound_rpc)) = [demo_endpoint, ?ep]"
      "routes (db (on_disk outbound_rpc)) = [demo_route ''r1'' ''e1'' ''all'' 9]"
    by (simp_all add: outbound_rpc_def)
  show ?thesis
    using outbound_routes_covered [OF run, of ?ep "demo_route ''r1'' ''e1'' ''all'' 9"]
    by (auto simp: trim world routed_policy_def eligible_def demo_route_def demo_endpoint_def reply_def)
qed

end
