(* ===== verification/Daemon_Reminders.thy ===== *)
theory Daemon_Reminders
  imports Daemon_Messages Store_Reminders
begin

text \<open>
  The daemon control server (\<^verbatim>\<open>internal/daemonrpc/server.go\<close>), reminders: scheduling, listing, canceling,
  snoozing and updating them, and their log.
\<close>

section \<open>Conversions\<close>

definition reminderStatusToStorage :: "ReminderStatus \<Rightarrow> string" where
  "reminderStatusToStorage st =
     (case st of
        REMINDER_STATUS_ACTIVE \<Rightarrow> ''active'' | REMINDER_STATUS_DONE \<Rightarrow> ''done''
      | REMINDER_STATUS_CANCELED \<Rightarrow> ''canceled'' | REMINDER_STATUS_PAUSED \<Rightarrow> ''paused''
      | REMINDER_STATUS_FAILED \<Rightarrow> ''failed'' | _ \<Rightarrow> [])"

definition reminderStatusFromStorage :: "'z env_scheme \<Rightarrow> string \<Rightarrow> ReminderStatus" where
  "reminderStatusFromStorage E st0 =
     (let st = ToLower E (TrimSpace st0)
      in if st = ''active'' then REMINDER_STATUS_ACTIVE
         else if st = ''done'' then REMINDER_STATUS_DONE
         else if st = ''canceled'' \<or> st = ''cancelled'' then REMINDER_STATUS_CANCELED
         else if st = ''paused'' then REMINDER_STATUS_PAUSED
         else if st = ''failed'' then REMINDER_STATUS_FAILED
         else REMINDER_STATUS_UNSPECIFIED)"

definition reminderScheduleKindToStorage :: "ReminderScheduleKind \<Rightarrow> string" where
  "reminderScheduleKindToStorage kind =
     (case kind of
        REMINDER_SCHEDULE_KIND_CRON \<Rightarrow> ''cron'' | REMINDER_SCHEDULE_KIND_EVERY \<Rightarrow> ''every''
      | REMINDER_SCHEDULE_KIND_AT \<Rightarrow> ''at'' | REMINDER_SCHEDULE_KIND_RRULE \<Rightarrow> ''rrule''
      | REMINDER_SCHEDULE_KIND_NATURAL \<Rightarrow> ''natural'' | _ \<Rightarrow> [])"

definition reminderScheduleKindFromStorage :: "'z env_scheme \<Rightarrow> string \<Rightarrow> ReminderScheduleKind" where
  "reminderScheduleKindFromStorage E kind0 =
     (let kind = ToLower E (TrimSpace kind0)
      in if kind = ''cron'' then REMINDER_SCHEDULE_KIND_CRON
         else if kind = ''every'' then REMINDER_SCHEDULE_KIND_EVERY
         else if kind = ''at'' then REMINDER_SCHEDULE_KIND_AT
         else if kind = ''rrule'' then REMINDER_SCHEDULE_KIND_RRULE
         else if kind = ''natural'' then REMINDER_SCHEDULE_KIND_NATURAL
         else REMINDER_SCHEDULE_KIND_UNSPECIFIED)"

datatype ReminderEventType =
    REMINDER_EVENT_TYPE_UNSPECIFIED | REMINDER_EVENT_TYPE_CREATED | REMINDER_EVENT_TYPE_FIRED
  | REMINDER_EVENT_TYPE_SNOOZED | REMINDER_EVENT_TYPE_UPDATED | REMINDER_EVENT_TYPE_CANCELED
  | REMINDER_EVENT_TYPE_FAILED

datatype ReminderActorType =
    REMINDER_ACTOR_TYPE_UNSPECIFIED | REMINDER_ACTOR_TYPE_HUMAN | REMINDER_ACTOR_TYPE_AGENT | REMINDER_ACTOR_TYPE_SYSTEM

definition reminderEventTypeFromStorage :: "'z env_scheme \<Rightarrow> string \<Rightarrow> ReminderEventType" where
  "reminderEventTypeFromStorage E value0 =
     (let value = ToLower E (TrimSpace value0)
      in if value = ''created'' then REMINDER_EVENT_TYPE_CREATED
         else if value = ''fired'' then REMINDER_EVENT_TYPE_FIRED
         else if value = ''snoozed'' then REMINDER_EVENT_TYPE_SNOOZED
         else if value = ''updated'' then REMINDER_EVENT_TYPE_UPDATED
         else if value = ''canceled'' \<or> value = ''cancelled'' then REMINDER_EVENT_TYPE_CANCELED
         else if value = ''failed'' then REMINDER_EVENT_TYPE_FAILED
         else REMINDER_EVENT_TYPE_UNSPECIFIED)"

definition reminderActorTypeFromStorage :: "'z env_scheme \<Rightarrow> string \<Rightarrow> ReminderActorType" where
  "reminderActorTypeFromStorage E value0 =
     (let value = ToLower E (TrimSpace value0)
      in if value = ''human'' then REMINDER_ACTOR_TYPE_HUMAN
         else if value = ''agent'' then REMINDER_ACTOR_TYPE_AGENT
         else if value = ''system'' then REMINDER_ACTOR_TYPE_SYSTEM
         else REMINDER_ACTOR_TYPE_UNSPECIFIED)"

definition reminderToProto :: "'z env_scheme \<Rightarrow> Reminder \<Rightarrow> ReminderRecord" where
  "reminderToProto E r =
     \<lparr>rr_ReminderId = rem_ID r, rr_Target = rem_Target r,
      rr_ScheduleKind = reminderScheduleKindFromStorage E (rem_ScheduleKind r), rr_Schedule = rem_Schedule r,
      rr_Prompt = rem_Prompt r, rr_Enabled = rem_Enabled r, rr_NextRunUnix = rem_NextRunUnix r,
      rr_LastRunUnix = rem_LastRunUnix r, rr_RunCount = word_of_int (rem_RunCount r), rr_LastError = rem_LastError r,
      rr_Title = rem_Title r, rr_Status = reminderStatusFromStorage E (rem_Status r), rr_MsgRef = rem_MsgRef r,
      rr_CancelToken = rem_CancelToken r,
      rr_Recurrence =
        (if rem_RecurrenceRule r \<noteq> [] \<or> rem_RecurrenceDescription r \<noteq> [] \<or> rem_RecurrenceTimezone r \<noteq> []
         then Some \<lparr>rec_Rule = rem_RecurrenceRule r, rec_Description = rem_RecurrenceDescription r,
                    rec_Timezone = rem_RecurrenceTimezone r\<rparr>
         else None)\<rparr>"

record ProtoReminderEvent =
  re_EventId :: string
  re_ReminderId :: string
  re_EventType :: ReminderEventType
  re_ActorType :: ReminderActorType
  re_ActorId :: string
  re_OccurredTimeUnix :: int
  re_NextFireTimeUnix :: int
  re_Detail :: string

definition reminderEventToProto :: "'z env_scheme \<Rightarrow> ReminderEvent \<Rightarrow> ProtoReminderEvent" where
  "reminderEventToProto E ev =
     \<lparr>re_EventId = rev_ID ev, re_ReminderId = rev_ReminderID ev,
      re_EventType = reminderEventTypeFromStorage E (rev_EventType ev),
      re_ActorType = reminderActorTypeFromStorage E (rev_ActorType ev), re_ActorId = rev_ActorID ev,
      re_OccurredTimeUnix = rev_OccurredTimeUnix ev, re_NextFireTimeUnix = rev_NextFireTimeUnix ev,
      re_Detail = rev_Detail ev\<rparr>"

definition reminderActorFromContext :: "Actor \<Rightarrow> string \<times> string" where
  "reminderActorFromContext actor =
     (case act_ActorKind actor of
        ACTOR_KIND_HUMAN \<Rightarrow> (''human'', act_UserId actor)
      | ACTOR_KIND_AGENT \<Rightarrow> (''agent'', act_AgentId actor)
      | ACTOR_KIND_SYSTEM \<Rightarrow> (''system'', first_value [act_DaemonId actor, act_DisplayName actor])
      | ACTOR_KIND_DAEMON \<Rightarrow> (''system'', first_value [act_DaemonId actor, act_DisplayName actor])
      | _ \<Rightarrow> (''system'', []))"

section \<open>Schedules\<close>

record ReminderSchedule =
  rsc_Kind :: ReminderScheduleKind
  rsc_Expression :: string
  rsc_Timezone :: string

text \<open>The alternatives of a schedule in a request.\<close>

datatype schedule_spec = NoSpec | DelaySeconds "32 word" | FireAt string | Recurring ReminderSchedule

text \<open>
  \<open>time_parse\<close> is \<^verbatim>\<open>time.ParseInLocation\<close> in the local time zone: from a layout and a text to seconds.
\<close>

definition fire_layouts :: "string list" where
  "fire_layouts = [''2006-01-02T15:04:05.999999999Z07:00'', ''2006-01-02T15:04:05Z07:00'', ''2006-01-02T15:04'',
     ''2006-01-02T15:04:05'', ''2006-01-02 15:04'', ''2006-01-02'']"

fun first_layout :: "(string \<Rightarrow> string \<Rightarrow> int option) \<Rightarrow> string \<Rightarrow> string list \<Rightarrow> int option" where
  "first_layout time_parse value [] = None"
| "first_layout time_parse value (layout # layouts) =
     (case time_parse layout value of Some unix \<Rightarrow> Some unix | None \<Rightarrow> first_layout time_parse value layouts)"

definition parseReminderFireAt :: "(string \<Rightarrow> string \<Rightarrow> int option) \<Rightarrow> string \<Rightarrow> string + int" where
  "parseReminderFireAt time_parse value0 =
     (let value = TrimSpace value0; num = Atoi value
      in if value = [] then Inl ''fire_at is required''
         else if (case num of Some unix \<Rightarrow> 0 < unix | None \<Rightarrow> False) then Inr (the num)
         else (case first_layout time_parse value fire_layouts of
                 Some unix \<Rightarrow> Inr unix | None \<Rightarrow> Inl ''fire_at must be unix seconds or RFC3339 time''))"

definition delay_text :: "32 word \<Rightarrow> string" where
  "delay_text delay = ''in '' @ digits_of (unat delay) @ ''s''"

record reminderPlan =
  rp_Kind :: string
  rp_Schedule :: string
  rp_NextRunUnix :: int
  rp_RecurrenceRule :: string
  rp_RecurrenceDescription :: string
  rp_RecurrenceTimezone :: string

definition reminderPlanFromScheduleRequest ::
  "senv \<Rightarrow> (string \<Rightarrow> string \<Rightarrow> int option) \<Rightarrow> schedule_spec \<Rightarrow> string \<Rightarrow> (string + reminderPlan) rpc" where
  "reminderPlanFromScheduleRequest E time_parse spec timezone =
     (let once = (\<lambda>schedule next. \<lparr>rp_Kind = ''at'', rp_Schedule = schedule, rp_NextRunUnix = next, rp_RecurrenceRule = [],
          rp_RecurrenceDescription = [], rp_RecurrenceTimezone = timezone\<rparr>);
          required = ret (Inl ''schedule is required'')
      in case spec of
           DelaySeconds delay \<Rightarrow>
             if delay = 0 then required
             else do { now \<leftarrow> store_call (unixNow E); ret (Inr (once (delay_text delay) (now + uint delay))) }
         | FireAt fireAt \<Rightarrow>
             if fireAt = [] then required
             else ret (case parseReminderFireAt time_parse fireAt of Inl e \<Rightarrow> Inl e | Inr next \<Rightarrow> Inr (once fireAt next))
         | Recurring schedule \<Rightarrow>
             (let kind = reminderScheduleKindToStorage (rsc_Kind schedule)
              in if kind = [] then ret (Inl ''recurring schedule kind is required'')
                 else ret (Inr \<lparr>rp_Kind = kind, rp_Schedule = rsc_Expression schedule, rp_NextRunUnix = 0,
                   rp_RecurrenceRule = rsc_Expression schedule, rp_RecurrenceDescription = rsc_Expression schedule,
                   rp_RecurrenceTimezone = first_value [rsc_Timezone schedule, timezone]\<rparr>))
         | NoSpec \<Rightarrow> required)"

definition reminderPatchFromUpdateRequest ::
  "senv \<Rightarrow> (string \<Rightarrow> string \<Rightarrow> int option) \<Rightarrow> string option \<Rightarrow> string option \<Rightarrow> schedule_spec \<Rightarrow>
     (string + ReminderPatch) rpc" where
  "reminderPatchFromUpdateRequest E time_parse title timezone spec =
     (let base = \<lparr>remp_Title = map_option TrimSpace title, remp_ScheduleKind = None, remp_Schedule = None,
          remp_NextRunUnix = None, remp_RecurrenceRule = None, remp_RecurrenceDescription = None,
          remp_RecurrenceTimezone = map_option TrimSpace timezone\<rparr>;
          once = (\<lambda>schedule next. base\<lparr>remp_ScheduleKind := Some ''at'', remp_Schedule := Some schedule,
            remp_NextRunUnix := Some next\<rparr>)
      in case spec of
           DelaySeconds delay \<Rightarrow>
             if delay = 0 then ret (Inr base)
             else do { now \<leftarrow> store_call (unixNow E); ret (Inr (once (delay_text delay) (now + uint delay))) }
         | FireAt fireAt \<Rightarrow>
             if fireAt = [] then ret (Inr base)
             else ret (case parseReminderFireAt time_parse fireAt of Inl e \<Rightarrow> Inl e | Inr next \<Rightarrow> Inr (once fireAt next))
         | Recurring schedule \<Rightarrow>
             (let kind = reminderScheduleKindToStorage (rsc_Kind schedule)
              in if kind = [] then ret (Inl ''recurring schedule kind is required'')
                 else ret (Inr (base\<lparr>remp_ScheduleKind := Some kind, remp_Schedule := Some (rsc_Expression schedule),
                   remp_RecurrenceRule := Some (rsc_Expression schedule),
                   remp_RecurrenceDescription := Some (rsc_Expression schedule),
                   remp_RecurrenceTimezone := Some (first_value [rsc_Timezone schedule,
                     (case timezone of None \<Rightarrow> [] | Some t \<Rightarrow> t)])\<rparr>)))
         | NoSpec \<Rightarrow> ret (Inr base))"

section \<open>Calls\<close>

definition RecordReminderMutation ::
  "senv \<Rightarrow> 'p proto_codec_scheme \<Rightarrow> Reminder \<Rightarrow> EventOperation \<Rightarrow> err option option rpc" where
  "RecordReminderMutation E P m operation =
     (case pj_reminder P (reminderToProto E m) of
        None \<Rightarrow> ret (Some None)
      | Some payload \<Rightarrow> do {
          s \<leftarrow> get_server;
          r \<leftarrow> store_call (AppendCollaborationEvent E
            \<lparr>cev_ID = [], cev_ServerID = srv_serverID s, cev_Sequence = 0, cev_EventID = [],
             cev_Target = rem_Target m, cev_AggregateID = rem_ID m, cev_Kind = ''reminder'',
             cev_Operation = eventOperationToStorage operation, cev_ScopeType = ''target'',
             cev_ScopeID = rem_Target m, cev_WorkspaceID = [], cev_ActivityID = [], cev_PayloadJSON = payload,
             cev_CreatedUnix = rem_UpdatedUnix m, cev_ProtocolVersion = 1\<rparr>);
          ret (case r of Inl e \<Rightarrow> Some (Some e) | Inr _ \<Rightarrow> None)
        })"

text \<open>The end of every call: record the change, and answer.\<close>

definition reminder_answer ::
  "senv \<Rightarrow> 'p proto_codec_scheme \<Rightarrow> Reminder \<Rightarrow> EventOperation \<Rightarrow> (ReminderRecord \<Rightarrow> proto_msg) \<Rightarrow>
     (rpc_err + proto_msg \<times> bool) rpc" where
  "reminder_answer E P m operation resp = do {
     e \<leftarrow> RecordReminderMutation E P m operation;
     ret (case e of
            Some e \<Rightarrow> Inl (Internal ''append reminder event'' e)
          | None \<Rightarrow> Inr (resp (reminderToProto E m), True))
   }"

record ScheduleReminderRequest =
  srq_Target :: string
  srq_Name :: string
  srq_Prompt :: string
  srq_RequestId :: string
  srq_Title :: string
  srq_ScheduleSpec :: schedule_spec
  srq_Timezone :: string
  srq_Channel :: string
  srq_MsgId :: string
  srq_IdempotencyKey :: string
  srq_Actor :: Actor

definition planned_reminder :: "ScheduleReminderRequest \<Rightarrow> reminderPlan \<Rightarrow> string \<Rightarrow> Reminder" where
  "planned_reminder req plan token =
     \<lparr>rem_ID = [], rem_Target = first_value [srq_Target req, srq_Channel req], rem_ScheduleKind = rp_Kind plan,
      rem_Schedule = rp_Schedule plan, rem_Prompt = srq_Prompt req, rem_Enabled = True,
      rem_NextRunUnix = rp_NextRunUnix plan, rem_LastRunUnix = 0, rem_RunCount = 0, rem_LastError = [],
      rem_Title = first_value [srq_Title req, srq_Name req, srq_Prompt req], rem_Status = ''active'',
      rem_MsgRef = srq_MsgId req, rem_RecurrenceRule = rp_RecurrenceRule plan,
      rem_RecurrenceDescription = rp_RecurrenceDescription plan, rem_RecurrenceTimezone = rp_RecurrenceTimezone plan,
      rem_CancelToken = token, rem_CreatedUnix = 0, rem_UpdatedUnix = 0\<rparr>"

definition schedule_body ::
  "senv \<Rightarrow> 'p proto_codec_scheme \<Rightarrow> (string \<Rightarrow> string \<Rightarrow> int option) \<Rightarrow> ScheduleReminderRequest \<Rightarrow>
     (rpc_err + proto_msg \<times> bool) rpc" where
  "schedule_body E P time_parse req =
     (if first_value [srq_Target req, srq_Channel req] = [] then ret (Inl (InvalidArgument ''target is required''))
      else do {
        p \<leftarrow> reminderPlanFromScheduleRequest E time_parse (srq_ScheduleSpec req) (srq_Timezone req);
        case p of
          Inl e \<Rightarrow> ret (Inl (InvalidArgument e))
        | Inr plan \<Rightarrow> do {
            token \<leftarrow> store_call (newID E ''rtk'');
            (let (actorType, actorID) = reminderActorFromContext (srq_Actor req)
             in do {
               c \<leftarrow> store_call (CreateReminder E (planned_reminder req plan token) actorType actorID ''created'');
               case c of
                 Inl e \<Rightarrow> ret (Inl (if e = ErrInvalidState then InvalidArgument ''invalid reminder schedule''
                                   else Internal ''create reminder'' (Some e)))
               | Inr created \<Rightarrow> reminder_answer E P created EVENT_OPERATION_CREATED ScheduleReminderResponse
             })
          }
      })"

definition ScheduleReminder ::
  "senv \<Rightarrow> 'p proto_codec_scheme \<Rightarrow> (string \<Rightarrow> string \<Rightarrow> int option) \<Rightarrow> ScheduleReminderRequest \<Rightarrow>
     (rpc_err + proto_msg) rpc" where
  "ScheduleReminder E P time_parse req =
     idempotent E P ''ScheduleReminder'' (srq_RequestId req) (srq_IdempotencyKey req) (schedule_body E P time_parse req)"

definition list_reminders_call ::
  "senv \<Rightarrow> string \<Rightarrow> ReminderStatus list \<Rightarrow> bool \<Rightarrow> int \<Rightarrow> (rpc_err + ReminderRecord list \<times> EventCursor) rpc" where
  "list_reminders_call E target statuses includeCanceled limit = do {
     s \<leftarrow> get_server;
     r \<leftarrow> store_call (ListReminders E target
       (map reminderStatusToStorage (filter (\<lambda>s. s \<noteq> REMINDER_STATUS_UNSPECIFIED) statuses)) includeCanceled limit);
     ret (case r of
            Inl e \<Rightarrow> Inl (if e = ErrInvalidState then InvalidArgument ''invalid reminder status''
                         else Internal ''list reminders'' (Some e))
          | Inr rs \<Rightarrow>
              Inr (map (reminderToProto E) rs, cursorFromCount (length rs) target (srv_serverID s)))
   }"

text \<open>A cancellation with a token that is not the reminder's is answered as rejected.\<close>

definition cancel_reminder_body ::
  "senv \<Rightarrow> 'p proto_codec_scheme \<Rightarrow> string \<Rightarrow> string \<Rightarrow> Actor \<Rightarrow> (rpc_err + proto_msg \<times> bool) rpc" where
  "cancel_reminder_body E P reminderID token actor =
     (if reminderID = [] then ret (Inl (InvalidArgument ''reminder_id is required''))
      else do {
        g \<leftarrow> store_call (GetReminder E reminderID);
        case g of
          Inl e \<Rightarrow> ret (Inl (if e = ErrNotFound then NotFound ''reminder not found'' else Internal ''get reminder'' (Some e)))
        | Inr current \<Rightarrow>
            if rem_CancelToken current \<noteq> [] \<and> token \<noteq> [] \<and> rem_CancelToken current \<noteq> token
            then ret (Inr (CancelReminderResponse False (reminderToProto E current), False))
            else (let (actorType, actorID) = reminderActorFromContext actor
              in do {
                u \<leftarrow> store_call (CancelReminder E reminderID actorType actorID ''canceled'');
                case u of
                  Inl e \<Rightarrow> ret (Inl (Internal ''cancel reminder'' (Some e)))
                | Inr updated \<Rightarrow> reminder_answer E P updated EVENT_OPERATION_CANCELED (CancelReminderResponse True)
              })
      })"

definition cancel_reminder_call ::
  "senv \<Rightarrow> 'p proto_codec_scheme \<Rightarrow> string \<Rightarrow> string \<Rightarrow> string \<Rightarrow> string \<Rightarrow> Actor \<Rightarrow> (rpc_err + proto_msg) rpc" where
  "cancel_reminder_call E P requestID key reminderID token actor =
     idempotent E P ''CancelReminder'' requestID key (cancel_reminder_body E P reminderID token actor)"

definition snooze_reminder_call ::
  "senv \<Rightarrow> 'p proto_codec_scheme \<Rightarrow> string \<Rightarrow> string \<Rightarrow> string \<Rightarrow> 32 word \<Rightarrow> Actor \<Rightarrow> (rpc_err + proto_msg) rpc" where
  "snooze_reminder_call E P requestID key reminderID delay actor =
     idempotent E P ''SnoozeReminder'' requestID key
       (if reminderID = [] \<or> delay = 0
        then ret (Inl (InvalidArgument ''reminder_id and delay_seconds are required''))
        else (let (actorType, actorID) = reminderActorFromContext actor
          in do {
            now \<leftarrow> store_call (unixNow E);
            u \<leftarrow> store_call (SnoozeReminder E reminderID (now + uint delay) (delay_text delay) actorType actorID ''snoozed'');
            case u of
              Inl e \<Rightarrow> ret (Inl (if e = ErrNotFound then NotFound ''reminder not found''
                                else Internal ''snooze reminder'' (Some e)))
            | Inr updated \<Rightarrow> reminder_answer E P updated EVENT_OPERATION_UPDATED SnoozeReminderResponse
          }))"

definition update_reminder_call ::
  "senv \<Rightarrow> 'p proto_codec_scheme \<Rightarrow> (string \<Rightarrow> string \<Rightarrow> int option) \<Rightarrow> string \<Rightarrow> string \<Rightarrow> string \<Rightarrow> string option \<Rightarrow>
     string option \<Rightarrow> schedule_spec \<Rightarrow> Actor \<Rightarrow> (rpc_err + proto_msg) rpc" where
  "update_reminder_call E P time_parse requestID key reminderID title timezone spec actor =
     idempotent E P ''UpdateReminder'' requestID key
       (if reminderID = [] then ret (Inl (InvalidArgument ''reminder_id is required''))
        else do {
          p \<leftarrow> reminderPatchFromUpdateRequest E time_parse title timezone spec;
          case p of
            Inl e \<Rightarrow> ret (Inl (InvalidArgument e))
          | Inr patch \<Rightarrow>
              (let (actorType, actorID) = reminderActorFromContext actor
               in do {
                 u \<leftarrow> store_call (UpdateReminder E reminderID patch actorType actorID ''updated'');
                 case u of
                   Inl e \<Rightarrow> ret (Inl (if e = ErrNotFound then NotFound ''reminder not found''
                                     else if e = ErrInvalidState then InvalidArgument ''invalid reminder update''
                                     else Internal ''update reminder'' (Some e)))
                 | Inr updated \<Rightarrow> reminder_answer E P updated EVENT_OPERATION_UPDATED UpdateReminderResponse
               })
        })"

definition GetReminderLog :: "senv \<Rightarrow> string \<Rightarrow> (rpc_err + ProtoReminderEvent list) rpc" where
  "GetReminderLog E reminderID =
     (if reminderID = [] then ret (Inl (InvalidArgument ''reminder_id is required''))
      else do {
        r \<leftarrow> store_call (ListReminderEvents E reminderID 100);
        ret (case r of
               Inl e \<Rightarrow> Inl (if e = ErrNotFound then NotFound ''reminder not found''
                            else Internal ''list reminder log'' (Some e))
             | Inr events \<Rightarrow> Inr (map (reminderEventToProto E) events))
      })"

section \<open>What the calls do\<close>

lemma reminder_words:
  "ToLower E (TrimSpace ''active'') = ''active''" "ToLower E (TrimSpace ''done'') = ''done''"
  "ToLower E (TrimSpace ''paused'') = ''paused''" "ToLower E (TrimSpace ''failed'') = ''failed''"
  "ToLower E (TrimSpace ''cron'') = ''cron''" "ToLower E (TrimSpace ''every'') = ''every''"
  "ToLower E (TrimSpace ''at'') = ''at''" "ToLower E (TrimSpace ''rrule'') = ''rrule''"
  "ToLower E (TrimSpace ''natural'') = ''natural''"
  by (rule norm_word, code_simp)+

lemma reminder_status_roundtrip:
  "reminderStatusToStorage st \<noteq> [] \<Longrightarrow> reminderStatusFromStorage E (reminderStatusToStorage st) = st"
  by (cases st) (simp_all add: reminderStatusFromStorage_def reminderStatusToStorage_def reminder_words canceled_word)

lemma reminder_kind_roundtrip:
  "reminderScheduleKindToStorage kind \<noteq> [] \<Longrightarrow>
     reminderScheduleKindFromStorage E (reminderScheduleKindToStorage kind) = kind"
  by (cases kind)
    (simp_all add: reminderScheduleKindFromStorage_def reminderScheduleKindToStorage_def reminder_words)

text \<open>A fire time in seconds is taken as it is; any other has to fit one of the layouts.\<close>

lemma first_layout_sound:
  "first_layout time_parse v ls = Some t \<Longrightarrow> \<exists>l \<in> set ls. time_parse l v = Some t"
  by (induction ls) (auto split: option.splits)

lemma first_layout_complete:
  "first_layout time_parse v ls = None \<longleftrightarrow> (\<forall>l \<in> set ls. time_parse l v = None)"
  by (induction ls) (auto split: option.splits)

lemma parseReminderFireAt_ok:
  assumes "parseReminderFireAt time_parse value = Inr t"
  shows "0 < t \<and> Atoi (TrimSpace value) = Some t \<or> (\<exists>l \<in> set fire_layouts. time_parse l (TrimSpace value) = Some t)"
  using assms
  by (auto simp: parseReminderFireAt_def Let_def dest: first_layout_sound split: if_splits option.splits)

lemma get_reminder_run:
  "run_state (GetReminder E i) w = (x, w') \<Longrightarrow>
     db w' = db w \<and> (\<forall>m. x = Inr m \<longrightarrow> filter (\<lambda>r. rem_ID r = i) (reminders (db w)) = [m])"
  unfolding GetReminder_def
  by (elim run_elims) (auto simp: through_Inr_iff ReminderEnt_def reminderFromEnt_def dest!: only_run split: sum.splits)

text \<open>
  A cancellation is accepted only for an existing reminder and, when both the reminder and the request have a token, only
  with the reminder's.
\<close>

lemma cancel_accepted_token:
  assumes "run_state (cancel_reminder_body E P i token actor) r = (Inr (CancelReminderResponse True m, b), r')"
  shows "\<exists>row. filter (\<lambda>q. rem_ID q = i) (reminders (db (on_disk r))) = [row] \<and>
     (rem_CancelToken row = [] \<or> token = [] \<or> rem_CancelToken row = token)"
  using assms unfolding cancel_reminder_body_def Let_def case_prod_unfold
  by (elim rpc_elims) (auto dest!: get_reminder_run split: sum.splits if_splits)

text \<open>A refused cancellation changes no row and is not to be remembered.\<close>

lemma cancel_refused:
  assumes "run_state (cancel_reminder_body E P i token actor) r = (Inr (CancelReminderResponse False m, b), r')"
  shows "db (on_disk r') = db (on_disk r) \<and> server r' = server r \<and> \<not> b"
  using assms unfolding cancel_reminder_body_def reminder_answer_def Let_def case_prod_unfold
  by (elim rpc_elims) (auto dest!: get_reminder_run split: sum.splits if_splits option.splits)

end
