(* ===== verification/Daemon_Calls.thy ===== *)
theory Daemon_Calls
  imports Daemon_Reminders
begin

text \<open>
  What the calls of the daemon control server guarantee: repeated requests, restarts, failed requests,
  claims and their runs, reports, and the status of computers.
\<close>

section \<open>What every call keeps\<close>

text \<open>
  One of the modelled calls of the server, with any arguments. A step is a whole call: sequences of steps are calls that
  do not overlap, although the server holds its mutex only around the parts of a call that use its memory.
\<close>

inductive rpc_step :: "senv \<Rightarrow> daemon_env \<Rightarrow> rpc_world \<Rightarrow> rpc_world \<Rightarrow> bool" for E D where
  "rpc_step E D r (snd (run_state (RegisterComputer E D rid key info inventory) r))"
| "rpc_step E D r (snd (run_state (HeartbeatComputer E info inventory full version lease snapshots) r))"
| "rpc_step E D r (snd (run_state (SyncComputerInventory E D rid key info inventory version) r))"
| "rpc_step E D r (snd (run_state (AcquireStartPermit E D rid key computer agent ttl) r))"
| "rpc_step E D r (snd (run_state (ReleaseStartPermit E D rid key lease) r))"
| "rpc_step E D r (snd (run_state (ClaimCollaborationTask E D req) r))"
| "rpc_step E D r (snd (run_state (UpdateRunStatus E D ureq) r))"
| "rpc_step E D r (snd (run_state (RenewRunLease E D rid key run lease ttl) r))"
| "rpc_step E D r (snd (run_state (AppendRunStep E D rid key step) r))"
| "rpc_step E D r (snd (run_state (Daemon_Messages.SendMessage E D J sreq) r))"
| "rpc_step E D r (snd (run_state (RetryOutboundDelivery E D rid key delivery) r))"
| "rpc_step E D r (snd (run_state (RecordOutboundDeliveryStatus E delivery st lastError nextRetry delivered) r))"
| "rpc_step E D r (snd (run_state (save_call E D rid key target message user agent) r))"
| "rpc_step E D r (snd (run_state (unsave_call E D rid key target message user agent) r))"
| "rpc_step E D r (snd (run_state (CreateCollaborationTask E D rid key target summary agent user) r))"
| "rpc_step E D r (snd (run_state (update_task_call E D rid key tid summ st1) r))"
| "rpc_step E D r (snd (run_state (ScheduleReminder E D tp qreq) r))"
| "rpc_step E D r (snd (run_state (cancel_reminder_call E D rid key rem token actor) r))"
| "rpc_step E D r (snd (run_state (snooze_reminder_call E D rid key rem delay actor) r))"
| "rpc_step E D r (snd (run_state (update_reminder_call E D tp rid key rem title timezone spec actor) r))"

lemma idem_unchanged [simp]:
  "srv_idempotency (put_lease l s) = srv_idempotency s"
  "srv_idempotency (put_computer i c s) = srv_idempotency s"
  "srv_idempotency (put_run run s) = srv_idempotency s"
  "srv_idempotency (status_updates now snapshots s) = srv_idempotency s"
  by (simp_all add: put_lease_def put_computer_def put_run_def status_updates_def)

text \<open>The table of runs has one entry for each identifier, as a map of Go has.\<close>

definition runs_keyed :: "Server \<Rightarrow> bool" where
  "runs_keyed s \<longleftrightarrow> distinct (map drun_RunId (srv_runs s))"

lemma runs_keyed_unchanged [simp]:
  "runs_keyed (put_lease l s) = runs_keyed s"
  "runs_keyed (put_computer i c s) = runs_keyed s"
  "runs_keyed (status_updates now snapshots s) = runs_keyed s"
  "runs_keyed (s\<lparr>srv_eventSeq := n, srv_serverEvents := evs\<rparr>) = runs_keyed s"
  "runs_keyed (s\<lparr>srv_runSteps := steps\<rparr>) = runs_keyed s"
  "runs_keyed (s\<lparr>srv_lease_table := tab\<rparr>) = runs_keyed s"
  "runs_keyed (s\<lparr>srv_idempotency := m\<rparr>) = runs_keyed s"
  by (simp_all add: runs_keyed_def put_lease_def put_computer_def status_updates_def)

lemma runs_keyed_put [simp]: "runs_keyed s \<Longrightarrow> runs_keyed (put_run run s)"
proof -
  have ids: "map drun_RunId (map (\<lambda>q. if drun_RunId q = drun_RunId run then run else q) qs) = map drun_RunId qs" for qs
    by (induction qs) auto
  show "runs_keyed s \<Longrightarrow> runs_keyed (put_run run s)"
    by (auto simp: runs_keyed_def put_run_def ids list_ex_iff simp del: map_map)
qed

lemma outbound_reads_keep:
  "keeps (on_db K) (sourceMessageForOutbound E m)"
  "keeps (on_db K) (GetInteractionEndpoint E i)"
  "keeps (on_db K) (suppressIMChatSourceDelivery E J ep m m2)"
  "keeps (on_db K) (ResolveNotificationRoutes E opts)"
  unfolding sourceMessageForOutbound_def GetMessage_def GetInteractionEndpoint_def suppressIMChatSourceDelivery_def
    GetIMChatSubscription_def ResolveNotificationRoutes_def ListNotificationRoutes_def Let_def
  by (intro keeps_rules)+

lemma reminder_read_keeps: "keeps (on_db K) (GetReminder E i)"
  unfolding GetReminder_def by (intro keeps_rules)

text \<open>
  The interface between the calls and an invariant: what the calls ask of the store, the clock and the
  memory outside the remembered responses has to keep it. Then the bodies of all calls keep it, and every
  call does once the frame for repeated requests does.
\<close>

locale daemon_invariant =
  fixes I :: "rpc_world \<Rightarrow> bool"
  assumes claim: "keeps I (store_call (ClaimTaskCAS E i a l))"
    and update: "keeps I (store_call (UpdateTask E i patch))"
    and attempt_claim: "keeps I (store_call (RecordTaskAttemptClaim E at1))"
    and attempt_run: "keeps I (store_call (UpdateTaskAttemptFromRun E at1))"
    and event: "keeps I (store_call (AppendCollaborationEvent E ev))"
    and now: "keeps I (store_call (unixNow E))"
    and fresh_id: "keeps I (store_call (newID E prefix))"
    and message: "keeps I (store_call (CreateMessage E m))"
    and delivery: "keeps I (store_call (CreateOutboundDelivery E row))"
    and retry: "keeps I (store_call (ScheduleOutboundDeliveryRetry E i n))"
    and delivered: "keeps I (store_call (UpdateOutboundDeliveryStatus E i s1 s2 n1 n2))"
    and save: "keeps I (store_call (SaveMessage E s1 s2 s3 s4))"
    and unsave: "keeps I (store_call (UnsaveMessage E s1 s2 s3 s4))"
    and task: "keeps I (store_call (CreateTask E tsk))"
    and reminder: "keeps I (store_call (CreateReminder E m1 a1 a2 a3))"
    and cancel: "keeps I (store_call (CancelReminder E i a1 a2 a3))"
    and snooze: "keeps I (store_call (SnoozeReminder E i n a1 a2 a3 a4))"
    and reschedule: "keeps I (store_call (UpdateReminder E i patch1 a1 a2 a3))"
    and reminder_read: "keeps I (store_call (GetReminder E i))"
    and source: "keeps I (store_call (sourceMessageForOutbound E m))"
    and endpoint: "keeps I (store_call (GetInteractionEndpoint E i))"
    and suppress: "keeps I (store_call (suppressIMChatSourceDelivery E J ep m m2))"
    and routing: "keeps I (store_call (ResolveNotificationRoutes E opts))"
    and memory: "(\<And>s. srv_idempotency (f s) = srv_idempotency s) \<Longrightarrow> (\<And>s. runs_keyed s \<Longrightarrow> runs_keyed (f s)) \<Longrightarrow>
      keeps I (with_server f)"
begin

lemmas base = claim update attempt_claim attempt_run event now fresh_id message delivery retry delivered save unsave
  task reminder cancel snooze reschedule reminder_read source endpoint suppress routing memory

lemma parts:
  "keeps I (newLease E a b c ttl)"
  "keeps I (runEvent E run t q o1)"
  "keeps I (ensureClaimRun E D tsk req lease)"
  "keeps I (RecordTaskMutation E P tsk o1)"
  "keeps I (RecordMessageMutation E P m o1)"
  "keeps I (EmitOutboundDeliveryEvent E row o1)"
  "keeps I (RecordReminderMutation E P m1 o1)"
  unfolding newLease_def runEvent_def ensureClaimRun_def RecordTaskMutation_def RecordMessageMutation_def
    EmitOutboundDeliveryEvent_def RecordReminderMutation_def Let_def
  by (intro keeps_rules base; simp)+

lemma queueing:
  "keeps I (enqueue_delivery E row)"
  "keeps I (enqueue_routes E m seenEndpoints out rs)"
  "keeps I (EnqueueSourceOutboundDelivery E J m)"
proof -
  show *: "keeps I (enqueue_delivery E row)" for row
    unfolding enqueue_delivery_def by (intro keeps_rules base parts)
  show "keeps I (enqueue_routes E m seenEndpoints out rs)"
  proof (induction rs arbitrary: seenEndpoints out)
    case (Cons route rs)
    show ?case unfolding enqueue_routes.simps by (intro keeps_rules base * Cons.IH)
  qed (simp add: keeps_return)
  show "keeps I (EnqueueSourceOutboundDelivery E J m)"
    unfolding EnqueueSourceOutboundDelivery_def by (intro keeps_rules base *)
qed

lemma outbound: "keeps I (EnqueueOutboundDeliveries E J m policy)"
  unfolding EnqueueOutboundDeliveries_def enqueueRoutedOutboundDeliveries_def Let_def
  by (cases policy; simp only: OutboundPolicy.case; intro keeps_rules base queueing)

lemma stages:
  "keeps I (promote_claimed E b tsk)"
  "keeps I (record_claim E tsk req lease run0)"
  "keeps I (recordTaskAttemptRunStatus E D reported ureq)"
  "keeps I (updateTaskFromRunStatus E D reported ureq)"
  unfolding promote_claimed_def record_claim_def recordTaskAttemptRunStatus_def updateTaskFromRunStatus_def
  by (intro keeps_rules base parts)+

lemma bodies:
  "keeps I (claim_body E D req)"
  "keeps I (report_body E D ureq)"
  "keeps I (send_body E D J sreq)"
  "keeps I (update_task_body E D tid summ st)"
  unfolding claim_body_def claim_accepted_def report_body_def send_body_def update_task_body_def Let_def
  by (intro keeps_rules base parts stages outbound; simp)+

lemma planning:
  "keeps I (reminderPlanFromScheduleRequest E tp spec timezone)"
  "keeps I (reminderPatchFromUpdateRequest E tp title tz spec)"
  unfolding reminderPlanFromScheduleRequest_def reminderPatchFromUpdateRequest_def Let_def
  by (cases spec; simp only: schedule_spec.case; intro keeps_rules base)+

lemma answering: "keeps I (reminder_answer E P m1 o1 resp)"
  unfolding reminder_answer_def by (intro keeps_rules parts)

lemma reminder_bodies:
  "keeps I (schedule_body E D tp qreq)"
  "keeps I (cancel_reminder_body E D rem token actor)"
  unfolding schedule_body_def cancel_reminder_body_def Let_def case_prod_unfold
  by (intro keeps_rules base planning answering)+

lemma steps:
  assumes "\<And>meth rid k body. CHR '':'' \<notin> set meth \<Longrightarrow> keeps I body \<Longrightarrow> keeps I (idempotent E D meth rid k body)"
    and "rpc_step E D r r'" and "I r"
  shows "I r'"
  using assms(2,3)
  by (induction rule: rpc_step.induct; elim keepsD [rotated];
    unfold RegisterComputer_def HeartbeatComputer_def SyncComputerInventory_def AcquireStartPermit_def
      ReleaseStartPermit_def ClaimCollaborationTask_def UpdateRunStatus_def RenewRunLease_def AppendRunStep_def
      Daemon_Messages.SendMessage_def RetryOutboundDelivery_def RecordOutboundDeliveryStatus_def save_call_def
      unsave_call_def CreateCollaborationTask_def update_task_call_def ScheduleReminder_def cancel_reminder_call_def
      snooze_reminder_call_def update_reminder_call_def Let_def case_prod_unfold;
    intro assms(1) bodies reminder_bodies planning answering keeps_rules base parts; simp)

end

interpretation well_formed: daemon_invariant "on_store store_wf"
  by unfold_locales (intro keeps_store_call keeps_store_with ClaimTaskCAS_wf UpdateTask_wf RecordTaskAttemptClaim_wf
    UpdateTaskAttemptFromRun_wf AppendCollaborationEvent_wf CreateMessage_wf CreateOutboundDelivery_wf
    ScheduleOutboundDeliveryRetry_wf UpdateOutboundDeliveryStatus_wf SaveMessage_wf UnsaveMessage_wf CreateTask_wf
    CreateReminder_wf CancelReminder_wf SnoozeReminder_wf UpdateReminder_wf reminder_read_keeps
    outbound_reads_keep keeps_unixNow keeps_newID)+

section \<open>A repeated request is answered from memory\<close>

abbreviation remembers :: "string \<Rightarrow> proto_msg \<Rightarrow> Server \<Rightarrow> bool" where
  "remembers k m \<equiv> (\<lambda>s. srv_idempotency s k = Some m)"

lemma idempotent_replays:
  assumes "remembers (idempotencyCacheKey meth rid key) msg (server r)" and "idempotencyCacheKey meth rid key \<noteq> []"
  shows "run_state (replay E P meth rid key) r = (Some msg, r)"
    and "run_state (idempotent E P meth rid key body) r = (Inr msg, r)"
  using assms by (simp_all add: replay_def idempotent_def Let_def)

lemma keeps_replay [keeps_rules]: "keeps (on_server K) (replay E P meth rid key)"
  unfolding replay_def Let_def by (intro keeps_rules)

lemma keeps_reserve [keeps_rules]: "keeps (on_server K) (reserve E meth rid key)"
  unfolding reserve_def Let_def by (intro keeps_rules)

lemma keeps_newLease [keeps_rules]: "keeps (on_server K) (newLease E a b c d)"
  unfolding newLease_def by (intro keeps_rules)

lemma remember_keeps:
  "idempotencyCacheKey meth rid key \<noteq> k \<Longrightarrow> keeps (on_server (remembers k m)) (remember E P meth rid key msg)"
  unfolding remember_def Let_def by (intro keeps_rules keeps_server_with) simp

lemma idempotent_keeps:
  assumes "keeps (on_server (remembers k m)) body"
  shows "keeps (on_server (remembers k m)) (idempotent E P meth rid key body)"
proof (cases "idempotencyCacheKey meth rid key = k \<and> k \<noteq> []")
  case True
  then show ?thesis by (intro keepsI) (auto simp: idempotent_replays(2))
next
  case False
  then have "keeps (on_server (remembers k m)) (remember E P meth rid key msg)" for msg
  proof (cases "idempotencyCacheKey meth rid key = []")
    case True
    then show ?thesis by (simp add: remember_def Let_def keeps_return)
  qed (use False remember_keeps in blast)
  then show ?thesis unfolding idempotent_def by (intro keeps_rules assms)
qed

lemma keeps_RecordTaskMutation [keeps_rules]: "keeps (on_server K) (RecordTaskMutation E P t o1)"
  unfolding RecordTaskMutation_def by (intro keeps_rules)

lemma keeps_claim_parts [keeps_rules]:
  "keeps (on_server K) (promote_claimed E b t)"
  "keeps (on_server K) (record_claim E t req lease run)"
  "keeps (on_server K) (recordTaskAttemptRunStatus E D reported ureq)"
  "keeps (on_server K) (updateTaskFromRunStatus E D reported ureq)"
  unfolding promote_claimed_def record_claim_def recordTaskAttemptRunStatus_def updateTaskFromRunStatus_def
  by (intro keeps_rules)+

interpretation memory: daemon_invariant "on_server (remembers k m)" for k m
  by unfold_locales (intro keeps_server_store_call keeps_server_with; simp)+

lemmas rpc_step_remembers = memory.steps [OF idempotent_keeps]

lemma rpc_steps_remember:
  "(rpc_step E D)\<^sup>*\<^sup>* r r' \<Longrightarrow> remembers k m (server r) \<Longrightarrow> remembers k m (server r')"
  by (induction rule: rtranclp_induct) (use rpc_step_remembers in blast)+

text \<open>The table of runs stays keyed.\<close>

interpretation keyed: daemon_invariant "on_server runs_keyed"
  by unfold_locales (intro keeps_server_store_call keeps_server_with; simp)+

lemma idempotent_keyed:
  assumes "keeps (on_server runs_keyed) body"
  shows "keeps (on_server runs_keyed) (idempotent E P meth rid key body)"
  unfolding idempotent_def remember_def Let_def
  by (intro keeps_rules keeps_server_with assms) simp

lemmas rpc_step_keyed = keyed.steps [OF idempotent_keyed]

abbreviation request_key :: "ClaimRequest \<Rightarrow> string" where
  "request_key req \<equiv> first_value [clm_IdempotencyKey req, clm_RequestId req]"

abbreviation new_key :: "string \<Rightarrow> string \<Rightarrow> rpc_world \<Rightarrow> bool" where
  "new_key meth key r \<equiv> \<not> key_taken ''daemonrpc'' meth [] key (db (on_disk r))"

lemma get_record_new:
  assumes "run_state (GetIdempotencyRecord E s m a k) w = (x, w')" and "\<not> key_taken s m a k (db w)"
  shows "\<exists>e. x = Inl e"
  using assms unfolding GetIdempotencyRecord_def
  by (elim run_elims) (auto simp: key_taken_def list_ex_iff through_Inr_iff dest!: only_run filter_singletonD
    split: sum.splits)


lemma replay_new:
  assumes "run_state (replay E P meth rid key) r = (Some msg, r')" and "idempotencyCacheKey meth rid key \<noteq> []"
    and "new_key meth (first_value [key, rid]) r"
  shows "remembers (idempotencyCacheKey meth rid key) msg (server r')"
  using assms unfolding replay_def Let_def
  by (elim rpc_elims) (auto dest!: get_record_new split: sum.splits)

lemma remember_remembers:
  assumes "run_state (remember E P meth rid key msg) r = (u, r')" and "idempotencyCacheKey meth rid key \<noteq> []"
  shows "remembers (idempotencyCacheKey meth rid key) msg (server r')"
  using assms unfolding remember_def Let_def
  by (elim rpc_elims) auto

text \<open>An answered call with a new key is remembered when its body always asks for it.\<close>

lemma idempotent_remembers:
  assumes "run_state (idempotent E P meth rid key body) r = (Inr msg, r')"
    and "idempotencyCacheKey meth rid key \<noteq> []" and "new_key meth (first_value [key, rid]) r"
    and "\<And>r1 m b r2. run_state body r1 = (Inr (m, b), r2) \<Longrightarrow> b"
  shows "remembers (idempotencyCacheKey meth rid key) msg (server r')"
  using assms(1) unfolding idempotent_def
  by (elim rpc_elims) (auto dest: replay_new [OF _ assms(2,3)] remember_remembers [OF _ assms(2)] assms(4))


section \<open>Claims: the response\<close>

lemma claim_accepted_kept: "run_state (claim_accepted E D req lease t) r = (Inr (m, b), r') \<Longrightarrow> b"
  unfolding claim_accepted_def Let_def by (elim rpc_elims) simp_all

lemma claim_body_kept: "run_state (claim_body E D req) r = (Inr (m, b), r') \<Longrightarrow> b"
  unfolding claim_body_def by (elim rpc_elims) (auto dest: claim_accepted_kept)

lemma cache_key_Nil [simp]: "idempotencyCacheKey meth rid key = [] \<longleftrightarrow> first_value [key, rid] = []"
  by (simp add: idempotencyCacheKey_def Let_def)

lemma cache_key_cong:
  "first_value [key, rid] = first_value [key', rid'] \<Longrightarrow>
     idempotencyCacheKey meth rid key = idempotencyCacheKey meth rid' key'"
  by (simp add: idempotencyCacheKey_def Let_def)

text \<open>
  An answer with a new key is given again to every later request of the method with that key, when the body of the method
  always asks for its answer to be remembered.
\<close>

lemma call_replayed:
  assumes "run_state (idempotent E D meth rid key body) r = (Inr msg, r1)"
    and "first_value [key, rid] \<noteq> []" and "new_key meth (first_value [key, rid]) r"
    and "\<And>r1 m b r2. run_state body r1 = (Inr (m, b), r2) \<Longrightarrow> b"
    and "(rpc_step E D)\<^sup>*\<^sup>* r1 r2" and "first_value [key', rid'] = first_value [key, rid]"
  shows "run_state (idempotent E D meth rid' key' body') r2 = (Inr msg, r2)"
proof -
  let ?k = "idempotencyCacheKey meth rid key"
  have "remembers ?k msg (server r1)"
    using assms(1-4) by (intro idempotent_remembers) auto
  then have "remembers ?k msg (server r2)" by (rule rpc_steps_remember [OF assms(5)])
  then show ?thesis
    using assms(2,6) by (intro idempotent_replays) (simp_all add: cache_key_cong [OF assms(6)])
qed

text \<open>
  C32: once a claim with a key that the store has no record of has been answered, every later
  claim with that key, whatever its body and after any sequence of modelled calls, one at a time, gets the same
  answer and changes neither the server nor the store; the database may fail at any point.
\<close>

theorem claim_replayed:
  assumes "run_state (ClaimCollaborationTask E D req) r = (Inr msg, r1)"
    and "request_key req \<noteq> []" and "new_key ''ClaimCollaborationTask'' (request_key req) r"
    and "(rpc_step E D)\<^sup>*\<^sup>* r1 r2" and "request_key again = request_key req"
  shows "run_state (ClaimCollaborationTask E D again) r2 = (Inr msg, r2)"
  using call_replayed [OF assms(1) [unfolded ClaimCollaborationTask_def] assms(2,3) claim_body_kept assms(4,5)]
  unfolding ClaimCollaborationTask_def .


section \<open>A key is settled by its first use\<close>

text \<open>
  What the store and the memory say about one key of one method. \<open>Q\<close> is what holds of its only record and
  \<open>M\<close> what the memory may have.
\<close>

definition sole_record :: "string \<Rightarrow> string \<Rightarrow> (IdempotencyRecord \<Rightarrow> bool) \<Rightarrow> store \<Rightarrow> bool" where
  "sole_record meth key Q d \<longleftrightarrow>
     (\<exists>row. filter (same_key ''daemonrpc'' meth [] key) (idemRecords d) = [row] \<and> Q row)"

definition settled ::
  "string \<Rightarrow> string \<Rightarrow> (IdempotencyRecord \<Rightarrow> bool) \<Rightarrow> proto_msg option set \<Rightarrow> rpc_world \<Rightarrow> bool" where
  "settled meth key Q M r \<longleftrightarrow>
     sole_record meth key Q (db (on_disk r)) \<and> srv_idempotency (server r) (meth @ '':'' @ key) \<in> M"

text \<open>Operations on other tables.\<close>

lemma sole_record_other:
  "keeps (on_db (sole_record meth key Q)) (ClaimTaskCAS E i a l)"
  "keeps (on_db (sole_record meth key Q)) (UpdateTask E i patch)"
  "keeps (on_db (sole_record meth key Q)) (RecordTaskAttemptClaim E at1)"
  "keeps (on_db (sole_record meth key Q)) (UpdateTaskAttemptFromRun E at1)"
  unfolding ClaimTaskCAS_def UpdateTask_def RecordTaskAttemptClaim_def UpdateTaskAttemptFromRun_def
    lookupTaskAttempt_def GetTask_def sole_record_def Let_def
  by (intro keeps_rules keeps_ent_update_where keeps_ent_update_one keeps_ent_create;
      simp add: TaskEnt_def TaskAttemptEnt_def)+

lemma sole_record_messages:
  "keeps (on_db (sole_record meth key Q)) (CreateMessage E m)"
  "keeps (on_db (sole_record meth key Q)) (CreateOutboundDelivery E row)"
  "keeps (on_db (sole_record meth key Q)) (ScheduleOutboundDeliveryRetry E i n)"
  "keeps (on_db (sole_record meth key Q)) (UpdateOutboundDeliveryStatus E i s1 s2 n1 n2)"
  "keeps (on_db (sole_record meth key Q)) (SaveMessage E s1 s2 s3 s4)"
  "keeps (on_db (sole_record meth key Q)) (UnsaveMessage E s1 s2 s3 s4)"
  "keeps (on_db (sole_record meth key Q)) (CreateTask E tsk)"
  unfolding CreateMessage_def CreateOutboundDelivery_def ScheduleOutboundDeliveryRetry_def
    UpdateOutboundDeliveryStatus_def SaveMessage_def UnsaveMessage_def CreateTask_def GetMessage_def
    GetOutboundDelivery_def sole_record_def Let_def
  by (intro keeps_rules keeps_ent_update_where keeps_ent_update_one keeps_ent_create keeps_ent_delete_one
      keeps_ent_delete_where;
      simp add: MessageEnt_def OutboundDeliveryEnt_def SavedMessageEnt_def TaskEnt_def)+

lemma sole_record_audit:
  "sole_record meth key Q snap \<Longrightarrow>
     keeps (on_db (sole_record meth key Q)) (audit_and_commit E snap i t a b c n f r)"
  unfolding audit_and_commit_def createReminderEvent_def Let_def
  by (intro keeps_rules keeps_ent_create) (simp add: sole_record_def ReminderEventEnt_def)

lemma sole_record_reminders:
  "keeps (on_db (sole_record meth key Q)) (CreateReminder E m a1 a2 a3)"
  "keeps (on_db (sole_record meth key Q)) (CancelReminder E i a1 a2 a3)"
  "keeps (on_db (sole_record meth key Q)) (SnoozeReminder E i n a1 a2 a3 a4)"
  "keeps (on_db (sole_record meth key Q)) (UpdateReminder E i patch a1 a2 a3)"
  unfolding CreateReminder_def CancelReminder_def SnoozeReminder_def UpdateReminder_def Let_def
  by (intro keeps_tx keeps_rules sole_record_audit keeps_ent_create keeps_ent_update_one;
      (assumption | simp add: keeps_return sole_record_def ReminderEnt_def)?)+

lemma sole_record_append_attempt: "keeps (on_db (sole_record meth key Q)) (append_attempt E ev)"
  unfolding append_attempt_def Let_def
  by (intro keeps_tx keeps_rules keeps_ent_create keeps_ent_update_where keeps_ent_update_one;
      (assumption | simp add: keeps_return sole_record_def CollaborationEventEnt_def)?)

lemma sole_record_append_loop: "keeps (on_db (sole_record meth key Q)) (append_loop E n ev)"
  by (induction n) (auto intro!: keeps_rules sole_record_append_attempt)

lemma sole_record_append: "keeps (on_db (sole_record meth key Q)) (AppendCollaborationEvent E ev)"
  unfolding AppendCollaborationEvent_def event_defaults_def
  by (intro keeps_rules sole_record_append_loop)


lemma same_key_clash:
  "same_key s m a k r \<Longrightarrow> same_key s m a k q \<Longrightarrow> clash IdempotencyRecordEnt q r"
  by (simp add: same_key_def clash_def IdempotencyRecordEnt_def)

lemma idem_ent [simp]:
  "rows_of IdempotencyRecordEnt = idemRecords" "idemRecords (put_rows IdempotencyRecordEnt rows d) = rows"
  by (simp_all add: IdempotencyRecordEnt_def)

lemma filter_append_clash:
  assumes "filter (same_key s m a k) rows = [row]" and "\<not> list_ex (clash IdempotencyRecordEnt q) rows"
  shows "filter (same_key s m a k) (rows @ [q]) = [row]"
  using assms same_key_clash filter_singletonD [OF assms(1)] by (auto simp: list_ex_iff)

lemma sole_record_reserve: "keeps (on_db (sole_record meth key Q)) (ReserveIdempotencyRecord E rec)"
  unfolding ReserveIdempotencyRecord_def GetIdempotencyRecord_def
  by (intro keeps_rules keeps_ent_create)
    (auto simp: sole_record_def simp del: filter_append dest: filter_append_clash)

lemma filter_map_rows_other:
  "(\<And>r. p r \<Longrightarrow> \<not> q r) \<Longrightarrow> (\<And>r. q (f r) = q r) \<Longrightarrow> filter q (map_rows p f rows) = filter q rows"
  by (induction rows) (auto simp: map_rows_def)

lemma sole_record_complete_other:
  assumes "idem_Method rec \<noteq> meth \<or> idem_IdempotencyKey rec \<noteq> key"
  shows "keeps (on_db (sole_record meth key Q)) (CompleteIdempotencyRecord E rec)"
  unfolding CompleteIdempotencyRecord_def
proof (intro keeps_rules keeps_ent_update_where, goal_cases)
  case (1 d)
  then show ?case
    unfolding sole_record_def idem_ent
    by (subst filter_map_rows_other) (use assms in \<open>auto simp: same_key_def\<close>)
qed


text \<open>Rules for the invariant.\<close>

lemma settled_store_call: "keeps (on_db (sole_record meth key Q)) m \<Longrightarrow> keeps (settled meth key Q M) (store_call m)"
  by (auto simp: keeps_def settled_def run_store_call split: prod.splits)

lemma settled_with_server:
  "(\<And>s. srv_idempotency (f s) = srv_idempotency s) \<Longrightarrow> keeps (settled meth key Q M) (with_server f)"
  by (simp add: keeps_def settled_def)

interpretation settled_key: daemon_invariant "settled meth key Q M" for meth key Q M
  by unfold_locales (intro settled_store_call settled_with_server sole_record_other sole_record_append
    sole_record_messages sole_record_reminders reminder_read_keeps outbound_reads_keep keeps_unixNow keeps_newID; simp)+

lemma append_sep_inject:
  "c \<notin> set a \<Longrightarrow> c \<notin> set b \<Longrightarrow> a @ c # x = b @ c # y \<longleftrightarrow> a = b \<and> x = y"
proof (induction a arbitrary: b)
  case Nil
  then show ?case by (cases b) auto
next
  case (Cons h a)
  then show ?case by (cases b) auto
qed

lemma cache_key_other:
  assumes "CHR '':'' \<notin> set meth" and "CHR '':'' \<notin> set meth'"
    and "meth' \<noteq> meth \<or> first_value [key', rid'] \<noteq> key" and "first_value [key', rid'] \<noteq> []"
  shows "idempotencyCacheKey meth' rid' key' \<noteq> meth @ '':'' @ key"
  using assms append_sep_inject [OF assms(2,1)] by (auto simp: idempotencyCacheKey_def Let_def)

lemma settled_replay: "keeps (settled meth key Q M) (replay E P meth' rid' key')"
  unfolding replay_def GetIdempotencyRecord_def Let_def by (intro keeps_rules settled_store_call)

lemma settled_reserve: "keeps (settled meth key Q M) (reserve E meth' rid' key')"
  unfolding reserve_def Let_def by (intro keeps_rules settled_store_call sole_record_reserve)

lemma settled_remember:
  assumes "CHR '':'' \<notin> set meth" and "CHR '':'' \<notin> set meth'"
    and "meth' \<noteq> meth \<or> first_value [key', rid'] \<noteq> key"
  shows "keeps (settled meth key Q M) (remember E P meth' rid' key' msg)"
proof (cases "first_value [key', rid'] = []")
  case True
  then show ?thesis by (simp add: remember_def keeps_return)
next
  case False
  let ?upd = "\<lambda>s. s\<lparr>srv_idempotency := (srv_idempotency s)(idempotencyCacheKey meth' rid' key' \<mapsto> msg)\<rparr>"
  have "keeps (settled meth key Q M) (with_server ?upd)"
    using cache_key_other [OF assms False] by (auto simp: keeps_def settled_def)
  then show ?thesis
    unfolding remember_def Let_def
    by (intro keeps_rules settled_store_call sole_record_complete_other) (use assms in \<open>auto simp: idem_request_def\<close>)
qed

text \<open>A call with another key does not matter; one with this key has to leave the invariant alone.\<close>

lemma settled_idempotent:
  assumes "CHR '':'' \<notin> set meth" and "CHR '':'' \<notin> set meth'"
    and "first_value [key', rid'] = key \<Longrightarrow> keeps (settled meth key Q M) (idempotent E P meth rid' key' body)"
    and "keeps (settled meth key Q M) body"
  shows "keeps (settled meth key Q M) (idempotent E P meth' rid' key' body)"
proof (cases "meth' = meth \<and> first_value [key', rid'] = key")
  case False
  then have "keeps (settled meth key Q M) (remember E P meth' rid' key' msg)" for msg
    by (intro settled_remember assms) auto
  then show ?thesis
    unfolding idempotent_def by (intro keeps_rules settled_replay settled_reserve assms(4))
qed (use assms(3) in simp)


abbreviation completed_with :: "string \<Rightarrow> IdempotencyRecord \<Rightarrow> bool" where
  "completed_with js \<equiv> (\<lambda>row. idem_Status row = ''completed'' \<and> idem_ResponseJSON row = js)"

abbreviation is_pending :: "IdempotencyRecord \<Rightarrow> bool" where
  "is_pending \<equiv> (\<lambda>row. idem_Status row = ''pending'')"

lemma get_sole_record:
  assumes "no_faults E" and "filter (same_key ''daemonrpc'' meth [] key) (idemRecords (db w)) = [row]"
  shows "run_state (GetIdempotencyRecord E ''daemonrpc'' meth [] key) w = (Inr row, w\<lparr>tick := Suc (tick w)\<rparr>)"
  using assms by (simp add: GetIdempotencyRecord_def ent_only_def run_stmt idempotencyRecordFromEnt_def)

lemma completed_replay:
  assumes "no_faults E" and "js \<noteq> []" and "pj_unmarshal P meth js = Some msg" and "first_value [k, rid] = key"
    and "key \<noteq> []" and "settled meth key (completed_with js) {None, Some msg} r"
  shows "\<exists>w. run_state (idempotent E P meth rid k body) r = (Inr msg, r\<lparr>on_disk := w\<rparr>) \<and> db w = db (on_disk r)"
proof -
  from assms(6) obtain row where row: "filter (same_key ''daemonrpc'' meth [] key) (idemRecords (db (on_disk r))) = [row]"
    "completed_with js row" by (auto simp: settled_def sole_record_def)
  consider "srv_idempotency (server r) (meth @ '':'' @ key) = None"
    | "srv_idempotency (server r) (meth @ '':'' @ key) = Some msg"
    using assms(6) by (auto simp: settled_def)
  then show ?thesis
  proof cases
    case 1
    then show ?thesis
      using assms(2-5) row
      by (intro exI [of _ "(on_disk r)\<lparr>tick := Suc (tick (on_disk r))\<rparr>"])
        (simp add: idempotent_def replay_def idempotencyCacheKey_def run_store_call
        get_sole_record [OF assms(1) row(1)])
  next
    case 2
    then have "run_state (idempotent E P meth rid k body) r = (Inr msg, r)"
      using assms(4,5) by (intro idempotent_replays) (simp_all add: idempotencyCacheKey_def)
    then show ?thesis by (intro exI [of _ "on_disk r"]) simp
  qed
qed


lemma reserve_sole_record:
  assumes "no_faults E" and "filter (same_key ''daemonrpc'' meth [] key) (idemRecords (db w)) = [row]"
    and "meth \<noteq> []" and "key \<noteq> []"
  shows "\<exists>w'. run_state (ReserveIdempotencyRecord E (idem_request meth key)) w = (Inr (row, False), w') \<and> db w' = db w"
proof -
  have "row \<in> set (idemRecords (db w))" "same_key ''daemonrpc'' meth [] key row"
    using filter_singletonD [OF assms(2)] by auto
  then have "list_ex (clash IdempotencyRecordEnt ((idem_request meth key)\<lparr>idem_ID := i, idem_CreatedUnix := c,
      idem_ExpiresUnix := e, idem_Status := st\<rparr>)) (idemRecords (db w))" for i c e st
    unfolding list_ex_iff by (intro bexI [of _ row] same_key_clash) (auto simp: same_key_def idem_request_def)
  then show ?thesis
    using assms(1,3,4)
    by (simp add: ReserveIdempotencyRecord_def ent_create_def run_stmt get_sole_record assms(2))
      (simp add: idem_request_def IdempotencyRecordEnt_def get_sole_record assms(2) run_stmt)
qed


lemma pending_refused:
  assumes "no_faults E" and "first_value [k, rid] = key" and "key \<noteq> []" and "meth \<noteq> []"
    and "settled meth key is_pending {None} r"
  shows "\<exists>w. run_state (idempotent E P meth rid k body) r =
      (Inl (Aborted ''idempotency key is already in progress''), r\<lparr>on_disk := w\<rparr>) \<and> db w = db (on_disk r)"
proof -
  from assms(5) obtain row where row: "filter (same_key ''daemonrpc'' meth [] key) (idemRecords (db (on_disk r))) = [row]"
    "is_pending row" by (auto simp: settled_def sole_record_def)
  have mem: "srv_idempotency (server r) (meth @ '':'' @ key) = None" using assms(5) by (simp add: settled_def)
  let ?w = "(on_disk r)\<lparr>tick := Suc (tick (on_disk r))\<rparr>"
  have 1: "run_state (replay E P meth rid k) r = (None, r\<lparr>on_disk := ?w\<rparr>)"
    using assms(2,3) row mem
    by (simp add: replay_def idempotencyCacheKey_def run_store_call get_sole_record [OF assms(1) row(1)])
  have "filter (same_key ''daemonrpc'' meth [] key) (idemRecords (db ?w)) = [row]" using row(1) by simp
  from reserve_sole_record [OF assms(1) this assms(4,3)] obtain w'
    where w': "run_state (ReserveIdempotencyRecord E (idem_request meth key)) ?w = (Inr (row, False), w')"
      "db w' = db ?w" by blast
  have "run_state (reserve E meth rid k) (r\<lparr>on_disk := ?w\<rparr>) =
      (Some (Aborted ''idempotency key is already in progress''), r\<lparr>on_disk := w'\<rparr>)"
    using assms(2,3) row(2) w'(1) by (simp add: reserve_def run_store_call)
  with 1 w'(2) show ?thesis by (intro exI [of _ w']) (simp add: idempotent_def)
qed

text \<open>Calls and restarts.\<close>

inductive daemon_step :: "senv \<Rightarrow> daemon_env \<Rightarrow> rpc_world \<Rightarrow> rpc_world \<Rightarrow> bool" for E D where
  call: "rpc_step E D r r' \<Longrightarrow> daemon_step E D r r'"
| restart: "daemon_step E D r (snd (run_state (New E serverID) r))"

lemma daemon_step_keyed: "daemon_step E D r r' \<Longrightarrow> runs_keyed (server r) \<Longrightarrow> runs_keyed (server r')"
proof (induction rule: daemon_step.induct)
  case (call r r')
  then show ?case using rpc_step_keyed by blast
next
  case (restart r serverID)
  have "keeps (on_server runs_keyed) (New E serverID)"
    unfolding New_def by (intro keeps_rules keeps_server_with) (simp add: fresh_server_def runs_keyed_def)
  from keepsD [OF this, of r] restart show ?case by simp
qed

lemma daemon_steps_keyed: "(daemon_step E D)\<^sup>*\<^sup>* r r' \<Longrightarrow> runs_keyed (server r) \<Longrightarrow> runs_keyed (server r')"
  by (induction rule: rtranclp_induct) (auto intro: daemon_step_keyed)

lemma settled_New: "None \<in> M \<Longrightarrow> keeps (settled meth key Q M) (New E serverID)"
  unfolding New_def by (intro keeps_rules settled_key.fresh_id) (simp add: keeps_def settled_def fresh_server_def)

lemma settled_rpc_step:
  assumes "CHR '':'' \<notin> set meth"
    and "\<And>rid k body. first_value [k, rid] = key \<Longrightarrow> keeps (settled meth key Q M) (idempotent E D meth rid k body)"
    and "rpc_step E D r r'" and "settled meth key Q M r"
  shows "settled meth key Q M r'"
  by (rule settled_key.steps [OF settled_idempotent [OF assms(1) _ assms(2)] assms(3,4)])

lemma settled_daemon_steps:
  assumes "CHR '':'' \<notin> set meth" and "None \<in> M"
    and "\<And>rid k body. first_value [k, rid] = key \<Longrightarrow> keeps (settled meth key Q M) (idempotent E D meth rid k body)"
    and "(daemon_step E D)\<^sup>*\<^sup>* r r'" and "settled meth key Q M r"
  shows "settled meth key Q M r'"
  using assms(4,5)
proof (induction rule: rtranclp_induct)
  case (step y z)
  from step.hyps(2) step.IH [OF step.prems] show ?case
    by cases (use settled_rpc_step [OF assms(1,3)] keepsD [OF settled_New [OF assms(2)]] in blast)+
qed

abbreviation unused_key :: "string \<Rightarrow> string \<Rightarrow> rpc_world \<Rightarrow> bool" where
  "unused_key meth key r \<equiv> new_key meth key r \<and> srv_idempotency (server r) (meth @ '':'' @ key) = None"

lemma new_key_filter: "new_key meth key r \<longleftrightarrow> filter (same_key ''daemonrpc'' meth [] key) (idemRecords (db (on_disk r))) = []"
  by (auto simp: key_taken_def list_ex_iff filter_empty_conv)

lemma replay_unused:
  assumes "run_state (replay E P meth rid k) r = (x, r')" and "first_value [k, rid] = key" and "unused_key meth key r"
  shows "x = None \<and> unused_key meth key r'"
proof -
  have "keeps (on_store (\<lambda>d. \<not> key_taken ''daemonrpc'' meth [] key d)) (replay E P meth rid k)"
    unfolding replay_def GetIdempotencyRecord_def Let_def by (intro keeps_rules keeps_store_call)
  from keepsD [OF this, of r] have "new_key meth key r'" using assms(1,3) by simp
  moreover have "server r' = server r"
    using keepsD [OF keeps_replay [of "\<lambda>s. s = server r" E P meth rid k], of r] assms(1) by simp
  moreover have "x = None"
    using assms unfolding replay_def Let_def idempotencyCacheKey_def
    by (elim rpc_elims) (auto dest!: get_record_new split: sum.splits)
  ultimately show ?thesis using assms(3) by simp
qed


lemma reserve_unused:
  assumes "run_state (reserve E meth rid k) r = (x, r')" and "first_value [k, rid] = key" and "key \<noteq> []"
    and "unused_key meth key r"
  shows "case x of None \<Rightarrow> settled meth key is_pending {None} r' | Some e \<Rightarrow> unused_key meth key r'"
proof -
  have "server r' = server r"
    using keepsD [OF keeps_reserve [of "\<lambda>s. s = server r" E meth rid k], of r] assms(1) by simp
  moreover have "case x of
      None \<Rightarrow> sole_record meth key is_pending (db (on_disk r'))
    | Some e \<Rightarrow> \<not> key_taken ''daemonrpc'' meth [] key (db (on_disk r'))"
    using assms unfolding reserve_def Let_def ReserveIdempotencyRecord_def GetIdempotencyRecord_def
    by (elim rpc_elims)
      (auto simp: through_Inr_iff key_taken_def list_ex_iff sole_record_def idem_request_def same_key_def filter_empty_conv
        dest!: run_dests filter_singletonD split: sum.splits if_splits option.splits)
  ultimately show ?thesis using assms(4) by (simp add: settled_def split: option.splits)
qed


lemma wf_frame:
  "keeps (on_store store_wf) (replay E P meth rid k)"
  "keeps (on_store store_wf) (reserve E meth rid k)"
  unfolding replay_def GetIdempotencyRecord_def reserve_def Let_def
  by (intro keeps_rules keeps_store_call ReserveIdempotencyRecord_wf)+

lemma filter_map_rows_same:
  "(\<And>r. q (f r) = q r) \<Longrightarrow> filter q (map_rows q f rows) = map f (filter q rows)"
  by (induction rows) (auto simp: map_rows_def)

lemma complete_pending:
  assumes "no_faults E" and "store_wf (db w)" and "sole_record meth key Q (db w)"
    and "run_state (CompleteIdempotencyRecord E ((idem_request meth key)\<lparr>idem_ResponseType := ty,
           idem_ResponseJSON := js, idem_Status := ''completed''\<rparr>)) w = (x, w')"
  shows "sole_record meth key (completed_with js) (db w')"
proof -
  let ?f = "\<lambda>r. r\<lparr>idem_RequestHash := [], idem_ResponseType := ty, idem_ResponseJSON := js, idem_ResourceType := [],
      idem_ResourceID := [], idem_Status := ''completed''\<rparr>"
  let ?q = "same_key ''daemonrpc'' meth [] key"
  from assms(3) obtain row where "filter ?q (idemRecords (db w)) = [row]" by (auto simp: sole_record_def)
  then have "filter ?q (map_rows ?q ?f (idemRecords (db w))) = [?f row]"
    by (subst filter_map_rows_same) (simp_all add: same_key_def)
  moreover have "rows_free IdempotencyRecordEnt (map_rows ?q ?f (idemRecords (db w)))"
    using IdempotencyRecordTbl.wf_free [OF assms(2)]
    by (intro rows_free_map_rows) (simp_all add: IdempotencyRecordEnt_def)
  ultimately show ?thesis
    using assms(1,4)
    by (auto simp: CompleteIdempotencyRecord_def ent_update_where_def run_stmt idem_request_def sole_record_def)
qed


lemma remember_settles:
  assumes "no_faults E" and "first_value [k, rid] = key" and "key \<noteq> []" and "pj_marshal P msg = Some js"
    and "store_wf (db (on_disk r))" and "settled meth key is_pending {None} r"
    and "run_state (remember E P meth rid k msg) r = (u, r')"
  shows "settled meth key (completed_with js) {None, Some msg} r'"
proof -
  let ?r = "r\<lparr>server := (server r)\<lparr>srv_idempotency := (srv_idempotency (server r))(meth @ '':'' @ key \<mapsto> msg)\<rparr>\<rparr>"
  let ?m = "CompleteIdempotencyRecord E ((idem_request meth key)\<lparr>idem_ResponseType := message_name msg,
      idem_ResponseJSON := js, idem_Status := ''completed''\<rparr>)"
  obtain x w where run: "run_state ?m (on_disk r) = (x, w)" by (cases "run_state ?m (on_disk r)")
  have sole: "sole_record meth key is_pending (db (on_disk r))" using assms(6) by (simp add: settled_def)
  have "sole_record meth key (completed_with js) (db w)"
    by (rule complete_pending [OF assms(1,5) sole run])
  moreover have "r' = ?r\<lparr>on_disk := w\<rparr>"
    using assms(2-4,7) run by (simp add: remember_def idempotencyCacheKey_def Let_def run_store_call)
  ultimately show ?thesis by (simp add: settled_def)
qed

lemma idempotent_settles:
  assumes "run_state (idempotent E P meth rid k body) r = (x, r')" and "no_faults E"
    and "first_value [k, rid] = key" and "key \<noteq> []" and "unused_key meth key r"
    and "store_wf (db (on_disk r))" and "keeps (on_store store_wf) body"
    and "keeps (settled meth key is_pending {None}) body"
    and "\<And>r1 m b r2. run_state body r1 = (Inr (m, b), r2) \<Longrightarrow> b"
  shows "case x of
      Inl e \<Rightarrow> new_key meth key r' \<or> settled meth key is_pending {None} r'
    | Inr msg \<Rightarrow> (\<forall>js. pj_marshal P msg = Some js \<longrightarrow> settled meth key (completed_with js) {None, Some msg} r')"
proof -
  obtain y r1 where 1: "run_state (replay E P meth rid k) r = (y, r1)" by (cases "run_state (replay E P meth rid k) r")
  obtain z r2 where 2: "run_state (reserve E meth rid k) r1 = (z, r2)" by (cases "run_state (reserve E meth rid k) r1")
  obtain b r3 where 3: "run_state body r2 = (b, r3)" by (cases "run_state body r2")
  have y: "y = None" and un: "unused_key meth key r1" using replay_unused [OF 1 assms(3,5)] by auto
  note res = reserve_unused [OF 2 assms(3,4) un]
  have wf: "store_wf (db (on_disk r3))"
    using keepsD [OF wf_frame(1), of r E P meth rid k] keepsD [OF wf_frame(2), of r1 E meth rid k]
      keepsD [OF assms(7), of r2] assms(6) 1 2 3 by simp
  show ?thesis
  proof (cases z)
    case (Some e)
    with assms(1) 1 2 y res show ?thesis by (auto simp: idempotent_def)
  next
    case None
    with res have "settled meth key is_pending {None} r3" using keepsD [OF assms(8), of r2] 3 by simp
    then show ?thesis
    proof (cases b)
      case (Inl e)
      with assms(1) 1 2 3 y None \<open>settled meth key is_pending {None} r3\<close> show ?thesis by (auto simp: idempotent_def)
    next
      case (Inr p)
      obtain msg keep where p: "p = (msg, keep)" by (cases p)
      with assms(9) 3 Inr have keep by simp
      with assms(1) 1 2 3 y None Inr p
      have "x = Inr msg" and "run_state (remember E P meth rid k msg) r3 = ((), r')"
        by (auto simp: idempotent_def split: prod.splits)
      then show ?thesis
        using remember_settles [OF assms(2-4) _ wf \<open>settled meth key is_pending {None} r3\<close>, of P msg] by auto
    qed
  qed
qed


text \<open>An answer that its body does not ask to remember leaves the key in progress.\<close>

lemma idempotent_drops:
  assumes "run_state (idempotent E P meth rid k body) r = (Inr msg, r')"
    and "first_value [k, rid] = key" and "key \<noteq> []" and "unused_key meth key r"
    and "keeps (settled meth key is_pending {None}) body"
    and "\<And>r1 b r2. run_state body r1 = (Inr (msg, b), r2) \<Longrightarrow> \<not> b"
  shows "settled meth key is_pending {None} r'"
proof -
  obtain y r1 where 1: "run_state (replay E P meth rid k) r = (y, r1)" by (cases "run_state (replay E P meth rid k) r")
  obtain z r2 where 2: "run_state (reserve E meth rid k) r1 = (z, r2)" by (cases "run_state (reserve E meth rid k) r1")
  obtain b r3 where 3: "run_state body r2 = (b, r3)" by (cases "run_state body r2")
  have y: "y = None" and un: "unused_key meth key r1" using replay_unused [OF 1 assms(2,4)] by auto
  have z: "z = None" using assms(1) 1 2 y by (cases z) (auto simp: idempotent_def)
  obtain keep where b: "b = Inr (msg, keep)"
    using assms(1) 1 2 3 y z by (cases b) (auto simp: idempotent_def split: prod.splits if_splits)
  have "\<not> keep" using assms(6) 3 b by blast
  then have "r' = r3" using assms(1) 1 2 3 y z b by (auto simp: idempotent_def)
  then show ?thesis
    using reserve_unused [OF 2 assms(2,3) un] keepsD [OF assms(5), of r2] 3 z by simp
qed

lemma completed_keeps:
  assumes "no_faults E" and "js \<noteq> []" and "pj_unmarshal P meth js = Some msg" and "key \<noteq> []"
    and "first_value [k, rid] = key"
  shows "keeps (settled meth key (completed_with js) {None, Some msg}) (idempotent E P meth rid k body)"
proof (rule keepsI)
  fix r assume st: "settled meth key (completed_with js) {None, Some msg} r"
  from completed_replay [OF assms(1-3,5,4) st, of body] st
  show "settled meth key (completed_with js) {None, Some msg} (snd (run_state (idempotent E P meth rid k body) r))"
    by (auto simp: settled_def)
qed

lemma pending_keeps:
  assumes "no_faults E" and "key \<noteq> []" and "meth \<noteq> []" and "first_value [k, rid] = key"
  shows "keeps (settled meth key is_pending {None}) (idempotent E P meth rid k body)"
proof (rule keepsI)
  fix r assume st: "settled meth key is_pending {None} r"
  from pending_refused [OF assms(1,4,2,3) st, of P body] st
  show "settled meth key is_pending {None} (snd (run_state (idempotent E P meth rid k body) r))"
    by (auto simp: settled_def)
qed

abbreviation ClaimMethod :: string where
  "ClaimMethod \<equiv> ''ClaimCollaborationTask''"

lemma call_survives_restart:
  assumes "run_state (idempotent E D meth rid k body) r = (Inr msg, r1)"
    and "first_value [k, rid] = key" and "key \<noteq> []" and "CHR '':'' \<notin> set meth" and "unused_key meth key r"
    and "no_faults E" and "store_wf (db (on_disk r))"
    and "keeps (on_store store_wf) body" and "\<And>Q M. keeps (settled meth key Q M) body"
    and "\<And>r1 m b r2. run_state body r1 = (Inr (m, b), r2) \<Longrightarrow> b"
    and "pj_marshal D msg = Some js" and "js \<noteq> []" and "pj_unmarshal D meth js = Some msg"
    and "(daemon_step E D)\<^sup>*\<^sup>* r1 r2" and "first_value [k', rid'] = key"
  shows "\<exists>r3. run_state (idempotent E D meth rid' k' body') r2 = (Inr msg, r3) \<and>
    db (on_disk r3) = db (on_disk r2) \<and> server r3 = server r2"
proof -
  have "settled meth key (completed_with js) {None, Some msg} r1"
    using idempotent_settles [OF assms(1,6,2,3,5,7-10)] assms(11) by simp
  then have "settled meth key (completed_with js) {None, Some msg} r2"
    by (intro settled_daemon_steps [OF assms(4) _ completed_keeps [OF assms(6,12,13,3)] assms(14)]) simp_all
  from completed_replay [OF assms(6,12,13,15,3) this]
  show ?thesis by fastforce
qed

text \<open>
  C33: with a database that does not fail, the answer to a claim with a new key is
  stored with the key. When it can be read back, every later claim with that key, after any sequence of
  modelled calls and restarts of the server, gets the same answer and leaves the database as it is.
\<close>

theorem claim_survives_restart:
  assumes "run_state (ClaimCollaborationTask E D req) r = (Inr msg, r1)"
    and "request_key req = key" and "key \<noteq> []" and "unused_key ClaimMethod key r"
    and "no_faults E" and "store_wf (db (on_disk r))"
    and "pj_marshal D msg = Some js" and "js \<noteq> []" and "pj_unmarshal D ClaimMethod js = Some msg"
    and "(daemon_step E D)\<^sup>*\<^sup>* r1 r2" and "request_key again = key"
  shows "\<exists>r3. run_state (ClaimCollaborationTask E D again) r2 = (Inr msg, r3) \<and>
    db (on_disk r3) = db (on_disk r2) \<and> server r3 = server r2"
  using call_survives_restart [OF assms(1) [unfolded ClaimCollaborationTask_def] assms(2,3) _ assms(4-6)
      well_formed.bodies(1) settled_key.bodies(1) claim_body_kept assms(7-11)]
  unfolding ClaimCollaborationTask_def by simp

text \<open>
  C34: with a database that does not fail, a claim that fails after it has reserved its
  key leaves the key in progress for good: every later claim with it, after any sequence of modelled calls and
  restarts, is refused as aborted and leaves the database as it is.
\<close>

theorem claim_failure_final:
  assumes "run_state (ClaimCollaborationTask E D req) r = (Inl e, r1)"
    and "request_key req = key" and "key \<noteq> []" and "unused_key ClaimMethod key r"
    and "no_faults E" and "store_wf (db (on_disk r))"
    and "\<not> new_key ClaimMethod key r1"
    and "(daemon_step E D)\<^sup>*\<^sup>* r1 r2" and "request_key again = key"
  shows "\<exists>r3. run_state (ClaimCollaborationTask E D again) r2 =
      (Inl (Aborted ''idempotency key is already in progress''), r3) \<and>
    db (on_disk r3) = db (on_disk r2) \<and> server r3 = server r2"
proof -
  have "settled ClaimMethod key is_pending {None} r1"
    using idempotent_settles [OF assms(1) [unfolded ClaimCollaborationTask_def] assms(5,2-4,6) well_formed.bodies(1)
        settled_key.bodies(1) claim_body_kept] assms(7) by simp
  then have "settled ClaimMethod key is_pending {None} r2"
    by (intro settled_daemon_steps [OF _ _ pending_keeps [OF assms(5,3)] assms(8)]) simp_all
  from pending_refused [OF assms(5,9,3) _ this]
  show ?thesis unfolding ClaimCollaborationTask_def by fastforce
qed


section \<open>Messages: the response\<close>

abbreviation send_key :: "SendMessageRequest \<Rightarrow> string" where
  "send_key req \<equiv> first_value [smq_IdempotencyKey req, smq_RequestId req]"

lemma send_body_kept: "run_state (send_body E D J req) r = (Inr (m, b), r') \<Longrightarrow> b"
  unfolding send_body_def by (elim rpc_elims) (auto split: sum.splits if_splits)

text \<open>
  C12: with a database that does not fail, the answer to a message sent with a new key is stored
  with the key. When it can be read back, every later request to send with that key, after any sequence of
  modelled calls, one at a time, and of restarts of the server, gets the same answer and leaves the database as
  it is: no second message, event or delivery is stored. This holds for a request with another text too, where
  \<^verbatim>\<open>docs/slock-style-daemon-runtime.md\<close> asks for a conflict.
\<close>

theorem send_once:
  assumes "run_state (Daemon_Messages.SendMessage E D J req) r = (Inr msg, r1)"
    and "send_key req = key" and "key \<noteq> []" and "unused_key ''SendMessage'' key r"
    and "no_faults E" and "store_wf (db (on_disk r))"
    and "pj_marshal D msg = Some js" and "js \<noteq> []" and "pj_unmarshal D ''SendMessage'' js = Some msg"
    and "(daemon_step E D)\<^sup>*\<^sup>* r1 r2" and "send_key again = key"
  shows "\<exists>r3. run_state (Daemon_Messages.SendMessage E D J again) r2 = (Inr msg, r3) \<and>
    db (on_disk r3) = db (on_disk r2) \<and> server r3 = server r2"
  using call_survives_restart [OF assms(1) [unfolded Daemon_Messages.SendMessage_def] assms(2,3) _ assms(4-6)
      well_formed.bodies(3) settled_key.bodies(3) send_body_kept assms(7-11)]
  unfolding Daemon_Messages.SendMessage_def by simp

lemma dropped_stuck:
  assumes "run_state (idempotent E D meth rid k body) r = (Inr msg, r1)"
    and "first_value [k, rid] = key" and "key \<noteq> []" and "unused_key meth key r"
    and "keeps (settled meth key is_pending {None}) body"
    and "\<And>r1 b r2. run_state body r1 = (Inr (msg, b), r2) \<Longrightarrow> \<not> b"
    and "CHR '':'' \<notin> set meth" and "meth \<noteq> []" and "no_faults E"
    and "(daemon_step E D)\<^sup>*\<^sup>* r1 r2" and "first_value [k', rid'] = key"
  shows "\<exists>r3. run_state (idempotent E D meth rid' k' body') r2 =
      (Inl (Aborted ''idempotency key is already in progress''), r3) \<and>
    db (on_disk r3) = db (on_disk r2) \<and> server r3 = server r2"
proof -
  have "settled meth key is_pending {None} r1" by (rule idempotent_drops [OF assms(1-6)])
  then have "settled meth key is_pending {None} r2"
    by (intro settled_daemon_steps [OF assms(7) _ pending_keeps [OF assms(9,3,8)] assms(10)]) simp_all
  from pending_refused [OF assms(9,11,3,8) this] show ?thesis by fastforce
qed

text \<open>A refused cancellation of a reminder leaves its key in progress.\<close>

lemma refused_cancel_stuck:
  assumes "run_state (cancel_reminder_call E D rid k i token actor) r = (Inr (CancelReminderResponse False m), r1)"
    and "first_value [k, rid] = key" and "key \<noteq> []" and "unused_key ''CancelReminder'' key r" and "no_faults E"
    and "(daemon_step E D)\<^sup>*\<^sup>* r1 r2" and "first_value [k', rid'] = key"
  shows "\<exists>r3. run_state (cancel_reminder_call E D rid' k' i' token' actor') r2 =
      (Inl (Aborted ''idempotency key is already in progress''), r3) \<and>
    db (on_disk r3) = db (on_disk r2) \<and> server r3 = server r2"
  unfolding cancel_reminder_call_def
  by (rule dropped_stuck [OF assms(1) [unfolded cancel_reminder_call_def] assms(2-4) settled_key.reminder_bodies(2) _ _ _
      assms(5-7)]) (auto dest: cancel_refused)

lemma update_rejected_unkept:
  assumes "run_state (update_task_body E D taskID summary st) r = (Inr (UpdateTaskResponse None reason, b), r')"
  shows "\<not> b"
  using assms unfolding update_task_body_def Let_def by (elim rpc_elims) (auto split: option.splits if_splits)

text \<open>
  C36: with a database that does not fail, an update of a task that is answered as
  rejected leaves its key in progress for good: unlike an accepted one it is not answered again, and every
  later update with that key, after any sequence of modelled calls and restarts, is refused as aborted.
\<close>

theorem rejected_update_stuck:
  assumes "run_state (update_task_call E D rid k taskID summary st) r = (Inr (UpdateTaskResponse None reason), r1)"
    and "first_value [k, rid] = key" and "key \<noteq> []" and "unused_key ''UpdateTask'' key r" and "no_faults E"
    and "(daemon_step E D)\<^sup>*\<^sup>* r1 r2" and "first_value [k', rid'] = key"
  shows "\<exists>r3. run_state (update_task_call E D rid' k' taskID' summary' st') r2 =
      (Inl (Aborted ''idempotency key is already in progress''), r3) \<and>
    db (on_disk r3) = db (on_disk r2) \<and> server r3 = server r2"
  unfolding update_task_call_def
  by (rule dropped_stuck [OF assms(1) [unfolded update_task_call_def] assms(2-4) settled_key.bodies(4)
      update_rejected_unkept _ _ assms(5-7)]) simp_all

section \<open>A server with one task\<close>

definition demo_rpc :: rpc_world where
  "demo_rpc = \<lparr>on_disk = task_world, server = fresh_server ''s1''\<rparr>"

definition demo_daemon :: "proto_msg \<Rightarrow> daemon_env" where
  "demo_daemon known = \<lparr>pj_marshal = (\<lambda>m. Some (if m = known then ''{known}'' else ''{}'')),
     pj_unmarshal = (\<lambda>_ js. if js = ''{known}'' then Some known else None), pj_task = (\<lambda>_. Some ''{}''), pj_message = (\<lambda>_. Some ''{}''),
     pj_reminder = (\<lambda>_. Some ''{}''),
     iter_runs = (\<lambda>rs. rs), iter_computers = (\<lambda>cs. cs), redact_secrets = (\<lambda>s. s)\<rparr>"

definition demo_claim :: "TaskClaimMode \<Rightarrow> string \<Rightarrow> string \<Rightarrow> ClaimRequest" where
  "demo_claim mode tid key = \<lparr>clm_TaskId = tid, clm_AgentId = ''a1'', clm_RequestId = [], clm_IdempotencyKey = key,
     clm_ClaimMode = mode, clm_LeaseTtlSeconds = 0\<rparr>"

abbreviation review_claim :: "string \<Rightarrow> ClaimRequest" where
  "review_claim tid \<equiv> demo_claim TASK_CLAIM_MODE_REVIEWER tid ''k1''"

definition first_claim :: "proto_msg \<Rightarrow> string \<Rightarrow> (rpc_err + proto_msg) \<times> rpc_world" where
  "first_claim known tid = run_state (ClaimCollaborationTask demo_env (demo_daemon known) (review_claim tid)) demo_rpc"

definition demo_msg :: proto_msg where
  "demo_msg = (case fst (first_claim ReleaseStartPermitResponse ''t1'') of Inl _ \<Rightarrow> ReleaseStartPermitResponse | Inr m \<Rightarrow> m)"

definition claim_accepts :: "rpc_err + proto_msg \<Rightarrow> bool" where
  "claim_accepts x = (case x of Inr (ClaimCollaborationTaskResponse resp) \<Rightarrow> cr_Accepted resp | _ \<Rightarrow> False)"

lemma first_claim_accepted: "claim_accepts (fst (first_claim ReleaseStartPermitResponse ''t1''))"
  by code_simp

lemma first_claim_same: "fst (first_claim demo_msg ''t1'') = Inr demo_msg"
  by code_simp

lemma demo_unused: "unused_key ClaimMethod ''k1'' demo_rpc"
  by (simp add: demo_rpc_def task_demo_defs world_of_def key_taken_def fresh_server_def)

lemma demo_keys [simp]: "request_key (demo_claim mode tid key) = key"
  by (simp add: demo_claim_def first_value_def)

lemma demo_rpc_wf: "store_wf (db (on_disk demo_rpc))"
  by (simp add: demo_rpc_def task_world_wf)

theorem claim_replayed_witness:
  "claim_accepts (fst (first_claim ReleaseStartPermitResponse ''t1'')) \<and>
   run_state (ClaimCollaborationTask demo_env (demo_daemon ReleaseStartPermitResponse) (review_claim ''t2''))
     (snd (first_claim ReleaseStartPermitResponse ''t1'')) = first_claim ReleaseStartPermitResponse ''t1''"
proof -
  obtain m r1 where run: "first_claim ReleaseStartPermitResponse ''t1'' = (Inr m, r1)"
    using first_claim_accepted
    by (cases "first_claim ReleaseStartPermitResponse ''t1''") (auto simp: claim_accepts_def split: sum.splits)
  show ?thesis
    using claim_replayed [OF run [unfolded first_claim_def] _ _ rtranclp.rtrancl_refl, of "review_claim ''t2''"]
      demo_unused first_claim_accepted run by simp
qed

theorem claim_survives_restart_witness:
  "\<exists>r3. run_state (ClaimCollaborationTask demo_env (demo_daemon demo_msg) (review_claim ''t2''))
     (snd (run_state (New demo_env ''s2'') (snd (first_claim demo_msg ''t1'')))) = (Inr demo_msg, r3)"
proof -
  have run: "first_claim demo_msg ''t1'' = (Inr demo_msg, snd (first_claim demo_msg ''t1''))"
    using first_claim_same by (metis prod.collapse)
  have step: "(daemon_step demo_env (demo_daemon demo_msg))\<^sup>*\<^sup>* (snd (first_claim demo_msg ''t1''))
      (snd (run_state (New demo_env ''s2'') (snd (first_claim demo_msg ''t1''))))"
    by (rule r_into_rtranclp, rule daemon_step.restart)
  show ?thesis
    using claim_survives_restart [OF run [unfolded first_claim_def] demo_keys _ demo_unused no_faults_demo demo_rpc_wf _ _ _
        step [unfolded first_claim_def], of "''{known}''" "review_claim ''t2''"]
    by (auto simp: demo_daemon_def first_claim_def)
qed

theorem claim_failure_final_witness:
  "fst (first_claim ReleaseStartPermitResponse ''t9'') = Inl (NotFound ''task not found'') \<and>
   (\<exists>r3. run_state (ClaimCollaborationTask demo_env (demo_daemon ReleaseStartPermitResponse) (review_claim ''t1''))
     (snd (first_claim ReleaseStartPermitResponse ''t9'')) =
       (Inl (Aborted ''idempotency key is already in progress''), r3))"
proof -
  have 1: "fst (first_claim ReleaseStartPermitResponse ''t9'') = Inl (NotFound ''task not found'')" by code_simp
  have 2: "key_taken ''daemonrpc'' ClaimMethod [] ''k1'' (db (on_disk (snd (first_claim ReleaseStartPermitResponse ''t9''))))"
    by code_simp
  have run: "first_claim ReleaseStartPermitResponse ''t9'' =
      (Inl (NotFound ''task not found''), snd (first_claim ReleaseStartPermitResponse ''t9''))"
    using 1 by (metis prod.collapse)
  show ?thesis
    using claim_failure_final [OF run [unfolded first_claim_def] demo_keys _ demo_unused no_faults_demo demo_rpc_wf _
        rtranclp.rtrancl_refl, of "review_claim ''t1''"] 1 2
    by (auto simp: first_claim_def)
qed

section \<open>A message sent twice\<close>

definition demo_send :: "string \<Rightarrow> SendMessageRequest" where
  "demo_send content = \<lparr>smq_RequestId = [], smq_IdempotencyKey = ''k1'', smq_Target = ''#dev'', smq_Content = content,
     smq_Role = [], smq_Kind = MESSAGE_KIND_NOTE, smq_ReplyToMessageId = [],
     smq_Sender = \<lparr>act_ActorKind = ACTOR_KIND_AGENT, act_AgentId = ''a1'', act_UserId = [], act_DaemonId = [], act_DisplayName = []\<rparr>,
     smq_SourceEndpointId = [], smq_MetadataJson = [], smq_OutboundPolicy = OUTBOUND_POLICY_NONE,
     smq_EmitOutbound = False\<rparr>"

definition empty_rpc :: rpc_world where
  "empty_rpc = \<lparr>on_disk = world_of empty_store, server = fresh_server ''s1''\<rparr>"

definition send_daemon :: "proto_msg \<Rightarrow> daemon_env" where
  "send_daemon known = (demo_daemon ReleaseStartPermitResponse)\<lparr>pj_marshal := \<lambda>_. Some ''{}'', pj_unmarshal := \<lambda>_ _. Some known\<rparr>"

definition first_send :: "proto_msg \<Rightarrow> (rpc_err + proto_msg) \<times> rpc_world" where
  "first_send known = run_state (Daemon_Messages.SendMessage demo_env (send_daemon known) outbound_codec (demo_send ''done''))
     empty_rpc"

text \<open>The answer, written out: the kind of a note is not kept.\<close>

definition sent_msg :: proto_msg where
  "sent_msg = SendMessageResponse \<lparr>cm_MessageId = ''msg_aaaaaa'', cm_Target = ''#dev'', cm_ThreadId = [], cm_Role = ''user'',
     cm_Kind = MESSAGE_KIND_UNSPECIFIED, cm_Content = ''done'', cm_ReplyToMessageId = [], cm_CreatedTimeUnix = 1004,
     cm_RequestId = ''k1'', cm_SourceEndpointId = [], cm_ExternalMessageId = [], cm_MetadataJson = ''{}'',
     cm_Attachments = [],
     cm_Sender = \<lparr>act_ActorKind = ACTOR_KIND_AGENT, act_AgentId = ''a1'', act_UserId = [], act_DaemonId = [], act_DisplayName = []\<rparr>,
     cm_AggregateId = ''#dev''\<rparr>"

lemma first_send_same: "fst (first_send sent_msg) = Inr sent_msg"
  by code_simp

lemma first_send_stores: "length (messages (db (on_disk (snd (first_send sent_msg))))) = 1"
  by code_simp

theorem send_once_witness:
  "length (messages (db (on_disk (snd (first_send sent_msg))))) = 1 \<and>
   (\<exists>r3. run_state (Daemon_Messages.SendMessage demo_env (send_daemon sent_msg) outbound_codec (demo_send ''again''))
     (snd (run_state (New demo_env ''s2'') (snd (first_send sent_msg)))) = (Inr sent_msg, r3) \<and>
     db (on_disk r3) = db (on_disk (snd (first_send sent_msg))))"
proof -
  let ?r = "snd (first_send sent_msg)" and ?D = "send_daemon sent_msg"
  have run: "run_state (Daemon_Messages.SendMessage demo_env ?D outbound_codec (demo_send ''done'')) empty_rpc = (Inr sent_msg, ?r)"
    using first_send_same unfolding first_send_def by (metis prod.collapse)
  have step: "(daemon_step demo_env ?D)\<^sup>*\<^sup>* ?r (snd (run_state (New demo_env ''s2'') ?r))"
    by (rule r_into_rtranclp, rule daemon_step.restart)
  have new: "unused_key ''SendMessage'' ''k1'' empty_rpc"
    by (simp add: empty_rpc_def key_taken_def fresh_server_def empty_store_def)
  have key: "send_key (demo_send c) = ''k1''" for c by (simp add: demo_send_def first_value_def)
  have wf: "store_wf (db (on_disk empty_rpc))" by (simp add: empty_rpc_def)
  have "keeps (on_store (\<lambda>d. d = db (on_disk ?r))) (New demo_env ''s2'')"
    unfolding New_def by (intro keeps_rules keeps_store_call)
  then have start: "db (on_disk (snd (run_state (New demo_env ''s2'') ?r))) = db (on_disk ?r)"
    by (rule keepsD) simp
  show ?thesis
    using send_once [OF run key _ new no_faults_demo wf _ _ _ step key, of "''{}''"] first_send_stores start
    by (auto simp: send_daemon_def)
qed

definition reject :: "(rpc_err + proto_msg) \<times> rpc_world" where
  "reject = run_state (update_task_call demo_env (demo_daemon ReleaseStartPermitResponse) [] ''k1'' ''t9'' None
     (Some TASK_STATE_DONE)) demo_rpc"

lemma reject_answer: "fst reject = Inr (UpdateTaskResponse None ''task_not_found'')"
  by code_simp

theorem rejected_update_stuck_witness:
  "fst reject = Inr (UpdateTaskResponse None ''task_not_found'') \<and>
   (\<exists>r3. run_state (update_task_call demo_env (demo_daemon ReleaseStartPermitResponse) [] ''k1'' ''t9'' None
     (Some TASK_STATE_DONE)) (snd reject) = (Inl (Aborted ''idempotency key is already in progress''), r3))"
proof -
  have run: "run_state (update_task_call demo_env (demo_daemon ReleaseStartPermitResponse) [] ''k1'' ''t9'' None
      (Some TASK_STATE_DONE)) demo_rpc = (Inr (UpdateTaskResponse None ''task_not_found''), snd reject)"
    using reject_answer unfolding reject_def by (metis prod.collapse)
  have new: "unused_key ''UpdateTask'' ''k1'' demo_rpc"
    by (simp add: demo_rpc_def task_demo_defs world_of_def key_taken_def fresh_server_def)
  show ?thesis
    using rejected_update_stuck [OF run _ _ new no_faults_demo rtranclp.rtrancl_refl, of "''k1''" "[]"] reject_answer
    by (simp add: first_value_def) blast
qed

end
