(* ===== verification/Daemon_Reports.thy ===== *)
theory Daemon_Reports
  imports Daemon_Calls
begin

text \<open>
  What a claim and the reports of a daemon do to the runs and tasks, and what the server shows about a
  computer that has sent a heartbeat.
\<close>

section \<open>The frame around a body\<close>

text \<open>Apart from its own table the frame touches nothing that bodies work with.\<close>

lemma frame_tasks:
  "keeps (on_store (\<lambda>d. J (tasks d))) (replay E P meth rid k)"
  "keeps (on_store (\<lambda>d. J (tasks d))) (reserve E meth rid k)"
  "keeps (on_store (\<lambda>d. J (tasks d))) (remember E P meth rid k msg)"
  unfolding replay_def reserve_def remember_def GetIdempotencyRecord_def ReserveIdempotencyRecord_def
    CompleteIdempotencyRecord_def Let_def
  by (intro keeps_rules keeps_store_call keeps_ent_create keeps_ent_update_where;
      simp add: IdempotencyRecordEnt_def)+

lemma remember_runs: "keeps (on_server (\<lambda>s. J (srv_runs s))) (remember E P meth rid k msg)"
  unfolding remember_def Let_def by (intro keeps_rules keeps_server_with) simp

lemma replay_no_key: "first_value [k, rid] = [] \<Longrightarrow> run_state (replay E P meth rid k) r = (None, r)"
  by (simp add: replay_def)

lemma call_ran:
  assumes "run_state (idempotent E P meth rid k body) r = (Inr msg, r')"
    and "first_value [k, rid] = [] \<or> unused_key meth (first_value [k, rid]) r"
  obtains r0 b r3 where "run_state body r0 = (Inr (msg, b), r3)" and "server r0 = server r"
    and "tasks (db (on_disk r0)) = tasks (db (on_disk r))"
    and "store_wf (db (on_disk r)) \<Longrightarrow> store_wf (db (on_disk r0))"
    and "srv_runs (server r') = srv_runs (server r3)"
    and "tasks (db (on_disk r')) = tasks (db (on_disk r3))"
proof -
  obtain y r1 where 1: "run_state (replay E P meth rid k) r = (y, r1)" by (cases "run_state (replay E P meth rid k) r")
  obtain z r2 where 2: "run_state (reserve E meth rid k) r1 = (z, r2)" by (cases "run_state (reserve E meth rid k) r1")
  obtain b r3 where 3: "run_state body r2 = (b, r3)" by (cases "run_state body r2")
  have y: "y = None"
    using 1 assms(2) replay_no_key [of k rid E P meth r] replay_unused [OF 1 refl] by auto
  have z: "z = None" using assms(1) 1 2 y by (cases z) (auto simp: idempotent_def)
  obtain keep where b: "b = Inr (msg, keep)"
    using assms(1) 1 2 3 y z by (cases b) (auto simp: idempotent_def split: prod.splits if_splits)
  obtain u r4 where 4: "run_state (remember E P meth rid k msg) r3 = (u, r4)"
    by (cases "run_state (remember E P meth rid k msg) r3")
  have r': "r' = (if keep then r4 else r3)"
    using assms(1) 1 2 3 4 y z b by (auto simp: idempotent_def)
  show ?thesis
  proof (rule that [OF 3 [unfolded b]])
    show "server r2 = server r"
      using keepsD [OF keeps_replay [of "\<lambda>s. s = server r" E P meth rid k], of r]
        keepsD [OF keeps_reserve [of "\<lambda>s. s = server r" E meth rid k], of r1] 1 2 by simp
    show "tasks (db (on_disk r2)) = tasks (db (on_disk r))"
      using keepsD [OF frame_tasks(1) [of "\<lambda>t. t = tasks (db (on_disk r))" E P meth rid k], of r]
        keepsD [OF frame_tasks(2) [of "\<lambda>t. t = tasks (db (on_disk r))" E meth rid k], of r1] 1 2 by simp
    show "store_wf (db (on_disk r2))" if "store_wf (db (on_disk r))"
      using keepsD [OF wf_frame(1), of r E P meth rid k] keepsD [OF wf_frame(2), of r1 E meth rid k] that 1 2 by simp
    show "srv_runs (server r') = srv_runs (server r3)"
      using keepsD [OF remember_runs [of "\<lambda>q. q = srv_runs (server r3)" E P meth rid k msg], of r3] r' 4 by simp
    show "tasks (db (on_disk r')) = tasks (db (on_disk r3))"
      using keepsD [OF frame_tasks(3) [of "\<lambda>t. t = tasks (db (on_disk r3))" E P meth rid k msg], of r3] r' 4 by simp
  qed
qed


section \<open>A claim and its run\<close>

lemma server_same:
  assumes "\<And>K. keeps (on_server K) m" and "run_state m r = (x, r')"
  shows "server r' = server r"
proof -
  have "keeps (on_server (\<lambda>s. s = server r)) m" by (rule assms(1))
  from keepsD [OF this, of r] assms(2) show ?thesis by simp
qed

lemmas same_server = server_same [OF keeps_claim_parts(1)] server_same [OF keeps_claim_parts(2)]
  server_same [OF keeps_claim_parts(3)] server_same [OF keeps_claim_parts(4)]
  server_same [OF keeps_RecordTaskMutation] server_same [OF keeps_newLease] server_same [OF keeps_server_store_call]

lemma UpdateTask_same_id: "run_state (UpdateTask E i patch) w = (Inr t, w') \<Longrightarrow> tsk_ID t = i"
  unfolding UpdateTask_def Let_def
  by (elim run_elims)
    (auto simp: through_Inr_iff taskFromEnt_def TaskEnt_def set_opt_def dest!: run_dests find_SomeD split: option.splits)

lemma ClaimTaskCAS_same_id: "run_state (ClaimTaskCAS E i a l) w = (Inr (t, b), w') \<Longrightarrow> tsk_ID t = i"
  unfolding ClaimTaskCAS_def GetTask_def
  by (elim run_elims)
    (auto simp: through_Inr_iff taskFromEnt_def TaskEnt_def dest!: run_dests filter_singletonD split: sum.splits)

lemma promote_same_id: "run_state (promote_claimed E b t) r = (Inr (t', c), r') \<Longrightarrow> tsk_ID t' = tsk_ID t"
  unfolding promote_claimed_def
  by (elim rpc_elims) (auto dest!: UpdateTask_same_id split: sum.splits)

lemma runEvent_runs:
  "run_state (runEvent E run t q o1) r = (u, r') \<Longrightarrow> srv_runs (server r') = srv_runs (server r)"
  unfolding runEvent_def
  by (elim rpc_elims) (auto dest!: same_server)


lemma put_run_new:
  assumes "distinct (map drun_RunId (srv_runs s))" and "\<not> list_ex a (srv_runs s)" and "a run"
  shows "filter a (srv_runs (put_run run s)) = [run]"
proof -
  have "filter a (map (\<lambda>q. if drun_RunId q = drun_RunId run then run else q) qs) = [run]"
    if "distinct (map drun_RunId qs)" "\<forall>q \<in> set qs. \<not> a q" "\<exists>q \<in> set qs. drun_RunId q = drun_RunId run" for qs
    using that
  proof (induction qs)
    case (Cons q qs)
    have none: "filter a (map (\<lambda>q. if drun_RunId q = drun_RunId run then run else q) qs) = []"
      if "drun_RunId run \<notin> drun_RunId ` set qs"
      using that Cons.prems(2) by (induction qs) auto
    show ?case
    proof (cases "drun_RunId q = drun_RunId run")
      case True
      with Cons.prems none assms(3) show ?thesis by auto
    next
      case False
      with Cons show ?thesis by auto
    qed
  qed simp
  then show "filter a (srv_runs (put_run run s)) = [run]"
    using assms by (auto simp: put_run_def list_ex_iff filter_empty_conv)
qed

lemma ensureClaimRun_run:
  assumes "run_state (ensureClaimRun E D t req lease) r = (run, r')"
    and "\<And>rs. set (iter_runs D rs) = set rs" and "distinct (map drun_RunId (srv_runs (server r)))"
  shows "if list_ex (active_run (tsk_ID t) (clm_AgentId req)) (srv_runs (server r))
      then srv_runs (server r') = srv_runs (server r) \<and> run \<in> set (srv_runs (server r)) \<and>
        active_run (tsk_ID t) (clm_AgentId req) run
      else filter (active_run (tsk_ID t) (clm_AgentId req)) (srv_runs (server r')) = [run]"
proof (cases "find (active_run (tsk_ID t) (clm_AgentId req)) (iter_runs D (srv_runs (server r)))")
  case None
  then have none: "\<not> list_ex (active_run (tsk_ID t) (clm_AgentId req)) (srv_runs (server r))"
    using assms(2) by (auto simp: find_None_iff list_ex_iff)
  have "srv_runs (server r') = srv_runs (put_run run (server r)) \<and> active_run (tsk_ID t) (clm_AgentId req) run"
    using assms(1) None
    by (clarsimp simp: ensureClaimRun_def runEvent_def run_store_call Let_def split: prod.splits)
      (simp add: active_run_def isTerminalRunState_def)
  with none assms(3) put_run_new show ?thesis by auto
next
  case (Some existing)
  then have "run = existing" and "r' = r"
    using assms(1) by (auto simp: ensureClaimRun_def)
  with find_SomeD [OF Some] assms(2) show ?thesis by (auto simp: list_ex_iff)
qed


lemma claim_accepted_run:
  assumes "run_state (claim_accepted E D req lease t) r = (Inr (ClaimCollaborationTaskResponse resp, b), r')"
    and "claimStartsExecution (clm_ClaimMode req)"
  obtains t' r1 run r2 where "run_state (ensureClaimRun E D t' req lease) r1 = (run, r2)" and "tsk_ID t' = tsk_ID t"
    and "srv_runs (server r1) = srv_runs (server r)" and "srv_runs (server r') = srv_runs (server r2)"
    and "pt_CurrentRunId (cr_Task resp) = drun_RunId run"
proof -
  obtain p r1 where 1: "run_state (promote_claimed E True t) r = (p, r1)" by (cases "run_state (promote_claimed E True t) r")
  obtain t' c where p: "p = Inr (t', c)"
    using assms 1 by (cases p) (auto simp: claim_accepted_def Let_def)
  let ?r1 = "r1\<lparr>server := put_lease lease (server r1)\<rparr>"
  obtain run r2 where 2: "run_state (ensureClaimRun E D t' req lease) ?r1 = (run, r2)"
    by (cases "run_state (ensureClaimRun E D t' req lease) ?r1")
  obtain x3 r3 where 3: "run_state (record_claim E t' req lease (Some run)) r2 = (x3, r3)"
    by (cases "run_state (record_claim E t' req lease (Some run)) r2")
  have x3: "x3 = None" using assms 1 2 3 p by (cases x3) (auto simp: claim_accepted_def Let_def)
  obtain x4 r4 where 4: "run_state (RecordTaskMutation E D t' EVENT_OPERATION_CLAIMED) r3 = (x4, r4)"
    by (cases "run_state (RecordTaskMutation E D t' EVENT_OPERATION_CLAIMED) r3")
  have x4: "x4 = None" using assms 1 2 3 4 p x3 by (cases x4) (auto simp: claim_accepted_def Let_def)
  obtain x5 r5 where 5: "run_state (if c then RecordTaskMutation E D t' EVENT_OPERATION_STATE_CHANGED else ret None) r4 = (x5, r5)"
    by (cases "run_state (if c then RecordTaskMutation E D t' EVENT_OPERATION_STATE_CHANGED else ret None) r4")
  have x5: "x5 = None" using assms 1 2 3 4 5 p x3 x4 by (cases x5) (auto simp: claim_accepted_def Let_def)
  have r': "r' = r5" and resp: "pt_CurrentRunId (cr_Task resp) = drun_RunId run"
    using assms 1 2 3 4 5 p x3 x4 x5 by (auto simp: claim_accepted_def Let_def)
  have "server r5 = server r4" using 5 by (cases c) (auto dest: same_server)
  then have "server r5 = server r2" using same_server(2) [OF 3] same_server(5) [OF 4] by simp
  then show ?thesis
    using that [OF 2] same_server(1) [OF 1] promote_same_id [OF 1 [unfolded p]] r' resp
    by (simp add: put_lease_def)
qed

lemma claim_body_run:
  assumes "run_state (claim_body E D req) r = (Inr (ClaimCollaborationTaskResponse resp, b), r')"
    and "cr_Accepted resp" and "claimStartsExecution (clm_ClaimMode req)"
  obtains t r1 lease run r2 where "run_state (ensureClaimRun E D t req lease) r1 = (run, r2)"
    and "tsk_ID t = clm_TaskId req"
    and "srv_runs (server r1) = srv_runs (server r)" and "srv_runs (server r') = srv_runs (server r2)"
    and "pt_CurrentRunId (cr_Task resp) = drun_RunId run"
proof -
  let ?ttl = "if clm_LeaseTtlSeconds req = 0 then 300 else uint (clm_LeaseTtlSeconds req)"
  obtain lease r1 where 1: "run_state (newLease E ''task_claim'' (clm_TaskId req) (clm_AgentId req) ?ttl) r = (lease, r1)"
    by (cases "run_state (newLease E ''task_claim'' (clm_TaskId req) (clm_AgentId req) ?ttl) r")
  obtain x r2 where 2: "run_state (store_call (ClaimTaskCAS E (clm_TaskId req) (clm_AgentId req) (lea_LeaseId lease))) r1 = (x, r2)"
    by (cases "run_state (store_call (ClaimTaskCAS E (clm_TaskId req) (clm_AgentId req) (lea_LeaseId lease))) r1")
  obtain t where x: "x = Inr (t, True)" and 3: "run_state (claim_accepted E D req lease t) r2 =
      (Inr (ClaimCollaborationTaskResponse resp, b), r')"
    using assms(1,2) 1 2 by (auto simp: claim_body_def split: sum.splits prod.splits if_splits)
  have "tsk_ID t = clm_TaskId req" using 2 x by (elim store_callE) (auto dest: ClaimTaskCAS_same_id)
  moreover have "server r2 = server r" using same_server(6) [OF 1] same_server(7) [OF 2] by simp
  ultimately show ?thesis
    using claim_accepted_run [OF 3 assms(3)] that by metis
qed


text \<open>
  C37: after any sequence of modelled calls, one at a time, and of restarts of the server, an accepted claim that
  starts execution, with a key that was not used before or without one, answers with the identifier of an active run of that agent on that
  task. If there was none, there is exactly one afterwards; if there was one already, or several (a report can make an
  ended run active again), the answer is one of them and the table of runs does not change.
\<close>

theorem claim_one_active_run:
  assumes "(daemon_step E D)\<^sup>*\<^sup>* r0 r" and "srv_runs (server r0) = []"
    and "run_state (ClaimCollaborationTask E D req) r = (Inr (ClaimCollaborationTaskResponse resp), r')"
    and "cr_Accepted resp" and "claimStartsExecution (clm_ClaimMode req)"
    and "request_key req = [] \<or> unused_key ClaimMethod (request_key req) r"
    and "\<And>rs. set (iter_runs D rs) = set rs"
  shows "\<exists>run. active_run (clm_TaskId req) (clm_AgentId req) run \<and> drun_RunId run = pt_CurrentRunId (cr_Task resp) \<and>
    (if list_ex (active_run (clm_TaskId req) (clm_AgentId req)) (srv_runs (server r))
     then srv_runs (server r') = srv_runs (server r) \<and> run \<in> set (srv_runs (server r))
     else filter (active_run (clm_TaskId req) (clm_AgentId req)) (srv_runs (server r')) = [run])"
proof -
  let ?a = "active_run (clm_TaskId req) (clm_AgentId req)"
  have keyed: "distinct (map drun_RunId (srv_runs (server r)))"
    using daemon_steps_keyed [OF assms(1)] assms(2) by (simp add: runs_keyed_def)
  obtain q0 b r3 where body: "run_state (claim_body E D req) q0 = (Inr (ClaimCollaborationTaskResponse resp, b), r3)"
    and q0: "server q0 = server r" and r': "srv_runs (server r') = srv_runs (server r3)"
    using call_ran [OF assms(3) [unfolded ClaimCollaborationTask_def] assms(6)] by blast
  obtain t r1 lease run r2 where run: "run_state (ensureClaimRun E D t req lease) r1 = (run, r2)"
    and t: "tsk_ID t = clm_TaskId req" and r1: "srv_runs (server r1) = srv_runs (server q0)"
    and r3: "srv_runs (server r3) = srv_runs (server r2)" and id: "pt_CurrentRunId (cr_Task resp) = drun_RunId run"
    by (rule claim_body_run [OF body assms(4,5)])
  have "distinct (map drun_RunId (srv_runs (server r1)))" using keyed by (simp only: r1 q0)
  from ensureClaimRun_run [OF run assms(7) this]
  have runs: "if list_ex ?a (srv_runs (server r))
      then srv_runs (server r') = srv_runs (server r) \<and> run \<in> set (srv_runs (server r)) \<and> ?a run
      else filter ?a (srv_runs (server r')) = [run]"
    by (simp only: t r1 q0 r' r3)
  then have "?a run" by (auto split: if_splits dest: filter_singletonD)
  with runs id show ?thesis by (intro exI [of _ run]) auto
qed


section \<open>A report about a run settles its task\<close>

text \<open>The state of the task after a run has ended.\<close>

definition settled_state :: "RunState \<Rightarrow> string" where
  "settled_state st = (case st of RUN_STATE_COMPLETED \<Rightarrow> ''in_review'' | RUN_STATE_FAILED \<Rightarrow> ''blocked''
     | _ \<Rightarrow> ''canceled'')"

abbreviation has_task :: "string \<Rightarrow> store \<Rightarrow> bool" where
  "has_task i d \<equiv> list_ex (\<lambda>t. tsk_ID t = i) (tasks d)"

lemma tasks_kept:
  "keeps (on_db (\<lambda>d. J (tasks d))) (UpdateTaskAttemptFromRun E at1)"
  unfolding UpdateTaskAttemptFromRun_def lookupTaskAttempt_def GetTask_def Let_def
  by (intro keeps_rules keeps_ent_update_where keeps_ent_update_one keeps_ent_create;
      simp add: TaskEnt_def TaskAttemptEnt_def)+

lemma tasks_append_attempt: "keeps (on_db (\<lambda>d. J (tasks d))) (append_attempt E ev)"
  unfolding append_attempt_def Let_def
  by (intro keeps_tx keeps_rules keeps_ent_create keeps_ent_update_where keeps_ent_update_one;
      (assumption | simp add: keeps_return CollaborationEventEnt_def)?)

lemma tasks_append: "keeps (on_db (\<lambda>d. J (tasks d))) (AppendCollaborationEvent E ev)"
proof -
  have "keeps (on_db (\<lambda>d. J (tasks d))) (append_loop E n ev)" for n ev
    by (induction n) (auto intro!: keeps_rules tasks_append_attempt)
  then show ?thesis
    unfolding AppendCollaborationEvent_def event_defaults_def by (intro keeps_rules)
qed

lemma tasks_report_parts:
  "keeps (on_store (\<lambda>d. J (tasks d))) (runEvent E run t q o1)"
  "keeps (on_store (\<lambda>d. J (tasks d))) (recordTaskAttemptRunStatus E D run req)"
  "keeps (on_store (\<lambda>d. J (tasks d))) (RecordTaskMutation E D tsk o1)"
  unfolding runEvent_def recordTaskAttemptRunStatus_def RecordTaskMutation_def
  by (intro keeps_rules keeps_store_call tasks_kept tasks_append)+

lemma settled_words:
  "lower_word ''in_review'' \<and> trimmed ''in_review''" "lower_word ''blocked'' \<and> trimmed ''blocked''"
  "lower_word ''canceled'' \<and> trimmed ''canceled''"
  by code_simp+

lemmas settled_norm = settled_words [THEN norm_word]

lemma UpdateTask_settles:
  assumes "run_state (UpdateTask E i (run_patch D run req)) w = (x, w')" and "isTerminalRunState (drun_State run)"
    and "has_task i (db w)"
  shows "x \<noteq> Inl ErrNotFound" and "x = Inr t \<Longrightarrow> t \<in> set (tasks (db w')) \<and> tsk_ID t = i \<and>
    tsk_State t = settled_state (drun_State run)"
proof -
  have norm: "normalizeTaskState E ''in_review'' = ''in_review''" "normalizeTaskState E ''blocked'' = ''blocked''"
    "normalizeTaskState E ''canceled'' = ''canceled''"
    by (simp_all add: normalizeTaskState_def settled_norm)
  show "x \<noteq> Inl ErrNotFound"
    using assms norm unfolding UpdateTask_def Let_def
    by (elim run_elims) (auto simp: through_Inl_iff list_ex_iff TaskEnt_def err_defs dest!: run_dests split: if_splits sum.splits)
  show "x = Inr t \<Longrightarrow> t \<in> set (tasks (db w')) \<and> tsk_ID t = i \<and> tsk_State t = settled_state (drun_State run)"
    using assms norm unfolding UpdateTask_def Let_def
    by (elim run_elims) (auto simp: through_Inr_iff run_patch_def isTerminalRunState_def settled_state_def taskFromEnt_def TaskEnt_def set_opt_def
      dest!: run_dests find_SomeD intro!: map_rows_mem)
qed


lemma reported_run_known:
  assumes "find_run s (urs_RunId req) = Some run"
  shows "drun_TaskId (reported_run D s now req) = drun_TaskId run"
    and "drun_RunId (reported_run D s now req) = urs_RunId req"
  using assms find_SomeD [OF assms [unfolded find_run_def]] by (auto simp: reported_run_def Let_def)

lemma reported_run_state [simp]: "drun_State (reported_run D s now req) = urs_State req"
  by (simp add: reported_run_def Let_def)

lemma find_put_run [simp]: "find_run (put_run run s) (drun_RunId run) = Some run"
proof -
  have "find (\<lambda>q. drun_RunId q = drun_RunId run) (map (\<lambda>q. if drun_RunId q = drun_RunId run then run else q) qs) = Some run"
    if "list_ex (\<lambda>q. drun_RunId q = drun_RunId run) qs" for qs
    using that by (induction qs) auto
  moreover have "find (\<lambda>q. drun_RunId q = drun_RunId run) (qs @ [run]) = Some run"
    if "\<not> list_ex (\<lambda>q. drun_RunId q = drun_RunId run) qs" for qs
    using that by (induction qs) auto
  ultimately show ?thesis by (simp add: find_run_def put_run_def)
qed

lemma updateTask_settles:
  assumes "run_state (updateTaskFromRunStatus E D run req) r = (None, r')" and "drun_TaskId run \<noteq> []"
    and "isTerminalRunState (drun_State run)" and "has_task (drun_TaskId run) (db (on_disk r))"
  shows "list_ex (\<lambda>t. tsk_ID t = drun_TaskId run \<and> tsk_State t = settled_state (drun_State run)) (tasks (db (on_disk r')))"
proof -
  let ?u = "UpdateTask E (drun_TaskId run) (run_patch D run req)"
  let ?J = "list_ex (\<lambda>t. tsk_ID t = drun_TaskId run \<and> tsk_State t = settled_state (drun_State run))"
  obtain x w where u: "run_state ?u (on_disk r) = (x, w)" by (cases "run_state ?u (on_disk r)")
  obtain t where x: "x = Inr t"
    using assms(1-3) u UpdateTask_settles(1) [OF u assms(3,4)]
    by (cases x) (auto simp: updateTaskFromRunStatus_def run_store_call split: if_splits)
  have "?J (tasks (db w))" using UpdateTask_settles(2) [OF u assms(3,4) x] by (auto simp: list_ex_iff)
  then show ?thesis
    using assms(1-3) u x keepsD [OF tasks_report_parts(3) [of ?J E D t EVENT_OPERATION_STATE_CHANGED], of "r\<lparr>on_disk := w\<rparr>"]
    by (auto simp: updateTaskFromRunStatus_def run_store_call split: prod.splits option.splits)
qed


lemma report_body_run:
  assumes "run_state (report_body E D req) r = (Inr (msg, b), r')"
    and "find_run (server r) (urs_RunId req) = Some run" and "drun_TaskId run \<noteq> []"
    and "isTerminalRunState (urs_State req)" and "has_task (drun_TaskId run) (db (on_disk r))"
  shows "\<exists>run'. msg = UpdateRunStatusResponse run' \<and> srv_runs (server r') = srv_runs (put_run run' (server r)) \<and>
      drun_RunId run' = urs_RunId req \<and> drun_TaskId run' = drun_TaskId run \<and> drun_State run' = urs_State req"
    and "list_ex (\<lambda>t. tsk_ID t = drun_TaskId run \<and> tsk_State t = settled_state (urs_State req)) (tasks (db (on_disk r')))"
proof -
  have ne: "urs_RunId req \<noteq> []" using assms(1) by (auto simp: report_body_def)
  obtain now w1 where 1: "run_state (unixNow E) (on_disk r) = (now, w1)" by (cases "run_state (unixNow E) (on_disk r)")
  let ?run = "reported_run D (server r) now req"
  let ?r1 = "r\<lparr>on_disk := w1, server := put_run ?run (server r)\<rparr>"
  let ?ev = "runEvent E ?run (first_value [drun_Target ?run, drun_ComputerId ?run, drun_AgentId ?run])
      (urs_RequestId req) EVENT_OPERATION_UPDATED"
  obtain u r2 where 2: "run_state ?ev ?r1 = (u, r2)" by (cases "run_state ?ev ?r1")
  obtain e1 r3 where 3: "run_state (recordTaskAttemptRunStatus E D ?run req) r2 = (e1, r3)"
    by (cases "run_state (recordTaskAttemptRunStatus E D ?run req) r2")
  obtain e2 r4 where 4: "run_state (updateTaskFromRunStatus E D ?run req) r3 = (e2, r4)"
    by (cases "run_state (updateTaskFromRunStatus E D ?run req) r3")
  have "e1 = None \<and> e2 = None \<and> r' = r4 \<and> msg = UpdateRunStatusResponse ?run"
    using assms(1) ne 1 2 3 4
    by (cases e1; cases e2) (auto simp: report_body_def run_store_call Let_def)
  then have e: "e2 = None" "r' = r4" "msg = UpdateRunStatusResponse ?run" by simp_all
  have "srv_runs (server r4) = srv_runs (put_run ?run (server r))"
    using runEvent_runs [OF 2] same_server(3) [OF 3] same_server(4) [OF 4] by simp
  then show "\<exists>run'. msg = UpdateRunStatusResponse run' \<and> srv_runs (server r') = srv_runs (put_run run' (server r)) \<and>
      drun_RunId run' = urs_RunId req \<and> drun_TaskId run' = drun_TaskId run \<and> drun_State run' = urs_State req"
    using e reported_run_known [OF assms(2)] by (intro exI [of _ ?run]) simp
  let ?J = "list_ex (\<lambda>t. tsk_ID t = drun_TaskId run)"
  have "?J (tasks (db (on_disk ?r1)))" using assms(5) now_run [OF 1] by simp
  with keepsD [of "on_store (\<lambda>d. ?J (tasks d))" ?ev ?r1, OF tasks_report_parts(1)] 2
  have "?J (tasks (db (on_disk r2)))" by simp
  with keepsD [of "on_store (\<lambda>d. ?J (tasks d))" "recordTaskAttemptRunStatus E D ?run req" r2, OF tasks_report_parts(2)] 3
  have "?J (tasks (db (on_disk r3)))" by simp
  then show "list_ex (\<lambda>t. tsk_ID t = drun_TaskId run \<and> tsk_State t = settled_state (urs_State req)) (tasks (db (on_disk r')))"
    using updateTask_settles [of E D ?run req r3 r4] 4 e reported_run_known(1) [OF assms(2)] assms(3,4) by simp
qed

text \<open>
  C38: an accepted report that a known run of a stored task has ended, with a key that
  was not used before or without one, stores the state of the run and moves the task of the run: to review
  when it completed, to blocked when it failed, to canceled when it was canceled.
\<close>

theorem run_report_settles_task:
  assumes "run_state (UpdateRunStatus E D req) r = (Inr msg, r')"
    and "first_value [urs_IdempotencyKey req, urs_RequestId req] = [] \<or>
      unused_key ''UpdateRunStatus'' (first_value [urs_IdempotencyKey req, urs_RequestId req]) r"
    and "find_run (server r) (urs_RunId req) = Some run" and "drun_TaskId run \<noteq> []"
    and "has_task (drun_TaskId run) (db (on_disk r))" and "isTerminalRunState (urs_State req)"
  shows "list_ex (\<lambda>t. tsk_ID t = drun_TaskId run \<and> tsk_State t = settled_state (urs_State req)) (tasks (db (on_disk r'))) \<and>
    (\<exists>run'. msg = UpdateRunStatusResponse run' \<and> find_run (server r') (urs_RunId req) = Some run' \<and>
      drun_TaskId run' = drun_TaskId run \<and> drun_State run' = urs_State req)"
proof -
  obtain r0 b r3 where body: "run_state (report_body E D req) r0 = (Inr (msg, b), r3)"
    and r0: "server r0 = server r" "tasks (db (on_disk r0)) = tasks (db (on_disk r))"
    and r': "srv_runs (server r') = srv_runs (server r3)" "tasks (db (on_disk r')) = tasks (db (on_disk r3))"
    using call_ran [OF assms(1) [unfolded UpdateRunStatus_def] assms(2)] by blast
  have known: "find_run (server r0) (urs_RunId req) = Some run" "has_task (drun_TaskId run) (db (on_disk r0))"
    using assms(3,5) by (simp_all only: r0)
  note body_run = report_body_run [OF body known(1) assms(4,6) known(2)]
  from body_run(1) obtain run' where run': "msg = UpdateRunStatusResponse run'"
    "srv_runs (server r3) = srv_runs (put_run run' (server r0))" "drun_RunId run' = urs_RunId req"
    "drun_TaskId run' = drun_TaskId run" "drun_State run' = urs_State req" by blast
  then have "find_run (server r') (urs_RunId req) = Some run'"
    using find_put_run [of run' "server r0"] r'(1) by (simp add: find_run_def)
  with run' body_run(2) r'(2) show ?thesis by auto
qed


section \<open>What the server shows after a heartbeat\<close>

lemma HeartbeatComputer_run:
  assumes "run_state (HeartbeatComputer E (Some info) inventory full version leaseID snapshots) r = (Inr (now, lease), r')"
  shows "\<exists>c. map_of (srv_computers (server r')) (ci_ComputerId info) = Some c \<and> cst_info c = Some info \<and>
      cst_lastHeartbeat c = now \<and> cst_lease c = Some (lea_LeaseId lease)"
    and "lookup_lease (server r') (lea_LeaseId lease) = Some lease"
    and "lea_ExpiresTimeUnix lease = now + computerLeaseSeconds"
proof -
  have ne: "ci_ComputerId info \<noteq> []" using assms by (auto simp: HeartbeatComputer_def)
  obtain nw w1 where 1: "run_state (unixNow E) (on_disk r) = (nw, w1)" by (cases "run_state (unixNow E) (on_disk r)")
  define c0 where "c0 = (case map_of (srv_computers (server r)) (ci_ComputerId info) of None \<Rightarrow> no_computer | Some c \<Rightarrow> c)"
  define m where "m = (case kept_lease (server r) c0 leaseID of
      Some l \<Rightarrow> ret l
    | None \<Rightarrow> newLease E ''computer'' (ci_ComputerId info)
        (if ci_DaemonId info = [] then ci_ComputerId info else ci_DaemonId info) computerLeaseSeconds)"
  obtain lease0 r2 where 2: "run_state m (r\<lparr>on_disk := w1\<rparr>) = (lease0, r2)" by (cases "run_state m (r\<lparr>on_disk := w1\<rparr>)")
  define c where "c = (if full then c0\<lparr>cst_info := Some info, cst_lastHeartbeat := nw, cst_inventory := inventory,
      cst_inventoryVersion := version\<rparr> else c0\<lparr>cst_info := Some info, cst_lastHeartbeat := nw\<rparr>)
    \<lparr>cst_lease := Some (lea_LeaseId lease0)\<rparr>"
  have "now = nw \<and> lease = lease0\<lparr>lea_ExpiresTimeUnix := nw + computerLeaseSeconds\<rparr> \<and>
      server r' = status_updates now snapshots (put_lease lease (put_computer (ci_ComputerId info) c (server r2)))"
    using assms ne 1 2
    by (auto simp: HeartbeatComputer_def Let_def run_store_call c0_def [symmetric] m_def [symmetric] c_def)
  then have "server r' = status_updates now snapshots (put_lease lease (put_computer (ci_ComputerId info) c (server r2)))"
    and "cst_info c = Some info" "cst_lastHeartbeat c = now" "cst_lease c = Some (lea_LeaseId lease)"
    and exp: "lea_ExpiresTimeUnix lease = now + computerLeaseSeconds"
    by (simp_all add: c_def)
  then show "\<exists>c. map_of (srv_computers (server r')) (ci_ComputerId info) = Some c \<and> cst_info c = Some info \<and>
      cst_lastHeartbeat c = now \<and> cst_lease c = Some (lea_LeaseId lease)"
    and "lookup_lease (server r') (lea_LeaseId lease) = Some lease"
    by (auto simp: status_updates_def put_lease_def put_computer_def lookup_lease_def update_conv')
  from exp show "lea_ExpiresTimeUnix lease = now + computerLeaseSeconds" .
qed

definition shown_status :: "ComputerStatus \<Rightarrow> ComputerStatus" where
  "shown_status st = (if st \<in> {COMPUTER_STATUS_UNSPECIFIED, COMPUTER_STATUS_STALE, COMPUTER_STATUS_OFFLINE}
     then COMPUTER_STATUS_ONLINE else st)"

text \<open>
  C40: after a heartbeat the computer is shown as reported (online when it reported nothing
  usable) for sixty seconds, as stale from then on and as offline from the very second its lease ends; the
  agents on it are shown stale and offline with it, whatever they reported.
\<close>

theorem heartbeat_window:
  assumes "run_state (HeartbeatComputer E (Some info) inventory full version leaseID snapshots) r = (Inr (now, lease), r')"
    and "0 < now"
  shows "\<exists>c. map_of (srv_computers (server r')) (ci_ComputerId info) = Some c \<and>
      lookup_lease (server r') (lea_LeaseId lease) = Some lease \<and>
      (\<forall>t. derivedStatus (Some c) t =
         (if lea_ExpiresTimeUnix lease \<le> t then COMPUTER_STATUS_OFFLINE
          else if now + 60 \<le> t then COMPUTER_STATUS_STALE else shown_status (ci_Status info))) \<and>
      (\<forall>t snapshot. ast_ComputerId snapshot = ci_ComputerId info \<longrightarrow> now + 60 \<le> t \<longrightarrow>
         ast_Presence (derivedAgentStatus (server r') snapshot t) =
         (if lea_ExpiresTimeUnix lease \<le> t then AGENT_PRESENCE_OFFLINE else AGENT_PRESENCE_STALE))"
proof -
  from HeartbeatComputer_run(1) [OF assms(1)] obtain c
    where c: "map_of (srv_computers (server r')) (ci_ComputerId info) = Some c" "cst_info c = Some info"
      "cst_lastHeartbeat c = now" by blast
  have exp: "lea_ExpiresTimeUnix lease = now + 90"
    using HeartbeatComputer_run(3) [OF assms(1)] by (simp add: computerLeaseSeconds_def)
  have status: "derivedStatus (Some c) t =
      (if lea_ExpiresTimeUnix lease \<le> t then COMPUTER_STATUS_OFFLINE
       else if now + 60 \<le> t then COMPUTER_STATUS_STALE else shown_status (ci_Status info))" for t
    using c(2,3) assms(2) exp
    by (auto simp: derivedStatus_def Let_def computerOfflineAfterSeconds_def computerLeaseSeconds_def
      computerStaleAfterSeconds_def shown_status_def)
  have "ast_Presence (derivedAgentStatus (server r') snapshot t) =
      (if lea_ExpiresTimeUnix lease \<le> t then AGENT_PRESENCE_OFFLINE else AGENT_PRESENCE_STALE)"
    if "ast_ComputerId snapshot = ci_ComputerId info" and "now + 60 \<le> t" for t snapshot
    using that c(1) by (simp add: derivedAgentStatus_def Let_def status applyComputerStatusToAgentStatus_def)
  with c(1) status HeartbeatComputer_run(2) [OF assms(1)] show ?thesis by blast
qed


section \<open>Concrete calls\<close>

definition busy_rpc :: rpc_world where
  "busy_rpc = \<lparr>on_disk = world_of (empty_store\<lparr>tasks := [demo_task\<lparr>tsk_State := ''in_progress''\<rparr>]\<rparr>),
     server = fresh_server ''s1''\<rparr>"

definition owner_claim :: "(rpc_err + proto_msg) \<times> rpc_world" where
  "owner_claim = run_state (ClaimCollaborationTask demo_env (demo_daemon ReleaseStartPermitResponse)
     (demo_claim TASK_CLAIM_MODE_OWNER ''t1'' [])) busy_rpc"

lemma owner_claim_accepted: "claim_accepts (fst owner_claim)"
  by code_simp

theorem claim_one_active_run_witness:
  "\<exists>resp r'. owner_claim = (Inr (ClaimCollaborationTaskResponse resp), r') \<and>
     (\<exists>run. filter (active_run ''t1'' ''a1'') (srv_runs (server r')) = [run] \<and>
       drun_RunId run = pt_CurrentRunId (cr_Task resp))"
proof -
  obtain resp where acc: "fst owner_claim = Inr (ClaimCollaborationTaskResponse resp)" "cr_Accepted resp"
    using owner_claim_accepted by (auto simp: claim_accepts_def split: sum.splits proto_msg.splits)
  then obtain r' where run: "owner_claim = (Inr (ClaimCollaborationTaskResponse resp), r')" by (metis prod.collapse)
  show ?thesis
    using claim_one_active_run [OF rtranclp.rtrancl_refl _ run [unfolded owner_claim_def] acc(2)] run
    by (auto simp: busy_rpc_def fresh_server_def demo_daemon_def demo_claim_def claimStartsExecution_def first_value_def)
qed

text \<open>The stages of a report, for evaluation.\<close>

lemma report_stages:
  assumes "urs_RunId req \<noteq> []" and "first_value [urs_IdempotencyKey req, urs_RequestId req] = []"
    and "reported_run D (server r) (clock E (tick (on_disk r))) req = run"
    and "run_state (runEvent E run (first_value [drun_Target run, drun_ComputerId run, drun_AgentId run])
        (urs_RequestId req) EVENT_OPERATION_UPDATED)
      (r\<lparr>on_disk := (on_disk r)\<lparr>tick := Suc (tick (on_disk r))\<rparr>, server := put_run run (server r)\<rparr>) = (u, r1)"
    and "run_state (recordTaskAttemptRunStatus E D run req) r1 = (None, r2)"
    and "run_state (updateTaskFromRunStatus E D run req) r2 = (None, r3)"
  shows "run_state (UpdateRunStatus E D req) r = (Inr (UpdateRunStatusResponse run), r3)"
proof -
  have "run_state (report_body E D req) r = (Inr (UpdateRunStatusResponse run, True), r3)"
    using assms by (simp add: report_body_def Let_def run_store_call)
  with assms(2) show ?thesis
    by (simp add: UpdateRunStatus_def idempotent_def replay_no_key reserve_def remember_def Let_def)
qed

definition report_run :: "RunState \<Rightarrow> int \<Rightarrow> int \<Rightarrow> Run" where
  "report_run st upd fin = \<lparr>drun_RunId = ''run1'', drun_TaskId = ''t1'', drun_Target = ''#dev'', drun_AgentId = ''a1'',
     drun_ComputerId = ''c1'', drun_RuntimeProfileId = ''p1'', drun_State = st, drun_LeaseId = ''l1'',
     drun_RequestId = [], drun_StartedTimeUnix = 1, drun_UpdatedTimeUnix = upd, drun_CompletedTimeUnix = fin,
     drun_Error = [], drun_Summary = [], drun_Attempt = 1, drun_MaxAttempts = 1, drun_LastHeartbeatTimeUnix = upd\<rparr>"

definition demo_report :: UpdateRunStatusRequest where
  "demo_report = \<lparr>urs_RunId = ''run1'', urs_AgentId = ''a1'', urs_State = RUN_STATE_FAILED, urs_Summary = [],
     urs_Error = [], urs_BlockedReason = [], urs_RequestId = [], urs_IdempotencyKey = [], urs_LeaseId = [],
     urs_ResultJson = [], urs_ResultDigest = [], urs_ResultSignature = [], urs_SignaturePublicKey = []\<rparr>"

definition running_rpc :: rpc_world where
  "running_rpc = busy_rpc\<lparr>server := (fresh_server ''s1'')\<lparr>srv_runs := [report_run RUN_STATE_RUNNING 1 0]\<rparr>\<rparr>"

abbreviation failed_run :: Run where
  "failed_run \<equiv> report_run RUN_STATE_FAILED 1000 1000"

abbreviation plain_daemon :: daemon_env where
  "plain_daemon \<equiv> demo_daemon ReleaseStartPermitResponse"

definition stage1 :: "unit \<times> rpc_world" where
  "stage1 = run_state (runEvent demo_env failed_run ''#dev'' [] EVENT_OPERATION_UPDATED)
     (running_rpc\<lparr>on_disk := (on_disk running_rpc)\<lparr>tick := Suc (tick (on_disk running_rpc))\<rparr>,
        server := put_run failed_run (server running_rpc)\<rparr>)"

definition stage2 :: "rpc_err option \<times> rpc_world" where
  "stage2 = run_state (recordTaskAttemptRunStatus demo_env plain_daemon failed_run demo_report) (snd stage1)"

definition stage3 :: "rpc_err option \<times> rpc_world" where
  "stage3 = run_state (updateTaskFromRunStatus demo_env plain_daemon failed_run demo_report) (snd stage2)"

lemma demo_stages: "fst stage2 = None" "fst stage3 = None"
  by code_simp+

lemma failed_run_reported:
  "reported_run plain_daemon (server running_rpc) (clock demo_env (tick (on_disk running_rpc))) demo_report = failed_run"
  by code_simp

lemma demo_report_run:
  "run_state (UpdateRunStatus demo_env plain_daemon demo_report) running_rpc =
     (Inr (UpdateRunStatusResponse failed_run), snd stage3)"
proof (rule report_stages [OF _ _ failed_run_reported])
  show "run_state (runEvent demo_env failed_run
      (first_value [drun_Target failed_run, drun_ComputerId failed_run, drun_AgentId failed_run])
      (urs_RequestId demo_report) EVENT_OPERATION_UPDATED)
     (running_rpc\<lparr>on_disk := (on_disk running_rpc)\<lparr>tick := Suc (tick (on_disk running_rpc))\<rparr>,
        server := put_run failed_run (server running_rpc)\<rparr>) = ((), snd stage1)"
    by (simp add: stage1_def demo_report_def report_run_def first_value_def prod_eq_iff)
  show "run_state (recordTaskAttemptRunStatus demo_env plain_daemon failed_run demo_report) (snd stage1) = (None, snd stage2)"
    using demo_stages(1) by (simp add: stage2_def prod_eq_iff)
  show "run_state (updateTaskFromRunStatus demo_env plain_daemon failed_run demo_report) (snd stage2) = (None, snd stage3)"
    using demo_stages(2) by (simp add: stage3_def prod_eq_iff)
qed (simp_all add: demo_report_def first_value_def)

theorem run_report_settles_task_witness:
  "list_ex (\<lambda>t. tsk_ID t = ''t1'' \<and> tsk_State t = ''blocked'') (tasks (db (on_disk (snd stage3))))"
  using run_report_settles_task [OF demo_report_run, of "report_run RUN_STATE_RUNNING 1 0"]
  by (simp add: demo_report_def first_value_def running_rpc_def busy_rpc_def fresh_server_def find_run_def
    report_run_def isTerminalRunState_def settled_state_def demo_task_def)

definition demo_info :: ComputerInfo where
  "demo_info = \<lparr>ci_DaemonId = ''d1'', ci_ComputerId = ''c1'', ci_Status = COMPUTER_STATUS_UNSPECIFIED, ci_Other = []\<rparr>"

definition demo_heartbeat :: "(rpc_err + int \<times> Lease) \<times> rpc_world" where
  "demo_heartbeat = run_state (HeartbeatComputer demo_env (Some demo_info) None False [] [] []) demo_rpc"

theorem heartbeat_window_witness:
  "\<exists>now lease r' c. demo_heartbeat = (Inr (now, lease), r') \<and> map_of (srv_computers (server r')) ''c1'' = Some c \<and>
     derivedStatus (Some c) (now + 59) = COMPUTER_STATUS_ONLINE \<and>
     derivedStatus (Some c) (now + 89) = COMPUTER_STATUS_STALE \<and>
     derivedStatus (Some c) (now + 90) = COMPUTER_STATUS_OFFLINE"
proof -
  have time: "(case fst demo_heartbeat of Inr (now, lease) \<Rightarrow> now = 1000 | _ \<Rightarrow> False)" by code_simp
  then obtain lease where "fst demo_heartbeat = Inr (1000, lease)" by (auto split: sum.splits prod.splits)
  then obtain r' where run: "demo_heartbeat = (Inr (1000, lease), r')" by (metis prod.collapse)
  note exp = HeartbeatComputer_run(3) [OF run [unfolded demo_heartbeat_def]]
  from heartbeat_window [OF run [unfolded demo_heartbeat_def]] exp
  obtain c where "map_of (srv_computers (server r')) ''c1'' = Some c"
    and "derivedStatus (Some c) 1059 = COMPUTER_STATUS_ONLINE" "derivedStatus (Some c) 1089 = COMPUTER_STATUS_STALE"
      "derivedStatus (Some c) 1090 = COMPUTER_STATUS_OFFLINE"
    by (auto simp: demo_info_def computerLeaseSeconds_def shown_status_def)
  with run show ?thesis by (intro exI [of _ 1000] exI [of _ lease] exI [of _ r'] exI [of _ c]) simp
qed

end
