(* ===== verification/Tunnel_Registry.thy ===== *)
theory Tunnel_Registry
  imports Prelude "HOL-Library.AList"
begin

text \<open>
  The hub between preview requests and daemon streams (\<^verbatim>\<open>internal/tunnelregistry/registry.go\<close>). Stream
  handles and responders are objects with an identity; what the registry and its clients can see of them
  is in one state. Every region that holds a lock is one step, so that the interleavings of the request
  handlers, of the stream handlers and of the frames they route are sequences of steps.
\<close>

section \<open>Objects\<close>

text \<open>A frame is its request identifier and the rest of its contents.\<close>

record ProxyFrame =
  pf_RequestId :: string
  pf_Rest :: string

datatype reg_err = ErrNoDaemon | ErrStreamClosed | ErrRequestGone | SendFailed string

text \<open>A responder: a channel with room for 32 frames, and whether it was closed.\<close>

record Responder =
  rsp_frames :: "ProxyFrame list"
  rsp_done :: bool

definition NewResponder :: Responder where
  "NewResponder = \<lparr>rsp_frames = [], rsp_done = False\<rparr>"

record streamOwnedResponder =
  own_stream :: nat
  own_responder :: nat

text \<open>
  The responders of a computer are a list without repeated request identifiers; an empty one is the same
  as none. \<open>rg_open\<close> says which handles have not been marked closed, \<open>rg_next\<close> is the identity of the next handle.
\<close>

record Registry =
  rg_streams :: "string \<rightharpoonup> nat"
  rg_responders :: "string \<Rightarrow> (string \<times> streamOwnedResponder) list"
  rg_open :: "nat \<Rightarrow> bool"
  rg_next :: nat
  rg_objects :: "nat \<Rightarrow> Responder"

definition empty_registry :: Registry where
  "empty_registry = \<lparr>rg_streams = Map.empty, rg_responders = (\<lambda>_. []), rg_open = (\<lambda>_. False), rg_next = 0,
     rg_objects = (\<lambda>_. NewResponder)\<rparr>"

section \<open>Operations\<close>

definition markClosed :: "nat \<Rightarrow> Registry \<Rightarrow> Registry" where
  "markClosed h rg = rg\<lparr>rg_open := (rg_open rg)(h := False)\<rparr>"

text \<open>\<open>inner\<close> is the outcome of the stream below, if it is reached.\<close>

definition Send :: "reg_err option \<Rightarrow> nat \<Rightarrow> Registry \<Rightarrow> reg_err option" where
  "Send inner h rg = (if \<not> rg_open rg h then Some ErrStreamClosed else inner)"

text \<open>
  \<^verbatim>\<open>select\<close> takes any branch that is ready; \<open>prefer_done\<close> is its choice when both are. \<^const>\<open>None\<close> waits.
\<close>

definition Push :: "bool \<Rightarrow> ProxyFrame \<Rightarrow> Responder \<Rightarrow> (bool \<times> Responder) option" where
  "Push prefer_done frame r =
     (let room = length (rsp_frames r) < 32
      in if rsp_done r \<and> (\<not> room \<or> prefer_done) then Some (False, r)
         else if room then Some (True, r\<lparr>rsp_frames := rsp_frames r @ [frame]\<rparr>)
         else None)"

datatype next_choice = TakeCancel | TakeDone | TakeFrame

definition Next :: "bool \<Rightarrow> next_choice \<Rightarrow> Responder \<Rightarrow> (ProxyFrame option option \<times> Responder) option" where
  "Next cancelled choice r =
     (let frame = (case rsp_frames r of [] \<Rightarrow> None | f # fs \<Rightarrow> Some (Some (Some f), r\<lparr>rsp_frames := fs\<rparr>))
      in if cancelled \<and> (choice = TakeCancel \<or> \<not> rsp_done r \<and> frame = None) then Some (None, r)
         else if rsp_done r \<and> (choice \<noteq> TakeFrame \<or> frame = None) then Some (Some None, r)
         else if frame \<noteq> None then frame
         else None)"

definition Close :: "nat \<Rightarrow> Registry \<Rightarrow> Registry" where
  "Close i rg = rg\<lparr>rg_objects := (rg_objects rg)(i := (rg_objects rg i)\<lparr>rsp_done := True\<rparr>)\<rparr>"

definition Attach :: "string \<Rightarrow> Registry \<Rightarrow> nat \<times> Registry" where
  "Attach computerID rg =
     (let wrapped = rg_next rg;
          rg1 = rg\<lparr>rg_next := Suc wrapped, rg_open := (rg_open rg)(wrapped := True)\<rparr>;
          rg2 = (case rg_streams rg1 computerID of None \<Rightarrow> rg1 | Some existing \<Rightarrow> markClosed existing rg1)
      in (wrapped, rg2\<lparr>rg_streams := (rg_streams rg2)(computerID \<mapsto> wrapped)\<rparr>))"

text \<open>
  \<^verbatim>\<open>Detach\<close>: mark the handle, take it and the requests on it out under the lock, close their responders.
\<close>

definition detach_locked :: "string \<Rightarrow> nat \<Rightarrow> Registry \<Rightarrow> nat list \<times> Registry" where
  "detach_locked computerID wrapped rg =
     (let bucket = rg_responders rg computerID
      in (map (own_responder \<circ> snd) (filter (\<lambda>(i, owned). own_stream owned = wrapped) bucket),
          rg\<lparr>rg_streams := (if rg_streams rg computerID = Some wrapped then (rg_streams rg)(computerID := None)
                            else rg_streams rg),
             rg_responders := (rg_responders rg)(computerID :=
               filter (\<lambda>(i, owned). own_stream owned \<noteq> wrapped) bucket)\<rparr>))"

definition Detach :: "string \<Rightarrow> nat \<Rightarrow> Registry \<Rightarrow> Registry" where
  "Detach computerID wrapped rg =
     (case detach_locked computerID wrapped (markClosed wrapped rg) of (stale, rg1) \<Rightarrow> fold Close stale rg1)"

text \<open>The request identifier is drawn at random.\<close>

definition Register :: "string \<Rightarrow> string \<Rightarrow> nat \<Rightarrow> Registry \<Rightarrow> (reg_err + string \<times> nat) \<times> Registry" where
  "Register requestID computerID responder rg =
     (case rg_streams rg computerID of
        None \<Rightarrow> (Inl ErrNoDaemon, rg)
      | Some stream \<Rightarrow>
          (Inr (requestID, stream),
           rg\<lparr>rg_responders := (rg_responders rg)(computerID := AList.update requestID
                \<lparr>own_stream = stream, own_responder = responder\<rparr> (rg_responders rg computerID))\<rparr>))"

definition Unregister :: "string \<Rightarrow> string \<Rightarrow> Registry \<Rightarrow> Registry" where
  "Unregister computerID requestID rg =
     rg\<lparr>rg_responders := (rg_responders rg)(computerID := AList.delete requestID (rg_responders rg computerID))\<rparr>"

text \<open>The lookup of \<^verbatim>\<open>Dispatch\<close>; the frame is pushed after the lock is released.\<close>

definition dispatch_lookup :: "string \<Rightarrow> ProxyFrame \<Rightarrow> Registry \<Rightarrow> nat option" where
  "dispatch_lookup computerID frame rg =
     map_option own_responder (map_of (rg_responders rg computerID) (pf_RequestId frame))"

definition push_object :: "bool \<Rightarrow> nat \<Rightarrow> ProxyFrame \<Rightarrow> Registry \<Rightarrow> (reg_err option \<times> Registry) option" where
  "push_object prefer_done i frame rg =
     (case Push prefer_done frame (rg_objects rg i) of
        None \<Rightarrow> None
      | Some (ok, r) \<Rightarrow> Some (if ok then None else Some ErrRequestGone, rg\<lparr>rg_objects := (rg_objects rg)(i := r)\<rparr>))"

definition Dispatch :: "bool \<Rightarrow> string \<Rightarrow> ProxyFrame \<Rightarrow> Registry \<Rightarrow> (reg_err option \<times> Registry) option" where
  "Dispatch prefer_done computerID frame rg =
     (case dispatch_lookup computerID frame rg of
        None \<Rightarrow> Some (Some ErrRequestGone, rg)
      | Some i \<Rightarrow> push_object prefer_done i frame rg)"

definition HasDaemon :: "string \<Rightarrow> Registry \<Rightarrow> bool" where
  "HasDaemon computerID rg \<longleftrightarrow> rg_streams rg computerID \<noteq> None"

section \<open>Interleavings\<close>

text \<open>
  The calls in progress and, for the statements, what has been called so far: the handles given out, the
  detached ones, the requests registered with their handle and responder, and those unregistered.
\<close>

record tunnel_sys =
  sys_rg :: Registry
  sys_detaching :: "(string \<times> nat) set"
  sys_closing :: "nat set"
  sys_pushing :: "(nat \<times> ProxyFrame) set"
  sys_handles :: "(string \<times> nat) set"
  sys_detached :: "(string \<times> nat) set"
  sys_bound :: "(string \<times> string \<times> nat \<times> nat) set"
  sys_released :: "(string \<times> string) set"

definition start_sys :: tunnel_sys where
  "start_sys = \<lparr>sys_rg = empty_registry, sys_detaching = {}, sys_closing = {}, sys_pushing = {}, sys_handles = {},
     sys_detached = {}, sys_bound = {}, sys_released = {}\<rparr>"

text \<open>
  A handle is detached only by the one it was given to. Request identifiers have 128 random bits; a drawn
  one is taken not to be in use on that computer.
\<close>

inductive tunnel_step :: "tunnel_sys \<Rightarrow> tunnel_sys \<Rightarrow> bool" where
  attach: "Attach c (sys_rg s) = (h, rg) \<Longrightarrow>
     tunnel_step s (s\<lparr>sys_rg := rg, sys_handles := insert (c, h) (sys_handles s)\<rparr>)"
| detach_mark: "(c, h) \<in> sys_handles s \<Longrightarrow>
     tunnel_step s (s\<lparr>sys_rg := markClosed h (sys_rg s), sys_detaching := insert (c, h) (sys_detaching s)\<rparr>)"
| detach_remove: "(c, h) \<in> sys_detaching s \<Longrightarrow> detach_locked c h (sys_rg s) = (stale, rg) \<Longrightarrow>
     tunnel_step s (s\<lparr>sys_rg := rg, sys_closing := sys_closing s \<union> set stale,
       sys_detached := insert (c, h) (sys_detached s)\<rparr>)"
| close: "tunnel_step s (s\<lparr>sys_rg := Close i (sys_rg s), sys_closing := sys_closing s - {i}\<rparr>)"
| register: "Register q c i (sys_rg s) = (Inr (q, h), rg) \<Longrightarrow> map_of (rg_responders (sys_rg s) c) q = None \<Longrightarrow>
     (c, q) \<notin> sys_released s \<Longrightarrow>
     tunnel_step s (s\<lparr>sys_rg := rg, sys_bound := insert (c, q, h, i) (sys_bound s)\<rparr>)"
| unregister: "tunnel_step s (s\<lparr>sys_rg := Unregister c q (sys_rg s), sys_released := insert (c, q) (sys_released s)\<rparr>)"
| lookup: "dispatch_lookup c frame (sys_rg s) = Some i \<Longrightarrow>
     tunnel_step s (s\<lparr>sys_pushing := insert (i, frame) (sys_pushing s)\<rparr>)"
| push: "(i, frame) \<in> sys_pushing s \<Longrightarrow> push_object pick i frame (sys_rg s) = Some (res, rg) \<Longrightarrow>
     tunnel_step s (s\<lparr>sys_rg := rg, sys_pushing := sys_pushing s - {(i, frame)}\<rparr>)"
| pull: "Next cancelled choice (rg_objects (sys_rg s) i) = Some (res, r) \<Longrightarrow>
     tunnel_step s (s\<lparr>sys_rg := (sys_rg s)\<lparr>rg_objects := (rg_objects (sys_rg s))(i := r)\<rparr>\<rparr>)"

abbreviation reg_of :: "tunnel_sys \<Rightarrow> string \<Rightarrow> string \<rightharpoonup> streamOwnedResponder" where
  "reg_of s c \<equiv> map_of (rg_responders (sys_rg s) c)"

abbreviation is_done :: "tunnel_sys \<Rightarrow> nat \<Rightarrow> bool" where
  "is_done s i \<equiv> rsp_done (rg_objects (sys_rg s) i)"

definition handles_ok :: "tunnel_sys \<Rightarrow> bool" where
  "handles_ok s \<longleftrightarrow>
     (\<forall>c h. (c, h) \<in> sys_handles s \<longrightarrow> h < rg_next (sys_rg s)) \<and>
     (\<forall>c c' h. (c, h) \<in> sys_handles s \<longrightarrow> (c', h) \<in> sys_handles s \<longrightarrow> c = c') \<and>
     (\<forall>c h. rg_streams (sys_rg s) c = Some h \<longrightarrow> (c, h) \<in> sys_handles s) \<and>
     (\<forall>c h. (c, h) \<in> sys_handles s \<longrightarrow> rg_open (sys_rg s) h \<longrightarrow> rg_streams (sys_rg s) c = Some h) \<and>
     (\<forall>c h. (c, h) \<in> sys_detaching s \<union> sys_detached s \<longrightarrow> (c, h) \<in> sys_handles s \<and> \<not> rg_open (sys_rg s) h) \<and>
     (\<forall>c h. (c, h) \<in> sys_detached s \<longrightarrow> rg_streams (sys_rg s) c \<noteq> Some h)"

definition buckets_ok :: "tunnel_sys \<Rightarrow> bool" where
  "buckets_ok s \<longleftrightarrow>
     (\<forall>c. distinct (map fst (rg_responders (sys_rg s) c))) \<and>
     (\<forall>c q owned. reg_of s c q = Some owned \<longrightarrow> (c, own_stream owned) \<notin> sys_detached s) \<and>
     (\<forall>c q h i. (c, q, h, i) \<in> sys_bound s \<longrightarrow>
        reg_of s c q = Some \<lparr>own_stream = h, own_responder = i\<rparr> \<or> (c, q) \<in> sys_released s \<or>
        i \<in> sys_closing s \<or> is_done s i)"

lemma start_ok: "handles_ok start_sys" "buckets_ok start_sys"
  by (simp_all add: handles_ok_def buckets_ok_def start_sys_def empty_registry_def)

lemma push_object_run:
  assumes "push_object pick i frame rg = Some (res, rg')"
  shows "rg_streams rg' = rg_streams rg" "rg_open rg' = rg_open rg" "rg_next rg' = rg_next rg"
    "rg_responders rg' = rg_responders rg" "rsp_done (rg_objects rg' j) = rsp_done (rg_objects rg j)"
  using assms by (auto simp: push_object_def Push_def Let_def split: option.splits if_splits)

lemma Next_done: "Next cancelled choice r = Some (res, r') \<Longrightarrow> rsp_done r' = rsp_done r"
  by (auto simp: Next_def Let_def split: if_splits list.splits)

lemma Register_run:
  "Register q c i rg = (Inr (q, h), rg') \<longleftrightarrow> rg_streams rg c = Some h \<and>
     rg' = rg\<lparr>rg_responders := (rg_responders rg)(c := AList.update q \<lparr>own_stream = h, own_responder = i\<rparr> (rg_responders rg c))\<rparr>"
  by (auto simp: Register_def split: option.splits)

lemma Attach_run:
  assumes "Attach c rg = (h, rg')"
  shows "h = rg_next rg" "rg_next rg' = Suc (rg_next rg)" "rg_streams rg' = (rg_streams rg)(c \<mapsto> rg_next rg)"
    "rg_responders rg' = rg_responders rg" "rg_objects rg' = rg_objects rg"
    "rg_open rg' h' \<longleftrightarrow> rg_streams rg c \<noteq> Some h' \<and> (h' = rg_next rg \<or> rg_open rg h')"
  using assms by (auto simp: Attach_def Let_def markClosed_def split: option.splits if_splits)

lemma detach_locked_run:
  assumes "detach_locked c h rg = (stale, rg')"
  shows "rg_next rg' = rg_next rg" "rg_open rg' = rg_open rg" "rg_objects rg' = rg_objects rg"
    "rg_streams rg' = (if rg_streams rg c = Some h then (rg_streams rg)(c := None) else rg_streams rg)"
    "rg_responders rg' = (rg_responders rg)(c := filter (\<lambda>(i, owned). own_stream owned \<noteq> h) (rg_responders rg c))"
    "(q, owned) \<in> set (rg_responders rg c) \<Longrightarrow> own_stream owned = h \<Longrightarrow> own_responder owned \<in> set stale"
  using assms by (force simp: detach_locked_def Let_def)+

lemma handles_okD:
  assumes "handles_ok s"
  shows "(c, h) \<in> sys_handles s \<Longrightarrow> h < rg_next (sys_rg s)"
    and "(c, h) \<in> sys_handles s \<Longrightarrow> (c', h) \<in> sys_handles s \<Longrightarrow> c = c'"
    and "rg_streams (sys_rg s) c = Some h \<Longrightarrow> (c, h) \<in> sys_handles s"
    and "(c, h) \<in> sys_handles s \<Longrightarrow> rg_open (sys_rg s) h \<Longrightarrow> rg_streams (sys_rg s) c = Some h"
    and "(c, h) \<in> sys_detaching s \<Longrightarrow> (c, h) \<in> sys_handles s \<and> \<not> rg_open (sys_rg s) h"
    and "(c, h) \<in> sys_detached s \<Longrightarrow> (c, h) \<in> sys_handles s \<and> \<not> rg_open (sys_rg s) h"
    and "(c, h) \<in> sys_detached s \<Longrightarrow> rg_streams (sys_rg s) c \<noteq> Some h"
  using assms unfolding handles_ok_def by blast+

lemma handles_okI:
  assumes "\<And>c h. (c, h) \<in> sys_handles s \<Longrightarrow> h < rg_next (sys_rg s)"
    and "\<And>c c' h. (c, h) \<in> sys_handles s \<Longrightarrow> (c', h) \<in> sys_handles s \<Longrightarrow> c = c'"
    and "\<And>c h. rg_streams (sys_rg s) c = Some h \<Longrightarrow> (c, h) \<in> sys_handles s"
    and "\<And>c h. (c, h) \<in> sys_handles s \<Longrightarrow> rg_open (sys_rg s) h \<Longrightarrow> rg_streams (sys_rg s) c = Some h"
    and "\<And>c h. (c, h) \<in> sys_detaching s \<Longrightarrow> (c, h) \<in> sys_handles s \<and> \<not> rg_open (sys_rg s) h"
    and "\<And>c h. (c, h) \<in> sys_detached s \<Longrightarrow> (c, h) \<in> sys_handles s \<and> \<not> rg_open (sys_rg s) h"
    and "\<And>c h. (c, h) \<in> sys_detached s \<Longrightarrow> rg_streams (sys_rg s) c \<noteq> Some h"
  shows "handles_ok s"
  unfolding handles_ok_def using assms by (intro conjI allI impI; blast)

lemma handles_ok_same:
  assumes "handles_ok s" and "rg_streams (sys_rg s') = rg_streams (sys_rg s)" and "rg_open (sys_rg s') = rg_open (sys_rg s)"
    and "rg_next (sys_rg s') = rg_next (sys_rg s)" and "sys_handles s' = sys_handles s"
    and "sys_detaching s' = sys_detaching s" and "sys_detached s' = sys_detached s"
  shows "handles_ok s'"
  using assms(1) unfolding handles_ok_def assms(2-) .

lemma handles_step: "tunnel_step s s' \<Longrightarrow> handles_ok s \<Longrightarrow> handles_ok s'"
proof (induction rule: tunnel_step.induct)
  case (attach c s h rg)
  note run = Attach_run [OF attach(1)] and ok = handles_okD [OF attach(2)]
  have new: "(c', rg_next (sys_rg s)) \<notin> sys_handles s" for c' using ok(1) by blast
  have old: "rg_streams (sys_rg s) c' \<noteq> Some (rg_next (sys_rg s))" for c' using ok(3) new by blast
  show ?case
  proof (rule handles_okI, goal_cases)
    case (1 c' h')
    then show ?case using ok(1) run(1) by (auto simp: run(2) less_Suc_eq)
  next
    case (2 c1 c2 h')
    then show ?case using ok(2) new run(1) by auto
  next
    case (3 c' h')
    then show ?case using ok(3) run(1) by (auto simp: run(3) split: if_splits)
  next
    case (4 c' h')
    then have op: "rg_streams (sys_rg s) c \<noteq> Some h'" "h' = rg_next (sys_rg s) \<or> rg_open (sys_rg s) h'"
      by (simp_all add: run(6))
    show ?case
    proof (cases "(c', h') = (c, h)")
      case False
      with 4(1) have "(c', h') \<in> sys_handles s" by auto
      with op new ok(4) have "rg_streams (sys_rg s) c' = Some h'" by blast
      with op(1) show ?thesis by (auto simp: run(3))
    qed (simp add: run(1,3))
  next
    case (5 c' h')
    then show ?case using ok(5) [of c' h'] new by (auto simp: run(6))
  next
    case (6 c' h')
    then show ?case using ok(6) [of c' h'] new by (auto simp: run(6))
  next
    case (7 c' h')
    then show ?case using ok(6,7) [of c' h'] new by (auto simp: run(3))
  qed
next
  case (detach_mark c h s)
  note ok = handles_okD [OF detach_mark(2)]
  show ?case
  proof (rule handles_okI, goal_cases)
    case (1 c' h')
    then show ?case using ok(1) by (simp add: markClosed_def)
  next
    case (2 c1 c2 h')
    then show ?case using ok(2) by simp
  next
    case (3 c' h')
    then show ?case using ok(3) by (simp add: markClosed_def)
  next
    case (4 c' h')
    then show ?case using ok(4) by (simp add: markClosed_def split: if_splits)
  next
    case (5 c' h')
    then show ?case using ok(5) [of c' h'] detach_mark(1) by (auto simp: markClosed_def)
  next
    case (6 c' h')
    then show ?case using ok(6) [of c' h'] by (simp add: markClosed_def)
  next
    case (7 c' h')
    then show ?case using ok(7) by (simp add: markClosed_def)
  qed
next
  case (detach_remove c h s stale rg)
  note run = detach_locked_run [OF detach_remove(2)] and ok = handles_okD [OF detach_remove(3)]
  show ?case
  proof (rule handles_okI, goal_cases)
    case (1 c' h')
    then show ?case using ok(1) by (simp add: run(1))
  next
    case (2 c1 c2 h')
    then show ?case using ok(2) by simp
  next
    case (3 c' h')
    then show ?case using ok(3) by (simp add: run(4) split: if_splits)
  next
    case (4 c' h')
    then show ?case using ok(4) [of c' h'] ok(5) [OF detach_remove(1)] by (auto simp: run(2,4))
  next
    case (5 c' h')
    then show ?case using ok(5) [of c' h'] by (simp add: run(2))
  next
    case (6 c' h')
    then show ?case using ok(6) [of c' h'] ok(5) [OF detach_remove(1)] by (auto simp: run(2))
  next
    case (7 c' h')
    then show ?case using ok(7) [of c' h'] by (auto simp: run(4))
  qed
next
  case (push i frame s pick res rg)
  show ?case by (rule handles_ok_same [OF push(3)]) (simp_all add: push_object_run(1-3) [OF push(2)])
qed (erule handles_ok_same; simp add: Close_def Register_run Unregister_def)+


declare map_of_eq_Some_iff [simp del]

lemma map_of_filter_distinct:
  "distinct (map fst xs) \<Longrightarrow> map_of (filter (\<lambda>(i, x). p x) xs) q = (case map_of xs q of None \<Rightarrow> None | Some x \<Rightarrow> if p x then Some x else None)"
  by (induction xs) (auto simp: map_of_eq_None_iff image_iff split: option.splits)

lemma buckets_step: "tunnel_step s s' \<Longrightarrow> handles_ok s \<Longrightarrow> buckets_ok s \<Longrightarrow> buckets_ok s'"
proof (induction rule: tunnel_step.induct)
  case (attach c s h rg)
  then show ?case by (simp add: buckets_ok_def Attach_run(4,5) [OF attach(1)])
next
  case (detach_remove c h s stale rg)
  note run = detach_locked_run [OF detach_remove(2)]
  from detach_remove(4) have dist: "\<And>c. distinct (map fst (rg_responders (sys_rg s) c))"
    and live: "\<And>c q owned. reg_of s c q = Some owned \<Longrightarrow> (c, own_stream owned) \<notin> sys_detached s"
    and bound: "\<And>c q h i. (c, q, h, i) \<in> sys_bound s \<Longrightarrow>
        reg_of s c q = Some \<lparr>own_stream = h, own_responder = i\<rparr> \<or> (c, q) \<in> sys_released s \<or> i \<in> sys_closing s \<or> is_done s i"
    unfolding buckets_ok_def by blast+
  have look: "map_of (rg_responders rg c') q = (case reg_of s c' q of None \<Rightarrow> None
      | Some owned \<Rightarrow> if c' = c \<and> own_stream owned = h then None else Some owned)" for c' q
    using map_of_filter_distinct [OF dist, of "\<lambda>owned. own_stream owned \<noteq> h"] by (auto simp: run(5) split: option.splits)
  have "distinct (map fst (rg_responders rg c'))" for c'
    using dist by (simp add: run(5) distinct_map_filter)
  moreover have "(c', own_stream owned) \<notin> insert (c, h) (sys_detached s)" if "map_of (rg_responders rg c') q = Some owned" for c' q owned
    using that live by (auto simp: look split: option.splits if_splits)
  moreover have "map_of (rg_responders rg c') q = Some \<lparr>own_stream = h', own_responder = i\<rparr> \<or> (c', q) \<in> sys_released s \<or>
      i \<in> sys_closing s \<union> set stale \<or> is_done s i" if "(c', q, h', i) \<in> sys_bound s" for c' q h' i
    using bound [OF that] run(6) [OF map_of_SomeD, of q "\<lparr>own_stream = h', own_responder = i\<rparr>"]
    by (auto simp: look split: if_splits)
  ultimately show ?case unfolding buckets_ok_def by (simp add: run(3))
next
  case (register q c i s h rg)
  then have "(c, h) \<notin> sys_detached s" using handles_okD(7) [OF register(4)] by (auto simp: Register_run)
  moreover have "i' \<in> sys_closing s \<or> is_done s i'" if "(c, q, h', i') \<in> sys_bound s" for h' i'
    using register(2,3,5) that unfolding buckets_ok_def by fastforce
  ultimately show ?case
    using register by (auto simp: buckets_ok_def Register_run update_conv' distinct_update)
next
  case (unregister s c q)
  then show ?case by (auto simp: buckets_ok_def Unregister_def delete_conv' distinct_delete)
next
  case (push i frame s pick res rg)
  from push(4) show ?case by (simp add: buckets_ok_def push_object_run(4,5) [OF push(2)])
next
  case (pull cancelled choice s i res r)
  then show ?case by (auto simp: buckets_ok_def Next_done)
qed (auto simp: buckets_ok_def Close_def markClosed_def)


lemma reachable_ok: "tunnel_step\<^sup>*\<^sup>* start_sys s \<Longrightarrow> handles_ok s \<and> buckets_ok s"
  by (induction rule: rtranclp_induct) (use start_ok handles_step buckets_step in blast)+

text \<open>A whole call of \<^verbatim>\<open>Detach\<close> without interruption is a sequence of steps.\<close>

lemma close_steps:
  "tunnel_step\<^sup>*\<^sup>* s (s\<lparr>sys_rg := fold Close is (sys_rg s), sys_closing := sys_closing s - set is\<rparr>)"
proof (induction "is" arbitrary: s)
  case (Cons i "is")
  let ?s = "s\<lparr>sys_rg := Close i (sys_rg s), sys_closing := sys_closing s - {i}\<rparr>"
  have eq: "sys_closing s - {i} - set is = sys_closing s - set (i # is)" by auto
  have "tunnel_step s ?s" by (rule tunnel_step.close)
  moreover have "tunnel_step\<^sup>*\<^sup>* ?s (s\<lparr>sys_rg := fold Close (i # is) (sys_rg s), sys_closing := sys_closing s - set (i # is)\<rparr>)"
    using Cons.IH [of ?s] unfolding eq [symmetric] by simp
  ultimately show ?case by (rule converse_rtranclp_into_rtranclp)
qed simp

lemma Detach_steps:
  assumes "(c, h) \<in> sys_handles s"
  shows "\<exists>s'. tunnel_step\<^sup>*\<^sup>* s s' \<and> sys_rg s' = Detach c h (sys_rg s) \<and> (c, h) \<in> sys_detached s'"
proof -
  obtain stale rg where locked: "detach_locked c h (markClosed h (sys_rg s)) = (stale, rg)" by fastforce
  define s1 where "s1 = s\<lparr>sys_rg := markClosed h (sys_rg s), sys_detaching := insert (c, h) (sys_detaching s)\<rparr>"
  define s2 where "s2 = s1\<lparr>sys_rg := rg, sys_closing := sys_closing s1 \<union> set stale, sys_detached := insert (c, h) (sys_detached s1)\<rparr>"
  have "tunnel_step s s1" unfolding s1_def using assms by (rule tunnel_step.detach_mark)
  moreover have "tunnel_step s1 s2" unfolding s2_def by (rule tunnel_step.detach_remove) (simp_all add: s1_def locked)
  ultimately have "tunnel_step\<^sup>*\<^sup>* s (s2\<lparr>sys_rg := fold Close stale (sys_rg s2), sys_closing := sys_closing s2 - set stale\<rparr>)"
    using close_steps [of s2 stale] by (meson converse_rtranclp_into_rtranclp)
  moreover have "fold Close stale (sys_rg s2) = Detach c h (sys_rg s)" by (simp add: s2_def Detach_def locked)
  moreover have "(c, h) \<in> sys_detached s2" by (simp add: s2_def)
  ultimately show ?thesis by fastforce
qed

text \<open>
  C39: in every interleaving of streams that attach and detach, of requests that are
  registered, answered and dropped, and of frames that are routed: of the handles given out for one
  computer at most one is open; a detached handle refuses to send, is not the stream of its computer and
  has no request on it any more, and every request that was registered on it has been dropped by its
  handler or has a responder that is closed or about to be closed by the detaching call. The random identifier
  of a request is taken to be different from those of the other requests of its computer.
\<close>

theorem tunnel_streams_isolated:
  assumes "tunnel_step\<^sup>*\<^sup>* start_sys s"
  shows "(\<forall>c h h'. (c, h) \<in> sys_handles s \<longrightarrow> (c, h') \<in> sys_handles s \<longrightarrow> rg_open (sys_rg s) h \<longrightarrow>
      rg_open (sys_rg s) h' \<longrightarrow> h = h') \<and>
    (\<forall>c h. (c, h) \<in> sys_detached s \<longrightarrow> (\<forall>inner. Send inner h (sys_rg s) = Some ErrStreamClosed) \<and>
      rg_streams (sys_rg s) c \<noteq> Some h \<and>
      (\<forall>q owned. reg_of s c q = Some owned \<longrightarrow> own_stream owned \<noteq> h) \<and>
      (\<forall>q i. (c, q, h, i) \<in> sys_bound s \<longrightarrow> (c, q) \<in> sys_released s \<or> i \<in> sys_closing s \<or> is_done s i))"
proof -
  have ok: "handles_ok s" "buckets_ok s" using reachable_ok [OF assms] by simp_all
  have live: "reg_of s c q = Some owned \<Longrightarrow> (c, own_stream owned) \<notin> sys_detached s" for c q owned
    using ok(2) unfolding buckets_ok_def by blast
  have bound: "(c, q, h, i) \<in> sys_bound s \<Longrightarrow> reg_of s c q = Some \<lparr>own_stream = h, own_responder = i\<rparr> \<or>
      (c, q) \<in> sys_released s \<or> i \<in> sys_closing s \<or> is_done s i" for c q h i
    using ok(2) unfolding buckets_ok_def by blast
  have one: "h = h'" if "(c, h) \<in> sys_handles s" "(c, h') \<in> sys_handles s" "rg_open (sys_rg s) h" "rg_open (sys_rg s) h'" for c h h'
    using handles_okD(4) [OF ok(1)] that by (metis option.inject)
  have gone: "(\<forall>inner. Send inner h (sys_rg s) = Some ErrStreamClosed) \<and> rg_streams (sys_rg s) c \<noteq> Some h \<and>
      (\<forall>q owned. reg_of s c q = Some owned \<longrightarrow> own_stream owned \<noteq> h) \<and>
      (\<forall>q i. (c, q, h, i) \<in> sys_bound s \<longrightarrow> (c, q) \<in> sys_released s \<or> i \<in> sys_closing s \<or> is_done s i)"
    if det: "(c, h) \<in> sys_detached s" for c h
  proof (intro conjI allI impI)
    show "Send inner h (sys_rg s) = Some ErrStreamClosed" for inner
      using handles_okD(6) [OF ok(1) det] by (simp add: Send_def)
    show "rg_streams (sys_rg s) c \<noteq> Some h" by (rule handles_okD(7) [OF ok(1) det])
    show "own_stream owned \<noteq> h" if "reg_of s c q = Some owned" for q owned using live [OF that] det by blast
    show "(c, q) \<in> sys_released s \<or> i \<in> sys_closing s \<or> is_done s i" if "(c, q, h, i) \<in> sys_bound s" for q i
      using bound [OF that] live [of c q] det by fastforce
  qed
  show ?thesis using one gone by blast
qed


definition attached_sys :: tunnel_sys where
  "attached_sys = start_sys\<lparr>sys_rg := snd (Attach ''c1'' empty_registry), sys_handles := {(''c1'', 0)}\<rparr>"

definition asked_sys :: tunnel_sys where
  "asked_sys = attached_sys\<lparr>sys_rg := snd (Register ''q1'' ''c1'' 7 (sys_rg attached_sys)), sys_bound := {(''c1'', ''q1'', 0, 7)}\<rparr>"

lemma asked_reachable: "tunnel_step\<^sup>*\<^sup>* start_sys asked_sys"
proof -
  have 1: "Attach ''c1'' empty_registry = (0, sys_rg attached_sys)"
    by (simp add: attached_sys_def Attach_def empty_registry_def Let_def)
  have "tunnel_step start_sys (start_sys\<lparr>sys_rg := sys_rg attached_sys, sys_handles := insert (''c1'', 0) (sys_handles start_sys)\<rparr>)"
    by (rule tunnel_step.attach) (simp add: start_sys_def 1)
  moreover have "start_sys\<lparr>sys_rg := sys_rg attached_sys, sys_handles := insert (''c1'', 0) (sys_handles start_sys)\<rparr> = attached_sys"
    by (simp add: attached_sys_def start_sys_def)
  ultimately have a: "tunnel_step start_sys attached_sys" by simp
  have st: "rg_streams (sys_rg attached_sys) ''c1'' = Some 0" "rg_responders (sys_rg attached_sys) ''c1'' = []"
    by (simp_all add: attached_sys_def Attach_def empty_registry_def Let_def)
  have "tunnel_step attached_sys (attached_sys\<lparr>sys_rg := sys_rg asked_sys, sys_bound := insert (''c1'', ''q1'', 0, 7) (sys_bound attached_sys)\<rparr>)"
  proof (rule tunnel_step.register)
    show "Register ''q1'' ''c1'' 7 (sys_rg attached_sys) = (Inr (''q1'', 0), sys_rg asked_sys)"
      using st by (simp add: asked_sys_def Register_def)
    show "map_of (rg_responders (sys_rg attached_sys) ''c1'') ''q1'' = None" using st by simp
    show "(''c1'', ''q1'') \<notin> sys_released attached_sys" by (simp add: attached_sys_def start_sys_def)
  qed
  moreover have "attached_sys\<lparr>sys_rg := sys_rg asked_sys, sys_bound := insert (''c1'', ''q1'', 0, 7) (sys_bound attached_sys)\<rparr> = asked_sys"
    by (simp add: asked_sys_def attached_sys_def start_sys_def)
  ultimately have "tunnel_step attached_sys asked_sys" by simp
  with a show ?thesis by (meson r_into_rtranclp rtranclp.rtrancl_into_rtrancl)
qed

theorem tunnel_streams_isolated_witness:
  "\<exists>s. tunnel_step\<^sup>*\<^sup>* start_sys s \<and> sys_rg s = Detach ''c1'' 0 (sys_rg asked_sys) \<and>
     Send None 0 (sys_rg s) = Some ErrStreamClosed \<and> rg_streams (sys_rg s) ''c1'' \<noteq> Some 0 \<and> is_done s 7"
proof -
  have "(''c1'', 0) \<in> sys_handles asked_sys" by (simp add: asked_sys_def attached_sys_def)
  then obtain s where s: "tunnel_step\<^sup>*\<^sup>* asked_sys s" "sys_rg s = Detach ''c1'' 0 (sys_rg asked_sys)" "(''c1'', 0) \<in> sys_detached s"
    using Detach_steps by blast
  have reach: "tunnel_step\<^sup>*\<^sup>* start_sys s" using asked_reachable s(1) by (rule rtranclp_trans)
  have "is_done s 7"
    unfolding s(2)
    by (simp add: asked_sys_def attached_sys_def start_sys_def Attach_def empty_registry_def Let_def Register_def
      Detach_def detach_locked_def markClosed_def Close_def)
  with tunnel_streams_isolated [OF reach] s(2,3) reach show ?thesis by blast
qed

end
