(* ===== verification/Spec2Isabelle.thy ===== *)
theory Spec2Isabelle
  imports Enrollment Store_IMChat Store_Tasks Store_Channels Store_Messages Store_Deliveries Store_Reminders
    Store_Decisions Store_AgentRuns Store_Tunnels Render Session_Queue Binding Daemon_Memory Daemon_Reports
    Tunnel_Registry
begin

text \<open>
  Verification development for the server side of nekode, a collaboration server that coordinates
  coding agents running on many computers.

  \<^bold>\<open>The program.\<close> The server process keeps everything durable in one relational
  database, reached through the store (\<^verbatim>\<open>src/internal/storage\<close>) and a client
  that the ent framework generates (\<^verbatim>\<open>src/internal/ent\<close>). Around the store
  stand: authentication of users (\<^verbatim>\<open>src/internal/auth\<close>); the chat side,
  where adapters of chat networks hand inbound messages to a coordinator that decides about chat
  authorization and stores them (\<^verbatim>\<open>src/internal/iminbound\<close>,
  \<^verbatim>\<open>imcoord\<close>, \<^verbatim>\<open>imauth\<close>), and where outgoing
  messages are rendered and rate limited (\<^verbatim>\<open>imadapter\<close>); the daemon control
  server, the remote procedures that the daemons on the computers call to register, to claim tasks
  and to report runs (\<^verbatim>\<open>daemonrpc\<close>); and the tunnels that expose a port of
  such a computer (\<^verbatim>\<open>tunnelregistry\<close>,
  \<^verbatim>\<open>server/tunnel_ratelimit.go\<close>).

  \<^bold>\<open>The layers of the model.\<close>

  \<^item> \<open>Prelude\<close>: byte strings and the functions of
    \<^verbatim>\<open>strings\<close> and \<^verbatim>\<open>sort\<close> that the sources use, the
    state monad of effects, the preservation rules \<open>keeps_rules\<close>, and the environment
    record \<open>env\<close>: the clock, the random identifiers and the schedule of database faults
    are functions of the number of interactions so far, so a theorem that quantifies over the
    environment holds for every clock, every choice of identifiers and every pattern of failing
    statements.
  \<^item> \<open>Encoding\<close> and \<open>Utf8\<close>: base64, decimal numbers, splitting, and
    UTF-8 as Go decodes it.
  \<^item> \<open>Ent\<close>: the generated client as statements over tables (create, update,
    delete, query, count, transactions with begin, commit and rollback). Its locales
    \<open>entity_laws\<close> and \<open>wf_entity\<close> state what a statement promises about
    validators, unique indexes and the other tables; they are interpreted in \<open>Models\<close>
    for each of the 23 tables.
  \<^item> \<open>Models\<close>: the structs of \<^verbatim>\<open>models.go\<close> as records,
    one field per field, with the validators and unique indexes of the files in
    \<^verbatim>\<open>src/internal/ent/schema\<close>. \<open>store_wf\<close> is the invariant of
    the schema.
  \<^item> \<open>Store_Base\<close> and the theories \<open>Store_Endpoints\<close>,
    \<open>Store_IMChat\<close>, \<open>Store_Tasks\<close>, \<open>Store_Events\<close>,
    \<open>Store_Users\<close>, \<open>Store_Channels\<close>, \<open>Store_Messages\<close>,
    \<open>Store_Deliveries\<close>, \<open>Store_Reminders\<close>, \<open>Store_Decisions\<close>,
    \<open>Store_AgentRuns\<close>, \<open>Store_Tunnels\<close>: every method of
    \<^verbatim>\<open>Store\<close> in \<^verbatim>\<open>store.go\<close>,
    \<^verbatim>\<open>reminders.go\<close>, \<^verbatim>\<open>decisions.go\<close>,
    \<^verbatim>\<open>agentruns.go\<close> and \<^verbatim>\<open>tunnels.go\<close> under its own
    name, statement by statement, with each early return, and the properties of each table.
  \<^item> \<open>Auth\<close>: \<^verbatim>\<open>auth/service.go\<close> and
    \<^verbatim>\<open>auth/password.go\<close>.
  \<^item> \<open>Rate_Limit\<close> (\<^verbatim>\<open>server/tunnel_ratelimit.go\<close>),
    \<open>Outgoing_Limit\<close> (\<^verbatim>\<open>imadapter/outgoing_ratelimit.go\<close>),
    \<open>Render\<close> (\<^verbatim>\<open>imadapter/render.go\<close>,
    \<^verbatim>\<open>provider_runtime.go\<close>).
  \<^item> \<open>IM_Inbound\<close> (\<^verbatim>\<open>iminbound/types.go\<close>,
    \<^verbatim>\<open>imadapter/dedupe.go\<close>) and \<open>IM_Coordinator\<close>
    (\<^verbatim>\<open>imcoord\<close>, \<^verbatim>\<open>imauth/token.go\<close>).
  \<^item> \<open>Session_Queue\<close>: \<^verbatim>\<open>imcoord/session_queue.go\<close>, its
    callers, goroutines and channels as a step relation.
  \<^item> \<open>Binding\<close>: binding a chat account by a QR code
    (\<^verbatim>\<open>imbinding/session.go\<close>,
    \<^verbatim>\<open>imchannels/weixin/binding.go\<close> and the handlers of
    \<^verbatim>\<open>server/server.go\<close>), requests interleaving while the gateway is asked.
  \<^item> \<open>Enrollment\<close>: \<^verbatim>\<open>server/daemon_enrollment.go\<close> and
    \<^verbatim>\<open>connect_auth.go\<close>, the files of enrolled daemons with failing system
    calls, and the interceptor that authenticates their calls. Its locale
    \<open>final_condition\<close> states when a condition of an enrollment is never undone; it is
    interpreted for revocation and for used install codes.
  \<^item> \<open>Daemon_Memory\<close>: the calls about decisions and agent runs
    (\<^verbatim>\<open>daemonrpc/memory.go\<close>), over the store alone.
  \<^item> \<open>Daemon_Server\<close>, \<open>Daemon_Runs\<close>, \<open>Daemon_Messages\<close>,
    \<open>Daemon_Reminders\<close>, \<open>Daemon_Calls\<close>, \<open>Daemon_Reports\<close>: of
    \<^verbatim>\<open>daemonrpc/server.go\<close> the state in memory, computers and heartbeats,
    leases and start permits, the frame for repeated requests (\<^verbatim>\<open>replay\<close>,
    \<^verbatim>\<open>reserve\<close>, \<^verbatim>\<open>remember\<close>), claims of tasks, runs
    and reports about them, messages with the deliveries they queue, saved messages, updates of
    tasks and reminders. The locale \<open>daemon_invariant\<close> states once that a predicate
    kept by the pieces is kept by every procedure; it is interpreted for the schema invariant, for
    the memory of responses, for the table of runs and for the records of keys.
  \<^item> \<open>Tunnel_Registry\<close>: \<^verbatim>\<open>tunnelregistry/registry.go\<close> as
    a step relation at the granularity of its locks.
  \<^item> This theory: the step relation of all writing operations of the store, and the schema
    invariant over any interleaving of them.

  \<^bold>\<open>How state and effects correspond.\<close> A store operation is a value of the state
  monad over a \<open>world\<close>: the database, the count of interactions, the number of open
  transactions. Its result is a sum, \<^const>\<open>Inl\<close> the error of
  \<^verbatim>\<open>storage\<close>. A statement is atomic, which is what the database promises;
  the relations \<open>rpc_step\<close> and \<open>store_step\<close> run whole calls one after the
  other, so a theorem about a sequence of calls is about calls that do not overlap, although the
  daemon server holds its mutex only around the parts of a call that use its memory. Where
  overlapping calls matter they are modelled as smaller steps: the session queue, the tunnel
  registry, the account binding, the enrollments, and the two halves of a ratification. Structs are
  records, enumerations of the protocol datatypes with a constructor for unknown numbers, unsigned
  32-bit counters words, and Go's \<^verbatim>\<open>int64\<close> times integers (no operation of
  the sources comes near their bounds with a clock in seconds).

  \<^bold>\<open>What is shown.\<close>

  \<^item> Tasks: a claim is exclusive under every interleaving and refines a compare-and-swap on
    the assignee; well-formed states; an attempt is recorded once per claim.
  \<^item> The event log has consecutive sequence numbers for each server, pages are exact, a
    reservation of an idempotency key succeeds at most once.
  \<^item> Users and sessions: authentication admits only unexpired sessions of existing users, a
    login is accepted afterwards, a logout revokes, the first administrator is created at most once,
    a password verifies against its own hash.
  \<^item> Decisions keep what was proposed and their status only moves forward, as long as requests
    do not overlap.
  \<^item> Decisions, reminders, deliveries, agent runs, tunnels: recounts and quorum, audit rows,
    retries with bounded back-off, counters, the life cycle of a tunnel and its expiry.
  \<^item> Limits: the token bucket admits no more than its rate, the sweep is unobservable, waiting
    for a token ends.
  \<^item> Chat: pieces of a split message are within the limit, valid UTF-8 and lose no character;
    frames of each provider; only authorized chats reach the store, a message is stored once within
    the time to live, an accepted inbound message yields a valid draft.
  \<^item> Session queue: at most one request of a session runs at a time, in the order of the
    queue.
  \<^item> Account binding: only an answer with a token binds an account, and a canceled session can
    be bound.
  \<^item> Enrolled daemons: a revoked enrollment is never accepted again, and an install code is
    refused once a connection has been recorded.
  \<^item> Outgoing messages: on every outcome the deliveries queued for a message are exactly those
    a route or the answered chat message justifies, and no routed endpoint is left out.
  \<^item> Daemon server: a repeated claim gets the first answer, also after a restart; a failed
    claim is final for its key; a message sent twice with one key is stored once, also across
    restarts; a rejected update of a task blocks its key, and so does a cancellation with a wrong
    token; an accepted claim answers with an active run, the only one when there was none before; a
    report about a run settles its task; presence follows the heartbeats.
  \<^item> Tunnel streams: under every interleaving of the connections of a computer at most one is
    open, and a detached connection sends nothing and leaves no request open.

  \<^bold>\<open>Loops and fuel.\<close> Loops over lists are structural recursion. The retry loop
  of \<^verbatim>\<open>AppendCollaborationEvent\<close> runs at most the five attempts of the
  source. \<open>retry_loop\<close> and \<open>split_loop\<close> terminate by a measure. The loop
  of the outgoing limiter has fuel, and the theorem about \<open>Wait\<close> shows that enough of
  it exists for every clock that advances.

  \<^bold>\<open>Parameters.\<close> Code outside the sources is an argument: PBKDF2, SHA-256 and
  the random source, the JSON codec, \<^verbatim>\<open>protojson\<close>, SQL
  \<^verbatim>\<open>LIKE\<close> matching, Unicode lower-casing beyond ASCII, the regular
  expressions that hide secrets, \<^verbatim>\<open>time.ParseInLocation\<close>, the order in which
  Go visits a map, rounding of \<^verbatim>\<open>float64\<close> and its conversion out of the
  range of an integer. What a theorem needs of them is a named hypothesis, and its witness
  instantiates them.

  \<^bold>\<open>Not modelled.\<close> The generated packages \<^verbatim>\<open>gen/go\<close> and
  \<^verbatim>\<open>internal/ent\<close> (their contract is \<open>Ent\<close> and the records of
  the protocol messages); the HTTP layer \<^verbatim>\<open>internal/server\<close> apart from its
  rate limiter, the enrollments and the handlers of account binding, which is routing, decoding and
  proxying around the store's operations; of \<^verbatim>\<open>daemonrpc\<close> agent status and
  control, direct messages to agents, activity, streams, the remaining lists and the relay of
  tunnels; the daemon program \<^verbatim>\<open>cmd/nekode-daemon\<close> and
  \<^verbatim>\<open>runtimeadapter\<close>, which start operating system processes; the clients of
  the chat networks \<^verbatim>\<open>imchannels\<close>, network code; the web console.
\<close>

section \<open>All operations of the store\<close>

text \<open>One call of an operation that writes the database, with any arguments and any outcome.\<close>

inductive store_step :: "senv \<Rightarrow> rand_source \<Rightarrow> store world \<Rightarrow> store world \<Rightarrow> bool" for E rs where
  CreateUser_step: "store_step E rs w (after (CreateUser E u) w)"
| CreateFirstAdmin_step: "store_step E rs w (after (CreateFirstAdmin E u) w)"
| CreateSession_step: "store_step E rs w (after (CreateSession E s) w)"
| DeleteSession_step: "store_step E rs w (after (DeleteSession E i) w)"
| GetSessionByTokenHash_step: "store_step E rs w (after (GetSessionByTokenHash E h) w)"
| CreateInteractionEndpoint_step: "store_step E rs w (after (CreateInteractionEndpoint E e) w)"
| UpdateInteractionEndpoint_step: "store_step E rs w (after (UpdateInteractionEndpoint E i epatch) w)"
| DeleteInteractionEndpoint_step: "store_step E rs w (after (DeleteInteractionEndpoint E i) w)"
| CreateIMChatAuthRequest_step: "store_step E rs w (after (CreateIMChatAuthRequest E req) w)"
| UpdateIMChatAuthRequestStatus_step: "store_step E rs w (after (UpdateIMChatAuthRequestStatus E i st by) w)"
| ApproveIMChatAuthRequest_step: "store_step E rs w (after (ApproveIMChatAuthRequest E i by sub) w)"
| UpsertIMChatSubscription_step: "store_step E rs w (after (UpsertIMChatSubscription E sub) w)"
| UpdateIMChatSubscription_step: "store_step E rs w (after (UpdateIMChatSubscription E i subpatch) w)"
| CreateChannel_step: "store_step E rs w (after (CreateChannel E c) w)"
| UpdateChannel_step: "store_step E rs w (after (UpdateChannel E target cpatch) w)"
| DeleteChannel_step: "store_step E rs w (after (DeleteChannel E target) w)"
| UpsertChannelMember_step: "store_step E rs w (after (UpsertChannelMember E member) w)"
| UpdateChannelMember_step: "store_step E rs w (after (UpdateChannelMember E target kind i mpatch) w)"
| DeleteChannelMember_step: "store_step E rs w (after (DeleteChannelMember E target kind i) w)"
| CreateMessage_step: "store_step E rs w (after (CreateMessage E m) w)"
| SaveMessage_step: "store_step E rs w (after (SaveMessage E target i user agent) w)"
| UnsaveMessage_step: "store_step E rs w (after (UnsaveMessage E target i user agent) w)"
| MarkThreadRead_step: "store_step E rs w (after (MarkThreadRead E user target thread) w)"
| MarkThreadInboxRead_step: "store_step E rs w (after (MarkThreadInboxRead E iter user mark) w)"
| CreateOutboundDelivery_step: "store_step E rs w (after (CreateOutboundDelivery E d) w)"
| UpdateOutboundDeliveryStatus_step: "store_step E rs w (after (UpdateOutboundDeliveryStatus E i st lastError next delivered) w)"
| ScheduleOutboundDeliveryRetry_step: "store_step E rs w (after (ScheduleOutboundDeliveryRetry E i next) w)"
| RecordOutboundDeliveryFailure_step: "store_step E rs w (after (RecordOutboundDeliveryFailure E i lastError maxAttempts next) w)"
| CreateNotificationRoute_step: "store_step E rs w (after (CreateNotificationRoute E route) w)"
| UpdateNotificationRoute_step: "store_step E rs w (after (UpdateNotificationRoute E i rpatch) w)"
| DeleteNotificationRoute_step: "store_step E rs w (after (DeleteNotificationRoute E i) w)"
| CreateTask_step: "store_step E rs w (after (CreateTask E t) w)"
| UpdateTask_step: "store_step E rs w (after (UpdateTask E i tpatch) w)"
| ClaimTaskCAS_step: "store_step E rs w (after (ClaimTaskCAS E i assignee lease) w)"
| RecordTaskAttemptClaim_step: "store_step E rs w (after (RecordTaskAttemptClaim E attempt) w)"
| UpdateTaskAttemptFromRun_step: "store_step E rs w (after (UpdateTaskAttemptFromRun E attempt) w)"
| AppendCollaborationEvent_step: "store_step E rs w (after (AppendCollaborationEvent E event) w)"
| ReserveIdempotencyRecord_step: "store_step E rs w (after (ReserveIdempotencyRecord E idem) w)"
| CompleteIdempotencyRecord_step: "store_step E rs w (after (CompleteIdempotencyRecord E idem) w)"
| CreateReminder_step: "store_step E rs w (after (CreateReminder E rem actor actorID detail) w)"
| CancelReminder_step: "store_step E rs w (after (CancelReminder E i actor actorID detail) w)"
| SnoozeReminder_step: "store_step E rs w (after (SnoozeReminder E i next snooze actor actorID detail) w)"
| UpdateReminder_step: "store_step E rs w (after (UpdateReminder E i rempatch actor actorID detail) w)"
| CreateDecision_step: "store_step E rs w (after (CreateDecision E dec) w)"
| UpsertDecisionVote_step: "store_step E rs w (after (UpsertDecisionVote E vote) w)"
| ForceRatifyDecision_step: "store_step E rs w (after (ForceRatifyDecision E i) w)"
| RetireDecision_step: "store_step E rs w (after (RetireDecision E i by reason) w)"
| AppendAgentRunEvent_step: "store_step E rs w (after (AppendAgentRunEvent E ev run) w)"
| CreateTunnel_step: "store_step E rs w (after (CreateTunnel E rs tun) w)"
| UpdateTunnelState_step: "store_step E rs w (after (UpdateTunnelState E i st by reason) w)"
| CloseExpiredTunnels_step: "store_step E rs w (after (CloseExpiredTunnels E now) w)"
| CloseTunnelsForComputer_step: "store_step E rs w (after (CloseTunnelsForComputer E computer reason) w)"

text \<open>Any number of calls, in any order.\<close>

inductive store_runs :: "senv \<Rightarrow> rand_source \<Rightarrow> store world \<Rightarrow> store world \<Rightarrow> bool" for E rs where
  start: "store_runs E rs w w"
| step: "store_runs E rs w w1 \<Longrightarrow> store_step E rs w1 w2 \<Longrightarrow> store_runs E rs w w2"

lemmas store_ops_wf =
  CreateUser_wf [THEN keepsD] CreateFirstAdmin_wf [THEN keepsD] CreateSession_wf [THEN keepsD]
  DeleteSession_wf [THEN keepsD] GetSessionByTokenHash_wf [THEN keepsD] CreateInteractionEndpoint_wf [THEN keepsD]
  UpdateInteractionEndpoint_wf [THEN keepsD] DeleteInteractionEndpoint_wf [THEN keepsD] CreateIMChatAuthRequest_wf [THEN keepsD]
  UpdateIMChatAuthRequestStatus_wf [THEN keepsD] ApproveIMChatAuthRequest_wf [THEN keepsD] UpsertIMChatSubscription_wf [THEN keepsD]
  UpdateIMChatSubscription_wf [THEN keepsD] CreateChannel_wf [THEN keepsD] UpdateChannel_wf [THEN keepsD]
  DeleteChannel_wf [THEN keepsD] UpsertChannelMember_wf [THEN keepsD] UpdateChannelMember_wf [THEN keepsD]
  DeleteChannelMember_wf [THEN keepsD] CreateMessage_wf [THEN keepsD] SaveMessage_wf [THEN keepsD]
  UnsaveMessage_wf [THEN keepsD] MarkThreadRead_wf [THEN keepsD] MarkThreadInboxRead_wf [THEN keepsD]
  CreateOutboundDelivery_wf [THEN keepsD] UpdateOutboundDeliveryStatus_wf [THEN keepsD] ScheduleOutboundDeliveryRetry_wf [THEN keepsD]
  RecordOutboundDeliveryFailure_wf [THEN keepsD] CreateNotificationRoute_wf [THEN keepsD] UpdateNotificationRoute_wf [THEN keepsD]
  DeleteNotificationRoute_wf [THEN keepsD] CreateTask_wf [THEN keepsD] UpdateTask_wf [THEN keepsD]
  ClaimTaskCAS_wf [THEN keepsD] RecordTaskAttemptClaim_wf [THEN keepsD] UpdateTaskAttemptFromRun_wf [THEN keepsD]
  AppendCollaborationEvent_wf [THEN keepsD] ReserveIdempotencyRecord_wf [THEN keepsD] CompleteIdempotencyRecord_wf [THEN keepsD]
  CreateReminder_wf [THEN keepsD] CancelReminder_wf [THEN keepsD] SnoozeReminder_wf [THEN keepsD]
  UpdateReminder_wf [THEN keepsD] CreateDecision_wf [THEN keepsD] UpsertDecisionVote_wf [THEN keepsD]
  ForceRatifyDecision_wf [THEN keepsD] RetireDecision_wf [THEN keepsD] AppendAgentRunEvent_wf [THEN keepsD]
  CreateTunnel_wf [THEN keepsD] UpdateTunnelState_wf [THEN keepsD] CloseExpiredTunnels_wf [THEN keepsD]
  CloseTunnelsForComputer_wf [THEN keepsD]

lemma store_step_wf: "store_step E rs w w' \<Longrightarrow> store_wf (db w) \<Longrightarrow> store_wf (db w')"
  by (induction rule: store_step.induct) (erule store_ops_wf)+

text \<open>
  From a database that satisfies its schema every sequence of calls of the writing operations of the store, with any
  arguments, any clock and any faults of the database, ends in a database that satisfies it. The statements of the
  client enforce the validators and unique keys, as the generated client and the database do, so this only says that
  the operations are built from them; the theorems about single operations assume \<open>store_wf\<close>, and this lemma discharges it
  for every reachable database.
\<close>

lemma store_runs_wf:
  assumes "store_runs E rs w w'" and "store_wf (db w)"
  shows "store_wf (db w')"
  using assms by (induction rule: store_runs.induct) (auto intro: store_step_wf)

end
